(* ===== verification/Prelude.thy ===== *)
theory Prelude
  imports Main "HOL-Library.Word" "HOL-Library.Sublist"
begin

text \<open>
  Shared ground of the development.

  \<^item> JavaScript strings are lists of UTF-16 code units (\<open>jstr\<close>); \<open>js\<close> turns an ASCII literal into
    one. The string methods the sources call (\<open>startsWith\<close>, \<open>indexOf\<close>, \<open>split\<close>, \<open>slice\<close>,
    \<open>trim\<close>, \<open>toLowerCase\<close> and the global \<open>replace\<close> with a character-class pattern) are
    defined on them. \<open>toLowerCase\<close> covers Basic Latin and Latin-1; a code unit above
    \<open>U+00FF\<close> is its own lower case here, so the case tables of other scripts are not in the model.
  \<^item> \<open>null\<close> and \<open>undefined\<close> are \<open>None\<close>.
  \<^item> The collections \<open>js_eval\<close> (evaluation of string operations on literals) and
    \<open>class_list\<close> (DOM token lists) carry the component proofs.
\<close>

named_theorems js_eval
named_theorems class_list

section \<open>Lists\<close>

lemma length_dropWhile_less [termination_simp]: "length (dropWhile P s) < Suc (length s)"
  by (simp add: length_dropWhile_le less_Suc_eq_le)

lemma dropWhile_not_hd: "dropWhile P s = c # t \<Longrightarrow> \<not> P c"
  by (metis hd_dropWhile list.distinct(1) list.sel(1))

lemma set_takeWhile_neg: "c \<in> set (takeWhile (\<lambda>x. \<not> P x) s) \<Longrightarrow> \<not> P c"
  by (metis set_takeWhileD)

lemma dropWhile_no [simp]: "(\<forall>x \<in> set s. \<not> P x) \<Longrightarrow> dropWhile P s = s"
  by (cases s) auto

lemma takeWhile_all_neg [simp]: "x \<notin> set s \<Longrightarrow> takeWhile (\<lambda>c. c \<noteq> x) s = s"
  by (induction s) auto

lemma dropWhile_all_neg [simp]: "x \<notin> set s \<Longrightarrow> dropWhile (\<lambda>c. c \<noteq> x) s = []"
  by (induction s) auto

lemma takeWhile_neg_append [simp]: "x \<notin> set s \<Longrightarrow> takeWhile (\<lambda>c. c \<noteq> x) (s @ x # t) = s"
  by (induction s) auto

lemma dropWhile_neg_append [simp]: "x \<notin> set s \<Longrightarrow> dropWhile (\<lambda>c. c \<noteq> x) (s @ x # t) = x # t"
  by (induction s) auto

lemma last_in_set_conv: "s \<noteq> [] \<Longrightarrow> \<forall>x \<in> set s. P x \<Longrightarrow> P (last s)"
  by simp

text \<open>\<open>xs[i]\<close> of JavaScript: \<open>undefined\<close> outside the range.\<close>

definition nth_opt :: "'a list \<Rightarrow> nat \<Rightarrow> 'a option" where
  "nth_opt xs i = (if i < length xs then Some (xs ! i) else None)"

lemma nth_opt_Some [simp]: "nth_opt xs i = Some x \<longleftrightarrow> i < length xs \<and> xs ! i = x"
  by (auto simp: nth_opt_def)

lemma nth_opt_None [simp]: "nth_opt xs i = None \<longleftrightarrow> length xs \<le> i"
  by (auto simp: nth_opt_def)

lemma nth_opt_Nil [js_eval]: "nth_opt [] i = None"
  by (simp add: nth_opt_def)

lemma nth_opt_Cons_0 [js_eval]: "nth_opt (x # xs) 0 = Some x"
  by (simp add: nth_opt_def)

lemma nth_opt_Cons_Suc [js_eval]: "nth_opt (x # xs) (Suc i) = nth_opt xs i"
  by (simp add: nth_opt_def)

section \<open>JavaScript strings\<close>

type_synonym jchar = "16 word"
type_synonym jstr = "jchar list"

definition js :: "string \<Rightarrow> jstr" where
  "js s = map of_char s"

lemma js_Nil [simp, js_eval]: "js [] = []"
  by (simp add: js_def)

lemma js_Cons [js_eval]: "js (c # s) = of_char c # js s"
  by (simp add: js_def)

lemma js_append: "js (s @ t) = js s @ js t"
  by (simp add: js_def)

lemma length_js [simp]: "length (js s) = length s"
  by (simp add: js_def)

lemma of_char_jchar_eq [simp]: "(of_char c :: jchar) = of_char d \<longleftrightarrow> c = d"
proof
  assume "(of_char c :: jchar) = of_char d"
  then have "(of_nat (of_char c) :: jchar) = of_nat (of_char d)"
    by (metis of_nat_of_char)
  then have "of_char c mod (2 :: nat) ^ 16 = of_char d mod 2 ^ 16"
    by (simp only: word_of_nat_eq_iff take_bit_eq_mod) simp
  moreover have "of_char x < (2 :: nat) ^ 16" for x :: char
    by (rule order_less_le_trans [OF nat_of_char_less_256]) simp
  ultimately have "of_char c = (of_char d :: nat)"
    by simp
  then show "c = d"
    by simp
qed simp

lemma js_inj [simp]: "js s = js t \<longleftrightarrow> s = t"
  unfolding js_def by (rule inj_map_eq_map) (simp add: inj_def)

lemma set_js: "set (js s) = of_char ` set s"
  by (simp add: js_def)

text \<open>The punctuation the sources test for.\<close>

abbreviation colon :: jchar where "colon \<equiv> 58"
abbreviation slash :: jchar where "slash \<equiv> 47"
abbreviation hyphen :: jchar where "hyphen \<equiv> 45"
abbreviation hash_sign :: jchar where "hash_sign \<equiv> 35"

subsection \<open>Character classes\<close>

text \<open>The \<open>\s\<close> of ECMAScript (also what \<open>trim\<close> removes) and its \<open>\w\<close>.\<close>

definition is_space :: "jchar \<Rightarrow> bool" where
  "is_space c \<longleftrightarrow> 9 \<le> c \<and> c \<le> 13 \<or> c = 32 \<or> c = 160 \<or> c = 0x1680 \<or> 0x2000 \<le> c \<and> c \<le> 0x200A \<or>
     c = 0x2028 \<or> c = 0x2029 \<or> c = 0x202F \<or> c = 0x205F \<or> c = 0x3000 \<or> c = 0xFEFF"

definition is_word :: "jchar \<Rightarrow> bool" where
  "is_word c \<longleftrightarrow> 48 \<le> c \<and> c \<le> 57 \<or> 65 \<le> c \<and> c \<le> 90 \<or> c = 95 \<or> 97 \<le> c \<and> c \<le> 122"

definition is_upper :: "jchar \<Rightarrow> bool" where
  "is_upper c \<longleftrightarrow> 65 \<le> c \<and> c \<le> 90 \<or> 192 \<le> c \<and> c \<le> 222 \<and> c \<noteq> 215"

definition lower_char :: "jchar \<Rightarrow> jchar" where
  "lower_char c = (if is_upper c then c + 32 else c)"

definition toLowerCase :: "jstr \<Rightarrow> jstr" where
  "toLowerCase = map lower_char"

lemma is_upper_lower_char [simp]: "\<not> is_upper (lower_char c)"
  unfolding lower_char_def is_upper_def
  by (auto simp: word_le_nat_alt unat_word_ariths)

lemma lower_char_idem [simp]: "lower_char (lower_char c) = lower_char c"
  by (metis is_upper_lower_char lower_char_def)

lemma lower_char_id: "\<not> is_upper c \<Longrightarrow> lower_char c = c"
  by (simp add: lower_char_def)

lemma toLowerCase_idem [simp]: "toLowerCase (toLowerCase s) = toLowerCase s"
  by (simp add: toLowerCase_def)

lemma length_toLowerCase [simp]: "length (toLowerCase s) = length s"
  by (simp add: toLowerCase_def)

lemma toLowerCase_append: "toLowerCase (s @ t) = toLowerCase s @ toLowerCase t"
  by (simp add: toLowerCase_def)

lemma is_upper_toLowerCase: "c \<in> set (toLowerCase s) \<Longrightarrow> \<not> is_upper c"
  by (auto simp: toLowerCase_def)

lemma toLowerCase_Nil [js_eval]: "toLowerCase [] = []"
  by (simp add: toLowerCase_def)

lemma toLowerCase_Cons [js_eval]: "toLowerCase (c # s) = lower_char c # toLowerCase s"
  by (simp add: toLowerCase_def)

lemmas char_classes = is_space_def is_word_def is_upper_def lower_char_def

lemma is_space_hyphen [simp]: "\<not> is_space 45"
  by (simp add: is_space_def)

lemma is_word_not_space: "is_word c \<Longrightarrow> \<not> is_space c"
  unfolding is_word_def is_space_def by (auto simp: word_le_nat_alt word_unat_eq_iff)

subsection \<open>Prefixes, slices and searching\<close>

definition startsWith :: "jstr \<Rightarrow> jstr \<Rightarrow> bool" where
  "startsWith s p \<longleftrightarrow> take (length p) s = p"

definition endsWith :: "jstr \<Rightarrow> jstr \<Rightarrow> bool" where
  "endsWith s p \<longleftrightarrow> length p \<le> length s \<and> drop (length s - length p) s = p"

definition slice :: "jstr \<Rightarrow> nat \<Rightarrow> nat \<Rightarrow> jstr" where
  "slice s a b = take (b - a) (drop a s)"

lemma startsWith_append [simp]: "startsWith (p @ s) p"
  by (simp add: startsWith_def)

lemma startsWith_iff: "startsWith s p \<longleftrightarrow> (\<exists>t. s = p @ t)"
  unfolding startsWith_def by (metis append_eq_conv_conj append_take_drop_id)

lemma startsWith_Nil_right [simp]: "startsWith s []"
  by (simp add: startsWith_def)

lemma startsWith_Cons [js_eval]: "startsWith (c # s) (d # p) \<longleftrightarrow> c = d \<and> startsWith s p"
  by (auto simp: startsWith_def)

lemma startsWith_Nil [js_eval, simp]: "startsWith [] p \<longleftrightarrow> p = []"
  by (auto simp: startsWith_def)

lemma endsWith_iff: "endsWith s p \<longleftrightarrow> (\<exists>t. s = t @ p)"
proof
  assume "endsWith s p"
  then have "s = take (length s - length p) s @ p"
    unfolding endsWith_def by (metis append_take_drop_id)
  then show "\<exists>t. s = t @ p" by blast
qed (auto simp: endsWith_def)

text \<open>\<open>s.indexOf(t, from)\<close>: the least position from \<open>from\<close> on where \<open>t\<close> occurs, \<open>None\<close> for \<open>-1\<close>.\<close>

fun find_sub :: "jstr \<Rightarrow> jstr \<Rightarrow> nat option" where
  "find_sub [] t = (if t = [] then Some 0 else None)"
| "find_sub (c # s) t = (if startsWith (c # s) t then Some 0 else map_option Suc (find_sub s t))"

definition indexOf :: "jstr \<Rightarrow> jstr \<Rightarrow> nat \<Rightarrow> nat option" where
  "indexOf s t from = (let k = min from (length s) in map_option ((+) k) (find_sub (drop k s) t))"

lemma find_sub_SomeD: "find_sub s t = Some i \<Longrightarrow> startsWith (drop i s) t \<and> i + length t \<le> length s"
proof (induction s t arbitrary: i rule: find_sub.induct)
  case (1 t)
  then show ?case by (simp split: if_splits)
next
  case (2 c s t)
  show ?case
  proof (cases "startsWith (c # s) t")
    case True
    with "2.prems" show ?thesis
      by (auto simp: startsWith_def dest: arg_cong [where f = length])
  next
    case False
    with "2.prems" obtain j where "find_sub s t = Some j" "i = Suc j"
      by auto
    with "2.IH" [OF False] show ?thesis by simp
  qed
qed

lemma find_sub_least: "find_sub s t = Some i \<Longrightarrow> j < i \<Longrightarrow> \<not> startsWith (drop j s) t"
proof (induction s t arbitrary: i j rule: find_sub.induct)
  case (1 t)
  then show ?case by (simp split: if_splits)
next
  case (2 c s t)
  then show ?case
    by (cases j) (auto split: if_splits)
qed

lemma find_sub_None_iff: "find_sub s t = None \<longleftrightarrow> (\<nexists>u v. s = u @ t @ v)"
proof (induction s t rule: find_sub.induct)
  case (1 t)
  then show ?case by simp
next
  case (2 c s t)
  show ?case
  proof (cases "startsWith (c # s) t")
    case True
    then have "\<exists>u v. c # s = u @ t @ v"
      by (metis append_Nil startsWith_iff)
    with True show ?thesis by simp
  next
    case False
    then have "(\<exists>u v. c # s = u @ t @ v) \<longleftrightarrow> (\<exists>u v. s = u @ t @ v)"
      by (metis append_Cons append_Nil list.exhaust list.inject startsWith_iff)
    with False "2.IH" show ?thesis by simp
  qed
qed

lemma indexOf_SomeD:
  "indexOf s t from = Some i \<Longrightarrow> min from (length s) \<le> i \<and> startsWith (drop i s) t \<and> i + length t \<le> length s"
  unfolding indexOf_def Let_def
  by (auto dest!: find_sub_SomeD simp: add.commute)

lemma indexOf_0: "indexOf s t 0 = find_sub s t"
  by (cases "find_sub s t") (simp_all add: indexOf_def)

definition occurs :: "jstr \<Rightarrow> jstr \<Rightarrow> bool" where
  "occurs t s \<longleftrightarrow> find_sub s t \<noteq> None"

lemma occurs_iff: "occurs t s \<longleftrightarrow> (\<exists>u v. s = u @ t @ v)"
  by (simp add: occurs_def find_sub_None_iff)

subsection \<open>Splitting and replacing\<close>

text \<open>\<open>s.split(c)\<close> for a single character.\<close>

fun split_on :: "jchar \<Rightarrow> jstr \<Rightarrow> jstr list" where
  "split_on c [] = [[]]"
| "split_on c (x # s) =
     (if x = c then [] # split_on c s
      else case split_on c s of [] \<Rightarrow> [[x]] | p # ps \<Rightarrow> (x # p) # ps)"

lemma split_on_not_Nil [simp]: "split_on c s \<noteq> []"
  by (cases s) (auto split: list.splits)

lemma split_on_notin [simp]: "c \<notin> set s \<Longrightarrow> split_on c s = [s]"
  by (induction s) auto

lemma split_on_append [simp]: "c \<notin> set s \<Longrightarrow> split_on c (s @ c # t) = s # split_on c t"
  by (induction s) auto

lemma split_on_parts: "p \<in> set (split_on c s) \<Longrightarrow> c \<notin> set p"
proof (induction s arbitrary: p)
  case (Cons x s)
  then show ?case
    by (cases "split_on c s") (auto split: if_splits)
qed simp

text \<open>\<open>s.split(/P+/)\<close> for a character class \<open>P\<close>.\<close>

function split_runs :: "(jchar \<Rightarrow> bool) \<Rightarrow> jstr \<Rightarrow> jstr list" where
  "split_runs P s =
     (case dropWhile (\<lambda>c. \<not> P c) s of
        [] \<Rightarrow> [s]
      | _ # t \<Rightarrow> takeWhile (\<lambda>c. \<not> P c) s # split_runs P (dropWhile P t))"
  by pat_completeness auto
termination
proof (relation "measure (\<lambda>(P, s). length s)")
  fix P :: "jchar \<Rightarrow> bool" and s x t
  assume "dropWhile (\<lambda>c. \<not> P c) s = x # t"
  then have "Suc (length t) \<le> length s"
    by (metis length_Cons length_dropWhile_le)
  then show "((P, dropWhile P t), P, s) \<in> measure (\<lambda>(P, s). length s)"
    by (simp add: le_less_trans [OF length_dropWhile_le])
qed simp

declare split_runs.simps [simp del]

lemma split_runs_parts: "p \<in> set (split_runs P s) \<Longrightarrow> c \<in> set p \<Longrightarrow> \<not> P c"
proof (induction P s rule: split_runs.induct)
  case (1 P s)
  show ?case
  proof (cases "dropWhile (\<lambda>c. \<not> P c) s")
    case Nil
    with "1.prems" show ?thesis
      by (auto simp: split_runs.simps [of P s] dropWhile_eq_Nil_conv)
  next
    case (Cons x t)
    with "1.prems" have "p = takeWhile (\<lambda>c. \<not> P c) s \<or> p \<in> set (split_runs P (dropWhile P t))"
      by (simp add: split_runs.simps [of P s])
    with "1.IH" [OF Cons] "1.prems"(2) show ?thesis
      by (blast dest: set_takeWhile_neg)
  qed
qed

text \<open>\<open>s.replace(/P+/g, r)\<close> and \<open>s.replace(/P/g, '')\<close>.\<close>

fun replace_runs :: "(jchar \<Rightarrow> bool) \<Rightarrow> jstr \<Rightarrow> jstr \<Rightarrow> jstr" where
  "replace_runs P r [] = []"
| "replace_runs P r (c # s) =
     (if P c then r @ replace_runs P r (dropWhile P s) else c # replace_runs P r s)"

definition remove_chars :: "(jchar \<Rightarrow> bool) \<Rightarrow> jstr \<Rightarrow> jstr" where
  "remove_chars P = filter (\<lambda>c. \<not> P c)"

lemma set_replace_runs: "c \<in> set (replace_runs P r s) \<Longrightarrow> c \<in> set r \<or> c \<in> set s \<and> \<not> P c"
proof (induction P r s rule: replace_runs.induct)
  case (2 P r x s)
  then show ?case
    by (auto split: if_splits dest: set_dropWhileD)
qed simp

lemma replace_runs_none [simp]: "\<forall>c \<in> set s. \<not> P c \<Longrightarrow> replace_runs P r s = s"
  by (induction s) auto

definition trim :: "jstr \<Rightarrow> jstr" where
  "trim s = rev (dropWhile is_space (rev (dropWhile is_space s)))"

lemma trim_id [simp]: "\<forall>c \<in> set s. \<not> is_space c \<Longrightarrow> trim s = s"
  by (simp add: trim_def)

lemma set_trim: "c \<in> set (trim s) \<Longrightarrow> c \<in> set s"
  unfolding trim_def by (metis set_dropWhileD set_rev)

text \<open>\<open>x || null\<close> on a string: the empty string is falsy.\<close>

definition or_null :: "jstr \<Rightarrow> jstr option" where
  "or_null s = (if s = [] then None else Some s)"

definition truthy :: "jstr option \<Rightarrow> bool" where
  "truthy x \<longleftrightarrow> (case x of None \<Rightarrow> False | Some s \<Rightarrow> s \<noteq> [])"

lemma truthy_simps [simp]: "\<not> truthy None" "truthy (Some s) \<longleftrightarrow> s \<noteq> []"
  by (simp_all add: truthy_def)

lemma or_null_simps [simp]: "or_null [] = None" "s \<noteq> [] \<Longrightarrow> or_null s = Some s"
  by (simp_all add: or_null_def)

section \<open>DOM token lists\<close>

text \<open>\<open>element.classList\<close>: an ordered list of tokens without repetition.\<close>

type_synonym classes = "jstr list"

definition cl_contains :: "classes \<Rightarrow> jstr \<Rightarrow> bool" where
  "cl_contains cs c \<longleftrightarrow> c \<in> set cs"

definition cl_add :: "jstr \<Rightarrow> classes \<Rightarrow> classes" where
  "cl_add c cs = (if c \<in> set cs then cs else cs @ [c])"

definition cl_remove :: "jstr \<Rightarrow> classes \<Rightarrow> classes" where
  "cl_remove c cs = filter (\<lambda>x. x \<noteq> c) cs"

definition cl_toggle :: "jstr \<Rightarrow> classes \<Rightarrow> classes" where
  "cl_toggle c cs = (if c \<in> set cs then cl_remove c cs else cl_add c cs)"

definition cl_force :: "jstr \<Rightarrow> bool \<Rightarrow> classes \<Rightarrow> classes" where
  \<comment> \<open>\<open>classList.toggle(c, force)\<close>\<close>
  "cl_force c b cs = (if b then cl_add c cs else cl_remove c cs)"

lemma cl_contains_add [simp, class_list]: "cl_contains (cl_add c cs) d \<longleftrightarrow> d = c \<or> cl_contains cs d"
  by (auto simp: cl_contains_def cl_add_def)

lemma cl_contains_remove [simp, class_list]: "cl_contains (cl_remove c cs) d \<longleftrightarrow> d \<noteq> c \<and> cl_contains cs d"
  by (auto simp: cl_contains_def cl_remove_def)

lemma cl_contains_toggle [simp, class_list]:
  "cl_contains (cl_toggle c cs) d \<longleftrightarrow> (if d = c then \<not> cl_contains cs c else cl_contains cs d)"
  by (auto simp: cl_contains_def cl_toggle_def cl_add_def cl_remove_def)

lemma cl_contains_force [simp, class_list]:
  "cl_contains (cl_force c b cs) d \<longleftrightarrow> (if d = c then b else cl_contains cs d)"
  by (simp add: cl_force_def)

lemma cl_distinct [simp, class_list]:
  "distinct cs \<Longrightarrow> distinct (cl_add c cs)" "distinct cs \<Longrightarrow> distinct (cl_remove c cs)"
  by (auto simp: cl_add_def cl_remove_def)

end
