(* ===== verification/Routing.thy ===== *)
theory Routing
  imports Prelude
begin

text \<open>
  URLs and hash routes of the documentation viewer (\<open>docs/ui/assets/app.js\<close>, "BASE PATH DETECTION"
  and "HASH ROUTING UTILITIES"): \<open>getBasePath\<close> and \<open>buildUrl\<close> turn the page's path into asset
  URLs, \<open>buildHash\<close> prints a route and \<open>parseHash\<close> reads one back. \<open>window.location\<close> is an
  argument: the path name, and the hash with its leading number sign or empty.

  The lemmas show that asset URLs never become protocol relative, what the printed routes look
  like, and that parsing inverts printing.
\<close>

section \<open>Definitions\<close>

subsection \<open>Base path\<close>

text \<open>
  The pattern \<open>/\/?[^\/]*\.html$/\<close> matched at the start of \<open>s\<close>: it always extends to the end of
  the input, so a match consumes all of \<open>s\<close>.
\<close>

definition html_suffix_at :: "jstr \<Rightarrow> bool" where
  "html_suffix_at s =
     (let t = (case s of [] \<Rightarrow> [] | c # r \<Rightarrow> if c = slash then r else s)
      in slash \<notin> set t \<and> endsWith t (js ''.html''))"

text \<open>\<open>replace\<close> without the global flag removes the leftmost match.\<close>

fun strip_html :: "jstr \<Rightarrow> jstr" where
  "strip_html [] = []"
| "strip_html (c # s) = (if html_suffix_at (c # s) then [] else c # strip_html s)"

definition getBasePath :: "jstr \<Rightarrow> jstr" where
  "getBasePath pathname =
     (let basePath = strip_html pathname
      in if endsWith basePath [slash] then butlast basePath else basePath)"

definition buildUrl :: "jstr \<Rightarrow> jstr \<Rightarrow> jstr" where
  "buildUrl pathname path =
     (let basePath = getBasePath pathname;
          cleanPath = (if startsWith path [slash] then drop 1 path else path)
      in if basePath = [] then slash # cleanPath else basePath @ slash # cleanPath)"

subsection \<open>Hash routes\<close>

text \<open>
  The object \<open>parseHash\<close> returns; a property the code does not set is \<open>None\<close>, as reading it
  gives \<open>undefined\<close>.
\<close>

record hash_data =
  hd_view :: jstr
  hd_doc :: "jstr option"
  hd_section :: "jstr option"
  hd_target :: "jstr option"

definition part_or_null :: "jstr list \<Rightarrow> nat \<Rightarrow> jstr option" where
  \<comment> \<open>\<open>parts[i] || null\<close>\<close>
  "part_or_null parts i = Option.bind (nth_opt parts i) or_null"

definition docs_route :: "jstr \<Rightarrow> hash_data" where
  "docs_route s =
     (let parts = split_on colon s
      in \<lparr>hd_view = js ''docs'', hd_doc = part_or_null parts 0, hd_section = part_or_null parts 1,
          hd_target = None\<rparr>)"

definition parseHash :: "jstr \<Rightarrow> hash_data" where
  "parseHash location_hash =
     (let hash = drop 1 location_hash in
      if hash = [] then
        \<lparr>hd_view = js ''docs'', hd_doc = None, hd_section = None, hd_target = None\<rparr>
      else if startsWith hash (js ''docs:'') then docs_route (drop 5 hash)
      else if startsWith hash (js ''api:'') then
        \<lparr>hd_view = js ''api'', hd_doc = None, hd_section = None, hd_target = or_null (drop 4 hash)\<rparr>
      else docs_route hash)"

definition template_str :: "jstr option \<Rightarrow> jstr" where
  \<comment> \<open>a value inside a template literal\<close>
  "template_str x = (case x of None \<Rightarrow> js ''null'' | Some s \<Rightarrow> s)"

definition buildHash :: "jstr \<Rightarrow> jstr option \<Rightarrow> jstr option \<Rightarrow> jstr" where
  "buildHash view doc section =
     (if view = js ''api'' then js ''#api:'' @ (if truthy doc then template_str doc else [])
      else if truthy section then js ''#docs:'' @ template_str doc @ js '':'' @ template_str section
      else if truthy doc then js ''#docs:'' @ template_str doc
      else [])"

section \<open>Base path\<close>

lemma html_suffix_at_slash:
  "slash \<notin> set s \<Longrightarrow> html_suffix_at (slash # s) \<longleftrightarrow> endsWith s (js ''.html'')"
  by (simp add: html_suffix_at_def)

lemma html_suffix_at_plain:
  "slash \<notin> set s \<Longrightarrow> html_suffix_at s \<longleftrightarrow> endsWith s (js ''.html'')"
  by (cases s) (auto simp: html_suffix_at_def)

lemma html_suffix_at_False: "slash \<in> set s \<Longrightarrow> \<not> html_suffix_at (c # s)"
  by (simp add: html_suffix_at_def)

lemma strip_html_noslash:
  "slash \<notin> set s \<Longrightarrow> endsWith s (js ''.html'') \<Longrightarrow> strip_html s = []"
  by (cases s) (simp_all add: html_suffix_at_plain)

lemma strip_html_unchanged: "\<not> endsWith s (js ''.html'') \<Longrightarrow> strip_html s = s"
proof (induction s)
  case (Cons c s)
  have "\<not> html_suffix_at (c # s)"
    using Cons.prems by (auto simp: html_suffix_at_def endsWith_iff Let_def split: if_splits)
  moreover have "\<not> endsWith s (js ''.html'')"
    using Cons.prems by (auto simp: endsWith_iff)
  ultimately show ?case using Cons.IH by simp
qed simp

lemma strip_html_dir:
  assumes "slash \<notin> set name" and "endsWith name (js ''.html'')"
  shows "strip_html (dir @ slash # name) = dir"
proof (induction dir)
  case Nil
  then show ?case using assms by (simp add: html_suffix_at_slash)
next
  case (Cons c dir)
  have "\<not> html_suffix_at (c # dir @ slash # name)"
    by (rule html_suffix_at_False) simp
  then show ?case using Cons.IH by simp
qed

text \<open>The two ways a page can be addressed: a directory, or a file in it.\<close>

lemma getBasePath_file:
  assumes "slash \<notin> set name" "endsWith name (js ''.html'')" "\<not> endsWith dir [slash]"
  shows "getBasePath (dir @ slash # name) = dir"
  using assms by (simp add: getBasePath_def strip_html_dir)

lemma getBasePath_dir:
  assumes "\<not> endsWith dir [slash]"
  shows "getBasePath (dir @ [slash]) = dir"
proof -
  have "\<not> endsWith (dir @ [slash]) (js ''.html'')"
  proof
    assume "endsWith (dir @ [slash]) (js ''.html'')"
    then obtain t where "dir @ [slash] = t @ js ''.html''" by (auto simp: endsWith_iff)
    then have "last (dir @ [slash]) = last (t @ js ''.html'')" by simp
    then show False by (simp add: js_eval)
  qed
  then show ?thesis
    by (simp add: getBasePath_def strip_html_unchanged endsWith_iff)
qed

lemma getBasePath_plain:
  assumes "\<not> endsWith p [slash]" and "\<not> endsWith p (js ''.html'')"
  shows "getBasePath p = p"
  using assms by (simp add: getBasePath_def strip_html_unchanged)

lemma endsWith_single: "endsWith s [c] \<longleftrightarrow> s \<noteq> [] \<and> last s = c"
  by (cases s rule: rev_cases) (auto simp: endsWith_iff)

lemma strip_html_prefix: "\<exists>t. s = strip_html s @ t"
  by (induction s) (auto split: if_splits)

text \<open>A path name as a browser reports it: absolute, with no empty segment in front.\<close>

definition abs_path :: "jstr \<Rightarrow> bool" where
  "abs_path p \<longleftrightarrow> (case p of c # d # r \<Rightarrow> c = slash \<and> d \<noteq> slash | [c] \<Rightarrow> c = slash | [] \<Rightarrow> False)"

lemma abs_path_hd: "abs_path p \<Longrightarrow> \<exists>r. p = slash # r \<and> (r = [] \<or> hd r \<noteq> slash)"
  by (auto simp: abs_path_def split: list.splits)

lemma getBasePath_prefix: "\<exists>t. p = getBasePath p @ t"
proof -
  obtain t where t: "p = strip_html p @ t" using strip_html_prefix by blast
  show ?thesis
  proof (cases "endsWith (strip_html p) [slash]")
    case True
    then obtain u where "strip_html p = u @ [slash]" by (auto simp: endsWith_iff)
    with True t show ?thesis by (simp add: getBasePath_def)
  next
    case False
    with t show ?thesis by (auto simp: getBasePath_def)
  qed
qed

lemma getBasePath_abs:
  assumes "abs_path p"
  shows "getBasePath p = [] \<or> (\<exists>c r. getBasePath p = slash # c # r \<and> c \<noteq> slash)"
proof (cases "getBasePath p")
  case (Cons x xs)
  obtain t where t: "p = getBasePath p @ t" using getBasePath_prefix by blast
  from abs_path_hd [OF assms] obtain r where r: "p = slash # r" "r = [] \<or> hd r \<noteq> slash" by blast
  from r t Cons have x: "x = slash" by (metis append_Cons list.inject)
  have "xs \<noteq> []"
  proof
    assume "xs = []"
    with Cons x have single: "getBasePath p = [slash]" by simp
    show False
    proof (cases "endsWith (strip_html p) [slash]")
      case True
      then obtain u where u: "strip_html p = u @ [slash]" by (auto simp: endsWith_iff)
      with True single have "strip_html p = [slash, slash]" by (simp add: getBasePath_def)
      moreover obtain v where "p = strip_html p @ v" using strip_html_prefix by blast
      ultimately have "p = slash # slash # v" by (metis append_Cons append_Nil)
      with r show False by auto
    next
      case False
      with single have "strip_html p = [slash]" by (simp add: getBasePath_def)
      with False show False by (simp add: endsWith_iff)
    qed
  qed
  moreover have "hd xs \<noteq> slash" if "xs \<noteq> []"
    using r t Cons x that by (metis append_Cons hd_append2 list.inject append_is_Nil_conv)
  ultimately show ?thesis using Cons x by (cases xs) auto
qed simp

section \<open>Hash routes\<close>

lemma parseHash_docs: "parseHash (js ''#docs:'' @ s) = docs_route s"
  by (simp add: parseHash_def js_eval)

lemma parseHash_api:
  "parseHash (js ''#api:'' @ s) =
     \<lparr>hd_view = js ''api'', hd_doc = None, hd_section = None, hd_target = or_null s\<rparr>"
  by (simp add: parseHash_def js_eval)

lemma part_or_null_SomeD: "part_or_null (split_on c s) i = Some p \<Longrightarrow> c \<notin> set p \<and> p \<noteq> []"
  by (auto simp: part_or_null_def or_null_def bind_eq_Some_conv split: if_splits
      dest: split_on_parts [OF nth_mem])

lemma docs_route_doc:
  "colon \<notin> set d \<Longrightarrow> docs_route d =
     \<lparr>hd_view = js ''docs'', hd_doc = or_null d, hd_section = None, hd_target = None\<rparr>"
  by (simp add: docs_route_def part_or_null_def nth_opt_def)

lemma docs_route_section:
  "colon \<notin> set d \<Longrightarrow> colon \<notin> set s \<Longrightarrow> docs_route (d @ colon # s) =
     \<lparr>hd_view = js ''docs'', hd_doc = or_null d, hd_section = or_null s, hd_target = None\<rparr>"
  by (simp add: docs_route_def part_or_null_def nth_opt_def)

lemma parseHash_buildHash_doc:
  assumes "d \<noteq> []" "colon \<notin> set d"
  shows "parseHash (buildHash (js ''docs'') (Some d) None) =
     \<lparr>hd_view = js ''docs'', hd_doc = Some d, hd_section = None, hd_target = None\<rparr>"
  using assms by (simp add: buildHash_def template_str_def parseHash_docs docs_route_doc)

lemma parseHash_buildHash_section:
  assumes "colon \<notin> set d" "s \<noteq> []" "colon \<notin> set s"
  shows "parseHash (buildHash (js ''docs'') (Some d) (Some s)) =
     \<lparr>hd_view = js ''docs'', hd_doc = or_null d, hd_section = Some s, hd_target = None\<rparr>"
proof -
  have "buildHash (js ''docs'') (Some d) (Some s) = js ''#docs:'' @ d @ colon # s"
    using assms by (simp add: buildHash_def template_str_def js_eval)
  then show ?thesis using assms by (simp add: parseHash_docs docs_route_section)
qed

lemma parseHash_view: "hd_view (parseHash h) = js ''docs'' \<or> hd_view (parseHash h) = js ''api''"
  by (simp add: parseHash_def docs_route_def Let_def)

lemma parseHash_parts:
  "hd_doc (parseHash h) = Some d \<Longrightarrow> colon \<notin> set d \<and> d \<noteq> []"
  "hd_section (parseHash h) = Some s \<Longrightarrow> colon \<notin> set s \<and> s \<noteq> []"
  by (auto simp: parseHash_def docs_route_def Let_def split: if_splits dest: part_or_null_SomeD)

section \<open>Properties\<close>

text \<open>
  C34: a route printed by \<open>buildHash\<close> for a document and a section is read back by \<open>parseHash\<close> as
  exactly that view, document and section, for document and section names that are non-empty and
  hold no colon; without a section the section comes back as \<open>null\<close>.
\<close>

theorem hash_roundtrip:
  assumes "d \<noteq> []" "colon \<notin> set d" "\<forall>s. sec = Some s \<longrightarrow> s \<noteq> [] \<and> colon \<notin> set s"
  shows "parseHash (buildHash (js ''docs'') (Some d) sec) =
     \<lparr>hd_view = js ''docs'', hd_doc = Some d, hd_section = sec, hd_target = None\<rparr>"
proof (cases sec)
  case None
  with assms show ?thesis by (simp add: parseHash_buildHash_doc)
next
  case (Some s)
  with assms show ?thesis by (simp add: parseHash_buildHash_section)
qed

theorem hash_roundtrip_witness:
  "parseHash (buildHash (js ''docs'') (Some (js ''mcp/quick-start'')) (Some (js ''install''))) =
     \<lparr>hd_view = js ''docs'', hd_doc = Some (js ''mcp/quick-start''), hd_section = Some (js ''install''),
      hd_target = None\<rparr>"
  by (rule hash_roundtrip) (simp_all add: js_eval)

text \<open>
  on a page whose path is absolute (and has no empty first segment), \<open>buildUrl\<close> never builds a
  protocol-relative URL: the result starts with one slash followed by something else, for every
  asset path with at most one leading slash.
\<close>

theorem buildUrl_not_protocol_relative:
  assumes "abs_path pathname" "\<not> startsWith path (js ''//'')" "path \<noteq> []" "path \<noteq> [slash]"
  shows "\<exists>c r. buildUrl pathname path = slash # c # r \<and> c \<noteq> slash"
proof -
  define clean where "clean = (if startsWith path [slash] then drop 1 path else path)"
  have clean: "clean \<noteq> [] \<and> hd clean \<noteq> slash"
    using assms(2-4) unfolding clean_def
    by (cases path; cases "tl path") (auto simp: startsWith_def js_eval)
  from getBasePath_abs [OF assms(1)] show ?thesis
  proof
    assume "getBasePath pathname = []"
    then have "buildUrl pathname path = slash # clean"
      by (simp add: buildUrl_def clean_def)
    with clean show ?thesis by (cases clean) auto
  next
    assume "\<exists>c r. getBasePath pathname = slash # c # r \<and> c \<noteq> slash"
    then obtain c r where "getBasePath pathname = slash # c # r" "c \<noteq> slash" by blast
    then show ?thesis by (simp add: buildUrl_def Let_def)
  qed
qed

theorem buildUrl_not_protocol_relative_witness:
  "\<exists>c r. buildUrl (js ''/docs/'') (js ''assets/nav.json'') = slash # c # r \<and> c \<noteq> slash"
  by (rule buildUrl_not_protocol_relative) (simp_all add: abs_path_def js_eval)

text \<open>
  the directory and the file address of a page agree: for a directory path without trailing
  slash, \<open>dir/\<close> and \<open>dir/name.html\<close> resolve every asset path to the same URL, which is the asset
  path below \<open>dir\<close>.
\<close>

theorem buildUrl_dir_file:
  assumes "\<not> endsWith dir [slash]" "slash \<notin> set name" "endsWith name (js ''.html'')"
    and "\<not> startsWith path [slash]"
  shows "buildUrl (dir @ slash # name) path = dir @ slash # path
    \<and> buildUrl (dir @ [slash]) path = dir @ slash # path"
  using assms by (simp_all add: buildUrl_def getBasePath_file getBasePath_dir)

theorem buildUrl_dir_file_witness:
  "buildUrl (js ''/docs'' @ slash # js ''index.html'') (js ''yaml'') = js ''/docs'' @ slash # js ''yaml''
   \<and> buildUrl (js ''/docs'' @ [slash]) (js ''yaml'') = js ''/docs'' @ slash # js ''yaml''"
  using buildUrl_dir_file [of "js ''/docs''" "js ''index.html''" "js ''yaml''"]
  by (simp add: js_eval endsWith_def)

end
