(* ===== verification/Dom.thy ===== *)
theory Dom
  imports Prelude
begin

text \<open>
  The part of the browser's document model the viewer works on. A rendered page is a forest of
  nodes; an element has its tag, its attributes, the click listeners registered on it and its
  children. Reading \<open>innerHTML\<close> serialises the markup only, so listeners do not survive it
  (\<open>serialise\<close>); assigning \<open>innerHTML\<close> parses markup into fresh nodes. HTML text is represented by
  the forest the browser's parser makes of it.
\<close>

section \<open>Nodes\<close>

text \<open>The click handlers the viewer registers, with the variables their closures capture.\<close>

datatype listener =
    AnchorClick jstr jstr   \<comment> \<open>\<open>addHeadingAnchors\<close>: document and slug\<close>
  | TocClick jstr jstr      \<comment> \<open>\<open>buildTableOfContents\<close>: document and heading id\<close>
  | CopyClick jstr          \<comment> \<open>\<open>addCopyButton\<close>: the code's text\<close>
  | ZoomClick               \<comment> \<open>\<open>attachDiagramControls\<close>\<close>

type_synonym attrs = "(jstr \<times> jstr) list"

datatype node =
    Text jstr
  | Elem (tag: jstr) (attributes: attrs) (listeners: "listener list") (children: "node list")

fun set_attr :: "jstr \<Rightarrow> jstr \<Rightarrow> attrs \<Rightarrow> attrs" where
  "set_attr k v [] = [(k, v)]"
| "set_attr k v ((k', v') # as) = (if k = k' then (k, v) # as else (k', v') # set_attr k v as)"

definition get_attr :: "jstr \<Rightarrow> attrs \<Rightarrow> jstr" where
  \<comment> \<open>reflecting properties such as \<open>id\<close> read a missing attribute as the empty string\<close>
  "get_attr k as = (case map_of as k of None \<Rightarrow> [] | Some v \<Rightarrow> v)"

definition class_tokens :: "attrs \<Rightarrow> classes" where
  "class_tokens as = filter (\<lambda>t. t \<noteq> []) (split_runs is_space (get_attr (js ''class'') as))"

fun is_elem :: "node \<Rightarrow> bool" where
  "is_elem (Text s) = False"
| "is_elem (Elem t as ls ks) = True"

definition has_class :: "jstr \<Rightarrow> node \<Rightarrow> bool" where
  "has_class c n = (case n of Text s \<Rightarrow> False | Elem t as ls ks \<Rightarrow> c \<in> set (class_tokens as))"

definition has_tag :: "jstr \<Rightarrow> node \<Rightarrow> bool" where
  "has_tag c n = (case n of Text s \<Rightarrow> False | Elem t as ls ks \<Rightarrow> t = c)"

definition node_id :: "node \<Rightarrow> jstr" where
  "node_id n = (case n of Text s \<Rightarrow> [] | Elem t as ls ks \<Rightarrow> get_attr (js ''id'') as)"

primrec textContent :: "node \<Rightarrow> jstr" where
  "textContent (Text s) = s"
| "textContent (Elem t as ls ks) = concat (map textContent ks)"

text \<open>\<open>querySelectorAll\<close>: the elements that satisfy a selector, in document order.\<close>

primrec query :: "(node \<Rightarrow> bool) \<Rightarrow> node \<Rightarrow> node list" where
  "query P (Text s) = []"
| "query P (Elem t as ls ks) =
     (if P (Elem t as ls ks) then [Elem t as ls ks] else []) @ concat (map (query P) ks)"

definition querySelectorAll :: "(node \<Rightarrow> bool) \<Rightarrow> node list \<Rightarrow> node list" where
  "querySelectorAll P ns = concat (map (query P) ns)"

definition getElementById :: "jstr \<Rightarrow> node list \<Rightarrow> node option" where
  "getElementById i ns =
     (if i = [] then None else List.find (\<lambda>n. node_id n = i) (querySelectorAll is_elem ns))"

text \<open>Reading \<open>innerHTML\<close>.\<close>

primrec serialise :: "node \<Rightarrow> node" where
  "serialise (Text s) = Text s"
| "serialise (Elem t as ls ks) = Elem t as [] (map serialise ks)"

primrec all_listeners :: "node \<Rightarrow> listener list" where
  "all_listeners (Text s) = []"
| "all_listeners (Elem t as ls ks) = ls @ concat (map all_listeners ks)"

section \<open>Facts\<close>

lemma has_tag_simps [simp]: "\<not> has_tag c (Text s)" "has_tag c (Elem t as ls ks) \<longleftrightarrow> t = c"
  by (simp_all add: has_tag_def)

lemma has_class_simps [simp]:
  "\<not> has_class c (Text s)" "has_class c (Elem t as ls ks) \<longleftrightarrow> c \<in> set (class_tokens as)"
  by (simp_all add: has_class_def)

lemma node_id_simps [simp]: "node_id (Text s) = []" "node_id (Elem t as ls ks) = get_attr (js ''id'') as"
  by (simp_all add: node_id_def)

lemma map_of_set_attr: "map_of (set_attr k v as) = (map_of as)(k \<mapsto> v)"
  by (induction k v as rule: set_attr.induct) auto

lemma get_set_attr [simp]:
  "get_attr k (set_attr k v as) = v"
  "k \<noteq> k' \<Longrightarrow> get_attr k (set_attr k' v as) = get_attr k as"
  by (simp_all add: get_attr_def map_of_set_attr)

lemma class_tokens_set_attr_other [simp]:
  "k \<noteq> js ''class'' \<Longrightarrow> class_tokens (set_attr k v as) = class_tokens as"
  by (simp add: class_tokens_def)

lemma textContent_serialise [simp]: "textContent (serialise n) = textContent n"
  by (induction n) (simp_all add: comp_def cong: map_cong)

lemma all_listeners_serialise [simp]: "all_listeners (serialise n) = []"
  by (induction n) simp_all

lemma serialise_idem [simp]: "serialise (serialise n) = serialise n"
  by (induction n) (simp_all add: comp_def cong: map_cong)

lemma query_sat: "m \<in> set (query P n) \<Longrightarrow> P m"
  by (induction n) (auto split: if_splits)

lemma query_is_elem: "m \<in> set (query P n) \<Longrightarrow> is_elem m"
  by (induction n) (auto split: if_splits)

lemma query_mono: "m \<in> set (query P n) \<Longrightarrow> Q m \<Longrightarrow> m \<in> set (query Q n)"
  by (induction n) (auto split: if_splits)

text \<open>A rewriting of the tree that keeps the kind of each node carries query results along.\<close>

definition tree_rewrite :: "(node \<Rightarrow> node) \<Rightarrow> bool" where
  "tree_rewrite f \<longleftrightarrow> (\<forall>t as ls ks. \<exists>as' ls' ks'. f (Elem t as ls ks) = Elem t as' ls' ks' \<and> f ` set ks \<subseteq> set ks')"

lemma query_rewrite:
  assumes "tree_rewrite f" and "\<And>n. P n \<Longrightarrow> P (f n)"
  shows "h \<in> set (query P n) \<Longrightarrow> f h \<in> set (query P (f n))"
proof (induction n)
  case (Elem t as ls ks)
  from assms(1) obtain as' ls' ks'
    where f: "f (Elem t as ls ks) = Elem t as' ls' ks'" and ks': "f ` set ks \<subseteq> set ks'"
    unfolding tree_rewrite_def by blast
  show ?case
  proof (cases "h = Elem t as ls ks \<and> P h")
    case True
    with assms(2) have "P (f h)" by blast
    with True show ?thesis by (simp add: f)
  next
    case False
    with Elem.prems obtain k where k: "k \<in> set ks" "h \<in> set (query P k)"
      by (auto split: if_splits)
    then have "f h \<in> set (query P (f k))" by (rule Elem.IH)
    moreover have "f k \<in> set ks'" using k(1) ks' by blast
    ultimately show ?thesis by (auto simp: f)
  qed
qed simp

lemma querySelectorAll_rewrite:
  assumes "tree_rewrite f" and "\<And>n. P n \<Longrightarrow> P (f n)" and "h \<in> set (querySelectorAll P ns)"
  shows "f h \<in> set (querySelectorAll P (map f ns))"
proof -
  from assms(3) obtain n where n: "n \<in> set ns" "h \<in> set (query P n)"
    by (auto simp: querySelectorAll_def)
  have "f h \<in> set (query P (f n))"
    by (rule query_rewrite [OF assms(1,2) n(2)])
  with n(1) show ?thesis by (auto simp: querySelectorAll_def)
qed

lemma querySelectorAll_mono:
  "m \<in> set (querySelectorAll P ns) \<Longrightarrow> Q m \<Longrightarrow> m \<in> set (querySelectorAll Q ns)"
  by (auto simp: querySelectorAll_def intro: query_mono)

lemma getElementById_exists:
  assumes "n \<in> set (querySelectorAll P ns)" "node_id n = i" "i \<noteq> []"
  shows "\<exists>m. getElementById i ns = Some m \<and> node_id m = i"
proof -
  from assms(1) obtain r where r: "r \<in> set ns" "n \<in> set (query P r)"
    by (auto simp: querySelectorAll_def)
  then have "n \<in> set (query is_elem r)"
    by (blast intro: query_mono query_is_elem)
  with r have "n \<in> set (querySelectorAll is_elem ns)"
    by (auto simp: querySelectorAll_def)
  with assms(2,3) have "getElementById i ns \<noteq> None"
    by (auto simp: getElementById_def find_None_iff)
  then obtain m where m: "getElementById i ns = Some m" by blast
  with assms(3) have "node_id m = i"
    by (auto simp: getElementById_def find_Some_iff)
  with m show ?thesis by blast
qed

end
