(* ===== verification/Headings.thy ===== *)
theory Headings
  imports Routing Dom
begin

text \<open>
  Headings of a rendered document (\<open>docs/ui/assets/app.js\<close>): slugs (\<open>generateSlug\<close>), the anchors
  \<open>addHeadingAnchors\<close> puts on \<open>h1\<close> and \<open>h2\<close>, and the table of contents with its scroll spy
  (\<open>buildTableOfContents\<close>). The lemmas show the alphabet of slugs, that slugs are stable, that
  every anchor is a route back to its own heading, that the table of contents shows the heading
  text without the anchor's number sign, and that the scroll spy marks one entry at a time.
\<close>

section \<open>Definitions\<close>

subsection \<open>Slugs and anchors\<close>

text \<open>\<open>/[^\w\s-]/\<close>\<close>

definition slug_bad :: "jchar \<Rightarrow> bool" where
  "slug_bad c \<longleftrightarrow> \<not> (is_word c \<or> is_space c \<or> c = hyphen)"

definition generateSlug :: "jstr \<Rightarrow> jstr" where
  "generateSlug text =
     trim (replace_runs (\<lambda>c. c = hyphen) [hyphen]
       (replace_runs is_space [hyphen] (remove_chars slug_bad (toLowerCase text))))"

definition heading_anchor :: "jstr \<Rightarrow> jstr \<Rightarrow> jstr \<Rightarrow> node" where
  "heading_anchor docName text slug =
     Elem (js ''a'')
       [(js ''href'', buildHash (js ''docs'') (Some docName) (Some slug)),
        (js ''class'', js ''heading-anchor''),
        (js ''aria-label'', js ''Link to '' @ text)]
       [AnchorClick docName slug]
       [Text [hash_sign]]"

primrec anchor_node :: "jstr \<Rightarrow> node \<Rightarrow> node" where
  "anchor_node docName (Text s) = Text s"
| "anchor_node docName (Elem t as ls ks) =
     (if t = js ''h1'' \<or> t = js ''h2'' then
        (let text = concat (map textContent ks); slug = generateSlug text
         in Elem t (set_attr (js ''id'') slug as) ls
              (map (anchor_node docName) ks @ [heading_anchor docName text slug]))
      else Elem t as ls (map (anchor_node docName) ks))"

text \<open>The function returns \<open>tempDiv.innerHTML\<close>, the serialised markup.\<close>

definition addHeadingAnchors :: "node list \<Rightarrow> jstr \<Rightarrow> node list" where
  "addHeadingAnchors htmlContent docName = map (\<lambda>n. serialise (anchor_node docName n)) htmlContent"

subsection \<open>Table of contents\<close>

text \<open>\<open>replace(/#\s*$/, '')\<close>: the leftmost number sign followed by white space only.\<close>

fun strip_trailing_hash :: "jstr \<Rightarrow> jstr" where
  "strip_trailing_hash [] = []"
| "strip_trailing_hash (c # s) =
     (if c = hash_sign \<and> list_all is_space s then [] else c # strip_trailing_hash s)"

definition toc_text :: "node \<Rightarrow> jstr" where
  "toc_text h = trim (strip_trailing_hash (textContent h))"

definition is_toc_heading :: "node \<Rightarrow> bool" where
  "is_toc_heading n \<longleftrightarrow> has_tag (js ''h2'') n \<or> has_tag (js ''h3'') n"

record toc_item =
  it_id :: jstr
  it_text :: jstr
  it_level :: nat

record toc_link =
  a_href :: jstr
  a_text :: jstr
  a_id :: jstr
  a_class :: classes
  a_click :: listener

record toc =
  toc_title :: "jstr option"
  toc_links :: "toc_link list"
  has_toc :: bool
  toc_items :: "toc_item list"
  toc_visible :: "jstr set"

text \<open>Headings without an id (\<open>h3\<close>) get one; a heading without text is skipped.\<close>

primrec assign_ids :: "node \<Rightarrow> node" where
  "assign_ids (Text s) = Text s"
| "assign_ids (Elem t as ls ks) =
     (let n = Elem t as ls ks; text = toc_text n;
          as' = (if is_toc_heading n \<and> text \<noteq> [] \<and> get_attr (js ''id'') as = []
                 then set_attr (js ''id'') (generateSlug text) as else as)
      in Elem t as' ls (map assign_ids ks))"

definition collect_items :: "node list \<Rightarrow> toc_item list" where
  "collect_items content =
     map (\<lambda>h. \<lparr>it_id = node_id h, it_text = toc_text h,
               it_level = (if has_tag (js ''h3'') h then 3 else 2)\<rparr>)
       (filter (\<lambda>h. toc_text h \<noteq> []) (querySelectorAll is_toc_heading content))"

definition toc_entry :: "jstr \<Rightarrow> toc_item \<Rightarrow> toc_link" where
  "toc_entry docName it =
     \<lparr>a_href = buildHash (js ''docs'') (Some docName) (Some (it_id it)), a_text = it_text it,
      a_id = it_id it, a_class = (if it_level it = 3 then [js ''lvl-3''] else []),
      a_click = TocClick docName (it_id it)\<rparr>"

text \<open>
  The rebuilt rail and the document with its ids. The rail is emptied first and the old observer
  disconnected; fewer than two items leave it empty and unmarked.
\<close>

definition buildTableOfContents :: "node list \<Rightarrow> jstr \<Rightarrow> node list \<times> toc" where
  "buildTableOfContents contentEl docName =
     (let content = map assign_ids contentEl; items = collect_items content
      in (content,
          if length items < 2
          then \<lparr>toc_title = None, toc_links = [], has_toc = False, toc_items = [], toc_visible = {}\<rparr>
          else \<lparr>toc_title = Some (js ''On this page''), toc_links = map (toc_entry docName) items,
                has_toc = True, toc_items = items, toc_visible = {}\<rparr>))"

subsection \<open>Scroll spy\<close>

text \<open>
  The observer's callback. \<open>links[it.id] = a\<close> keeps the last entry of an id, so a toggle reaches
  entry \<open>k\<close> only when no later entry has its id.
\<close>

fun update_visible :: "(jstr \<times> bool) list \<Rightarrow> jstr set \<Rightarrow> jstr set" where
  "update_visible [] V = V"
| "update_visible ((i, isIntersecting) # es) V =
     update_visible es (if isIntersecting then insert i V else V - {i})"

definition first_visible :: "toc_item list \<Rightarrow> jstr set \<Rightarrow> jstr option" where
  "first_visible items V = map_option it_id (List.find (\<lambda>it. it_id it \<in> V) items)"

fun toggle_links :: "jstr \<Rightarrow> toc_link list \<Rightarrow> toc_link list" where
  "toggle_links activeId [] = []"
| "toggle_links activeId (a # as) =
     (if a_id a \<in> a_id ` set as then a
      else a\<lparr>a_class := cl_force (js ''active'') (a_id a = activeId) (a_class a)\<rparr>)
     # toggle_links activeId as"

definition observe :: "(jstr \<times> bool) list \<Rightarrow> toc \<Rightarrow> toc" where
  "observe entries t =
     (let V = update_visible entries (toc_visible t); t' = t\<lparr>toc_visible := V\<rparr>
      in case first_visible (toc_items t) V of
           None \<Rightarrow> t'
         | Some activeId \<Rightarrow>
             if activeId = [] then t'
             else t'\<lparr>toc_links := toggle_links activeId (toc_links t)\<rparr>)"

section \<open>Slugs\<close>

definition slug_char :: "jchar \<Rightarrow> bool" where
  "slug_char c \<longleftrightarrow> is_word c \<and> \<not> is_upper c \<or> c = hyphen"

lemma slug_char_not_space: "slug_char c \<Longrightarrow> \<not> is_space c"
  by (auto simp: slug_char_def is_word_not_space)

lemma slug_char_not_colon: "slug_char c \<Longrightarrow> c \<noteq> colon"
  by (auto simp: slug_char_def is_word_def)

lemma slug_char_not_bad: "slug_char c \<Longrightarrow> \<not> slug_bad c"
  by (auto simp: slug_char_def slug_bad_def)

lemma is_upper_hyphen [simp]: "\<not> is_upper hyphen"
  by (simp add: is_upper_def)

lemma slug_char_not_upper: "slug_char c \<Longrightarrow> \<not> is_upper c"
  by (auto simp: slug_char_def)

lemma hyphen_slug_char [simp]: "slug_char hyphen"
  by (simp add: slug_char_def)

definition slug_core :: "jstr \<Rightarrow> jstr" where
  "slug_core text = replace_runs is_space [hyphen] (remove_chars slug_bad (toLowerCase text))"

lemma slug_core_chars: "c \<in> set (slug_core text) \<Longrightarrow> slug_char c"
  unfolding slug_core_def
  by (drule set_replace_runs)
    (auto simp: remove_chars_def slug_bad_def slug_char_def dest: is_upper_toLowerCase)

lemma slug_core_hyphens:
  assumes "c \<in> set (replace_runs (\<lambda>c. c = hyphen) [hyphen] (slug_core text))"
  shows "slug_char c"
proof -
  from set_replace_runs [OF assms] have "c = hyphen \<or> c \<in> set (slug_core text)" by auto
  then show ?thesis using slug_core_chars hyphen_slug_char by blast
qed

lemma slug_untrimmed:
  "generateSlug text = replace_runs (\<lambda>c. c = hyphen) [hyphen] (slug_core text)"
proof -
  have "\<forall>c \<in> set (replace_runs (\<lambda>c. c = hyphen) [hyphen] (slug_core text)). \<not> is_space c"
    using slug_core_hyphens slug_char_not_space by blast
  then show ?thesis unfolding generateSlug_def slug_core_def by (rule trim_id)
qed

lemma slug_chars: "c \<in> set (generateSlug text) \<Longrightarrow> slug_char c"
  unfolding slug_untrimmed by (rule slug_core_hyphens)

text \<open>No two hyphens in a row.\<close>

fun single_hyphens :: "jstr \<Rightarrow> bool" where
  "single_hyphens (a # b # s) = (\<not> (a = hyphen \<and> b = hyphen) \<and> single_hyphens (b # s))"
| "single_hyphens s = True"

lemma single_hyphens_Cons:
  "single_hyphens s \<Longrightarrow> a \<noteq> hyphen \<or> s = [] \<or> hd s \<noteq> hyphen \<Longrightarrow> single_hyphens (a # s)"
  by (cases s) auto

lemma hd_replace_runs:
  "s \<noteq> [] \<Longrightarrow> \<not> P (hd s) \<Longrightarrow> replace_runs P r s \<noteq> [] \<and> hd (replace_runs P r s) = hd s"
  by (cases s) auto

lemma single_hyphens_replace: "single_hyphens (replace_runs (\<lambda>c. c = hyphen) [hyphen] s)"
proof (induction "\<lambda>c :: jchar. c = hyphen" "[hyphen]" s rule: replace_runs.induct)
  case (2 c s)
  show ?case
  proof (cases "c = hyphen")
    case True
    let ?t = "dropWhile (\<lambda>c. c = hyphen) s"
    have "?t = [] \<or> hd ?t \<noteq> hyphen" by (meson hd_dropWhile)
    then have "replace_runs (\<lambda>c. c = hyphen) [hyphen] ?t = [] \<or>
        hd (replace_runs (\<lambda>c. c = hyphen) [hyphen] ?t) \<noteq> hyphen"
      using hd_replace_runs [of ?t "\<lambda>c. c = hyphen" "[hyphen]"] by fastforce
    with 2(1) [OF True] True show ?thesis
      by (simp add: single_hyphens_Cons)
  next
    case False
    with 2(2) show ?thesis by (simp add: single_hyphens_Cons)
  qed
qed simp

lemma replace_single_hyphens:
  "single_hyphens s \<Longrightarrow> replace_runs (\<lambda>c. c = hyphen) [hyphen] s = s"
proof (induction s rule: single_hyphens.induct)
  case (1 a b s)
  then show ?case by auto
qed auto

lemma slug_id:
  assumes "\<forall>c \<in> set s. slug_char c" and "single_hyphens s"
  shows "generateSlug s = s"
proof -
  have "toLowerCase s = s"
  proof -
    have "\<not> is_upper c" if "c \<in> set s" for c
      using assms(1) that by (simp add: slug_char_not_upper)
    then show ?thesis by (simp add: toLowerCase_def lower_char_id map_idI)
  qed
  moreover have "remove_chars slug_bad s = s"
    using assms(1) by (simp add: remove_chars_def slug_char_not_bad)
  moreover have "replace_runs is_space [hyphen] s = s"
    using assms(1) by (simp add: slug_char_not_space)
  ultimately show ?thesis
    using assms(2) by (simp add: slug_untrimmed slug_core_def replace_single_hyphens)
qed

section \<open>Anchors\<close>

lemma textContent_heading_anchor [simp]: "textContent (heading_anchor d t s) = [hash_sign]"
  by (simp add: heading_anchor_def)

definition is_anchored :: "node \<Rightarrow> bool" where
  "is_anchored n \<longleftrightarrow> has_tag (js ''h1'') n \<or> has_tag (js ''h2'') n"

lemma serialise_tag [simp]: "has_tag t (serialise n) = has_tag t n"
  by (cases n) (auto simp: has_tag_def)

lemma node_id_serialise [simp]: "node_id (serialise n) = node_id n"
  by (cases n) (auto simp: node_id_def)

lemma anchor_node_tag [simp]: "has_tag t (anchor_node d n) = has_tag t n"
  by (cases n) (auto simp: has_tag_def Let_def)

text \<open>What \<open>addHeadingAnchors\<close> makes of one heading.\<close>

lemma anchored_heading:
  assumes "is_anchored h"
  shows "node_id (anchor_node d h) = generateSlug (textContent h)"
    and "last (children (anchor_node d h)) = heading_anchor d (textContent h) (generateSlug (textContent h))"
  using assms by (cases h; simp add: is_anchored_def node_id_def Let_def)+

lemma tree_rewrite_anchor: "tree_rewrite (\<lambda>n. serialise (anchor_node d n))"
  by (auto simp: tree_rewrite_def Let_def)

lemma rendered_heading:
  assumes "h \<in> set (querySelectorAll P html)"
    and "\<And>n. P n \<Longrightarrow> P (serialise (anchor_node d n))"
  shows "serialise (anchor_node d h) \<in> set (querySelectorAll P (addHeadingAnchors html d))"
  unfolding addHeadingAnchors_def
  by (rule querySelectorAll_rewrite [OF tree_rewrite_anchor]) (use assms in auto)

lemma rendered_no_listeners: "n \<in> set (addHeadingAnchors html d) \<Longrightarrow> all_listeners n = []"
  by (auto simp: addHeadingAnchors_def)

section \<open>Table of contents\<close>

lemma strip_trailing_hash_snoc: "strip_trailing_hash (s @ [hash_sign]) = s"
proof (induction s)
  case (Cons c s)
  have "\<not> is_space hash_sign" by (simp add: is_space_def)
  with Cons.IH show ?case by simp
qed simp

lemma textContent_anchor_leaf:
  "query is_anchored k = [] \<Longrightarrow> textContent (anchor_node d k) = textContent k"
  by (induction k) (auto simp: is_anchored_def comp_def split: if_splits cong: map_cong)

lemma toc_text_anchored:
  assumes "is_anchored h" "\<forall>k \<in> set (children h). query is_anchored k = []"
  shows "toc_text (serialise (anchor_node d h)) = trim (textContent h)"
proof (cases h)
  case (Elem t as ls ks)
  have "map (\<lambda>k. textContent (anchor_node d k)) ks = map textContent ks"
    using assms(2) Elem by (simp add: textContent_anchor_leaf)
  moreover have "t = js ''h1'' \<or> t = js ''h2''"
    using assms(1) Elem by (auto simp: is_anchored_def)
  ultimately have "textContent (anchor_node d h) = textContent h @ [hash_sign]"
    by (auto simp: Elem Let_def comp_def cong: map_cong)
  then show ?thesis by (simp add: toc_text_def strip_trailing_hash_snoc)
qed (use assms in \<open>simp add: is_anchored_def\<close>)

lemma textContent_assign_ids [simp]: "textContent (assign_ids n) = textContent n"
  by (induction n) (simp_all add: Let_def comp_def cong: map_cong)

lemma has_tag_assign_ids [simp]: "has_tag t (assign_ids n) = has_tag t n"
  by (cases n) (simp_all add: Let_def)

lemma node_id_assign_ids: "node_id n \<noteq> [] \<Longrightarrow> node_id (assign_ids n) = node_id n"
  by (cases n) (simp_all add: Let_def)

lemma tree_rewrite_assign_ids: "tree_rewrite assign_ids"
  by (auto simp: tree_rewrite_def Let_def)

section \<open>Scroll spy\<close>

definition link_active :: "toc_link \<Rightarrow> bool" where
  "link_active a \<longleftrightarrow> cl_contains (a_class a) (js ''active'')"

text \<open>Only the last entry of an id is ever marked.\<close>

fun last_only :: "toc_link list \<Rightarrow> bool" where
  "last_only [] = True"
| "last_only (a # as) = ((a_id a \<in> a_id ` set as \<longrightarrow> \<not> link_active a) \<and> last_only as)"

lemma a_id_toggle [simp]: "map a_id (toggle_links i as) = map a_id as"
  by (induction as) simp_all

lemma a_id_image_toggle [simp]: "a_id ` set (toggle_links i as) = a_id ` set as"
  by (metis a_id_toggle set_map)

lemma toggle_links_last_only: "last_only as \<Longrightarrow> last_only (toggle_links i as)"
  by (induction as) (auto simp: link_active_def)

lemma toggle_links_active:
  "last_only as \<Longrightarrow> a \<in> set (toggle_links i as) \<Longrightarrow> link_active a \<Longrightarrow> a_id a = i"
  by (induction as) (auto simp: link_active_def split: if_splits)

lemma toggle_links_marks:
  "last_only as \<Longrightarrow> length (filter link_active (toggle_links i as)) = (if i \<in> a_id ` set as then 1 else 0)"
proof (induction as)
  case (Cons a as)
  then show ?case
    by (cases "a_id a \<in> a_id ` set as") (auto simp: link_active_def)
qed simp

definition toc_inv :: "toc \<Rightarrow> bool" where
  "toc_inv t \<longleftrightarrow> map a_id (toc_links t) = map it_id (toc_items t) \<and> last_only (toc_links t) \<and>
     length (filter link_active (toc_links t)) \<le> 1"

lemma toc_entry_simps [simp]:
  "a_id (toc_entry d it) = it_id it" "\<not> link_active (toc_entry d it)"
  by (simp_all add: toc_entry_def link_active_def cl_contains_def)

lemma last_only_fresh: "\<forall>a \<in> set as. \<not> link_active a \<Longrightarrow> last_only as"
  by (induction as) auto

lemma toc_inv_build: "toc_inv (snd (buildTableOfContents content d))"
  by (auto simp: buildTableOfContents_def toc_inv_def Let_def comp_def filter_empty_conv
      intro!: last_only_fresh)

lemma first_visible_SomeD:
  "first_visible items V = Some i \<Longrightarrow> i \<in> it_id ` set items \<and> i \<in> V"
  by (auto simp: first_visible_def find_Some_iff)

lemma toc_inv_observe: "toc_inv t \<Longrightarrow> toc_inv (observe es t)"
  by (auto simp: toc_inv_def observe_def Let_def toggle_links_last_only toggle_links_marks
      split: option.splits)

text \<open>
  the slug of every heading text consists of lower-case ASCII letters, digits, underscores and
  hyphens only, never has two hyphens in a row, and is stable: slugging a slug changes nothing.
\<close>

theorem generateSlug_shape:
  "(\<forall>c. c \<in> set (generateSlug text) \<longrightarrow> slug_char c) \<and> single_hyphens (generateSlug text)
   \<and> generateSlug (generateSlug text) = generateSlug text"
proof -
  have "single_hyphens (generateSlug text)"
    by (simp add: slug_untrimmed single_hyphens_replace)
  then show ?thesis by (auto intro: slug_chars slug_id)
qed

theorem generateSlug_shape_witness:
  "generateSlug (js ''Hello,  World!'') = js ''hello-world''
   \<and> generateSlug (generateSlug (js ''Hello,  World!'')) = generateSlug (js ''Hello,  World!'')"
proof -
  have "generateSlug (js ''Hello,  World!'') = js ''hello-world''" by code_simp
  then show ?thesis using generateSlug_shape [of "js ''Hello,  World!''"] by blast
qed

text \<open>
  deep links land: for every \<open>h1\<close> or \<open>h2\<close> of a document whose slug is not empty, the rendered
  document has an anchor on that heading whose \<open>href\<close> parses back to this document and the slug, and
  looking the slug up by id in the rendered document finds an element with that id.
\<close>

theorem heading_deep_link:
  assumes "h \<in> set (querySelectorAll is_anchored html)" "generateSlug (textContent h) \<noteq> []"
    and "d \<noteq> []" "colon \<notin> set d"
  shows "\<exists>r a. r \<in> set (querySelectorAll is_anchored (addHeadingAnchors html d)) \<and>
     node_id r = generateSlug (textContent h) \<and> last (children r) = a \<and>
     parseHash (get_attr (js ''href'') (attributes a)) =
       \<lparr>hd_view = js ''docs'', hd_doc = Some d, hd_section = Some (generateSlug (textContent h)),
        hd_target = None\<rparr> \<and>
     (\<exists>e. getElementById (generateSlug (textContent h)) (addHeadingAnchors html d) = Some e \<and>
        node_id e = generateSlug (textContent h))"
proof -
  let ?s = "generateSlug (textContent h)"
  let ?r = "serialise (anchor_node d h)"
  have anch: "is_anchored h"
    using assms(1) by (auto simp: querySelectorAll_def dest: query_sat)
  have r: "?r \<in> set (querySelectorAll is_anchored (addHeadingAnchors html d))"
    by (rule rendered_heading [OF assms(1)]) (simp add: is_anchored_def)
  have i: "node_id ?r = ?s" using anchored_heading(1) [OF anch] by simp
  have l: "last (children ?r) = serialise (heading_anchor d (textContent h) ?s)"
    using anch by (cases h) (auto simp: is_anchored_def Let_def)
  have "colon \<notin> set ?s" using slug_chars slug_char_not_colon by blast
  then have "parseHash (get_attr (js ''href'') (attributes (serialise (heading_anchor d (textContent h) ?s)))) =
      \<lparr>hd_view = js ''docs'', hd_doc = Some d, hd_section = Some ?s, hd_target = None\<rparr>"
    using assms(2-4) by (simp add: heading_anchor_def get_attr_def parseHash_buildHash_section)
  with r i l getElementById_exists [OF r i assms(2)] show ?thesis by blast
qed

theorem heading_deep_link_witness:
  "\<exists>e. getElementById (js ''intro'')
     (addHeadingAnchors [Elem (js ''h2'') [] [] [Text (js ''Intro'')]] (js ''mcp/intro'')) = Some e
     \<and> node_id e = js ''intro''"
proof -
  have s: "generateSlug (textContent (Elem (js ''h2'') [] [] [Text (js ''Intro'')])) = js ''intro''"
    by (simp add: generateSlug_def remove_chars_def slug_bad_def char_classes js_eval trim_def)
  show ?thesis
    using heading_deep_link [of "Elem (js ''h2'') [] [] [Text (js ''Intro'')]"
        "[Elem (js ''h2'') [] [] [Text (js ''Intro'')]]" "js ''mcp/intro''", unfolded s]
    by (auto simp: querySelectorAll_def is_anchored_def js_eval)
qed

text \<open>
  the anchors the reader clicks carry no click handler. \<open>addHeadingAnchors\<close> registers one on each
  anchor and then returns \<open>innerHTML\<close>, which drops all of them, so no node of the rendered document
  has a listener although every anchored heading was given one.
\<close>

theorem anchors_lose_their_handlers:
  "(\<forall>n. n \<in> set (addHeadingAnchors html d) \<longrightarrow> all_listeners n = []) \<and>
   (\<forall>h. is_anchored h \<longrightarrow>
      AnchorClick d (generateSlug (textContent h)) \<in> set (all_listeners (anchor_node d h)))"
proof -
  have "AnchorClick d (generateSlug (textContent h)) \<in> set (all_listeners (anchor_node d h))"
    if "is_anchored h" for h
    using that by (cases h) (auto simp: is_anchored_def Let_def heading_anchor_def)
  then show ?thesis by (simp add: rendered_no_listeners)
qed

theorem anchors_lose_their_handlers_witness:
  "AnchorClick (js ''d'') (generateSlug (js ''A''))
     \<in> set (all_listeners (anchor_node (js ''d'') (Elem (js ''h1'') [] [] [Text (js ''A'')])))
   \<and> all_listeners (hd (addHeadingAnchors [Elem (js ''h1'') [] [] [Text (js ''A'')]] (js ''d''))) = []"
  using anchors_lose_their_handlers [of "[Elem (js ''h1'') [] [] [Text (js ''A'')]]" "js ''d''"]
  by (auto simp: is_anchored_def addHeadingAnchors_def Let_def heading_anchor_def)

text \<open>
  the table of contents lists every \<open>h2\<close> of a document (with text, and no heading nested in it)
  under its own trimmed text, at level 2: the number sign that the anchor added is stripped again,
  also when the heading itself ends in one; and the entry's id is the heading's slug.
\<close>

theorem toc_shows_heading_text:
  assumes "h \<in> set (querySelectorAll (has_tag (js ''h2'')) html)"
    and "\<forall>k \<in> set (children h). query is_anchored k = []" and "trim (textContent h) \<noteq> []"
    and "generateSlug (textContent h) \<noteq> []"
  shows "\<exists>it \<in> set (collect_items (fst (buildTableOfContents (addHeadingAnchors html d) d))).
    it_text it = trim (textContent h) \<and> it_level it = 2 \<and> it_id it = generateSlug (textContent h)"
proof -
  let ?r = "serialise (anchor_node d h)" and ?c = "addHeadingAnchors html d"
  let ?a = "assign_ids ?r"
  have h2: "has_tag (js ''h2'') h"
    using assms(1) by (auto simp: querySelectorAll_def dest: query_sat)
  then have anch: "is_anchored h" and not3: "\<not> has_tag (js ''h3'') h"
    by (auto simp: is_anchored_def has_tag_def split: node.splits)
  have "?r \<in> set (querySelectorAll (has_tag (js ''h2'')) ?c)"
    by (rule rendered_heading [OF assms(1)]) simp
  then have "?a \<in> set (querySelectorAll (has_tag (js ''h2'')) (map assign_ids ?c))"
    by (intro querySelectorAll_rewrite [OF tree_rewrite_assign_ids]) simp_all
  then have q: "?a \<in> set (querySelectorAll is_toc_heading (map assign_ids ?c))"
    by (rule querySelectorAll_mono) (use h2 in \<open>simp add: is_toc_heading_def\<close>)
  have t: "toc_text ?a = trim (textContent h)"
    using toc_text_anchored [OF anch assms(2)] by (simp add: toc_text_def)
  have i: "node_id ?a = generateSlug (textContent h)"
    using anchored_heading(1) [OF anch, of d] assms(4) by (simp add: node_id_assign_ids)
  have "\<lparr>it_id = node_id ?a, it_text = toc_text ?a, it_level = (if has_tag (js ''h3'') ?a then 3 else 2)\<rparr>
      \<in> set (collect_items (map assign_ids ?c))"
    unfolding collect_items_def set_map by (rule imageI) (use q t assms(3) in simp)
  moreover have "fst (buildTableOfContents ?c d) = map assign_ids ?c"
    by (simp add: buildTableOfContents_def Let_def)
  ultimately show ?thesis using t i not3 by (auto intro!: bexI)
qed

theorem toc_shows_heading_text_witness:
  "\<exists>it \<in> set (collect_items (fst (buildTableOfContents
       (addHeadingAnchors [Elem (js ''h2'') [] [] [Text (js ''C#'')]] (js ''d'')) (js ''d'')))).
    it_text it = js ''C#'' \<and> it_level it = 2 \<and> it_id it = js ''c''"
proof -
  let ?h = "Elem (js ''h2'') [] [] [Text (js ''C#'')]"
  have h: "?h \<in> set (querySelectorAll (has_tag (js ''h2'')) [?h])"
    "\<forall>k \<in> set (children ?h). query is_anchored k = []"
    by (simp_all add: querySelectorAll_def)
  have t: "trim (textContent ?h) = js ''C#''"
    by (simp add: trim_def is_space_def js_eval)
  have g: "generateSlug (textContent ?h) = js ''c''"
    by (simp add: generateSlug_def remove_chars_def slug_bad_def char_classes js_eval trim_def)
  have "trim (textContent ?h) \<noteq> []" "generateSlug (textContent ?h) \<noteq> []"
    unfolding t g by (simp_all add: js_eval)
  from toc_shows_heading_text [OF h this, of "js ''d''"] show ?thesis
    unfolding t g .
qed

text \<open>
  the scroll spy marks at most one entry, at every moment: right after the table of contents is
  built and after any sequence of observer callbacks; and whenever a callback finds a visible
  heading with an id, exactly one entry is marked, the one whose id is the first visible heading's.
\<close>

theorem scroll_spy_marks_one:
  "toc_inv (fold observe ess (snd (buildTableOfContents content d))) \<and>
   (\<forall>t es i. toc_inv t \<and> first_visible (toc_items t) (update_visible es (toc_visible t)) = Some i \<and> i \<noteq> []
      \<longrightarrow> length (filter link_active (toc_links (observe es t))) = 1 \<and>
          (\<forall>a \<in> set (toc_links (observe es t)). link_active a \<longrightarrow> a_id a = i))"
proof -
  have "toc_inv t \<Longrightarrow> toc_inv (fold observe ess t)" for t
    by (induction ess arbitrary: t) (simp_all add: toc_inv_observe)
  moreover have "length (filter link_active (toc_links (observe es t))) = 1 \<and>
      (\<forall>a \<in> set (toc_links (observe es t)). link_active a \<longrightarrow> a_id a = i)"
    if "toc_inv t" and i: "first_visible (toc_items t) (update_visible es (toc_visible t)) = Some i" "i \<noteq> []"
    for t es i
  proof -
    have links: "toc_links (observe es t) = toggle_links i (toc_links t)"
      using i by (simp add: observe_def Let_def)
    have lo: "last_only (toc_links t)" and "map a_id (toc_links t) = map it_id (toc_items t)"
      using that(1) by (simp_all add: toc_inv_def)
    then have ids: "a_id ` set (toc_links t) = it_id ` set (toc_items t)"
      by (metis set_map)
    have "i \<in> a_id ` set (toc_links t)"
      using first_visible_SomeD [OF i(1)] ids by simp
    with lo show ?thesis
      unfolding links by (auto simp: toggle_links_marks dest: toggle_links_active)
  qed
  ultimately show ?thesis by (auto simp: toc_inv_build)
qed

theorem scroll_spy_marks_one_witness:
  "length (filter link_active (toc_links (observe [(js ''b'', True)]
     \<lparr>toc_title = None,
      toc_links = map (toc_entry (js ''d''))
        [\<lparr>it_id = js ''a'', it_text = js ''A'', it_level = 2\<rparr>, \<lparr>it_id = js ''b'', it_text = js ''B'', it_level = 3\<rparr>],
      has_toc = True,
      toc_items = [\<lparr>it_id = js ''a'', it_text = js ''A'', it_level = 2\<rparr>, \<lparr>it_id = js ''b'', it_text = js ''B'', it_level = 3\<rparr>],
      toc_visible = {}\<rparr>))) = 1"
proof -
  let ?its = "[\<lparr>it_id = js ''a'', it_text = js ''A'', it_level = 2\<rparr>, \<lparr>it_id = js ''b'', it_text = js ''B'', it_level = 3\<rparr>]"
  let ?t = "\<lparr>toc_title = None, toc_links = map (toc_entry (js ''d'')) ?its, has_toc = True,
    toc_items = ?its, toc_visible = {}\<rparr>"
  have "toc_inv ?t" by (simp add: toc_inv_def)
  moreover have "first_visible (toc_items ?t) (update_visible [(js ''b'', True)] (toc_visible ?t)) = Some (js ''b'')"
    by (simp add: first_visible_def)
  moreover have "js ''b'' \<noteq> []" by (simp add: js_eval)
  ultimately show ?thesis
    using scroll_spy_marks_one [THEN conjunct2] by blast
qed

end
