(* ===== verification/Lazy_Load.thy ===== *)
theory Lazy_Load
  imports Routing
begin

text \<open>
  Lazily loaded libraries (\<open>docs/ui/assets/app.js\<close>, \<open>ensureMermaid\<close> and \<open>ensureHljs\<close>): a library is
  fetched by appending a script element, at most one at a time, and the promise is kept in a
  variable until the script fails. Both functions follow one protocol, stated as the locale
  \<open>lazy_script\<close>; its consequences are proved once and hold for both.
\<close>

section \<open>Definitions\<close>

datatype script_state = Loading | Loaded | Failed

record script =
  src :: jstr
  state :: script_state

text \<open>
  The page's view of one library: \<open>window.<lib>\<close> is set or not, the variable that keeps the promise
  (the index of the script it belongs to), and the script elements appended so far.
\<close>

record lazy_lib =
  global :: bool
  memo :: "nat option"
  scripts :: "script list"

definition no_lib :: lazy_lib where
  "no_lib = \<lparr>global = False, memo = None, scripts = []\<rparr>"

text \<open>What the caller gets: the library at once, or the promise of script \<open>k\<close>.\<close>

datatype ticket = Resolved | Promise nat

definition ensureMermaid :: "jstr \<Rightarrow> lazy_lib \<Rightarrow> ticket \<times> lazy_lib" where
  "ensureMermaid pathname l =
     (if global l then (Resolved, l)
      else case memo l of
        Some k \<Rightarrow> (Promise k, l)
      | None \<Rightarrow>
          let k = length (scripts l) in
          (Promise k,
           l\<lparr>memo := Some k,
             scripts := scripts l @ [\<lparr>src = buildUrl pathname (js ''assets/mermaid.min.js''), state = Loading\<rparr>]\<rparr>))"

definition ensureHljs :: "jstr \<Rightarrow> lazy_lib \<Rightarrow> ticket \<times> lazy_lib" where
  "ensureHljs pathname l =
     (if global l then (Resolved, l)
      else case memo l of
        Some k \<Rightarrow> (Promise k, l)
      | None \<Rightarrow>
          let k = length (scripts l) in
          (Promise k,
           l\<lparr>memo := Some k,
             scripts := scripts l @ [\<lparr>src = buildUrl pathname (js ''assets/highlight.min.js''), state = Loading\<rparr>]\<rparr>))"

text \<open>
  The handlers on the script element. Running the script sets the global; \<open>onload\<close> resolves the
  promise with it. \<open>onerror\<close> forgets the promise before rejecting it.
\<close>

definition script_onload :: "nat \<Rightarrow> lazy_lib \<Rightarrow> lazy_lib" where
  "script_onload k l = l\<lparr>global := True, scripts := (scripts l)[k := (scripts l ! k)\<lparr>state := Loaded\<rparr>]\<rparr>"

definition script_onerror :: "nat \<Rightarrow> lazy_lib \<Rightarrow> lazy_lib" where
  "script_onerror k l = l\<lparr>memo := None, scripts := (scripts l)[k := (scripts l ! k)\<lparr>state := Failed\<rparr>]\<rparr>"

text \<open>A step of the page: a caller asks for the library, or a script element finishes.\<close>

inductive lib_step :: "(lazy_lib \<Rightarrow> ticket \<times> lazy_lib) \<Rightarrow> lazy_lib \<Rightarrow> lazy_lib \<Rightarrow> bool"
  for ensure :: "lazy_lib \<Rightarrow> ticket \<times> lazy_lib" where
  ask: "lib_step ensure l (snd (ensure l))"
| load: "k < length (scripts l) \<Longrightarrow> state (scripts l ! k) = Loading \<Longrightarrow> lib_step ensure l (script_onload k l)"
| fail: "k < length (scripts l) \<Longrightarrow> state (scripts l ! k) = Loading \<Longrightarrow> lib_step ensure l (script_onerror k l)"

inductive lib_reach :: "(lazy_lib \<Rightarrow> ticket \<times> lazy_lib) \<Rightarrow> lazy_lib \<Rightarrow> bool"
  for ensure :: "lazy_lib \<Rightarrow> ticket \<times> lazy_lib" where
  start: "lib_reach ensure no_lib"
| step: "lib_reach ensure l \<Longrightarrow> lib_step ensure l l' \<Longrightarrow> lib_reach ensure l'"

inductive_cases lib_stepE: "lib_step ensure l l'"

definition in_state :: "script_state \<Rightarrow> lazy_lib \<Rightarrow> nat set" where
  "in_state st l = {k. k < length (scripts l) \<and> state (scripts l ! k) = st}"

text \<open>
  Every script but the remembered one has failed; the remembered one is loading until the library
  is there, and loaded from then on.
\<close>

definition lib_inv :: "lazy_lib \<Rightarrow> bool" where
  "lib_inv l \<longleftrightarrow>
     (\<forall>j < length (scripts l). state (scripts l ! j) =
        (if memo l = Some j then (if global l then Loaded else Loading) else Failed)) \<and>
     (\<forall>k. memo l = Some k \<longrightarrow> k < length (scripts l)) \<and>
     (global l \<longrightarrow> memo l \<noteq> None)"

lemma in_stateD:
  assumes "lib_inv l" "k \<in> in_state st l" "st \<noteq> Failed"
  shows "memo l = Some k \<and> k < length (scripts l) \<and> (global l \<longleftrightarrow> st = Loaded)"
proof -
  have k: "k < length (scripts l)" "state (scripts l ! k) = st"
    using assms(2) by (simp_all add: in_state_def)
  with assms(1,3) have "(if memo l = Some k then (if global l then Loaded else Loading) else Failed) = st"
    by (simp add: lib_inv_def)
  with assms(3) k(1) show ?thesis by (auto split: if_splits)
qed

lemma lib_inv_onload:
  assumes "lib_inv l" "k \<in> in_state Loading l"
  shows "lib_inv (script_onload k l)"
proof -
  note m = in_stateD [OF assms, simplified]
  have "state (scripts (script_onload k l) ! j) =
      (if memo l = Some j then Loaded else Failed)" if "j < length (scripts l)" for j
    using that m assms(1) by (cases "j = k") (simp_all add: script_onload_def lib_inv_def)
  with m show ?thesis by (simp add: lib_inv_def script_onload_def)
qed

lemma lib_inv_onerror:
  assumes "lib_inv l" "k \<in> in_state Loading l"
  shows "lib_inv (script_onerror k l)"
proof -
  note m = in_stateD [OF assms, simplified]
  have "state (scripts (script_onerror k l) ! j) = Failed" if "j < length (scripts l)" for j
    using that m assms(1) by (cases "j = k") (simp_all add: script_onerror_def lib_inv_def)
  with m show ?thesis by (simp add: lib_inv_def script_onerror_def)
qed

lemma src_finish:
  "src ` set (scripts (script_onload k l)) \<subseteq> src ` set (scripts l)"
  "src ` set (scripts (script_onerror k l)) \<subseteq> src ` set (scripts l)"
proof -
  have "map src ((scripts l)[k := (scripts l ! k)\<lparr>state := st\<rparr>]) = map src (scripts l)" for st
    by (cases "k < length (scripts l)") (simp_all add: map_update list_update_same_conv list_update_beyond)
  then have "src ` set ((scripts l)[k := (scripts l ! k)\<lparr>state := st\<rparr>]) = src ` set (scripts l)" for st
    by (metis set_map)
  then show "src ` set (scripts (script_onload k l)) \<subseteq> src ` set (scripts l)"
    "src ` set (scripts (script_onerror k l)) \<subseteq> src ` set (scripts l)"
    by (simp_all add: script_onload_def script_onerror_def)
qed

section \<open>The protocol\<close>

locale lazy_script =
  fixes ensure :: "lazy_lib \<Rightarrow> ticket \<times> lazy_lib" and url :: jstr
  assumes ensure_present: "global l \<Longrightarrow> ensure l = (Resolved, l)"
    and ensure_pending: "\<not> global l \<Longrightarrow> memo l = Some k \<Longrightarrow> ensure l = (Promise k, l)"
    and ensure_start: "\<not> global l \<Longrightarrow> memo l = None \<Longrightarrow>
      ensure l = (Promise (length (scripts l)),
        l\<lparr>memo := Some (length (scripts l)), scripts := scripts l @ [\<lparr>src = url, state = Loading\<rparr>]\<rparr>)"
begin

lemma ask_keeps: "global l \<or> memo l \<noteq> None \<Longrightarrow> snd (ensure l) = l"
  by (cases "global l"; cases "memo l") (simp_all add: ensure_present ensure_pending)

lemma inv_ask:
  assumes "lib_inv l"
  shows "lib_inv (snd (ensure l))"
proof (cases "global l \<or> memo l \<noteq> None")
  case True
  with assms show ?thesis by (simp add: ask_keeps)
next
  case False
  with assms show ?thesis
    by (simp add: ensure_start lib_inv_def nth_append)
qed

lemma step_inv: "lib_step ensure l l' \<Longrightarrow> lib_inv l \<Longrightarrow> lib_inv l'"
  by (erule lib_stepE) (simp_all add: inv_ask lib_inv_onload lib_inv_onerror in_state_def)

lemma reach_inv: "lib_reach ensure l \<Longrightarrow> lib_inv l"
proof (induction rule: lib_reach.induct)
  case start
  show ?case by (simp add: lib_inv_def no_lib_def)
next
  case (step l l')
  then show ?case by (blast intro: step_inv)
qed

lemma ask_src: "src ` set (scripts (snd (ensure l))) \<subseteq> insert url (src ` set (scripts l))"
  by (cases "global l \<or> memo l \<noteq> None") (auto simp: ask_keeps ensure_start)

lemma step_src: "lib_step ensure l l' \<Longrightarrow> src ` set (scripts l') \<subseteq> insert url (src ` set (scripts l))"
proof (erule lib_stepE)
  assume "l' = snd (ensure l)"
  then show ?thesis using ask_src by simp
next
  fix k assume "l' = script_onload k l"
  then show ?thesis using src_finish(1) [of k l] by auto
next
  fix k assume "l' = script_onerror k l"
  then show ?thesis using src_finish(2) [of k l] by auto
qed

lemma reach_src: "lib_reach ensure l \<Longrightarrow> src ` set (scripts l) \<subseteq> {url}"
proof (induction rule: lib_reach.induct)
  case start
  show ?case by (simp add: no_lib_def)
next
  case (step l l')
  then show ?case using step_src by blast
qed

lemma at_most_one_loading:
  assumes "lib_reach ensure l" "j \<in> in_state Loading l \<union> in_state Loaded l"
    and "k \<in> in_state Loading l \<union> in_state Loaded l"
  shows "j = k"
proof -
  have "memo l = Some i" if "i \<in> in_state Loading l \<union> in_state Loaded l" for i
    using that in_stateD [OF reach_inv [OF assms(1)]] by blast
  from this [OF assms(2)] this [OF assms(3)] show ?thesis by simp
qed

lemma pending_again:
  assumes "lib_reach ensure l" "k \<in> in_state Loading l"
  shows "ensure l = (Promise k, l)"
  using in_stateD [OF reach_inv [OF assms(1)] assms(2)] by (simp add: ensure_pending)

lemma retry_after_failure:
  assumes "lib_reach ensure l" "k \<in> in_state Loading l"
  shows "fst (ensure (script_onerror k l)) = Promise (length (scripts l))"
  using in_stateD [OF reach_inv [OF assms(1)] assms(2)] by (simp add: script_onerror_def ensure_start)

end

interpretation mermaid: lazy_script "ensureMermaid p" "buildUrl p (js ''assets/mermaid.min.js'')" for p
  by unfold_locales (simp_all add: ensureMermaid_def Let_def)

interpretation hljs: lazy_script "ensureHljs p" "buildUrl p (js ''assets/highlight.min.js'')" for p
  by unfold_locales (simp_all add: ensureHljs_def Let_def)

section \<open>Properties\<close>

text \<open>
  however callers and script events interleave, at most one mermaid script element is loading or
  loaded (all others failed), and every one of them has the same URL.
\<close>

theorem mermaid_loaded_once:
  assumes "lib_reach (ensureMermaid p) l"
    and "j \<in> in_state Loading l \<union> in_state Loaded l" "k \<in> in_state Loading l \<union> in_state Loaded l"
  shows "j = k \<and> src (scripts l ! j) = buildUrl p (js ''assets/mermaid.min.js'')"
proof -
  have "scripts l ! j \<in> set (scripts l)" using assms(2) by (auto simp: in_state_def)
  then have "src (scripts l ! j) = buildUrl p (js ''assets/mermaid.min.js'')"
    using mermaid.reach_src [OF assms(1)] by blast
  with mermaid.at_most_one_loading [OF assms] show ?thesis by simp
qed

theorem mermaid_loaded_once_witness:
  "(0::nat) = 0 \<and> src (scripts (snd (ensureMermaid (js ''/'') no_lib)) ! 0) = js ''/assets/mermaid.min.js''"
proof -
  let ?l = "snd (ensureMermaid (js ''/'') no_lib)"
  have "lib_reach (ensureMermaid (js ''/'')) ?l"
    by (rule lib_reach.step [OF lib_reach.start lib_step.ask])
  moreover have "0 \<in> in_state Loading ?l \<union> in_state Loaded ?l"
    by (simp add: in_state_def ensureMermaid_def no_lib_def)
  moreover have "buildUrl (js ''/'') (js ''assets/mermaid.min.js'') = js ''/assets/mermaid.min.js''"
    by (simp add: buildUrl_def getBasePath_def html_suffix_at_def endsWith_def startsWith_def js_eval)
  ultimately show ?thesis
    using mermaid_loaded_once [of "js ''/''" ?l 0 0] by simp
qed

text \<open>
  a failed load of the highlighter is not sticky: after \<open>onerror\<close> the next call appends a new
  script element, and while a load is pending every further call returns the same promise without
  touching the page.
\<close>

theorem hljs_retries_after_failure:
  assumes "lib_reach (ensureHljs p) l" "k \<in> in_state Loading l"
  shows "fst (ensureHljs p (script_onerror k l)) = Promise (length (scripts l))
    \<and> ensureHljs p l = (Promise k, l)"
  using hljs.retry_after_failure [OF assms] hljs.pending_again [OF assms] by simp

theorem hljs_retries_after_failure_witness:
  "fst (ensureHljs (js ''/'') (script_onerror 0 (snd (ensureHljs (js ''/'') no_lib)))) = Promise 1
   \<and> ensureHljs (js ''/'') (snd (ensureHljs (js ''/'') no_lib)) = (Promise 0, snd (ensureHljs (js ''/'') no_lib))"
proof -
  let ?l = "snd (ensureHljs (js ''/'') no_lib)"
  have "lib_reach (ensureHljs (js ''/'')) ?l"
    by (rule lib_reach.step [OF lib_reach.start lib_step.ask])
  moreover have "0 \<in> in_state Loading ?l" "length (scripts ?l) = 1"
    by (simp_all add: in_state_def ensureHljs_def no_lib_def)
  ultimately show ?thesis
    using hljs_retries_after_failure [of "js ''/''" ?l 0] by simp
qed

end
