(* ===== verification/Code_Blocks.thy ===== *)
theory Code_Blocks
  imports Dom
begin

text \<open>
  Code blocks and diagrams of a rendered document (\<open>docs/ui/assets/app.js\<close>): the tree changes of
  \<open>renderMermaidDiagrams\<close> (a mermaid code block becomes a diagram container), \<open>attachDiagramControls\<close>
  and \<open>addCopyButton\<close>/\<open>enhanceCodeBlocks\<close>, and the label of a copy button over time. What the
  libraries do inside a container is left to them: \<open>mermaid.run\<close> is a parameter.
\<close>

section \<open>Definitions\<close>

subsection \<open>Mermaid diagrams\<close>

definition is_mermaid_code :: "node \<Rightarrow> bool" where
  "is_mermaid_code n \<longleftrightarrow> has_tag (js ''code'') n \<and> has_class (js ''language-mermaid'') n"

definition mermaid_blocks :: "node list \<Rightarrow> node list" where
  "mermaid_blocks = querySelectorAll is_mermaid_code"

definition mermaid_div :: "jstr \<Rightarrow> node" where
  "mermaid_div s = Elem (js ''div'') [(js ''class'', js ''mermaid'')] [] [Text s]"

text \<open>The mermaid blocks below a node that no \<open>pre\<close> separates from it.\<close>

primrec near_blocks :: "node \<Rightarrow> node list" where
  "near_blocks (Text s) = []"
| "near_blocks (Elem t as ls ks) =
     (if t = js ''pre'' then []
      else (if is_mermaid_code (Elem t as ls ks) then [Elem t as ls ks] else []) @ concat (map near_blocks ks))"

text \<open>
  \<open>(code.closest('pre') || code).replaceWith(div)\<close> for every block in document order: a \<open>pre\<close> is
  replaced for its first block (it is detached when a later block of it comes up), a block
  without \<open>pre\<close> is replaced itself.
\<close>

primrec to_diagram :: "node \<Rightarrow> node" where
  "to_diagram (Text s) = Text s"
| "to_diagram (Elem t as ls ks) =
     (if t = js ''pre'' \<and> concat (map near_blocks ks) \<noteq> []
      then mermaid_div (textContent (hd (concat (map near_blocks ks))))
      else if is_mermaid_code (Elem t as ls ks) then mermaid_div (textContent (Elem t as ls ks))
      else Elem t as ls (map to_diagram ks))"

text \<open>
  \<open>renderMermaidDiagrams\<close>: without blocks nothing happens; when the library does not load, the
  raw blocks stay; otherwise the blocks are replaced before the library runs.
\<close>

definition renderMermaidDiagrams :: "bool \<Rightarrow> node list \<Rightarrow> node list" where
  "renderMermaidDiagrams library_loads container =
     (if mermaid_blocks container = [] then container
      else if \<not> library_loads then container
      else map to_diagram container)"

definition mermaid_theme :: "jstr option \<Rightarrow> jstr" where
  \<comment> \<open>the theme handed to \<open>mermaid.initialize\<close>, from the \<open>data-theme\<close> attribute\<close>
  "mermaid_theme data_theme = (if data_theme = Some (js ''light'') then js ''default'' else js ''dark'')"

definition zoom_button :: node where
  "zoom_button =
     Elem (js ''button'')
       [(js ''class'', js ''diagram-zoom-btn''), (js ''type'', js ''button''), (js ''title'', js ''Fullscreen''),
        (js ''aria-label'', js ''Open diagram fullscreen'')] [ZoomClick] []"

definition attachDiagramControls :: "node \<Rightarrow> node" where
  "attachDiagramControls container =
     (case container of
        Text s \<Rightarrow> Text s
      | Elem t as ls ks \<Rightarrow>
          if querySelectorAll (has_class (js ''diagram-zoom-btn'')) ks \<noteq> [] then Elem t as ls ks
          else if querySelectorAll (has_tag (js ''svg'')) ks = [] then Elem t as ls ks
          else Elem t as ls (ks @ [zoom_button]))"

subsection \<open>Copy buttons\<close>

definition is_plain_code :: "node \<Rightarrow> bool" where
  \<comment> \<open>\<open>code:not(.language-mermaid)\<close>\<close>
  "is_plain_code n \<longleftrightarrow> has_tag (js ''code'') n \<and> \<not> has_class (js ''language-mermaid'') n"

definition is_copy :: "node \<Rightarrow> bool" where
  "is_copy = has_class (js ''code-copy'')"

definition copy_button :: "jstr \<Rightarrow> node" where
  "copy_button code =
     Elem (js ''button'')
       [(js ''class'', js ''code-copy''), (js ''type'', js ''button''),
        (js ''aria-label'', js ''Copy code to clipboard'')]
       [CopyClick code] [Text (js ''Copy'')]"

text \<open>
  \<open>addCopyButton\<close> for every \<open>pre > code:not(.language-mermaid)\<close> in document order. When the first
  such child of a \<open>pre\<close> comes up, the children before it are already done; a button anywhere
  below the \<open>pre\<close> stops it.
\<close>

primrec add_copy :: "node \<Rightarrow> node" where
  "add_copy (Text s) = Text s"
| "add_copy (Elem t as ls ks) =
     (let done = map add_copy ks; i = length (takeWhile (\<lambda>k. \<not> is_plain_code k) ks) in
      if t = js ''pre'' \<and> i < length ks \<and> querySelectorAll is_copy (take i done @ drop i ks) = []
      then Elem t as ls (done @ [copy_button (textContent (ks ! i))])
      else Elem t as ls done)"

definition enhanceCodeBlocks :: "node list \<Rightarrow> node list" where
  "enhanceCodeBlocks container = map add_copy container"

text \<open>The label of a button: a click that settles sets it and starts a timer that resets it.\<close>

record copy_state =
  label :: jstr
  timers :: nat

definition fresh_copy :: copy_state where
  "fresh_copy = \<lparr>label = js ''Copy'', timers = 0\<rparr>"

datatype copy_event = Written | Write_failed | Timeout

fun copy_step :: "copy_event \<Rightarrow> copy_state \<Rightarrow> copy_state" where
  "copy_step Written c = c\<lparr>label := js ''Copied'', timers := timers c + 1\<rparr>"
| "copy_step Write_failed c = c\<lparr>label := js ''Error'', timers := timers c + 1\<rparr>"
| "copy_step Timeout c = (if timers c = 0 then c else c\<lparr>label := js ''Copy'', timers := timers c - 1\<rparr>)"

section \<open>Diagrams\<close>

lemma is_mermaid_Elem:
  "is_mermaid_code (Elem t as ls ks) \<longleftrightarrow> t = js ''code'' \<and> js ''language-mermaid'' \<in> set (class_tokens as)"
  by (simp add: is_mermaid_code_def)

lemma is_mermaid_not_pre: "is_mermaid_code (Elem t as ls ks) \<Longrightarrow> t \<noteq> js ''pre''"
  by (auto simp: is_mermaid_code_def js_eval)

lemma query_mermaid_div [simp]: "query is_mermaid_code (mermaid_div s) = []"
  by (simp add: mermaid_div_def is_mermaid_code_def js_eval)

text \<open>Every mermaid block outside a \<open>pre\<close> is near; so replacing leaves none.\<close>

lemma to_diagram_removes: "query is_mermaid_code (to_diagram n) = []"
proof (induction n)
  case (Elem t as ls ks)
  then show ?case
    by (auto simp: is_mermaid_Elem)
qed simp

lemma near_blocks_query: "set (near_blocks n) \<subseteq> set (query is_mermaid_code n)"
  by (induction n) auto

lemma to_diagram_id: "query is_mermaid_code n = [] \<Longrightarrow> to_diagram n = n"
proof (induction n)
  case (Elem t as ls ks)
  then have "\<forall>k \<in> set ks. query is_mermaid_code k = []" by (auto split: if_splits)
  then have "\<forall>k \<in> set ks. near_blocks k = []"
    using near_blocks_query by (metis empty_set set_empty subset_empty)
  then have "concat (map near_blocks ks) = []" by simp
  moreover have "map to_diagram ks = ks"
    using Elem by (intro map_idI) (auto split: if_splits)
  ultimately show ?case using Elem.prems by (simp split: if_splits)
qed simp

text \<open>Documents as the markdown library renders them: a fenced block is a \<open>pre\<close> around one \<open>code\<close>.\<close>

primrec fenced :: "node \<Rightarrow> bool" where
  "fenced (Text s) = True"
| "fenced (Elem t as ls ks) =
     ((t = js ''pre'' \<and> concat (map near_blocks ks) \<noteq> [] \<longrightarrow>
        length ks = 1 \<and> is_mermaid_code (hd ks)) \<and> list_all fenced ks)"

lemma near_blocks_self: "is_mermaid_code n \<Longrightarrow> near_blocks n \<noteq> [] \<and> hd (near_blocks n) = n"
  by (cases n) (auto simp: is_mermaid_code_def js_eval)

lemma to_diagram_text: "fenced n \<Longrightarrow> textContent (to_diagram n) = textContent n"
proof (induction n)
  case (Elem t as ls ks)
  show ?case
  proof (cases "t = js ''pre'' \<and> concat (map near_blocks ks) \<noteq> []")
    case True
    with Elem.prems obtain k where k: "ks = [k]" "is_mermaid_code k"
      by (auto simp: length_Suc_conv)
    with True near_blocks_self [OF k(2)] show ?thesis by (simp add: mermaid_div_def)
  next
    case False
    have "\<forall>k \<in> set ks. textContent (to_diagram k) = textContent k"
      using Elem by (auto simp: list_all_iff)
    with False show ?thesis by (auto simp: mermaid_div_def comp_def cong: map_cong)
  qed
qed simp

section \<open>Copy buttons\<close>

lemma is_copy_button [simp]: "is_copy (copy_button s)"
  by (simp add: is_copy_def copy_button_def class_tokens_def get_attr_def js_eval
      split_runs.simps is_space_def)

lemma is_plain_code_copy [simp]: "\<not> is_plain_code (copy_button s)"
  by (simp add: is_plain_code_def copy_button_def js_eval)

text \<open>Every \<open>pre\<close> with a plain code child has a copy button below it.\<close>

definition needs_copy :: "node \<Rightarrow> bool" where
  "needs_copy n \<longleftrightarrow> has_tag (js ''pre'') n \<and> (\<exists>k \<in> set (children n). is_plain_code k)"

lemma is_plain_add_copy [simp]: "is_plain_code (add_copy k) = is_plain_code k"
  by (cases k) (auto simp: is_plain_code_def Let_def)

lemma is_copy_add_copy [simp]: "is_copy (add_copy k) = is_copy k"
  by (cases k) (auto simp: is_copy_def Let_def)

lemma needs_copy_add_copy [simp]: "needs_copy (add_copy n) = needs_copy n"
  by (cases n) (auto simp: needs_copy_def Let_def)

lemma tree_rewrite_add_copy: "tree_rewrite add_copy"
  by (auto simp: tree_rewrite_def Let_def)

lemma query_add_copy: "query is_copy k \<noteq> [] \<Longrightarrow> query is_copy (add_copy k) \<noteq> []"
  using query_rewrite [OF tree_rewrite_add_copy, of is_copy]
  by (metis is_copy_add_copy list.set_intros(1) list.set_sel(1) empty_iff list.set(1))

lemma add_copy_covers:
  assumes "needs_copy n"
  shows "querySelectorAll is_copy (children (add_copy n)) \<noteq> []"
proof (cases n)
  case (Elem t as ls ks)
  define i where "i = length (takeWhile (\<lambda>k. \<not> is_plain_code k) ks)"
  have t: "t = js ''pre''" and ex: "\<exists>k \<in> set ks. is_plain_code k"
    using assms Elem by (auto simp: needs_copy_def)
  then have i: "i < length ks"
    unfolding i_def
    by (metis (mono_tags, lifting) length_takeWhile_le nat_less_le takeWhile_eq_all_conv takeWhile_eq_take take_all order_refl)
  show ?thesis
  proof (cases "querySelectorAll is_copy (take i (map add_copy ks) @ drop i ks) = []")
    case True
    with t i show ?thesis
      by (simp add: Elem Let_def i_def [symmetric] querySelectorAll_def copy_button_def [symmetric])
        (use is_copy_button in \<open>simp add: copy_button_def\<close>)
  next
    case False
    have "\<exists>k \<in> set (map add_copy ks). query is_copy k \<noteq> []"
      using False unfolding querySelectorAll_def
      by (auto simp: take_map dest: in_set_takeD in_set_dropD query_add_copy)
    with False t i show ?thesis
      by (auto simp: Elem Let_def i_def [symmetric] querySelectorAll_def)
  qed
qed (use assms in \<open>simp add: needs_copy_def\<close>)

lemma takeWhile_plain_done:
  "length (takeWhile (\<lambda>k. \<not> is_plain_code k) (map add_copy ks @ bs)) =
     (if \<exists>k \<in> set ks. is_plain_code k then length (takeWhile (\<lambda>k. \<not> is_plain_code k) ks)
      else length ks + length (takeWhile (\<lambda>k. \<not> is_plain_code k) bs))"
  by (induction ks) auto

lemma add_copy_idem: "add_copy (add_copy n) = add_copy n"
proof (induction n)
  case (Elem t as ls ks)
  let ?n = "Elem t as ls ks"
  obtain bs where bs: "add_copy ?n = Elem t as ls (map add_copy ks @ bs)"
    and only: "\<forall>b \<in> set bs. \<exists>s. b = copy_button s" and pre: "bs \<noteq> [] \<Longrightarrow> t = js ''pre''"
    by (cases "add_copy ?n = Elem t as ls (map add_copy ks)")
      (force simp: Let_def split: if_splits)+
  have button: "add_copy (copy_button s) = copy_button s" for s
    by (simp add: copy_button_def js_eval)
  have fixed: "map add_copy (map add_copy ks @ bs) = map add_copy ks @ bs"
    using Elem.IH only button by (auto intro!: map_idI)
  define i where "i = length (takeWhile (\<lambda>k. \<not> is_plain_code k) (map add_copy ks @ bs))"
  have "\<not> (t = js ''pre'' \<and> i < length (map add_copy ks @ bs) \<and>
      querySelectorAll is_copy (take i (map add_copy ks @ bs) @ drop i (map add_copy ks @ bs)) = [])"
  proof
    assume a: "t = js ''pre'' \<and> i < length (map add_copy ks @ bs) \<and>
      querySelectorAll is_copy (take i (map add_copy ks @ bs) @ drop i (map add_copy ks @ bs)) = []"
    then have "\<exists>k \<in> set (map add_copy ks @ bs). is_plain_code k"
      unfolding i_def by (metis nth_length_takeWhile nth_mem)
    with only have "needs_copy ?n" using a by (auto simp: needs_copy_def)
    from add_copy_covers [OF this] have "querySelectorAll is_copy (map add_copy ks @ bs) \<noteq> []"
      unfolding bs by simp
    with a show False by (simp only: append_take_drop_id) simp
  qed
  then have "add_copy (Elem t as ls (map add_copy ks @ bs)) = Elem t as ls (map add_copy (map add_copy ks @ bs))"
    unfolding add_copy.simps(2) Let_def fixed i_def [symmetric] by (rule if_not_P)
  then show ?case unfolding bs fixed .
qed simp

definition copy_run :: "copy_event list \<Rightarrow> copy_state" where
  "copy_run es = fold copy_step es fresh_copy"

lemma copy_step_inv:
  "(timers c = 0 \<longrightarrow> label c = js ''Copy'') \<Longrightarrow> timers (copy_step e c) = 0 \<longrightarrow> label (copy_step e c) = js ''Copy''"
  by (cases e) auto

lemma copy_fold_inv:
  "(timers c = 0 \<longrightarrow> label c = js ''Copy'') \<Longrightarrow>
     timers (fold copy_step es c) = 0 \<longrightarrow> label (fold copy_step es c) = js ''Copy''"
proof (induction es arbitrary: c)
  case (Cons e es)
  from Cons.IH [OF copy_step_inv [OF Cons.prems]] show ?case by simp
qed simp

section \<open>Properties\<close>

text \<open>
  rendering diagrams replaces every mermaid block and loses no text: in a document as the markdown
  library renders it (a fenced block is a \<open>pre\<close> around one \<open>code\<close>), no mermaid block is left, each
  node keeps its text, and a second rendering changes nothing; when the library does not load, the
  document is left as it was.
\<close>

theorem render_diagrams:
  assumes "\<forall>n \<in> set doc. fenced n"
  shows "mermaid_blocks (renderMermaidDiagrams True doc) = [] \<and>
    map textContent (renderMermaidDiagrams True doc) = map textContent doc \<and>
    renderMermaidDiagrams True (renderMermaidDiagrams True doc) = renderMermaidDiagrams True doc \<and>
    renderMermaidDiagrams False doc = doc"
proof -
  have none: "mermaid_blocks (renderMermaidDiagrams True doc) = []"
    by (auto simp: renderMermaidDiagrams_def mermaid_blocks_def querySelectorAll_def to_diagram_removes)
  moreover have "map textContent (renderMermaidDiagrams True doc) = map textContent doc"
    using assms by (simp add: renderMermaidDiagrams_def to_diagram_text)
  moreover have "renderMermaidDiagrams True (renderMermaidDiagrams True doc) = renderMermaidDiagrams True doc"
    unfolding renderMermaidDiagrams_def [of True "renderMermaidDiagrams True doc"] none by simp
  ultimately show ?thesis by (simp add: renderMermaidDiagrams_def)
qed

theorem render_diagrams_witness:
  "renderMermaidDiagrams True
     [Elem (js ''pre'') [] [] [Elem (js ''code'') [(js ''class'', js ''language-mermaid'')] [] [Text (js ''graph'')]]]
     = [mermaid_div (js ''graph'')] \<and>
   mermaid_blocks (renderMermaidDiagrams True
     [Elem (js ''pre'') [] [] [Elem (js ''code'') [(js ''class'', js ''language-mermaid'')] [] [Text (js ''graph'')]]]) = []"
proof -
  let ?doc = "[Elem (js ''pre'') [] [] [Elem (js ''code'') [(js ''class'', js ''language-mermaid'')] [] [Text (js ''graph'')]]]"
  have tok: "class_tokens [(js ''class'', js ''language-mermaid'')] = [js ''language-mermaid'']"
    by (simp add: class_tokens_def get_attr_def split_runs.simps is_space_def js_eval)
  have "\<forall>n \<in> set ?doc. fenced n" by (simp add: is_mermaid_Elem tok)
  moreover have "renderMermaidDiagrams True ?doc = [mermaid_div (js ''graph'')]"
    by (simp add: renderMermaidDiagrams_def mermaid_blocks_def querySelectorAll_def is_mermaid_Elem tok)
  ultimately show ?thesis using render_diagrams [of ?doc] by simp
qed

text \<open>
  enhancing code blocks is complete and idempotent: every \<open>pre\<close> with a plain code child ends up with
  a copy button below it, and enhancing the result again adds no second button (nothing changes).
\<close>

theorem copy_buttons_complete:
  "enhanceCodeBlocks (enhanceCodeBlocks doc) = enhanceCodeBlocks doc \<and>
   (\<forall>n. n \<in> set (querySelectorAll needs_copy doc) \<longrightarrow>
      add_copy n \<in> set (querySelectorAll needs_copy (enhanceCodeBlocks doc)) \<and>
      querySelectorAll is_copy (children (add_copy n)) \<noteq> [])"
proof -
  have "add_copy n \<in> set (querySelectorAll needs_copy (enhanceCodeBlocks doc)) \<and>
      querySelectorAll is_copy (children (add_copy n)) \<noteq> []"
    if "n \<in> set (querySelectorAll needs_copy doc)" for n
  proof -
    have "needs_copy n" using that by (auto simp: querySelectorAll_def dest: query_sat)
    moreover have "add_copy n \<in> set (querySelectorAll needs_copy (enhanceCodeBlocks doc))"
      unfolding enhanceCodeBlocks_def
      by (rule querySelectorAll_rewrite [OF tree_rewrite_add_copy _ that]) simp
    ultimately show ?thesis using add_copy_covers by blast
  qed
  moreover have "enhanceCodeBlocks (enhanceCodeBlocks doc) = enhanceCodeBlocks doc"
    by (simp add: enhanceCodeBlocks_def add_copy_idem)
  ultimately show ?thesis by blast
qed

theorem copy_buttons_complete_witness:
  "querySelectorAll is_copy
     (children (add_copy (Elem (js ''pre'') [] [] [Elem (js ''code'') [] [] [Text (js ''ls'')]]))) \<noteq> []"
proof -
  let ?n = "Elem (js ''pre'') [] [] [Elem (js ''code'') [] [] [Text (js ''ls'')]]"
  have "?n \<in> set (querySelectorAll needs_copy [?n])"
    by (simp add: querySelectorAll_def needs_copy_def is_plain_code_def class_tokens_def get_attr_def split_runs.simps js_eval)
  then show ?thesis using copy_buttons_complete [of "[?n]"] by blast
qed

text \<open>
  a copy button always comes back to its resting label: after any sequence of clicks (successful or
  not) and timer expiries, once no timer is outstanding the label is "Copy".
\<close>

theorem copy_label_settles: "timers (copy_run es) = 0 \<longrightarrow> label (copy_run es) = js ''Copy''"
  unfolding copy_run_def by (rule copy_fold_inv) (simp add: fresh_copy_def)

theorem copy_label_settles_witness:
  "label (copy_run [Written, Write_failed, Timeout, Timeout]) = js ''Copy''"
  using copy_label_settles [of "[Written, Write_failed, Timeout, Timeout]"]
  by (simp add: copy_run_def fresh_copy_def)

end
