(* ===== verification/Diagram_Viewer.thy ===== *)
theory Diagram_Viewer
  imports Complex_Main Dom
begin

text \<open>
  The fullscreen diagram viewer (\<open>docs/ui/assets/app.js\<close>, \<open>ensureDiagramOverlay\<close> and
  \<open>openDiagramViewer\<close>): one overlay, created on first use, with a zoom factor, a pan offset and a
  drag in progress. Each event listener is one equation of \<open>viewer_step\<close>. JavaScript numbers are
  rationals with the rounding of the number type as the parameter \<open>rnd\<close>, applied to every decimal
  literal and after every operation; the results use only that \<open>rnd\<close> is exact on integers of
  magnitude up to \<open>2^53\<close>, or that the double next to \<open>0.2\<close> is at most 1. Inline style properties are
  attributes named \<open>style.<property>\<close>.
\<close>

section \<open>Definitions\<close>

record viewer =
  is_open :: bool            \<comment> \<open>class \<open>open\<close> of the overlay\<close>
  grabbing :: bool           \<comment> \<open>class \<open>grabbing\<close> of the stage\<close>
  canvas :: "node list"
  scale :: rat
  tx :: rat
  ty :: rat
  transform :: "rat \<times> rat \<times> rat"   \<comment> \<open>what \<open>apply\<close> last wrote to the canvas style\<close>
  dragging :: bool
  lastX :: rat
  lastY :: rat
  captured :: "int option"   \<comment> \<open>pointer captured by the stage\<close>

record page_viewer =
  diagramOverlay :: "viewer option"
  body_overflow :: jstr

definition new_viewer :: viewer where
  "new_viewer = \<lparr>is_open = False, grabbing = False, canvas = [], scale = 1, tx = 0, ty = 0,
     transform = (0, 0, 1), dragging = False, lastX = 0, lastY = 0, captured = None\<rparr>"

definition apply_transform :: "viewer \<Rightarrow> viewer" where
  "apply_transform v = v\<lparr>transform := (tx v, ty v, scale v)\<rparr>"

definition reset_view :: "viewer \<Rightarrow> viewer" where
  "reset_view v = apply_transform (v\<lparr>scale := 1, tx := 0, ty := 0\<rparr>)"

definition zoom :: "(rat \<Rightarrow> rat) \<Rightarrow> rat \<Rightarrow> viewer \<Rightarrow> viewer" where
  "zoom rnd factor v =
     apply_transform (v\<lparr>scale := min (max (rnd (scale v * factor)) (rnd (2 / 10))) 8\<rparr>)"

definition close_viewer :: "viewer \<Rightarrow> viewer" where
  "close_viewer v = v\<lparr>is_open := False\<rparr>"

datatype viewer_event =
    Wheel rat
  | PointerDown rat rat int
  | PointerMove rat rat
  | PointerUp
  | DblClick
  | Toolbar "jstr option"    \<comment> \<open>\<open>data-act\<close> of the closest button, if any\<close>
  | BackdropClick bool       \<comment> \<open>whether the overlay itself is the target\<close>
  | KeyDown jstr
  | Show node

definition strip_size :: "node \<Rightarrow> node" where
  \<comment> \<open>the clone of the diagram without its inline sizing\<close>
  "strip_size svg =
     (case serialise svg of
        Text s \<Rightarrow> Text s
      | Elem t as ls ks \<Rightarrow>
          Elem t (set_attr (js ''style.height'') (js ''100%'') (set_attr (js ''style.width'') (js ''100%'')
            (set_attr (js ''style.maxHeight'') (js ''none'') (set_attr (js ''style.maxWidth'') (js ''none'')
              (filter (\<lambda>(k, _). k \<noteq> js ''width'' \<and> k \<noteq> js ''height'') as))))) ls ks)"

fun toolbar_action :: "(rat \<Rightarrow> rat) \<Rightarrow> jstr \<Rightarrow> viewer \<times> jstr \<Rightarrow> viewer \<times> jstr" where
  "toolbar_action rnd act (v, ovf) =
     (if act = js ''in'' then (zoom rnd (rnd (12 / 10)) v, ovf)
      else if act = js ''out'' then (zoom rnd (rnd (1 / rnd (12 / 10))) v, ovf)
      else if act = js ''reset'' then (reset_view v, ovf)
      else if act = js ''close'' then (close_viewer v, js '''')
      else (v, ovf))"

text \<open>The listeners of the overlay; the second component is \<open>document.body.style.overflow\<close>.\<close>

fun viewer_step :: "(rat \<Rightarrow> rat) \<Rightarrow> viewer_event \<Rightarrow> viewer \<times> jstr \<Rightarrow> viewer \<times> jstr" where
  "viewer_step rnd (Wheel deltaY) (v, ovf) =
     (zoom rnd (if deltaY < 0 then rnd (112 / 100) else rnd (89 / 100)) v, ovf)"
| "viewer_step rnd (PointerDown x y pid) (v, ovf) =
     (v\<lparr>dragging := True, lastX := x, lastY := y, captured := Some pid, grabbing := True\<rparr>, ovf)"
| "viewer_step rnd (PointerMove x y) (v, ovf) =
     (if \<not> dragging v then (v, ovf)
      else (apply_transform (v\<lparr>tx := rnd (tx v + rnd (x - lastX v)), ty := rnd (ty v + rnd (y - lastY v)),
              lastX := x, lastY := y\<rparr>), ovf))"
| "viewer_step rnd PointerUp (v, ovf) = (v\<lparr>dragging := False, grabbing := False\<rparr>, ovf)"
| "viewer_step rnd DblClick (v, ovf) = (reset_view v, ovf)"
| "viewer_step rnd (Toolbar act) (v, ovf) =
     (case act of None \<Rightarrow> (v, ovf) | Some a \<Rightarrow> toolbar_action rnd a (v, ovf))"
| "viewer_step rnd (BackdropClick on_overlay) (v, ovf) =
     (if on_overlay then (close_viewer v, js '''') else (v, ovf))"
| "viewer_step rnd (KeyDown key) (v, ovf) =
     (if key = js ''Escape'' \<and> is_open v then (close_viewer v, js '''') else (v, ovf))"
| "viewer_step rnd (Show svg) (v, ovf) =
     ((reset_view (v\<lparr>canvas := [strip_size svg]\<rparr>))\<lparr>is_open := True\<rparr>, js ''hidden'')"

definition ensureDiagramOverlay :: "page_viewer \<Rightarrow> viewer \<times> page_viewer" where
  "ensureDiagramOverlay p =
     (case diagramOverlay p of
        Some v \<Rightarrow> (v, p)
      | None \<Rightarrow> (new_viewer, p\<lparr>diagramOverlay := Some new_viewer\<rparr>))"

definition openDiagramViewer :: "(rat \<Rightarrow> rat) \<Rightarrow> node option \<Rightarrow> page_viewer \<Rightarrow> page_viewer" where
  "openDiagramViewer rnd svg p =
     (case svg of
        None \<Rightarrow> p
      | Some s \<Rightarrow>
          (case ensureDiagramOverlay p of (v, p') \<Rightarrow>
             (case viewer_step rnd (Show s) (v, body_overflow p') of (v', ovf) \<Rightarrow>
                p'\<lparr>diagramOverlay := Some v', body_overflow := ovf\<rparr>)))"

definition viewer_run :: "(rat \<Rightarrow> rat) \<Rightarrow> viewer_event list \<Rightarrow> viewer \<times> jstr \<Rightarrow> viewer \<times> jstr" where
  "viewer_run rnd es vo = fold (viewer_step rnd) es vo"

section \<open>Lemmas\<close>

lemmas viewer_defs = apply_transform_def reset_view_def zoom_def close_viewer_def

text \<open>
  The invariant: the zoom factor is in range, the canvas shows the current factor and offset, the
  stage looks grabbed exactly during a drag, and the page behind an open viewer does not scroll.
\<close>

definition viewer_inv :: "(rat \<Rightarrow> rat) \<Rightarrow> viewer \<times> jstr \<Rightarrow> bool" where
  "viewer_inv rnd vo \<longleftrightarrow>
     (case vo of (v, ovf) \<Rightarrow>
        rnd (2 / 10) \<le> scale v \<and> scale v \<le> 8 \<and> transform v = (tx v, ty v, scale v) \<and>
        (grabbing v \<longleftrightarrow> dragging v) \<and> ovf = (if is_open v then js ''hidden'' else js ''''))"

lemma zoom_inv:
  "rnd (2 / 10) \<le> 1 \<Longrightarrow> viewer_inv rnd (v, ovf) \<Longrightarrow> viewer_inv rnd (zoom rnd f v, ovf)"
  by (auto simp: viewer_inv_def viewer_defs)

lemma reset_inv:
  "rnd (2 / 10) \<le> 1 \<Longrightarrow> viewer_inv rnd (v, ovf) \<Longrightarrow> viewer_inv rnd (reset_view v, ovf)"
  by (auto simp: viewer_inv_def viewer_defs)

lemma close_viewer_inv: "viewer_inv rnd (v, ovf) \<Longrightarrow> viewer_inv rnd (close_viewer v, js '''')"
  by (auto simp: viewer_inv_def viewer_defs)

lemma toolbar_inv:
  "rnd (2 / 10) \<le> 1 \<Longrightarrow> viewer_inv rnd (v, ovf) \<Longrightarrow> viewer_inv rnd (toolbar_action rnd a (v, ovf))"
  by (simp add: zoom_inv reset_inv close_viewer_inv [of rnd v ovf, simplified])

lemma viewer_step_inv:
  assumes "rnd (2 / 10) \<le> 1" "viewer_inv rnd (v, ovf)"
  shows "viewer_inv rnd (viewer_step rnd e (v, ovf))"
proof (cases e)
  case (Wheel d)
  with assms show ?thesis by (simp add: zoom_inv)
next
  case (Toolbar a)
  with assms toolbar_inv show ?thesis by (auto split: option.splits simp del: toolbar_action.simps)
next
  case DblClick
  with assms show ?thesis by (simp add: reset_inv)
next
  case (Show s)
  with assms show ?thesis by (auto simp: viewer_inv_def viewer_defs)
qed (use assms close_viewer_inv [of rnd v ovf] in \<open>auto simp: viewer_inv_def apply_transform_def\<close>)

lemma viewer_run_inv:
  "rnd (2 / 10) \<le> 1 \<Longrightarrow> viewer_inv rnd vo \<Longrightarrow> viewer_inv rnd (viewer_run rnd es vo)"
proof (induction es arbitrary: vo)
  case (Cons e es)
  then have "viewer_inv rnd (viewer_step rnd e vo)"
    using viewer_step_inv [of rnd "fst vo" "snd vo" e] by simp
  with Cons show ?case by (simp add: viewer_run_def)
qed (simp add: viewer_run_def)

text \<open>A drag: the moves between pressing and releasing, in whole pixels.\<close>

definition drag_moves :: "(int \<times> int) list \<Rightarrow> viewer_event list" where
  "drag_moves ps = map (\<lambda>(x, y). PointerMove (of_int x) (of_int y)) ps"

definition exact_ints :: "(rat \<Rightarrow> rat) \<Rightarrow> bool" where
  "exact_ints rnd \<longleftrightarrow> (\<forall>n :: int. \<bar>n\<bar> \<le> 2 ^ 53 \<longrightarrow> rnd (of_int n) = of_int n)"

lemma move_exact:
  assumes "exact_ints rnd" "dragging v" "lastX v = of_int lx" "lastY v = of_int ly"
    and "tx v = of_int a" "ty v = of_int b"
    and "\<bar>x - lx\<bar> \<le> 2 ^ 53" "\<bar>y - ly\<bar> \<le> 2 ^ 53" "\<bar>a + (x - lx)\<bar> \<le> 2 ^ 53" "\<bar>b + (y - ly)\<bar> \<le> 2 ^ 53"
  shows "viewer_step rnd (PointerMove (of_int x) (of_int y)) (v, ovf) =
    (apply_transform (v\<lparr>tx := of_int (a + (x - lx)), ty := of_int (b + (y - ly)),
       lastX := of_int x, lastY := of_int y\<rparr>), ovf)"
proof -
  have "rnd (of_int x - of_int lx) = of_int (x - lx)" "rnd (of_int y - of_int ly) = of_int (y - ly)"
    using assms(1,7,8) unfolding exact_ints_def by (metis of_int_diff)+
  moreover have "rnd (of_int a + of_int (x - lx)) = of_int (a + (x - lx))"
    "rnd (of_int b + of_int (y - ly)) = of_int (b + (y - ly))"
    using assms(1,9,10) unfolding exact_ints_def by (metis of_int_add)+
  ultimately show ?thesis using assms(2-6) by simp
qed

lemma drag_run:
  assumes "exact_ints rnd" "\<forall>(x, y) \<in> set ps. \<bar>x\<bar> \<le> 2 ^ 50 \<and> \<bar>y\<bar> \<le> 2 ^ 50"
    and "dragging v" "lastX v = of_int lx" "lastY v = of_int ly" "\<bar>lx\<bar> \<le> 2 ^ 50" "\<bar>ly\<bar> \<le> 2 ^ 50"
    and "tx v = of_int (a + lx)" "ty v = of_int (b + ly)" "\<bar>a\<bar> \<le> 2 ^ 51" "\<bar>b\<bar> \<le> 2 ^ 51"
  shows "\<exists>v'. viewer_run rnd (drag_moves ps) (v, ovf) = (v', ovf) \<and>
    tx v' = of_int (a + fst (last ((lx, ly) # ps))) \<and> ty v' = of_int (b + snd (last ((lx, ly) # ps))) \<and>
    scale v' = scale v"
  using assms(2-)
proof (induction ps arbitrary: v lx ly)
  case Nil
  then show ?case by (simp add: viewer_run_def drag_moves_def)
next
  case (Cons p ps)
  obtain x y where p: "p = (x, y)" by fastforce
  have xy: "\<bar>x\<bar> \<le> 2 ^ 50" "\<bar>y\<bar> \<le> 2 ^ 50" using Cons.prems(1) p by auto
  define v' where "v' = apply_transform (v\<lparr>tx := of_int (a + x), ty := of_int (b + y),
    lastX := of_int x, lastY := of_int y\<rparr>)"
  have "viewer_step rnd (PointerMove (of_int x) (of_int y)) (v, ovf) = (v', ovf)"
    using move_exact [OF assms(1) Cons.prems(2-4,7,8), of x y ovf] xy Cons.prems(5,6,9,10)
    by (simp add: v'_def)
  moreover have "dragging v'" "lastX v' = of_int x" "lastY v' = of_int y"
    "tx v' = of_int (a + x)" "ty v' = of_int (b + y)" "scale v' = scale v"
    using Cons.prems(2) by (simp_all add: v'_def apply_transform_def)
  moreover have "\<forall>(x, y) \<in> set ps. \<bar>x\<bar> \<le> 2 ^ 50 \<and> \<bar>y\<bar> \<le> 2 ^ 50" using Cons.prems(1) by simp
  ultimately show ?case
    using Cons.IH [of v' x y] xy Cons.prems(9,10) by (simp add: viewer_run_def drag_moves_def p)
qed

section \<open>Properties\<close>

text \<open>
  C32: whatever the reader does in the viewer (wheel, toolbar, drag, double click, keys, opening
  another diagram), the zoom factor stays between 0.2 and 8, the canvas shows the current factor and
  offset, the stage looks grabbed exactly while dragging, and the page scrolls again exactly when the
  viewer is closed.
\<close>

theorem viewer_always_consistent:
  assumes "rnd (2 / 10) \<le> 1"
  shows "viewer_inv rnd (viewer_run rnd es (new_viewer, js ''''))"
  by (rule viewer_run_inv [where rnd = rnd, OF assms]) (use assms in \<open>simp add: viewer_inv_def new_viewer_def\<close>)

theorem viewer_always_consistent_witness:
  "viewer_inv id (viewer_run id [Show (Text []), Wheel (-1), Toolbar (Some (js ''out'')), KeyDown (js ''Escape'')]
     (new_viewer, js ''''))"
  by (rule viewer_always_consistent) simp

text \<open>
  dragging moves the diagram exactly with the pointer: pressing at \<open>(x0, y0)\<close>, moving through any
  points and ending at \<open>(x, y)\<close> shifts the offset by \<open>(x - x0, y - y0)\<close> and leaves the zoom factor alone,
  for whole-pixel positions and offsets within the exact range of JavaScript numbers.
\<close>

theorem drag_follows_pointer:
  assumes "exact_ints rnd" "\<forall>(x, y) \<in> set ps. \<bar>x\<bar> \<le> 2 ^ 50 \<and> \<bar>y\<bar> \<le> 2 ^ 50"
    and "\<bar>x0\<bar> \<le> 2 ^ 50" "\<bar>y0\<bar> \<le> 2 ^ 50"
    and "tx v = of_int a" "ty v = of_int b" "\<bar>a\<bar> \<le> 2 ^ 50" "\<bar>b\<bar> \<le> 2 ^ 50"
  shows "\<exists>v'. viewer_run rnd (PointerDown (of_int x0) (of_int y0) pid # drag_moves ps) (v, ovf) = (v', ovf) \<and>
    tx v' = of_int (a + (fst (last ((x0, y0) # ps)) - x0)) \<and>
    ty v' = of_int (b + (snd (last ((x0, y0) # ps)) - y0)) \<and> scale v' = scale v"
proof -
  define w where "w = fst (viewer_step rnd (PointerDown (of_int x0) (of_int y0) pid) (v, ovf))"
  have w: "dragging w" "lastX w = of_int x0" "lastY w = of_int y0" "scale w = scale v"
    "tx w = of_int (a - x0 + x0)" "ty w = of_int (b - y0 + y0)"
    using assms(5,6) by (simp_all add: w_def)
  have "\<bar>a - x0\<bar> \<le> 2 ^ 51" "\<bar>b - y0\<bar> \<le> 2 ^ 51" using assms(3,4,7,8) by simp_all
  with drag_run [OF assms(1,2) w(1-3) assms(3,4) w(5,6), of ovf] w(4)
  show ?thesis by (simp add: viewer_run_def w_def algebra_simps)
qed

theorem drag_follows_pointer_witness:
  "\<exists>v'. viewer_run id (PointerDown (of_int 10) (of_int 20) 1 # drag_moves [(15, 18), (40, 25)]) (new_viewer, js '''')
     = (v', js '''') \<and> tx v' = 30 \<and> ty v' = 5 \<and> scale v' = 1"
  using drag_follows_pointer [of id "[(15, 18), (40, 25)]" 10 20 new_viewer 0 0 1 "js ''''"]
  by (simp add: exact_ints_def new_viewer_def)

end
