(* ===== verification/Search.thy ===== *)
theory Search
  imports Routing
begin

text \<open>
  The full-text search palette (\<open>docs/ui/assets/search.js\<close>): ranking (\<open>score\<close>), excerpts with
  highlighting (\<open>snippet\<close>), the result list (\<open>runSearch\<close>, \<open>render\<close>), navigation (\<open>go\<close>), the lazily
  fetched index (\<open>ensureIndex\<close>) and the keyboard handlers. The palette's variables and the parts
  of the page it owns are the record \<open>palette\<close>; browser events and the answer to the index request
  are the steps of \<open>palette_step\<close>. The list's HTML is kept as text, so that what reaches
  \<open>innerHTML\<close> can be stated. Scrolling (\<open>scrollActive\<close>) and focus have no state here.

  The lemmas show that a query is matched literally and by conjunction, that results are the best
  thirty in order, that no markup of the index or the query reaches the page, that the active entry
  stays in range, and where a result leads.
\<close>

section \<open>Definitions\<close>

subsection \<open>Ranking\<close>

text \<open>A record of \<open>search-index.json\<close>; an absent property is \<open>None\<close>.\<close>

record srec =
  sr_file :: jstr
  sr_docTitle :: "jstr option"
  sr_heading :: "jstr option"
  sr_headingId :: "jstr option"
  sr_text :: "jstr option"

definition or_empty :: "jstr option \<Rightarrow> jstr" where
  \<comment> \<open>\<open>x || ''\<close>\<close>
  "or_empty x = (case x of None \<Rightarrow> [] | Some s \<Rightarrow> s)"

text \<open>The loop over the occurrences of a term in the text, with the number of hits still counted.\<close>

fun count_hits :: "jstr \<Rightarrow> jstr \<Rightarrow> nat option \<Rightarrow> nat \<Rightarrow> nat" where
  "count_hits tx t None n = 0"
| "count_hits tx t (Some idx) 0 = 0"
| "count_hits tx t (Some idx) (Suc n) = Suc (count_hits tx t (indexOf tx t (idx + length t)) n)"

fun score_loop :: "jstr \<Rightarrow> jstr \<Rightarrow> jstr \<Rightarrow> jstr list \<Rightarrow> nat \<Rightarrow> nat" where
  "score_loop heading title tx [] s = s"
| "score_loop heading title tx (t # ts) s =
     (if t = [] then score_loop heading title tx ts s
      else
        let inHeading = indexOf heading t 0 \<noteq> None;
            inTitle = indexOf title t 0 \<noteq> None;
            hits = count_hits tx t (indexOf tx t 0) 5
        in if \<not> (inHeading \<or> inTitle \<or> 0 < hits) then 0
           else score_loop heading title tx ts
                  (s + (if inHeading then 10 else 0) + (if inTitle then 4 else 0) + 2 * hits))"

definition score :: "srec \<Rightarrow> jstr list \<Rightarrow> nat" where
  "score r terms =
     score_loop (toLowerCase (or_empty (sr_heading r))) (toLowerCase (or_empty (sr_docTitle r)))
       (toLowerCase (or_empty (sr_text r))) terms 0"

subsection \<open>Escaping and highlighting\<close>

definition re_special :: "jchar \<Rightarrow> bool" where
  \<comment> \<open>the class \<open>[.*+?^${}()|[\]\\]\<close>\<close>
  "re_special c \<longleftrightarrow> c \<in> set (js ''.*+?^${}()|[]'') \<or> c = 92"

definition escapeRe :: "jstr \<Rightarrow> jstr" where
  "escapeRe s = concat (map (\<lambda>c. if re_special c then [92, c] else [c]) s)"

text \<open>
  The pattern source \<open>(t1|...|tn)\<close> and how the regular-expression syntax reads its inside: a backslash
  before a syntax character makes it a literal, a bare bar separates alternatives. Any other bare
  syntax character is outside of what literal alternatives can be, hence \<open>None\<close>.
\<close>

fun join_bar :: "jstr list \<Rightarrow> jstr" where
  "join_bar [] = []"
| "join_bar [t] = t"
| "join_bar (t # u # ts) = t @ 124 # join_bar (u # ts)"

fun read_alts :: "jstr \<Rightarrow> jstr list option" where
  "read_alts [] = Some [[]]"
| "read_alts (c # s) =
     (if c = 92 then
        (case s of
           [] \<Rightarrow> None
         | d # s' \<Rightarrow>
             if re_special d then
               (case read_alts s' of Some (a # as) \<Rightarrow> Some ((d # a) # as) | _ \<Rightarrow> None)
             else None)
      else if c = 124 then map_option (Cons []) (read_alts s)
      else if re_special c then None
      else (case read_alts s of Some (a # as) \<Rightarrow> Some ((c # a) # as) | _ \<Rightarrow> None))"

definition starts_ci :: "jstr \<Rightarrow> jstr \<Rightarrow> bool" where
  \<comment> \<open>a literal matched at the front under the flag \<open>i\<close>\<close>
  "starts_ci s t \<longleftrightarrow> startsWith (toLowerCase s) (toLowerCase t)"

definition mark_open :: jstr where "mark_open = js ''<mark>''"
definition mark_close :: jstr where "mark_close = js ''</mark>''"

text \<open>
  \<open>frag.replace(re, '<mark>$1</mark>')\<close> with the flag \<open>g\<close>: the leftmost match, the first alternative
  that fits; an empty match advances by one character.
\<close>

function mark_all :: "jstr list \<Rightarrow> jstr \<Rightarrow> jstr" where
  "mark_all ts [] = (if [] \<in> set ts then mark_open @ mark_close else [])"
| "mark_all ts (c # s) =
     (case List.find (starts_ci (c # s)) ts of
        None \<Rightarrow> c # mark_all ts s
      | Some t \<Rightarrow>
          if t = [] then mark_open @ mark_close @ c # mark_all ts s
          else mark_open @ take (length t) (c # s) @ mark_close @ mark_all ts (drop (length t) (c # s)))"
  by pat_completeness auto
termination
  by (relation "measure (\<lambda>(ts, s). length s)") (auto simp: Suc_le_eq)

definition highlight :: "jstr \<Rightarrow> jstr list \<Rightarrow> jstr" where
  "highlight frag terms =
     (case read_alts (join_bar (map escapeRe terms)) of
        None \<Rightarrow> frag
      | Some ts \<Rightarrow> mark_all ts frag)"

definition html_char :: "jchar \<Rightarrow> jstr" where
  "html_char c = (if c = 38 then js ''&amp;'' else if c = 60 then js ''&lt;''
                  else if c = 62 then js ''&gt;'' else [c])"

definition escapeHtml :: "jstr \<Rightarrow> jstr" where
  "escapeHtml s = concat (map html_char s)"

fun least_pos :: "jstr \<Rightarrow> jstr list \<Rightarrow> nat option \<Rightarrow> nat option" where
  "least_pos low [] at = at"
| "least_pos low (t # ts) at =
     least_pos low ts
       (case indexOf low t 0 of
          None \<Rightarrow> at
        | Some p \<Rightarrow> (case at of None \<Rightarrow> Some p | Some a \<Rightarrow> if p < a then Some p else at))"

definition snippet_frag :: "srec \<Rightarrow> jstr list \<Rightarrow> jstr" where
  "snippet_frag r terms =
     (let tx = or_empty (sr_text r);
          at = (case least_pos (toLowerCase tx) terms None of None \<Rightarrow> 0 | Some a \<Rightarrow> a);
          start = at - 50;
          frag = slice tx start (start + 160)
      in if 0 < start then 0x2026 # frag else frag)"

definition snippet :: "srec \<Rightarrow> jstr list \<Rightarrow> jstr" where
  "snippet r terms =
     (let frag = escapeHtml (snippet_frag r terms)
      in if terms \<noteq> [] then highlight frag terms else frag)"

subsection \<open>The palette\<close>

record hit =
  h_rec :: srec
  h_score :: nat
  h_terms :: "jstr list"

record palette =
  p_INDEX :: "srec list option"
  p_loading :: bool
  p_results :: "hit list"
  p_active :: int
  p_value :: jstr             \<comment> \<open>\<open>input.value\<close>\<close>
  p_html :: jstr              \<comment> \<open>\<open>list.innerHTML\<close>\<close>
  p_rows :: "jstr list"       \<comment> \<open>\<open>data-i\<close> of the list items with a click handler\<close>
  p_open :: bool              \<comment> \<open>the overlay has class \<open>open\<close>\<close>
  p_hash :: "jstr option"     \<comment> \<open>the hash assigned last\<close>
  p_fetches :: "jstr list"    \<comment> \<open>URLs requested so far\<close>

definition new_palette :: palette where
  "new_palette = \<lparr>p_INDEX = None, p_loading = False, p_results = [], p_active = 0, p_value = [],
     p_html = [], p_rows = [], p_open = False, p_hash = None, p_fetches = []\<rparr>"

definition query_terms :: "jstr \<Rightarrow> jstr list" where
  "query_terms q = filter (\<lambda>t. t \<noteq> []) (split_runs is_space (toLowerCase q))"

definition search_hits :: "srec list \<Rightarrow> jstr list \<Rightarrow> hit list" where
  "search_hits index terms =
     take 30 (sort_key (\<lambda>h. - int (h_score h))
       (filter (\<lambda>h. 0 < h_score h)
         (map (\<lambda>r. \<lparr>h_rec = r, h_score = score r terms, h_terms = terms\<rparr>) index)))"

fun nat_str :: "nat \<Rightarrow> jstr" where
  "nat_str n = (if n < 10 then [48 + of_nat n] else nat_str (n div 10) @ [48 + of_nat (n mod 10)])"

declare nat_str.simps [simp del]

definition parseInt :: "jstr \<Rightarrow> nat option" where
  \<comment> \<open>\<open>parseInt(s, 10)\<close> on an unsigned numeral; \<open>None\<close> is \<open>NaN\<close>\<close>
  "parseInt s =
     (let ds = takeWhile (\<lambda>c. 48 \<le> c \<and> c \<le> 57) s
      in if ds = [] then None else Some (foldl (\<lambda>n c. 10 * n + unat (c - 48)) 0 ds))"

definition crumb_html :: "srec \<Rightarrow> jstr" where
  "crumb_html r =
     escapeHtml (if truthy (sr_docTitle r) then or_empty (sr_docTitle r) else sr_file r) @
     (if truthy (sr_heading r)
      then js ''<span class=\"sep\">'' @ [0x203A] @ js ''</span>'' @ escapeHtml (or_empty (sr_heading r))
      else [])"

definition row_html :: "int \<Rightarrow> nat \<Rightarrow> hit \<Rightarrow> jstr" where
  "row_html act i h =
     (let r = h_rec h
      in js ''<li data-i=\"'' @ nat_str i @ js ''\" class=\"'' @ (if int i = act then js ''active'' else []) @ js ''\">'' @
         js ''<div class=\"search-crumb\">'' @ crumb_html r @ js ''</div>'' @
         js ''<div class=\"search-snippet\">'' @ snippet r (h_terms h) @ js ''</div></li>'')"

definition rows_html :: "int \<Rightarrow> hit list \<Rightarrow> jstr" where
  "rows_html act hs = concat (map (\<lambda>(i, h). row_html act i h) (zip [0..<length hs] hs))"

definition render :: "palette \<Rightarrow> palette" where
  "render p =
     (if trim (p_value p) = [] then p\<lparr>p_html := [], p_rows := []\<rparr>
      else if p_results p = [] then p\<lparr>p_html := js ''<div class=\"search-empty\">No results</div>'', p_rows := []\<rparr>
      else p\<lparr>p_html := rows_html (p_active p) (p_results p), p_rows := map nat_str [0..<length (p_results p)]\<rparr>)"

definition runSearch :: "jstr \<Rightarrow> palette \<Rightarrow> palette" where
  "runSearch q p =
     (let terms = query_terms q in
      case p_INDEX p of
        None \<Rightarrow> render (p\<lparr>p_results := []\<rparr>)
      | Some index \<Rightarrow>
          if terms = [] then render (p\<lparr>p_results := []\<rparr>)
          else render (p\<lparr>p_results := search_hits index terms, p_active := 0\<rparr>))"

definition close :: "palette \<Rightarrow> palette" where
  "close p = p\<lparr>p_open := False\<rparr>"

definition hit_hash :: "srec \<Rightarrow> jstr" where
  "hit_hash r = js ''docs:'' @ sr_file r @
     (if truthy (sr_headingId r) then js '':'' @ or_empty (sr_headingId r) else [])"

definition nth_int :: "'a list \<Rightarrow> int \<Rightarrow> 'a option" where
  \<comment> \<open>\<open>xs[i]\<close> for a number that may be negative\<close>
  "nth_int xs i = (if 0 \<le> i then nth_opt xs (nat i) else None)"

definition go :: "int \<Rightarrow> palette \<Rightarrow> palette" where
  \<comment> \<open>assigning \<open>location.hash\<close> puts the number sign in front\<close>
  "go i p =
     (case nth_int (p_results p) i of
        None \<Rightarrow> p
      | Some h \<Rightarrow> (close p)\<lparr>p_hash := Some (hash_sign # hit_hash (h_rec h))\<rparr>)"

definition ensureIndex :: "jstr \<Rightarrow> palette \<Rightarrow> palette" where
  \<comment> \<open>up to the request; the rest is \<open>index_answer\<close>\<close>
  "ensureIndex pathname p =
     (if p_INDEX p \<noteq> None \<or> p_loading p then p
      else p\<lparr>p_loading := True,
             p_fetches := p_fetches p @ [buildUrl pathname (js ''assets/search-index.json'')]\<rparr>)"

datatype answer = Index_ok "srec list" | Index_not_ok | Index_failed

definition index_answer :: "answer \<Rightarrow> palette \<Rightarrow> palette" where
  "index_answer a p =
     (if \<not> p_loading p then p
      else p\<lparr>p_INDEX := Some (case a of Index_ok rs \<Rightarrow> rs | Index_not_ok \<Rightarrow> [] | Index_failed \<Rightarrow> []),
             p_loading := False\<rparr>)"

definition open_palette :: "jstr \<Rightarrow> palette \<Rightarrow> palette" where
  "open_palette pathname p =
     ensureIndex pathname (p\<lparr>p_open := True, p_value := [], p_html := [], p_rows := []\<rparr>)"

subsection \<open>Events\<close>

datatype key_target = Palette_input | Element jstr bool   \<comment> \<open>tag name, \<open>isContentEditable\<close>\<close>

datatype palette_event =
    Trigger
  | Input jstr
  | Overlay_click
  | Row_click nat
  | Key (kt: key_target) (key: jstr) (meta: bool) (ctrl: bool)
  | Answer answer

definition input_keydown :: "jstr \<Rightarrow> palette \<Rightarrow> palette" where
  "input_keydown k p =
     (if k = js ''ArrowDown'' then
        render (p\<lparr>p_active := min (p_active p + 1) (int (length (p_results p)) - 1)\<rparr>)
      else if k = js ''ArrowUp'' then render (p\<lparr>p_active := max (p_active p - 1) 0\<rparr>)
      else if k = js ''Enter'' then go (p_active p) p
      else if k = js ''Escape'' then close p
      else p)"

definition typing :: "key_target \<Rightarrow> bool" where
  "typing t = (case t of
     Palette_input \<Rightarrow> True
   | Element tg ed \<Rightarrow> tg \<in> {js ''INPUT'', js ''TEXTAREA'', js ''SELECT''} \<or> ed)"

definition document_keydown :: "jstr \<Rightarrow> key_target \<Rightarrow> jstr \<Rightarrow> bool \<Rightarrow> bool \<Rightarrow> palette \<Rightarrow> palette" where
  "document_keydown pathname t k mt ct p =
     (if (k = js ''k'' \<or> k = js ''K'') \<and> (mt \<or> ct) then
        (if p_open p then close p else open_palette pathname p)
      else if k = js ''/'' \<and> \<not> typing t \<and> \<not> p_open p then open_palette pathname p
      else p)"

text \<open>A key pressed in the input reaches the input's handler first and then the document's.\<close>

fun palette_step :: "jstr \<Rightarrow> palette_event \<Rightarrow> palette \<Rightarrow> palette" where
  "palette_step pathname Trigger p = open_palette pathname p"
| "palette_step pathname (Input v) p = runSearch v (p\<lparr>p_value := v\<rparr>)"
| "palette_step pathname Overlay_click p = close p"
| "palette_step pathname (Row_click n) p =
     (case nth_opt (p_rows p) n of
        None \<Rightarrow> p
      | Some s \<Rightarrow> (case parseInt s of None \<Rightarrow> p | Some i \<Rightarrow> go (int i) p))"
| "palette_step pathname (Key t k mt ct) p =
     document_keydown pathname t k mt ct (if t = Palette_input then input_keydown k p else p)"
| "palette_step pathname (Answer a) p = index_answer a p"

definition palette_run :: "jstr \<Rightarrow> palette_event list \<Rightarrow> palette \<Rightarrow> palette" where
  "palette_run pathname es p = fold (palette_step pathname) es p"

subsection \<open>The trigger button\<close>

definition upper_unit :: "jchar \<Rightarrow> jstr" where
  "upper_unit c =
     (if 97 \<le> c \<and> c \<le> 122 \<or> 224 \<le> c \<and> c \<le> 254 \<and> c \<noteq> 247 then [c - 32]
      else if c = 223 then js ''SS'' else if c = 255 then [0x178] else if c = 181 then [0x39C] else [c])"

definition isMac :: "jstr \<Rightarrow> bool" where
  "isMac platform \<longleftrightarrow> indexOf (concat (map upper_unit platform)) (js ''MAC'') 0 \<noteq> None"

definition trigger_html :: "jstr \<Rightarrow> jstr" where
  "trigger_html platform =
     js ''Search <kbd>'' @ (if isMac platform then [0x2318, 75] else js ''Ctrl K'') @ js ''</kbd>''"

section \<open>Ranking\<close>

lemma count_hits_pos [simp]: "0 < count_hits tx t o' 5 \<longleftrightarrow> o' \<noteq> None"
proof -
  have "0 < count_hits tx t o' (Suc 4) \<longleftrightarrow> o' \<noteq> None"
    by (cases o') (simp_all del: Suc_numeral)
  then show ?thesis by simp
qed

lemma count_hits_zero [simp]: "count_hits tx t o' 5 = 0 \<longleftrightarrow> o' = None"
  by (metis count_hits_pos gr0I less_numeral_extra(3))

lemma indexOf_occurs [simp]: "(\<exists>i. indexOf s t 0 = Some i) \<longleftrightarrow> occurs t s"
  "indexOf s t 0 = None \<longleftrightarrow> \<not> occurs t s"
  by (simp_all add: indexOf_0 occurs_def)

lemma score_loop_pos:
  assumes "[] \<notin> set ts"
  shows "0 < score_loop h ti tx ts s \<longleftrightarrow>
    (\<forall>t \<in> set ts. occurs t h \<or> occurs t ti \<or> occurs t tx) \<and> (ts \<noteq> [] \<or> 0 < s)"
  using assms
proof (induction ts arbitrary: s)
  case (Cons t ts)
  then show ?case by (auto simp: Let_def)
qed simp

text \<open>What a record must contain for a term to count.\<close>

definition rec_mentions :: "srec \<Rightarrow> jstr \<Rightarrow> bool" where
  "rec_mentions r t \<longleftrightarrow> occurs t (toLowerCase (or_empty (sr_heading r))) \<or>
     occurs t (toLowerCase (or_empty (sr_docTitle r))) \<or> occurs t (toLowerCase (or_empty (sr_text r)))"

lemma score_pos: "[] \<notin> set ts \<Longrightarrow> ts \<noteq> [] \<Longrightarrow> 0 < score r ts \<longleftrightarrow> (\<forall>t \<in> set ts. rec_mentions r t)"
  unfolding score_def rec_mentions_def by (subst score_loop_pos) auto

lemma query_terms_ok [simp]: "[] \<notin> set (query_terms q)"
  by (simp add: query_terms_def)

lemma query_terms_chars: "t \<in> set (query_terms q) \<Longrightarrow> c \<in> set t \<Longrightarrow> \<not> is_space c"
  unfolding query_terms_def by (auto dest: split_runs_parts)

subsection \<open>The result list\<close>

lemma search_hits_length: "length (search_hits index ts) \<le> 30"
  by (simp add: search_hits_def)

lemma search_hits_sorted: "sorted (map (\<lambda>h. - int (h_score h)) (search_hits index ts))"
  unfolding search_hits_def take_map [symmetric] by (rule sorted_wrt_take) simp

lemma take_sort_key_best:
  fixes k :: "'a \<Rightarrow> int"
  assumes "y \<in> set xs" "y \<notin> set (take n (sort_key k xs))" "x \<in> set (take n (sort_key k xs))"
  shows "k x \<le> k y"
proof -
  let ?ys = "sort_key k xs"
  have "y \<in> set (drop n ?ys)"
    using assms(1,2) by (metis UnE append_take_drop_id set_append set_sort)
  moreover have "sorted (map k (take n ?ys) @ map k (drop n ?ys))"
    by (metis append_take_drop_id map_append sorted_sort_key)
  ultimately show ?thesis
    using assms(3) by (auto simp: sorted_append)
qed

section \<open>Literal patterns\<close>

lemma re_special_bar [simp]: "re_special 124" and re_special_bs [simp]: "re_special 92"
  by (simp_all add: re_special_def js_eval)

lemma read_alts_escape:
  "read_alts (escapeRe t @ 124 # r) = map_option (Cons t) (read_alts r)"
  "read_alts (escapeRe t) = Some [t]"
proof (induction t)
  case (Cons c t)
  case 1
  have "c \<noteq> 92 \<and> c \<noteq> 124" if "\<not> re_special c" using that by auto
  with Cons.IH(1) show ?case
    by (cases "read_alts r") (auto simp: escapeRe_def)
next
  case (Cons c t)
  case 2
  have "c \<noteq> 92 \<and> c \<noteq> 124" if "\<not> re_special c" using that by auto
  with Cons.IH(2) show ?case by (auto simp: escapeRe_def)
qed (simp_all add: escapeRe_def)

lemma read_alts_join: "ts \<noteq> [] \<Longrightarrow> read_alts (join_bar (map escapeRe ts)) = Some ts"
  by (induction ts rule: join_bar.induct) (simp_all add: read_alts_escape)

lemma highlight_terms: "ts \<noteq> [] \<Longrightarrow> highlight frag ts = mark_all ts frag"
  by (simp add: highlight_def read_alts_join)

section \<open>Markup\<close>

text \<open>How an HTML tokenizer sees the generated text: tags and characters.\<close>

datatype token = Chr jchar | Tag jstr

lemma drop_dropWhile_less [termination_simp]: "length (dropWhile P s) - Suc 0 < Suc (length s)"
  using length_dropWhile_le [of P s] by linarith

fun tokens :: "jstr \<Rightarrow> token list" where
  "tokens [] = []"
| "tokens (c # s) =
     (if c = 60 then Tag (takeWhile (\<lambda>x. x \<noteq> 62) s) # tokens (drop 1 (dropWhile (\<lambda>x. x \<noteq> 62) s))
      else Chr c # tokens s)"

definition text_of :: "token list \<Rightarrow> jstr" where
  "text_of ts = concat (map (\<lambda>t. case t of Chr c \<Rightarrow> [c] | Tag s \<Rightarrow> []) ts)"

definition tag_set :: "token list \<Rightarrow> jstr set" where
  "tag_set ts = {t. Tag t \<in> set ts}"

lemma text_of_simps [simp]: "text_of [] = []" "text_of (Chr c # ts) = c # text_of ts"
  "text_of (Tag t # ts) = text_of ts" "text_of (ts @ us) = text_of ts @ text_of us"
  by (simp_all add: text_of_def)

lemma tag_set_simps [simp]: "tag_set [] = {}" "tag_set (Chr c # ts) = tag_set ts"
  "tag_set (Tag t # ts) = insert t (tag_set ts)" "tag_set (ts @ us) = tag_set ts \<union> tag_set us"
  by (auto simp: tag_set_def)

text \<open>Text after which the tokenizer is between tokens again, so that texts can be put together.\<close>

definition closed :: "jstr \<Rightarrow> bool" where
  "closed s \<longleftrightarrow> (\<forall>r. tokens (s @ r) = tokens s @ tokens r)"

lemma closed_Nil [simp]: "closed []"
  by (simp add: closed_def)

lemma closed_append [intro]: "closed s \<Longrightarrow> closed t \<Longrightarrow> closed (s @ t)"
  by (simp add: closed_def)

lemma tokens_append: "closed s \<Longrightarrow> tokens (s @ t) = tokens s @ tokens t"
  by (simp add: closed_def)

lemma closed_Cons: "c \<noteq> 60 \<Longrightarrow> closed s \<Longrightarrow> closed (c # s)"
  by (simp add: closed_def)

lemma tokens_plain_append: "60 \<notin> set s \<Longrightarrow> tokens (s @ r) = map Chr s @ tokens r"
  by (induction s) auto

lemma closed_plain: "60 \<notin> set s \<Longrightarrow> closed s"
  and tokens_plain: "60 \<notin> set s \<Longrightarrow> tokens s = map Chr s"
  using tokens_plain_append [of s] tokens_plain_append [of s "[]"] by (simp_all add: closed_def)

lemma text_of_Chr [simp]: "text_of (map Chr s) = s" and tag_set_Chr [simp]: "tag_set (map Chr s) = {}"
  by (induction s) simp_all

lemma tokens_tag: "62 \<notin> set u \<Longrightarrow> tokens (60 # u @ 62 # r) = Tag u # tokens r"
  by simp

lemma closed_tag: "62 \<notin> set u \<Longrightarrow> closed (60 # u @ [62])"
  using tokens_tag [of u "[]"] tokens_tag [of u] by (simp add: closed_def)

lemma concat_closed:
  "(\<And>s. s \<in> set ss \<Longrightarrow> closed s) \<Longrightarrow> closed (concat ss) \<and> tag_set (tokens (concat ss)) = (\<Union>s \<in> set ss. tag_set (tokens s))"
  by (induction ss) (auto simp: tokens_append)

subsection \<open>Highlighting\<close>

lemma mark_tokens: "tokens (mark_open @ r) = Tag (js ''mark'') # tokens r"
  "tokens (mark_close @ r) = Tag (js ''/mark'') # tokens r"
  by (simp_all add: mark_open_def mark_close_def js_eval)

lemma mark_all_tokens:
  assumes "60 \<notin> set s"
  shows "closed (mark_all ts s) \<and> text_of (tokens (mark_all ts s)) = s \<and>
    tag_set (tokens (mark_all ts s)) \<subseteq> {js ''mark'', js ''/mark''}"
  using assms
proof (induction ts s rule: mark_all.induct)
  case (1 ts)
  have "tokens mark_close = [Tag (js ''/mark'')]" using mark_tokens(2) [of "[]"] by simp
  then show ?case by (auto simp: closed_def mark_tokens)
next
  case (2 ts c s)
  show ?case
  proof (cases "List.find (starts_ci (c # s)) ts")
    case None
    with 2 show ?thesis by (simp add: closed_def)
  next
    case (Some t)
    show ?thesis
    proof (cases "t = []")
      case True
      with 2 Some show ?thesis by (simp add: closed_def mark_tokens)
    next
      case False
      have notin: "60 \<notin> set (take (length t) (c # s))" "60 \<notin> set (drop (length t) (c # s))"
        using "2.prems" by (blast dest: in_set_takeD, blast dest: in_set_dropD)
      have eq: "mark_all ts (c # s) = mark_open @ take (length t) (c # s) @ mark_close @
          mark_all ts (drop (length t) (c # s))"
        using Some False by simp
      have tk: "tokens (mark_all ts (c # s) @ r) = Tag (js ''mark'') # map Chr (take (length t) (c # s)) @
          Tag (js ''/mark'') # tokens (mark_all ts (drop (length t) (c # s)) @ r)" for r
        unfolding eq append_assoc mark_tokens tokens_plain_append [OF notin(1)] by (rule refl)
      from "2.IH"(3) [OF Some False notin(2)] tk tk [of "[]"] show ?thesis
        by (simp add: closed_def del: mark_all.simps)
    qed
  qed
qed

lemma html_char_plain: "60 \<notin> set (html_char c) \<and> 62 \<notin> set (html_char c)"
  by (simp add: html_char_def js_eval)

lemma escapeHtml_plain: "60 \<notin> set (escapeHtml s)" "62 \<notin> set (escapeHtml s)"
  using html_char_plain by (auto simp: escapeHtml_def)

lemma snippet_tokens:
  "closed (snippet r ts) \<and> text_of (tokens (snippet r ts)) = escapeHtml (snippet_frag r ts) \<and>
   tag_set (tokens (snippet r ts)) \<subseteq> {js ''mark'', js ''/mark''}"
proof (cases "ts = []")
  case True
  then show ?thesis
    by (simp add: snippet_def closed_plain tokens_plain escapeHtml_plain)
next
  case False
  then show ?thesis
    using mark_all_tokens [OF escapeHtml_plain(1)] by (simp add: snippet_def highlight_terms)
qed


subsection \<open>The list\<close>

lemma nat_str_digits: "c \<in> set (nat_str n) \<Longrightarrow> 48 \<le> c \<and> c \<le> 57"
proof (induction n rule: nat_str.induct)
  case (1 n)
  have digit: "48 \<le> (48 + of_nat d :: jchar) \<and> (48 + of_nat d :: jchar) \<le> 57" if "d < 10" for d :: nat
    using that by (simp add: word_le_nat_alt unat_word_ariths unat_of_nat)
  from "1.prems" "1.IH" digit [of n] digit [of "n mod 10"] show ?case
    by (auto simp: nat_str.simps [of n] split: if_splits)
qed

lemma nat_str_not_Nil [simp]: "nat_str n \<noteq> []"
  by (subst nat_str.simps) simp

lemma digit_value: "d < 10 \<Longrightarrow> unat ((48 + of_nat d :: jchar) - 48) = d"
  by (simp add: unat_of_nat)

lemma foldl_nat_str: "foldl (\<lambda>n c. 10 * n + unat (c - 48 :: jchar)) 0 (nat_str n) = n"
proof (induction n rule: nat_str.induct)
  case (1 n)
  then show ?case
    using digit_value [of n] digit_value [of "n mod 10"]
    by (simp add: nat_str.simps [of n] del: add_diff_cancel_left')
qed

lemma parseInt_nat_str [simp]: "parseInt (nat_str n) = Some n"
proof -
  have digits: "takeWhile (\<lambda>c. 48 \<le> c \<and> c \<le> 57) (nat_str n) = nat_str n"
    using nat_str_digits by (auto simp: takeWhile_eq_all_conv)
  show ?thesis unfolding parseInt_def Let_def digits by (simp add: foldl_nat_str)
qed

definition li_tag :: "nat \<Rightarrow> bool \<Rightarrow> jstr" where
  "li_tag i a = js ''li data-i=\"'' @ nat_str i @ js ''\" class=\"'' @ (if a then js ''active'' else []) @ js ''\"''"

text \<open>Every tag the palette writes.\<close>

definition palette_tags :: "jstr set" where
  "palette_tags = {js ''div class=\"search-empty\"'', js ''div class=\"search-crumb\"'', js ''div class=\"search-snippet\"'',
     js ''/div'', js ''/li'', js ''span class=\"sep\"'', js ''/span'', js ''mark'', js ''/mark''}
     \<union> {li_tag i a | i a. True}"

lemma li_tag_plain: "62 \<notin> set (li_tag i a)"
  using nat_str_digits [of 62 i] by (auto simp: li_tag_def js_eval)

lemma literal_tags:
  "tokens (js ''<div class=\"search-empty\">'' @ r) = Tag (js ''div class=\"search-empty\"'') # tokens r"
  "tokens (js ''<div class=\"search-crumb\">'' @ r) = Tag (js ''div class=\"search-crumb\"'') # tokens r"
  "tokens (js ''<div class=\"search-snippet\">'' @ r) = Tag (js ''div class=\"search-snippet\"'') # tokens r"
  "tokens (js ''</div>'' @ r) = Tag (js ''/div'') # tokens r"
  "tokens (js ''</div></li>'' @ r) = Tag (js ''/div'') # Tag (js ''/li'') # tokens r"
  "tokens (js ''<span class=\"sep\">'' @ r) = Tag (js ''span class=\"sep\"'') # tokens r"
  "tokens (js ''</span>'' @ r) = Tag (js ''/span'') # tokens r"
  by (simp_all add: js_eval)

lemma li_tokens:
  "tokens (js ''<li data-i=\"'' @ nat_str i @ js ''\" class=\"'' @ (if a then js ''active'' else []) @ js ''\">'' @ r)
   = Tag (li_tag i a) # tokens r"
proof -
  have "js ''<li data-i=\"'' @ nat_str i @ js ''\" class=\"'' @ (if a then js ''active'' else []) @ js ''\">'' @ r
      = 60 # li_tag i a @ 62 # r"
    by (simp add: li_tag_def js_eval)
  then show ?thesis by (simp only: tokens_tag [OF li_tag_plain])
qed

definition crumb_tokens :: "srec \<Rightarrow> token list" where
  "crumb_tokens r =
     map Chr (escapeHtml (if truthy (sr_docTitle r) then or_empty (sr_docTitle r) else sr_file r)) @
     (if truthy (sr_heading r)
      then Tag (js ''span class=\"sep\"'') # Chr 0x203A # Tag (js ''/span'') # map Chr (escapeHtml (or_empty (sr_heading r)))
      else [])"

lemma crumb_html_tokens: "tokens (crumb_html r @ u) = crumb_tokens r @ tokens u"
proof (cases "truthy (sr_heading r)")
  case True
  have "tokens ([0x203A] @ v) = Chr 0x203A # tokens v" for v by simp
  with True show ?thesis
    by (simp only: crumb_html_def crumb_tokens_def if_True append_assoc append_Cons
        tokens_plain_append [OF escapeHtml_plain(1)] literal_tags)
next
  case False
  then show ?thesis
    by (simp add: crumb_html_def crumb_tokens_def tokens_plain_append escapeHtml_plain)
qed

lemma row_tokens:
  "tokens (row_html act i h @ z) =
     Tag (li_tag i (int i = act)) # Tag (js ''div class=\"search-crumb\"'') # crumb_tokens (h_rec h) @
     Tag (js ''/div'') # Tag (js ''div class=\"search-snippet\"'') # tokens (snippet (h_rec h) (h_terms h)) @
     Tag (js ''/div'') # Tag (js ''/li'') # tokens z"
proof -
  have sn: "tokens (snippet (h_rec h) (h_terms h) @ u) = tokens (snippet (h_rec h) (h_terms h)) @ tokens u" for u
    using snippet_tokens tokens_append by blast
  show ?thesis
    by (simp only: row_html_def Let_def append_assoc li_tokens literal_tags sn crumb_html_tokens append_Cons)
qed

lemma row_closed: "closed (row_html act i h)"
  using row_tokens [of act i h] row_tokens [of act i h "[]"] by (simp add: closed_def)

lemma row_tags: "tag_set (tokens (row_html act i h)) \<subseteq> palette_tags"
proof -
  have "tag_set (tokens (snippet (h_rec h) (h_terms h))) \<subseteq> palette_tags"
    using snippet_tokens [of "h_rec h" "h_terms h"] by (auto simp: palette_tags_def)
  moreover have "tag_set (crumb_tokens (h_rec h)) \<subseteq> palette_tags"
    by (simp add: crumb_tokens_def palette_tags_def)
  ultimately show ?thesis
    using row_tokens [of act i h "[]"] by (auto simp: palette_tags_def)
qed

lemma rows_tags: "tag_set (tokens (rows_html act hs)) \<subseteq> palette_tags"
proof -
  let ?ss = "map (\<lambda>(i, h). row_html act i h) (zip [0..<length hs] hs)"
  have "closed s \<and> tag_set (tokens s) \<subseteq> palette_tags" if "s \<in> set ?ss" for s
  proof -
    from that obtain i h where "s = row_html act i h" by auto
    then show ?thesis using row_closed row_tags by blast
  qed
  then show ?thesis
    using concat_closed [of ?ss] unfolding rows_html_def by blast
qed

lemma render_tags: "tag_set (tokens (p_html (render p))) \<subseteq> palette_tags"
proof -
  have "tokens (js ''<div class=\"search-empty\">No results</div>'') =
      Tag (js ''div class=\"search-empty\"'') # map Chr (js ''No results'') @ [Tag (js ''/div'')]"
    by (simp add: js_eval)
  then have "tag_set (tokens (js ''<div class=\"search-empty\">No results</div>'')) \<subseteq> palette_tags"
    by (auto simp: palette_tags_def)
  then show ?thesis by (simp add: render_def rows_tags)
qed


section \<open>The palette's state\<close>

text \<open>
  The list shows what the query, the results and the active entry call for; a non-empty result list
  has an active entry in range; the index is requested once.
\<close>

definition palette_inv :: "palette \<Rightarrow> bool" where
  "palette_inv p \<longleftrightarrow>
     p_html p = p_html (render p) \<and> p_rows p = p_rows (render p) \<and>
     -1 \<le> p_active p \<and> (p_results p \<noteq> [] \<longrightarrow> 0 \<le> p_active p \<and> p_active p < int (length (p_results p))) \<and>
     length (p_results p) \<le> 30 \<and> (p_loading p \<longrightarrow> p_INDEX p = None) \<and>
     length (p_fetches p) = (if p_INDEX p = None \<and> \<not> p_loading p then 0 else 1)"

lemma render_same [simp]:
  "p_value (render p) = p_value p" "p_results (render p) = p_results p" "p_active (render p) = p_active p"
  "p_INDEX (render p) = p_INDEX p" "p_loading (render p) = p_loading p" "p_fetches (render p) = p_fetches p"
  "p_open (render p) = p_open p" "p_hash (render p) = p_hash p"
  by (simp_all add: render_def)

lemma render_idem [simp]: "render (render p) = render p"
  by (simp add: render_def)

lemma render_html_cong:
  assumes "p_value p = p_value q" "p_results p = p_results q" "p_active p = p_active q"
  shows "p_html (render p) = p_html (render q)" "p_rows (render p) = p_rows (render q)"
  using assms by (simp_all add: render_def)

lemma new_palette_inv: "palette_inv new_palette"
  by (simp add: palette_inv_def new_palette_def render_def trim_def)

text \<open>Steps that change neither the query, the results, the active entry nor the list.\<close>

lemma palette_inv_frame:
  assumes "palette_inv p" "p_value q = p_value p" "p_results q = p_results p" "p_active q = p_active p"
    "p_html q = p_html p" "p_rows q = p_rows p"
    "p_INDEX q = p_INDEX p" "p_loading q = p_loading p" "p_fetches q = p_fetches p"
  shows "palette_inv q"
  using assms render_html_cong [of q p] by (simp add: palette_inv_def)

lemma close_inv: "palette_inv p \<Longrightarrow> palette_inv (close p)"
  by (rule palette_inv_frame) (simp_all add: close_def)

lemma go_inv: "palette_inv p \<Longrightarrow> palette_inv (go i p)"
  by (cases "nth_int (p_results p) i") (auto simp: go_def close_def elim: palette_inv_frame)

lemma ensureIndex_inv: "palette_inv p \<Longrightarrow> palette_inv (ensureIndex path p)"
  using render_html_cong [of "ensureIndex path p" p] by (auto simp: palette_inv_def ensureIndex_def)

lemma index_answer_inv: "palette_inv p \<Longrightarrow> palette_inv (index_answer a p)"
  using render_html_cong [of "index_answer a p" p] by (auto simp: palette_inv_def index_answer_def)

lemma open_inv: "palette_inv p \<Longrightarrow> palette_inv (open_palette path p)"
  unfolding open_palette_def by (rule ensureIndex_inv) (simp add: palette_inv_def render_def trim_def)

lemma render_inv:
  assumes "-1 \<le> p_active p" "p_results p \<noteq> [] \<Longrightarrow> 0 \<le> p_active p \<and> p_active p < int (length (p_results p))"
    "length (p_results p) \<le> 30" "p_loading p \<longrightarrow> p_INDEX p = None"
    "length (p_fetches p) = (if p_INDEX p = None \<and> \<not> p_loading p then 0 else 1)"
  shows "palette_inv (render p)"
  using assms by (simp add: palette_inv_def)

lemma runSearch_inv: "palette_inv p \<Longrightarrow> palette_inv (runSearch q (p\<lparr>p_value := q\<rparr>))"
  using search_hits_length
  by (auto simp: runSearch_def palette_inv_def Let_def split: option.splits intro!: render_inv)

lemma input_keydown_inv: "palette_inv p \<Longrightarrow> palette_inv (input_keydown k p)"
  unfolding input_keydown_def
  by (auto intro!: go_inv close_inv render_inv simp: palette_inv_def [of p] split: if_splits)

lemma document_keydown_inv: "palette_inv p \<Longrightarrow> palette_inv (document_keydown path t k mt ct p)"
  unfolding document_keydown_def by (auto intro: open_inv close_inv)

lemma palette_step_inv: "palette_inv p \<Longrightarrow> palette_inv (palette_step path e p)"
  by (cases e) (auto intro: open_inv runSearch_inv close_inv go_inv index_answer_inv document_keydown_inv
      input_keydown_inv split: option.splits)

lemma palette_run_inv: "palette_inv p \<Longrightarrow> palette_inv (palette_run path es p)"
  unfolding palette_run_def by (induction es arbitrary: p) (simp_all add: palette_step_inv)

lemmas reachable_inv = palette_run_inv [OF new_palette_inv]

lemma palette_run_append: "palette_run path (es @ fs) p = palette_run path fs (palette_run path es p)"
  by (simp add: palette_run_def)

subsection \<open>Where a result leads\<close>

text \<open>Records as the index generator writes them: names without a colon.\<close>

definition routable :: "srec \<Rightarrow> bool" where
  "routable r \<longleftrightarrow> sr_file r \<noteq> [] \<and> colon \<notin> set (sr_file r) \<and> colon \<notin> set (or_empty (sr_headingId r))"

lemma hit_hash_parse:
  assumes "routable r"
  shows "parseHash (hash_sign # hit_hash r) =
    \<lparr>hd_view = js ''docs'', hd_doc = Some (sr_file r),
     hd_section = or_null (or_empty (sr_headingId r)), hd_target = None\<rparr>"
proof -
  have f: "sr_file r \<noteq> []" "colon \<notin> set (sr_file r)" using assms by (simp_all add: routable_def)
  have st: "startsWith (js ''docs:'' @ s) (js ''docs:'')" "drop 5 (js ''docs:'' @ s) = s"
    "js ''docs:'' @ s \<noteq> []" for s
    by (simp_all add: js_eval)
  show ?thesis
  proof (cases "truthy (sr_headingId r)")
    case True
    then have "split_on colon (sr_file r @ js '':'' @ or_empty (sr_headingId r)) = [sr_file r, or_empty (sr_headingId r)]"
      using assms f(2) by (simp add: routable_def js_eval)
    moreover have "or_empty (sr_headingId r) \<noteq> []"
      using True by (auto simp: truthy_def or_empty_def split: option.splits)
    ultimately show ?thesis
      using True f st by (simp add: parseHash_def hit_hash_def docs_route_def part_or_null_def js_eval)
  next
    case False
    then have "or_empty (sr_headingId r) = []"
      by (auto simp: truthy_def or_empty_def split: option.splits)
    with False f st show ?thesis
      by (simp add: parseHash_def hit_hash_def docs_route_def part_or_null_def js_eval)
  qed
qed


section \<open>Properties\<close>

text \<open>
  a record is a hit exactly when every word of the query occurs in its heading, its document
  title or its text, letter case aside.
\<close>

theorem search_is_conjunctive:
  assumes "query_terms q \<noteq> []"
  shows "0 < score r (query_terms q) \<longleftrightarrow> (\<forall>t \<in> set (query_terms q). rec_mentions r t)"
  by (rule score_pos) (use assms in simp_all)

theorem search_is_conjunctive_witness:
  "0 < score \<lparr>sr_file = js ''a'', sr_docTitle = Some (js ''Guide''), sr_heading = None, sr_headingId = None,
      sr_text = Some (js ''Rate Limits'')\<rparr> (query_terms (js ''rate GUIDE''))"
proof -
  let ?r = "\<lparr>sr_file = js ''a'', sr_docTitle = Some (js ''Guide''), sr_heading = None, sr_headingId = None,
      sr_text = Some (js ''Rate Limits'')\<rparr>"
  have q: "query_terms (js ''rate GUIDE'') = [js ''rate'', js ''guide'']"
    by (simp add: query_terms_def split_runs.simps js_eval char_classes)
  have "rec_mentions ?r (js ''rate'')" "rec_mentions ?r (js ''guide'')"
    by (simp_all add: rec_mentions_def or_empty_def occurs_def js_eval char_classes)
  then show ?thesis
    using search_is_conjunctive [of "js ''rate GUIDE''" ?r] by (simp add: q)
qed


text \<open>Thirty records about "b" and one that mentions it less: the last one is cut off.\<close>

definition demo_rec :: "jstr \<Rightarrow> jstr \<Rightarrow> srec" where
  "demo_rec f h = \<lparr>sr_file = f, sr_docTitle = None, sr_heading = Some h, sr_headingId = None, sr_text = Some (js ''b'')\<rparr>"

lemma count_hits_numeral [js_eval]:
  "count_hits tx t (Some idx) (numeral k) = Suc (count_hits tx t (indexOf tx t (idx + length t)) (pred_numeral k))"
  by (simp add: numeral_eq_Suc)

lemma demo_scores:
  "score (demo_rec f (js ''b'')) [js ''b''] = 12" "score (demo_rec f []) [js ''b''] = 2"
  by (simp_all add: score_def demo_rec_def or_empty_def indexOf_def js_eval char_classes Let_def)

lemma demo_hits:
  "search_hits (replicate 30 (demo_rec (js ''x'') (js ''b'')) @ [demo_rec (js ''y'') []]) [js ''b'']
   = replicate 30 \<lparr>h_rec = demo_rec (js ''x'') (js ''b''), h_score = 12, h_terms = [js ''b'']\<rparr>"
proof -
  let ?a = "\<lparr>h_rec = demo_rec (js ''x'') (js ''b''), h_score = 12, h_terms = [js ''b'']\<rparr>"
  let ?b = "\<lparr>h_rec = demo_rec (js ''y'') [], h_score = 2, h_terms = [js ''b'']\<rparr>"
  let ?k = "\<lambda>h :: hit. - int (h_score h)"
  have "sort_key ?k (replicate 30 ?a @ [?b]) = replicate 30 ?a @ [?b]"
    by (rule sort_key_id_if_sorted) (auto simp: sorted_append sorted_replicate)
  then show ?thesis by (simp add: search_hits_def demo_scores)
qed


text \<open>
  the words of a query are matched literally: the regular expression that highlights them, read
  back, has exactly these words as its alternatives, whatever syntax characters they contain.
\<close>

theorem query_is_literal:
  assumes "query_terms q \<noteq> []"
  shows "read_alts (join_bar (map escapeRe (query_terms q))) = Some (query_terms q)"
  by (rule read_alts_join) (rule assms)

theorem query_is_literal_witness:
  "read_alts (join_bar (map escapeRe (query_terms (js ''a|b c++'')))) = Some [js ''a|b'', js ''c++'']"
proof -
  have q: "query_terms (js ''a|b c++'') = [js ''a|b'', js ''c++'']"
    by (simp add: query_terms_def split_runs.simps js_eval char_classes)
  show ?thesis using query_is_literal [of "js ''a|b c++''"] by (simp add: q)
qed

text \<open>
  C1: no markup of the index or of the query reaches the page: whatever is typed and whatever the
  index holds, every tag of the result list is one the palette itself writes.
\<close>

theorem palette_markup_safe:
  "tag_set (tokens (p_html (palette_run path es new_palette))) \<subseteq> palette_tags"
  using reachable_inv [of path es] render_tags by (simp add: palette_inv_def)

text \<open>
  highlighting only adds \<open>mark\<close> elements: without its tags an excerpt is the escaped fragment of
  the record's text.
\<close>

theorem snippet_keeps_text:
  "text_of (tokens (snippet r ts)) = escapeHtml (snippet_frag r ts) \<and>
   tag_set (tokens (snippet r ts)) \<subseteq> {js ''mark'', js ''/mark''}"
  using snippet_tokens by blast

text \<open>
  C31: after any sequence of browser events and index answers the list shows the current query,
  results and active entry, a non-empty result list has its active entry in range, there are at most
  thirty results, and the index has been requested at most once.
\<close>

theorem palette_always_consistent: "palette_inv (palette_run path es new_palette)"
  by (rule reachable_inv)

text \<open>
  clicking the n-th row closes the palette and sets a hash that the router reads as the
  document and section of the n-th result.
\<close>

theorem row_click_leads_to_record:
  assumes "p = palette_run path es new_palette" "n < length (p_rows p)" "routable (h_rec (p_results p ! n))"
  shows "\<not> p_open (palette_step path (Row_click n) p) \<and>
    map_option parseHash (p_hash (palette_step path (Row_click n) p)) =
      Some \<lparr>hd_view = js ''docs'', hd_doc = Some (sr_file (h_rec (p_results p ! n))),
        hd_section = or_null (or_empty (sr_headingId (h_rec (p_results p ! n)))), hd_target = None\<rparr>"
proof -
  have "p_rows p = p_rows (render p)" using reachable_inv [of path es] assms(1) by (simp add: palette_inv_def)
  with assms(2) have n: "n < length (p_results p)" "p_rows p ! n = nat_str n"
    by (auto simp: render_def split: if_splits)
  then have "palette_step path (Row_click n) p =
      (close p)\<lparr>p_hash := Some (hash_sign # hit_hash (h_rec (p_results p ! n)))\<rparr>"
    using assms(2) by (simp add: nth_opt_def go_def nth_int_def)
  then show ?thesis using hit_hash_parse [OF assms(3)] by (simp add: close_def)
qed

lemma demo_run:
  "p_results (palette_run path [Trigger, Answer (Index_ok [demo_rec (js ''x'') (js ''b'')]), Input (js ''b'')] new_palette)
     = [\<lparr>h_rec = demo_rec (js ''x'') (js ''b''), h_score = 12, h_terms = [js ''b'']\<rparr>]"
  "p_rows (palette_run path [Trigger, Answer (Index_ok [demo_rec (js ''x'') (js ''b'')]), Input (js ''b'')] new_palette)
     = [nat_str 0]"
proof -
  have q: "query_terms (js ''b'') = [js ''b'']"
    by (simp add: query_terms_def split_runs.simps js_eval char_classes)
  have t: "trim (js ''b'') \<noteq> []" by (simp add: trim_def js_eval is_space_def)
  note defs = palette_run_def open_palette_def ensureIndex_def index_answer_def new_palette_def runSearch_def q
    search_hits_def demo_scores render_def Let_def
  show "p_results (palette_run path [Trigger, Answer (Index_ok [demo_rec (js ''x'') (js ''b'')]), Input (js ''b'')] new_palette)
     = [\<lparr>h_rec = demo_rec (js ''x'') (js ''b''), h_score = 12, h_terms = [js ''b'']\<rparr>]"
    by (simp add: defs t)
  show "p_rows (palette_run path [Trigger, Answer (Index_ok [demo_rec (js ''x'') (js ''b'')]), Input (js ''b'')] new_palette)
     = [nat_str 0]"
    by (simp add: defs t)
qed

theorem row_click_leads_to_record_witness:
  "\<not> p_open (palette_step [] (Row_click 0)
     (palette_run [] [Trigger, Answer (Index_ok [demo_rec (js ''x'') (js ''b'')]), Input (js ''b'')] new_palette))"
proof -
  let ?es = "[Trigger, Answer (Index_ok [demo_rec (js ''x'') (js ''b'')]), Input (js ''b'')]"
  have "routable (demo_rec (js ''x'') (js ''b''))"
    by (simp add: routable_def demo_rec_def or_empty_def js_eval)
  then show ?thesis
    using row_click_leads_to_record [OF refl, of 0 "[]" ?es] by (simp add: demo_run)
qed

text \<open>
  a query typed while the index is still being fetched is answered "No results", and stays so
  when the index arrives, even if it contains matching records.
\<close>

theorem early_query_not_rerun:
  assumes "trim q \<noteq> []"
  shows "p_html (palette_run path [Trigger, Input q, Answer (Index_ok rs)] new_palette) =
    js ''<div class=\"search-empty\">No results</div>''"
  using assms by (simp add: palette_run_def open_palette_def ensureIndex_def index_answer_def new_palette_def
      runSearch_def render_def)

theorem early_query_not_rerun_witness:
  "p_html (palette_run [] [Trigger, Input (js ''b''), Answer (Index_ok [demo_rec (js ''x'') (js ''b'')])] new_palette) =
    js ''<div class=\"search-empty\">No results</div>''"
  by (rule early_query_not_rerun) (simp add: trim_def js_eval is_space_def)

text \<open>
  results outlive the list: after Escape and reopening, the palette shows an empty query and an
  empty list, yet Enter navigates to the entry that was active before.
\<close>

theorem enter_after_reopen:
  assumes "p = palette_run path es new_palette" "p_results p \<noteq> []"
  shows "p_html (palette_run path [Key Palette_input (js ''Escape'') False False, Trigger] p) = [] \<and>
    p_hash (palette_run path [Key Palette_input (js ''Escape'') False False, Trigger,
        Key Palette_input (js ''Enter'') False False] p) =
      Some (hash_sign # hit_hash (h_rec (p_results p ! nat (p_active p))))"
proof -
  have "0 \<le> p_active p" "p_active p < int (length (p_results p))"
    using reachable_inv [of path es] assms by (simp_all add: palette_inv_def)
  then show ?thesis
    by (simp add: palette_run_def document_keydown_def input_keydown_def close_def open_palette_def
        ensureIndex_def go_def nth_int_def nth_opt_def js_eval nat_less_iff)
qed

theorem enter_after_reopen_witness:
  "p_html (palette_run [] [Key Palette_input (js ''Escape'') False False, Trigger]
     (palette_run [] [Trigger, Answer (Index_ok [demo_rec (js ''x'') (js ''b'')]), Input (js ''b'')] new_palette)) = []"
  using enter_after_reopen [OF refl, of "[]" "[Trigger, Answer (Index_ok [demo_rec (js ''x'') (js ''b'')]), Input (js ''b'')]"]
  by (simp add: demo_run)

text \<open>Highlighting runs on escaped text, so a query can match inside a character reference.\<close>

lemma highlight_splits_entity:
  "snippet \<lparr>sr_file = [], sr_docTitle = None, sr_heading = None, sr_headingId = None, sr_text = Some (js ''R&D'')\<rparr>
     [js ''amp''] = js ''R&<mark>amp</mark>;D''"
  by (simp add: snippet_def snippet_frag_def or_empty_def highlight_terms escapeHtml_def html_char_def
      starts_ci_def slice_def mark_open_def mark_close_def indexOf_def js_eval char_classes)

end
