(* ===== verification/App.thy ===== *)
theory App
  imports Headings Code_Blocks
begin

text \<open>
  The documentation viewer as a whole (\<open>docs/ui/assets/app.js\<close>): its global variables and the parts
  of the page its handlers write are the record \<open>page\<close>; start-up, clicks, hash changes and the answers
  to its requests are the events of \<open>app_step\<close>. An \<open>await\<close> splits a handler: what follows it is a
  separate event, so loads can overlap in every order. The server is the source of the answers and
  \<open>marked.parse\<close> is the parameter \<open>md\<close> (\<open>None\<close> when it throws). Names used in hashes are taken to
  be plain, so that the browser does not percent-encode them.

  The lemmas show the view and sidebar invariants, what a load puts on the page on each of its
  paths, and where overlapping loads and the view tabs leave the page inconsistent.
\<close>

section \<open>Definitions\<close>

subsection \<open>Data\<close>

record nav_link =
  nl_title :: jstr
  nl_file :: jstr

record nav_section =
  ns_title :: jstr
  ns_links :: "nav_link list"

record nav_config =
  sections :: "nav_section list"
  defaultDoc :: jstr

definition nav_files :: "nav_config \<Rightarrow> jstr list" where
  "nav_files cfg = map nl_file (concat (map ns_links (sections cfg)))"

record side_link =
  sl_href :: jstr
  sl_class :: classes
  sl_doc :: jstr
  sl_title :: jstr

datatype content =
    Spinner
  | Rendered nat "node list"   \<comment> \<open>written by which load\<close>
  | Load_error
  | Nav_error

datatype phase = Fetching | Reading

record load =
  ld_id :: nat
  ld_doc :: jstr
  ld_phase :: phase

datatype target = Chrome jstr | In_document jstr

datatype boot = Before_dom | Nav_wait | Nav_failed | Ready

record page =
  pathname :: jstr
  hash :: jstr
  innerWidth :: nat
  HAS_API :: bool
  DOCS_CONFIG :: nav_config
  currentView :: jstr
  currentDoc :: "jstr option"
  data_theme :: "jstr option"
  saved_theme :: "jstr option"      \<comment> \<open>\<open>localStorage['waga-theme']\<close>\<close>
  theme_button :: "(jstr \<times> jstr) option" \<comment> \<open>icon, \<open>aria-label\<close>\<close>
  boot_state :: boot
  notice :: bool                    \<comment> \<open>the desktop-only notice of the sidebar\<close>
  side_titles :: "jstr list"
  side_links :: "side_link list"
  sidebar_class :: classes
  overlay_class :: classes
  body_class :: classes
  body_overflow :: jstr
  nav_tabs :: "(jstr \<times> classes) list"      \<comment> \<open>\<open>data-view\<close>\<close>
  content_views :: "(jstr \<times> classes) list" \<comment> \<open>\<open>id\<close>\<close>
  content_div :: content
  toc_rail :: toc
  loads :: "load list"
  next_load :: nat
  diagrams_due :: "nat list"        \<comment> \<open>loads whose diagrams wait for the library\<close>
  scroll_timers :: "jstr list"
  scrolled :: "target option"
  scroll_top :: bool                \<comment> \<open>\<open>scrollTop\<close> was reset to 0 last\<close>
  requests :: "jstr list"

text \<open>The page as the server sends it (\<open>docs/ui/index.html\<close>), the API parts only on the console.\<close>

definition empty_toc :: toc where
  "empty_toc = \<lparr>toc_title = None, toc_links = [], has_toc = False, toc_items = [], toc_visible = {}\<rparr>"

definition new_page :: "jstr \<Rightarrow> jstr \<Rightarrow> nat \<Rightarrow> bool \<Rightarrow> jstr option \<Rightarrow> page" where
  "new_page path h w api th =
     \<lparr>pathname = path, hash = h, innerWidth = w, HAS_API = api,
      DOCS_CONFIG = \<lparr>sections = [], defaultDoc = []\<rparr>, currentView = js ''docs'', currentDoc = None,
      data_theme = th, saved_theme = None, theme_button = None, boot_state = Before_dom, notice = False,
      side_titles = [], side_links = [], sidebar_class = [js ''docs-sidebar''],
      overlay_class = [js ''sidebar-overlay''], body_class = [], body_overflow = [],
      nav_tabs = (js ''docs'', [js ''nav-tab'', js ''active'']) # (if api then [(js ''api'', [js ''nav-tab''])] else []),
      content_views = (js ''docs-view'', [js ''content-view'', js ''active'']) #
        (if api then [(js ''api-view'', [js ''content-view''])] else []),
      content_div = Spinner, toc_rail = empty_toc, loads = [], next_load = 0, diagrams_due = [],
      scroll_timers = [], scrolled = None, scroll_top = False, requests = []\<rparr>"

subsection \<open>Theme\<close>

definition currentTheme :: "page \<Rightarrow> jstr" where
  "currentTheme pg = (if data_theme pg = Some (js ''light'') then js ''light'' else js ''dark'')"

definition paint :: "page \<Rightarrow> page" where
  \<comment> \<open>the icons \<open>SUN_SVG\<close> and \<open>MOON_SVG\<close> by name\<close>
  "paint pg =
     (let dark = (currentTheme pg = js ''dark'')
      in pg\<lparr>theme_button := Some (if dark then js ''SUN_SVG'' else js ''MOON_SVG'',
              if dark then js ''Switch to light theme'' else js ''Switch to dark theme'')\<rparr>)"

subsection \<open>Loading documents\<close>

definition loadMarkdownDocs :: "jstr \<Rightarrow> page \<Rightarrow> page" where
  \<comment> \<open>up to the first \<open>await\<close>\<close>
  "loadMarkdownDocs docName pg =
     pg\<lparr>currentDoc := Some docName, content_div := Spinner,
        requests := requests pg @ [buildUrl (pathname pg) (js ''assets/docs/'' @ docName @ js ''.md'')],
        loads := loads pg @ [\<lparr>ld_id = next_load pg, ld_doc = docName, ld_phase = Fetching\<rparr>],
        next_load := next_load pg + 1\<rparr>"

definition drop_load :: "nat \<Rightarrow> page \<Rightarrow> page" where
  "drop_load k pg = pg\<lparr>loads := filter (\<lambda>l. ld_id l \<noteq> k) (loads pg)\<rparr>"

definition load_failed :: "nat \<Rightarrow> page \<Rightarrow> page" where
  "load_failed k pg = (drop_load k pg)\<lparr>content_div := Load_error\<rparr>"

text \<open>What a parsed document becomes on the page, with its table of contents.\<close>

definition decorate :: "node list \<Rightarrow> jstr \<Rightarrow> node list \<times> toc" where
  "decorate html docName = buildTableOfContents (enhanceCodeBlocks (addHeadingAnchors html docName)) docName"

definition load_finished :: "(jstr \<Rightarrow> node list option) \<Rightarrow> load \<Rightarrow> jstr \<Rightarrow> page \<Rightarrow> page" where
  "load_finished md l markdown pg =
     (case md markdown of
        None \<Rightarrow> load_failed (ld_id l) pg
      | Some html \<Rightarrow>
          let (nodes, rail) = decorate html (ld_doc l);
              pg1 = (drop_load (ld_id l) pg)\<lparr>content_div := Rendered (ld_id l) nodes, toc_rail := rail,
                diagrams_due := diagrams_due pg @ (if mermaid_blocks (addHeadingAnchors html (ld_doc l)) = [] then [] else [ld_id l])\<rparr>
          in case hd_section (parseHash (hash pg)) of
               Some sec \<Rightarrow> pg1\<lparr>scroll_timers := scroll_timers pg @ [sec]\<rparr>
             | None \<Rightarrow> pg1\<lparr>scroll_top := True\<rparr>)"

datatype answer = Status bool | Body jstr | Network_error

definition find_load :: "nat \<Rightarrow> page \<Rightarrow> load option" where
  "find_load k pg = List.find (\<lambda>l. ld_id l = k) (loads pg)"

definition answer_load :: "(jstr \<Rightarrow> node list option) \<Rightarrow> nat \<Rightarrow> answer \<Rightarrow> page \<Rightarrow> page" where
  "answer_load md k a pg =
     (case find_load k pg of
        None \<Rightarrow> pg
      | Some l \<Rightarrow>
          (case (ld_phase l, a) of
             (Fetching, Status True) \<Rightarrow>
               pg\<lparr>loads := map (\<lambda>m. if ld_id m = k then m\<lparr>ld_phase := Reading\<rparr> else m) (loads pg)\<rparr>
           | (Fetching, Status False) \<Rightarrow> load_failed k pg
           | (Reading, Body s) \<Rightarrow> load_finished md l s pg
           | (_, Network_error) \<Rightarrow> load_failed k pg
           | _ \<Rightarrow> pg))"

text \<open>
  The diagram library is there: the blocks of load \<open>k\<close> are replaced, visibly if its document is still
  on the page.
\<close>

definition diagrams_ready :: "nat \<Rightarrow> bool \<Rightarrow> page \<Rightarrow> page" where
  "diagrams_ready k library_loads pg =
     (if k \<notin> set (diagrams_due pg) then pg
      else
        let pg1 = pg\<lparr>diagrams_due := remove1 k (diagrams_due pg)\<rparr>
        in case content_div pg of
             Rendered j nodes \<Rightarrow>
               if j = k then pg1\<lparr>content_div := Rendered j (renderMermaidDiagrams library_loads nodes)\<rparr> else pg1
           | _ \<Rightarrow> pg1)"

text \<open>\<open>document.getElementById\<close>: the page's own ids come before the document's.\<close>

definition page_ids :: "jstr list" where
  "page_ids = [js ''mobile-menu-btn'', js ''logo-link'', js ''theme-toggle'', js ''docs-view'', js ''sidebar'',
     js ''sidebar-overlay'', js ''markdown-content'']"

definition find_target :: "jstr \<Rightarrow> page \<Rightarrow> target option" where
  "find_target sec pg =
     (if sec \<in> set page_ids then Some (Chrome sec)
      else case content_div pg of
             Rendered k nodes \<Rightarrow> (case getElementById sec nodes of None \<Rightarrow> None | Some n \<Rightarrow> Some (In_document sec))
           | _ \<Rightarrow> None)"

definition scroll_to :: "jstr \<Rightarrow> page \<Rightarrow> page" where
  "scroll_to sec pg =
     (case find_target sec pg of None \<Rightarrow> pg | Some t \<Rightarrow> pg\<lparr>scrolled := Some t, scroll_top := False\<rparr>)"

definition scroll_timer :: "page \<Rightarrow> page" where
  "scroll_timer pg =
     (case scroll_timers pg of [] \<Rightarrow> pg | sec # ts \<Rightarrow> scroll_to sec (pg\<lparr>scroll_timers := ts\<rparr>))"

subsection \<open>Sidebar and views\<close>

definition pushState :: "jstr \<Rightarrow> page \<Rightarrow> page" where
  \<comment> \<open>also \<open>replaceState\<close>: an empty URL is the current one\<close>
  "pushState u pg = (if u = [] then pg else pg\<lparr>hash := u\<rparr>)"

definition section_links :: "bool \<Rightarrow> nav_section \<Rightarrow> side_link list" where
  "section_links first s =
     map (\<lambda>(i, l). \<lparr>sl_href = buildHash (js ''docs'') (Some (nl_file l)) None,
                    sl_class = (if first \<and> i = 0 then [js ''sidebar-link'', js ''active''] else [js ''sidebar-link'']),
                    sl_doc = nl_file l, sl_title = nl_title l\<rparr>)
       (zip [0..<length (ns_links s)] (ns_links s))"

definition generateSidebar :: "page \<Rightarrow> page" where
  "generateSidebar pg =
     (let ss = sections (DOCS_CONFIG pg)
      in pg\<lparr>notice := HAS_API pg, side_titles := map ns_title ss,
            side_links := concat (map (\<lambda>(i, s). section_links (i = 0) s) (zip [0..<length ss] ss))\<rparr>)"

definition link_remove :: "side_link \<Rightarrow> side_link" where
  "link_remove l = l\<lparr>sl_class := cl_remove (js ''active'') (sl_class l)\<rparr>"

definition link_add :: "side_link \<Rightarrow> side_link" where
  "link_add l = l\<lparr>sl_class := cl_add (js ''active'') (sl_class l)\<rparr>"

definition mark_links :: "jstr \<Rightarrow> page \<Rightarrow> page" where
  "mark_links d pg =
     pg\<lparr>side_links := map (\<lambda>l. if sl_doc l = d then link_add (link_remove l) else link_remove l) (side_links pg)\<rparr>"

definition switchToView :: "jstr \<Rightarrow> page \<Rightarrow> page" where
  "switchToView viewName pg =
     (let mark = (\<lambda>k cs. if k then cl_add (js ''active'') (cl_remove (js ''active'') cs) else cl_remove (js ''active'') cs)
      in pg\<lparr>currentView := viewName,
            body_class := cl_add (viewName @ js ''-view'') (cl_remove (js ''api-view'') (cl_remove (js ''docs-view'') (body_class pg))),
            nav_tabs := map (\<lambda>(v, cs). (v, mark (v = viewName) cs)) (nav_tabs pg),
            content_views := map (\<lambda>(i, cs). (i, mark (i = viewName @ js ''-view'') cs)) (content_views pg)\<rparr>)"

definition close_mobile_sidebar :: "page \<Rightarrow> page" where
  "close_mobile_sidebar pg =
     (if innerWidth pg \<le> 768 \<and> cl_contains (sidebar_class pg) (js ''open'')
      then pg\<lparr>sidebar_class := cl_remove (js ''open'') (sidebar_class pg),
              overlay_class := cl_remove (js ''active'') (overlay_class pg), body_overflow := []\<rparr>
      else pg)"

definition handleSidebarClick :: "nat \<Rightarrow> page \<Rightarrow> page" where
  "handleSidebarClick i pg =
     (case nth_opt (side_links pg) i of
        None \<Rightarrow> pg
      | Some l \<Rightarrow>
          let pg1 = pg\<lparr>side_links := (map link_remove (side_links pg))[i := link_add (link_remove l)]\<rparr>;
              pg2 = pushState (buildHash (js ''docs'') (Some (sl_doc l)) None) pg1;
              pg3 = (if currentView pg2 \<noteq> js ''docs'' then switchToView (js ''docs'') pg2 else pg2)
          in close_mobile_sidebar (loadMarkdownDocs (sl_doc l) pg3))"

definition tab_click :: "nat \<Rightarrow> page \<Rightarrow> page" where
  "tab_click i pg =
     (if boot_state pg \<noteq> Ready then pg
      else case nth_opt (nav_tabs pg) i of
        None \<Rightarrow> pg
      | Some (viewName, cs) \<Rightarrow>
          let pg1 = (if viewName = js ''api'' then pushState (buildHash (js ''api'') (Some []) None) pg
                     else let hashData = parseHash (hash pg);
                              doc = (case hd_doc hashData of Some d \<Rightarrow> d | None \<Rightarrow> defaultDoc (DOCS_CONFIG pg))
                          in pushState (buildHash (js ''docs'') (Some doc) None) pg)
          in switchToView viewName pg1)"

definition toggleSidebar :: "page \<Rightarrow> page" where
  "toggleSidebar pg =
     (let sc = cl_toggle (js ''open'') (sidebar_class pg)
      in pg\<lparr>sidebar_class := sc, overlay_class := cl_toggle (js ''active'') (overlay_class pg),
            body_overflow := (if cl_contains sc (js ''open'') then js ''hidden'' else [])\<rparr>)"

definition theme_click :: "bool \<Rightarrow> page \<Rightarrow> page" where
  \<comment> \<open>\<open>writable\<close>: \<open>localStorage\<close> accepts the item\<close>
  "theme_click writable pg =
     (let nxt = (if currentTheme pg = js ''dark'' then js ''light'' else js ''dark'');
          pg1 = paint (pg\<lparr>data_theme := Some nxt, saved_theme := (if writable then Some nxt else saved_theme pg)\<rparr>)
      in case currentDoc pg1 of
           Some d \<Rightarrow> if d \<noteq> [] then loadMarkdownDocs d pg1 else pg1
         | None \<Rightarrow> pg1)"

subsection \<open>Start-up and routing\<close>

text \<open>The loop over all links of the configuration that both handlers share.\<close>

definition visit_links :: "jstr \<Rightarrow> (page \<Rightarrow> page) \<Rightarrow> page \<Rightarrow> page" where
  "visit_links d act pg = fold (\<lambda>f q. if f = d then act q else q) (nav_files (DOCS_CONFIG pg)) pg"

definition dom_ready :: "page \<Rightarrow> page" where
  "dom_ready pg =
     (if boot_state pg \<noteq> Before_dom then pg
      else let pg1 = paint pg
           in pg1\<lparr>boot_state := Nav_wait, requests := requests pg1 @ [buildUrl (pathname pg1) (js ''assets/nav.json'')]\<rparr>)"

definition initial_doc :: "hash_data \<Rightarrow> page \<Rightarrow> page" where
  "initial_doc hashData pg =
     (case hd_doc hashData of
        Some d \<Rightarrow>
          loadMarkdownDocs (if d \<in> set (nav_files (DOCS_CONFIG pg)) then d else defaultDoc (DOCS_CONFIG pg))
            (visit_links d (mark_links d) pg)
      | None \<Rightarrow> loadMarkdownDocs (defaultDoc (DOCS_CONFIG pg)) pg)"

definition start :: "nav_config \<Rightarrow> page \<Rightarrow> page" where
  "start cfg pg =
     (let pg1 = generateSidebar (pg\<lparr>DOCS_CONFIG := cfg, boot_state := Ready\<rparr>);
          hashData = parseHash (hash pg1);
          redirect = (innerWidth pg1 \<le> 768 \<and> hd_view hashData = js ''api'');
          pg2 = (if redirect then pushState (buildHash (js ''docs'') (Some (defaultDoc cfg)) None) pg1 else pg1);
          initialView = (if redirect then js ''docs'' else hd_view hashData);
          pg3 = (if initialView = js ''docs'' then initial_doc hashData pg2 else pg2)
      in switchToView initialView pg3)"

definition nav_answer :: "nav_config option \<Rightarrow> page \<Rightarrow> page" where
  \<comment> \<open>\<open>None\<close>: no answer, a bad status or no JSON\<close>
  "nav_answer a pg =
     (if boot_state pg \<noteq> Nav_wait then pg
      else case a of
        None \<Rightarrow> pg\<lparr>content_div := Nav_error, boot_state := Nav_failed\<rparr>
      | Some cfg \<Rightarrow> start cfg pg)"

definition hash_change :: "jstr \<Rightarrow> page \<Rightarrow> page" where
  "hash_change h pg0 =
     (let pg = pg0\<lparr>hash := h\<rparr>; hashData = parseHash h in
      if innerWidth pg \<le> 768 \<and> hd_view hashData = js ''api''
      then pushState (buildHash (js ''docs'') (Some (defaultDoc (DOCS_CONFIG pg))) None) pg
      else
        let pg1 = (if hd_view hashData \<noteq> currentView pg then switchToView (hd_view hashData) pg else pg)
        in if hd_view hashData = js ''docs'' then
             (case hd_doc hashData of
                None \<Rightarrow> pg1
              | Some d \<Rightarrow>
                  let pg2 = visit_links d (\<lambda>q. loadMarkdownDocs d (mark_links d q)) pg1
                  in if d \<notin> set (nav_files (DOCS_CONFIG pg1)) then
                       (case hd_section hashData of None \<Rightarrow> pg2 | Some sec \<Rightarrow> scroll_to sec pg2)
                     else pg2)
           else pg1)"

datatype app_event =
    Dom_ready
  | Nav_answer "nav_config option"
  | Load_answer nat answer
  | Diagrams_ready nat bool
  | Scroll_timer
  | Sidebar_click nat
  | Tab_click nat
  | Theme_click bool
  | Menu_click
  | Hash_change jstr
  | Resize nat

fun app_step :: "(jstr \<Rightarrow> node list option) \<Rightarrow> app_event \<Rightarrow> page \<Rightarrow> page" where
  "app_step md Dom_ready pg = dom_ready pg"
| "app_step md (Nav_answer a) pg = nav_answer a pg"
| "app_step md (Load_answer k a) pg = answer_load md k a pg"
| "app_step md (Diagrams_ready k b) pg = diagrams_ready k b pg"
| "app_step md Scroll_timer pg = scroll_timer pg"
| "app_step md (Sidebar_click i) pg = handleSidebarClick i pg"
| "app_step md (Tab_click i) pg = tab_click i pg"
| "app_step md (Theme_click w) pg = (if boot_state pg = Before_dom then pg else theme_click w pg)"
| "app_step md Menu_click pg = (if boot_state pg = Before_dom then pg else toggleSidebar pg)"
| "app_step md (Hash_change h) pg = hash_change h pg"
| "app_step md (Resize w) pg = pg\<lparr>innerWidth := w\<rparr>"

definition app_run :: "(jstr \<Rightarrow> node list option) \<Rightarrow> app_event list \<Rightarrow> page \<Rightarrow> page" where
  "app_run md es pg = fold (app_step md) es pg"

section \<open>Views and sidebar\<close>

text \<open>The part of the page that the view and sidebar handlers own.\<close>

definition view_part :: "page \<Rightarrow> jstr \<times> (jstr \<times> classes) list \<times> (jstr \<times> classes) list \<times> classes \<times> classes \<times> jstr" where
  "view_part pg = (currentView pg, nav_tabs pg, content_views pg, sidebar_class pg, overlay_class pg, body_overflow pg)"

definition view_inv :: "page \<Rightarrow> bool" where
  "view_inv pg \<longleftrightarrow>
     currentView pg \<in> {js ''docs'', js ''api''} \<and> fst ` set (nav_tabs pg) \<subseteq> {js ''docs'', js ''api''} \<and>
     (\<forall>(v, cs) \<in> set (nav_tabs pg). cl_contains cs (js ''active'') \<longleftrightarrow> v = currentView pg) \<and>
     (\<forall>(i, cs) \<in> set (content_views pg). cl_contains cs (js ''active'') \<longleftrightarrow> i = currentView pg @ js ''-view'') \<and>
     (cl_contains (sidebar_class pg) (js ''open'') \<longleftrightarrow> cl_contains (overlay_class pg) (js ''active'')) \<and>
     body_overflow pg = (if cl_contains (sidebar_class pg) (js ''open'') then js ''hidden'' else [])"

lemma view_inv_cong: "view_part pg = view_part pg' \<Longrightarrow> view_inv pg \<longleftrightarrow> view_inv pg'"
  by (simp add: view_part_def view_inv_def)

lemma switchToView_inv:
  "view_inv pg \<Longrightarrow> v \<in> {js ''docs'', js ''api''} \<Longrightarrow> view_inv (switchToView v pg)"
proof -
  assume inv: "view_inv pg" and v: "v \<in> {js ''docs'', js ''api''}"
  have "currentView (switchToView v pg) = v" by (simp add: switchToView_def Let_def)
  moreover have "fst ` set (nav_tabs (switchToView v pg)) = fst ` set (nav_tabs pg)"
    by (simp add: switchToView_def Let_def image_image split_beta)
  moreover have "\<forall>(u, cs) \<in> set (nav_tabs (switchToView v pg)). cl_contains cs (js ''active'') \<longleftrightarrow> u = v"
    by (simp add: switchToView_def Let_def split_beta)
  moreover have "\<forall>(i, cs) \<in> set (content_views (switchToView v pg)).
      cl_contains cs (js ''active'') \<longleftrightarrow> i = v @ js ''-view''"
    by (simp add: switchToView_def Let_def split_beta)
  moreover have "sidebar_class (switchToView v pg) = sidebar_class pg"
    "overlay_class (switchToView v pg) = overlay_class pg" "body_overflow (switchToView v pg) = body_overflow pg"
    by (simp_all add: switchToView_def Let_def)
  ultimately show ?thesis using inv v by (simp add: view_inv_def)
qed

lemma parseHash_view_mem: "hd_view (parseHash h) \<in> {js ''docs'', js ''api''}"
  using parseHash_view by simp

text \<open>Operations outside of that part.\<close>

lemma view_part_updates [simp]:
  "view_part (pg\<lparr>scroll_timers := ts\<rparr>) = view_part pg" "view_part (pg\<lparr>scroll_top := b\<rparr>) = view_part pg"
  "view_part (pg\<lparr>loads := ls\<rparr>) = view_part pg" "view_part (pg\<lparr>diagrams_due := ds\<rparr>) = view_part pg"
  "view_part (pg\<lparr>content_div := c\<rparr>) = view_part pg" "view_part (pg\<lparr>toc_rail := t\<rparr>) = view_part pg"
  "view_part (pg\<lparr>data_theme := th\<rparr>) = view_part pg" "view_part (pg\<lparr>saved_theme := th\<rparr>) = view_part pg"
  "view_part (pg\<lparr>boot_state := bs\<rparr>) = view_part pg" "view_part (pg\<lparr>requests := us\<rparr>) = view_part pg"
  "view_part (pg\<lparr>scrolled := sc\<rparr>) = view_part pg" "view_part (pg\<lparr>side_links := sls\<rparr>) = view_part pg"
  "view_part (pg\<lparr>DOCS_CONFIG := cfg\<rparr>) = view_part pg" "view_part (pg\<lparr>currentDoc := cd\<rparr>) = view_part pg"
  "view_part (pg\<lparr>next_load := n\<rparr>) = view_part pg" "view_part (pg\<lparr>theme_button := tb\<rparr>) = view_part pg"
  "view_part (pg\<lparr>hash := h\<rparr>) = view_part pg" "view_part (pg\<lparr>notice := nt\<rparr>) = view_part pg"
  "view_part (pg\<lparr>side_titles := st\<rparr>) = view_part pg"
  by (simp_all add: view_part_def)

lemma view_part_frame [simp]:
  "view_part (loadMarkdownDocs d pg) = view_part pg" "view_part (load_failed k pg) = view_part pg"
  "view_part (pushState u pg) = view_part pg" "view_part (mark_links d pg) = view_part pg"
  "view_part (generateSidebar pg) = view_part pg" "view_part (paint pg) = view_part pg"
  by (simp_all add: loadMarkdownDocs_def load_failed_def drop_load_def pushState_def mark_links_def
      generateSidebar_def paint_def Let_def)

lemma view_part_handlers [simp]:
  "view_part (scroll_to sec pg) = view_part pg" "view_part (dom_ready pg) = view_part pg"
  "view_part (diagrams_ready k b pg) = view_part pg" "view_part (theme_click w pg) = view_part pg"
  by (simp_all add: scroll_to_def dom_ready_def diagrams_ready_def theme_click_def Let_def
      split: option.split content.split)

lemma view_part_timer [simp]: "view_part (scroll_timer pg) = view_part pg"
  by (cases "scroll_timers pg") (simp_all add: scroll_timer_def)

lemma view_part_load [simp]: "view_part (load_finished md l s pg) = view_part pg"
  by (simp add: load_finished_def drop_load_def Let_def split: option.split prod.split)

lemma view_part_answer [simp]: "view_part (answer_load md k a pg) = view_part pg"
  by (simp add: answer_load_def split: option.split phase.split answer.split bool.split)

lemma visit_links_frame:
  assumes "\<And>q. f (act q) = f q"
  shows "f (visit_links d act pg) = f pg"
proof -
  have "f (fold (\<lambda>x q. if x = d then act q else q) xs q) = f q" for xs q
    by (induction xs arbitrary: q) (simp_all add: assms)
  then show ?thesis by (simp add: visit_links_def)
qed

lemma view_part_visit [simp]:
  "view_part (visit_links d (mark_links d) pg) = view_part pg"
  "view_part (visit_links d (\<lambda>q. loadMarkdownDocs d (mark_links d q)) pg) = view_part pg"
  by (rule visit_links_frame; simp)+

lemma view_part_initial [simp]: "view_part (initial_doc data pg) = view_part pg"
  by (simp add: initial_doc_def split: option.splits)

lemma view_inv_frame: "view_part pg = view_part pg' \<Longrightarrow> view_inv pg' \<Longrightarrow> view_inv pg"
  using view_inv_cong by blast

lemma handleSidebarClick_inv: "view_inv pg \<Longrightarrow> view_inv (handleSidebarClick i pg)"
proof (cases "nth_opt (side_links pg) i")
  case (Some l)
  define pg1 where "pg1 = pushState (buildHash (js ''docs'') (Some (sl_doc l)) None)
    (pg\<lparr>side_links := (map link_remove (side_links pg))[i := link_add (link_remove l)]\<rparr>)"
  define pg2 where "pg2 = (if currentView pg1 \<noteq> js ''docs'' then switchToView (js ''docs'') pg1 else pg1)"
  assume "view_inv pg"
  moreover have "view_part pg1 = view_part pg" by (simp add: pg1_def)
  ultimately have "view_inv pg1" by (rule view_inv_frame [rotated])
  then have "view_inv pg2" by (simp add: pg2_def switchToView_inv)
  then have "view_inv (loadMarkdownDocs (sl_doc l) pg2)" by (rule view_inv_frame [rotated]) simp
  then have "view_inv (close_mobile_sidebar (loadMarkdownDocs (sl_doc l) pg2))"
    by (simp add: view_inv_def close_mobile_sidebar_def)
  then show ?thesis unfolding handleSidebarClick_def Some by (simp only: Let_def option.case flip: pg1_def pg2_def)
qed (simp add: handleSidebarClick_def nth_opt_def)

lemma tab_click_inv: "view_inv pg \<Longrightarrow> view_inv (tab_click i pg)"
proof -
  assume inv: "view_inv pg"
  have sw: "view_inv (switchToView v (pushState u pg))" if "v \<in> fst ` set (nav_tabs pg)" for u v
  proof (rule switchToView_inv)
    show "view_inv (pushState u pg)" using inv by (rule view_inv_frame [rotated]) simp
    show "v \<in> {js ''docs'', js ''api''}" using inv that unfolding view_inv_def by blast
  qed
  have mem: "i < length (nav_tabs pg) \<Longrightarrow> fst (nav_tabs pg ! i) \<in> fst ` set (nav_tabs pg)" by simp
  show ?thesis
  proof (cases "boot_state pg = Ready \<and> i < length (nav_tabs pg)")
    case True
    obtain v cs where "nav_tabs pg ! i = (v, cs)" by fastforce
    then have "v \<in> fst ` set (nav_tabs pg)" using True mem by (metis fst_conv)
    from sw [OF this] True \<open>nav_tabs pg ! i = (v, cs)\<close> show ?thesis
      by (auto simp: tab_click_def nth_opt_def Let_def)
  qed (use inv in \<open>auto simp: tab_click_def nth_opt_def\<close>)
qed

lemma hash_change_inv: "view_inv pg \<Longrightarrow> view_inv (hash_change h pg)"
proof -
  assume "view_inv pg"
  then have pg: "view_inv (pg\<lparr>hash := h\<rparr>)" by (simp add: view_inv_def)
  define pg1 where "pg1 = (if hd_view (parseHash h) \<noteq> currentView pg
    then switchToView (hd_view (parseHash h)) (pg\<lparr>hash := h\<rparr>) else pg\<lparr>hash := h\<rparr>)"
  have "view_inv pg1" using pg parseHash_view_mem by (simp add: pg1_def switchToView_inv)
  then have "view_inv q" if "view_part q = view_part pg1" for q
    using that by (rule view_inv_frame [rotated])
  moreover have "view_inv (pushState u (pg\<lparr>hash := h\<rparr>))" for u
    using pg by (rule view_inv_frame [rotated]) simp
  ultimately show ?thesis
    by (simp add: hash_change_def Let_def flip: pg1_def split: option.splits)
qed

lemma start_inv: "view_inv pg \<Longrightarrow> view_inv (start cfg pg)"
proof -
  assume "view_inv pg"
  then have "view_inv q" if "view_part q = view_part pg" for q
    using that by (rule view_inv_frame [rotated])
  moreover have "view_part (generateSidebar (pg\<lparr>DOCS_CONFIG := cfg, boot_state := Ready\<rparr>)) = view_part pg"
    by simp
  ultimately show ?thesis
    using parseHash_view_mem by (simp add: start_def Let_def switchToView_inv)
qed

lemma app_step_inv: "view_inv pg \<Longrightarrow> view_inv (app_step md e pg)"
proof (cases e)
  case (Nav_answer a)
  assume "view_inv pg"
  moreover from this have "view_inv (pg\<lparr>content_div := Nav_error, boot_state := Nav_failed\<rparr>)"
    by (simp add: view_inv_def)
  ultimately show ?thesis
    using Nav_answer start_inv by (simp add: nav_answer_def split: option.splits)
next
  case Menu_click
  assume "view_inv pg"
  then show ?thesis using Menu_click by (auto simp: view_inv_def toggleSidebar_def Let_def)
next
  case (Resize w)
  assume "view_inv pg"
  then show ?thesis using Resize by (simp add: view_inv_def)
qed (auto simp: handleSidebarClick_inv tab_click_inv hash_change_inv intro: view_inv_frame [rotated])

lemma app_run_inv: "view_inv pg \<Longrightarrow> view_inv (app_run md es pg)"
  unfolding app_run_def by (induction es arbitrary: pg) (simp_all add: app_step_inv)

lemma new_page_inv: "view_inv (new_page path h w api th)"
  by (auto simp: view_inv_def new_page_def cl_contains_def js_eval)

section \<open>Loads\<close>

definition set_reading :: "nat \<Rightarrow> load \<Rightarrow> load" where
  "set_reading k m = (if ld_id m = k then m\<lparr>ld_phase := Reading\<rparr> else m)"

lemma ld_id_set_reading [simp]: "ld_id (set_reading k m) = ld_id m" "ld_doc (set_reading k m) = ld_doc m"
  by (simp_all add: set_reading_def)

lemma find_set_reading:
  "List.find (\<lambda>m. ld_id m = k) (map (set_reading k) ls) =
   map_option (\<lambda>m. m\<lparr>ld_phase := Reading\<rparr>) (List.find (\<lambda>m. ld_id m = k) ls)"
  by (induction ls) (simp_all add: set_reading_def)

lemma find_load_id: "find_load k pg = Some l \<Longrightarrow> ld_id l = k \<and> l \<in> set (loads pg)"
  by (auto simp: find_load_def find_Some_iff)

text \<open>The two awaits of a load that is answered.\<close>

lemma answer_status_ok:
  assumes "find_load k pg = Some l" "ld_phase l = Fetching"
  shows "answer_load md k (Status True) pg = pg\<lparr>loads := map (set_reading k) (loads pg)\<rparr>"
  using assms by (simp add: answer_load_def set_reading_def [abs_def])

lemma load_two_steps:
  assumes "find_load k pg = Some l" "ld_phase l = Fetching"
  shows "app_run md [Load_answer k (Status True), Load_answer k (Body s)] pg =
    load_finished md (l\<lparr>ld_phase := Reading\<rparr>) s (pg\<lparr>loads := map (set_reading k) (loads pg)\<rparr>)"
proof -
  let ?pg = "pg\<lparr>loads := map (set_reading k) (loads pg)\<rparr>"
  have "find_load k ?pg = Some (l\<lparr>ld_phase := Reading\<rparr>)"
    using assms(1) by (simp add: find_load_def find_set_reading)
  then have "answer_load md k (Body s) ?pg = load_finished md (l\<lparr>ld_phase := Reading\<rparr>) s ?pg"
    by (simp add: answer_load_def)
  then show ?thesis by (simp add: app_run_def answer_status_ok [OF assms])
qed

lemma load_finished_result:
  assumes "md s = Some html"
  shows "content_div (load_finished md l s pg) = Rendered (ld_id l) (fst (decorate html (ld_doc l)))"
    "toc_rail (load_finished md l s pg) = snd (decorate html (ld_doc l))"
    "loads (load_finished md l s pg) = filter (\<lambda>m. ld_id m \<noteq> ld_id l) (loads pg)"
    "currentDoc (load_finished md l s pg) = currentDoc pg" "hash (load_finished md l s pg) = hash pg"
    "side_links (load_finished md l s pg) = side_links pg" "currentView (load_finished md l s pg) = currentView pg"
    "scroll_timers (load_finished md l s pg) =
       scroll_timers pg @ (case hd_section (parseHash (hash pg)) of None \<Rightarrow> [] | Some sec \<Rightarrow> [sec])"
  using assms
  by (simp_all add: load_finished_def drop_load_def Let_def split_beta split: option.split)

text \<open>The same for a load named by its id and document.\<close>

lemma load_completes:
  assumes "find_load k pg = Some \<lparr>ld_id = k, ld_doc = d, ld_phase = Fetching\<rparr>" "md s = Some html"
    and q: "q = app_run md [Load_answer k (Status True), Load_answer k (Body s)] pg"
  shows "content_div q = Rendered k (fst (decorate html d))" "toc_rail q = snd (decorate html d)"
    "loads q = filter (\<lambda>m. ld_id m \<noteq> k) (map (set_reading k) (loads pg))"
    "currentDoc q = currentDoc pg" "hash q = hash pg" "side_links q = side_links pg"
    "scroll_timers q = scroll_timers pg @ (case hd_section (parseHash (hash pg)) of None \<Rightarrow> [] | Some sec \<Rightarrow> [sec])"
  using load_two_steps [OF assms(1), of md s] load_finished_result [where md = md and s = s, OF assms(2)]
  unfolding q by simp_all

lemma app_run_append: "app_run md (es @ fs) pg = app_run md fs (app_run md es pg)"
  by (simp add: app_run_def)

lemma app_run_Cons: "app_run md (e # es) pg = app_run md es (app_step md e pg)"
  by (simp add: app_run_def)

lemma app_run_Nil [simp]: "app_run md [] pg = pg"
  by (simp add: app_run_def)

section \<open>Sidebar\<close>

definition link_is_active :: "side_link \<Rightarrow> bool" where
  "link_is_active l \<longleftrightarrow> cl_contains (sl_class l) (js ''active'')"

lemma link_marks [simp]:
  "\<not> link_is_active (link_remove l)" "link_is_active (link_add l)" "sl_doc (link_remove l) = sl_doc l"
  "sl_doc (link_add l) = sl_doc l"
  by (simp_all add: link_is_active_def link_remove_def link_add_def)

lemma switchToView_fields [simp]:
  "currentView (switchToView v pg) = v" "hash (switchToView v pg) = hash pg" "loads (switchToView v pg) = loads pg"
  "content_div (switchToView v pg) = content_div pg" "currentDoc (switchToView v pg) = currentDoc pg"
  "side_links (switchToView v pg) = side_links pg" "next_load (switchToView v pg) = next_load pg"
  "boot_state (switchToView v pg) = boot_state pg" "DOCS_CONFIG (switchToView v pg) = DOCS_CONFIG pg"
  "requests (switchToView v pg) = requests pg" "pathname (switchToView v pg) = pathname pg"
  "diagrams_due (switchToView v pg) = diagrams_due pg" "innerWidth (switchToView v pg) = innerWidth pg"
  "scroll_timers (switchToView v pg) = scroll_timers pg" "map fst (nav_tabs (switchToView v pg)) = map fst (nav_tabs pg)"
  by (simp_all add: switchToView_def Let_def comp_def split_beta)

lemma close_mobile_fields [simp]:
  "currentView (close_mobile_sidebar pg) = currentView pg" "hash (close_mobile_sidebar pg) = hash pg"
  "loads (close_mobile_sidebar pg) = loads pg" "content_div (close_mobile_sidebar pg) = content_div pg"
  "currentDoc (close_mobile_sidebar pg) = currentDoc pg" "side_links (close_mobile_sidebar pg) = side_links pg"
  "next_load (close_mobile_sidebar pg) = next_load pg" "requests (close_mobile_sidebar pg) = requests pg"
  by (simp_all add: close_mobile_sidebar_def)

lemma loadMarkdownDocs_fields [simp]:
  "currentView (loadMarkdownDocs d pg) = currentView pg" "hash (loadMarkdownDocs d pg) = hash pg"
  "loads (loadMarkdownDocs d pg) = loads pg @ [\<lparr>ld_id = next_load pg, ld_doc = d, ld_phase = Fetching\<rparr>]"
  "content_div (loadMarkdownDocs d pg) = Spinner" "currentDoc (loadMarkdownDocs d pg) = Some d"
  "side_links (loadMarkdownDocs d pg) = side_links pg" "next_load (loadMarkdownDocs d pg) = next_load pg + 1"
  "DOCS_CONFIG (loadMarkdownDocs d pg) = DOCS_CONFIG pg" "diagrams_due (loadMarkdownDocs d pg) = diagrams_due pg"
  "requests (loadMarkdownDocs d pg) = requests pg @ [buildUrl (pathname pg) (js ''assets/docs/'' @ d @ js ''.md'')]"
  "scroll_timers (loadMarkdownDocs d pg) = scroll_timers pg"
  by (simp_all add: loadMarkdownDocs_def)

lemma pushState_fields [simp]:
  "currentView (pushState u pg) = currentView pg" "loads (pushState u pg) = loads pg"
  "content_div (pushState u pg) = content_div pg" "currentDoc (pushState u pg) = currentDoc pg"
  "side_links (pushState u pg) = side_links pg" "next_load (pushState u pg) = next_load pg"
  "nav_tabs (pushState u pg) = nav_tabs pg" "boot_state (pushState u pg) = boot_state pg"
  "DOCS_CONFIG (pushState u pg) = DOCS_CONFIG pg" "requests (pushState u pg) = requests pg"
  "pathname (pushState u pg) = pathname pg" "diagrams_due (pushState u pg) = diagrams_due pg"
  "u \<noteq> [] \<Longrightarrow> hash (pushState u pg) = u"
  by (simp_all add: pushState_def)

lemma buildHash_doc_not_Nil [simp]: "d \<noteq> [] \<Longrightarrow> buildHash (js ''docs'') (Some d) sec \<noteq> []"
  "buildHash (js ''api'') t sec \<noteq> []"
  by (simp_all add: buildHash_def js_eval)

lemma sidebar_click_fields:
  assumes "nth_opt (side_links pg) i = Some l"
  shows "currentView (handleSidebarClick i pg) = js ''docs''"
    "currentDoc (handleSidebarClick i pg) = Some (sl_doc l)"
    "content_div (handleSidebarClick i pg) = Spinner"
    "side_links (handleSidebarClick i pg) = (map link_remove (side_links pg))[i := link_add (link_remove l)]"
    "loads (handleSidebarClick i pg) =
       loads pg @ [\<lparr>ld_id = next_load pg, ld_doc = sl_doc l, ld_phase = Fetching\<rparr>]"
    "next_load (handleSidebarClick i pg) = next_load pg + 1"
    "requests (handleSidebarClick i pg) =
       requests pg @ [buildUrl (pathname pg) (js ''assets/docs/'' @ sl_doc l @ js ''.md'')]"
    "sl_doc l \<noteq> [] \<Longrightarrow> hash (handleSidebarClick i pg) = buildHash (js ''docs'') (Some (sl_doc l)) None"
  unfolding handleSidebarClick_def assms by (simp_all add: Let_def)

subsection \<open>Marking the links of a document\<close>

lemma link_remove_twice [simp]: "link_remove (link_remove l) = link_remove l"
  "link_remove (link_add (link_remove l)) = link_remove l"
  by (simp_all add: link_remove_def link_add_def cl_remove_def cl_add_def)

lemma mark_links_idem [simp]: "mark_links d (mark_links d pg) = mark_links d pg"
  by (simp add: mark_links_def comp_def)

lemma fold_if_idem:
  assumes "\<And>q. act (act q) = act q"
  shows "fold (\<lambda>f q. if f = d then act q else q) xs q = (if d \<in> set xs then act q else q)"
  using assms by (induction xs arbitrary: q) auto

lemma visit_mark_links:
  "visit_links d (mark_links d) pg = (if d \<in> set (nav_files (DOCS_CONFIG pg)) then mark_links d pg else pg)"
  unfolding visit_links_def by (rule fold_if_idem) simp

lemma mark_links_marks:
  "\<forall>l \<in> set (side_links (mark_links d pg)). link_is_active l \<longleftrightarrow> sl_doc l = d"
  by (auto simp: mark_links_def)

lemma mark_links_fields [simp]:
  "DOCS_CONFIG (mark_links d pg) = DOCS_CONFIG pg" "next_load (mark_links d pg) = next_load pg"
  "loads (mark_links d pg) = loads pg" "hash (mark_links d pg) = hash pg" "pathname (mark_links d pg) = pathname pg"
  "scroll_timers (mark_links d pg) = scroll_timers pg" "currentView (mark_links d pg) = currentView pg"
  by (simp_all add: mark_links_def)

lemma generateSidebar_fields [simp]:
  "DOCS_CONFIG (generateSidebar pg) = DOCS_CONFIG pg" "next_load (generateSidebar pg) = next_load pg"
  "loads (generateSidebar pg) = loads pg" "hash (generateSidebar pg) = hash pg"
  "innerWidth (generateSidebar pg) = innerWidth pg" "scroll_timers (generateSidebar pg) = scroll_timers pg"
  "content_div (generateSidebar pg) = content_div pg" "currentDoc (generateSidebar pg) = currentDoc pg"
  "diagrams_due (generateSidebar pg) = diagrams_due pg" "nav_tabs (generateSidebar pg) = nav_tabs pg"
  "boot_state (generateSidebar pg) = boot_state pg"
  by (simp_all add: generateSidebar_def Let_def)

lemma start_at_doc:
  assumes "parseHash (hash pg) = \<lparr>hd_view = js ''docs'', hd_doc = Some d, hd_section = sec, hd_target = None\<rparr>"
    and "d \<in> set (nav_files cfg)"
  shows "start cfg pg = switchToView (js ''docs'') (loadMarkdownDocs d
    (mark_links d (generateSidebar (pg\<lparr>DOCS_CONFIG := cfg, boot_state := Ready\<rparr>))))"
  using assms by (simp add: start_def Let_def initial_doc_def visit_mark_links js_eval)

lemma start_at_api:
  assumes "hd_view (parseHash (hash pg)) = js ''api''" "768 < innerWidth pg"
  shows "start cfg pg = switchToView (js ''api'') (generateSidebar (pg\<lparr>DOCS_CONFIG := cfg, boot_state := Ready\<rparr>))"
  using assms by (simp add: start_def Let_def js_eval)

lemma boot_steps:
  "app_run md (Dom_ready # Nav_answer (Some cfg) # es) (new_page path h w api th) =
   app_run md es (start cfg (dom_ready (new_page path h w api th)))"
  by (simp add: app_run_Cons nav_answer_def dom_ready_def new_page_def paint_def Let_def)

lemma dom_ready_new_fields [simp]:
  "hash (dom_ready (new_page path h w api th)) = h" "innerWidth (dom_ready (new_page path h w api th)) = w"
  "loads (dom_ready (new_page path h w api th)) = []" "next_load (dom_ready (new_page path h w api th)) = 0"
  "scroll_timers (dom_ready (new_page path h w api th)) = []" "content_div (dom_ready (new_page path h w api th)) = Spinner"
  "currentDoc (dom_ready (new_page path h w api th)) = None" "diagrams_due (dom_ready (new_page path h w api th)) = []"
  "nav_tabs (dom_ready (new_page path h w api th)) =
     (js ''docs'', [js ''nav-tab'', js ''active'']) # (if api then [(js ''api'', [js ''nav-tab''])] else [])"
  by (simp_all add: dom_ready_def new_page_def paint_def Let_def)

section \<open>Properties\<close>


text \<open>
  a click on a sidebar link marks that link and no other, shows the docs view with the spinner,
  puts a route into the address bar that parses back to the link's document, and requests the
  document's markdown file.
\<close>

theorem sidebar_click_opens:
  assumes "nth_opt (side_links pg) i = Some l" "sl_doc l \<noteq> []" "colon \<notin> set (sl_doc l)"
  shows "(\<forall>j < length (side_links pg). link_is_active (side_links (handleSidebarClick i pg) ! j) \<longleftrightarrow> j = i) \<and>
    currentView (handleSidebarClick i pg) = js ''docs'' \<and> content_div (handleSidebarClick i pg) = Spinner \<and>
    currentDoc (handleSidebarClick i pg) = Some (sl_doc l) \<and>
    hd_doc (parseHash (hash (handleSidebarClick i pg))) = Some (sl_doc l) \<and>
    last (requests (handleSidebarClick i pg)) =
      buildUrl (pathname pg) (js ''assets/docs/'' @ sl_doc l @ js ''.md'')"
  using assms by (simp add: sidebar_click_fields parseHash_buildHash_doc nth_list_update)

text \<open>
  C30: a page opened at a deep link to a known document and one of its sections ends up showing
  that document with its table of contents, its links marked and the section scrolled to, once the
  navigation file and the document have arrived and the timer has fired.
\<close>

theorem deep_link_opens:
  assumes "d \<in> set (nav_files cfg)" "d \<noteq> []" "colon \<notin> set d" "sec \<noteq> []" "colon \<notin> set sec" "sec \<notin> set page_ids"
    and "md s = Some html" "getElementById sec (fst (decorate html d)) \<noteq> None"
    and pg: "pg = app_run md [Dom_ready, Nav_answer (Some cfg), Load_answer 0 (Status True), Load_answer 0 (Body s),
      Scroll_timer] (new_page path (buildHash (js ''docs'') (Some d) (Some sec)) w api th)"
  shows "content_div pg = Rendered 0 (fst (decorate html d)) \<and> toc_rail pg = snd (decorate html d) \<and>
    currentDoc pg = Some d \<and> scrolled pg = Some (In_document sec) \<and> loads pg = [] \<and>
    (\<forall>l \<in> set (side_links pg). link_is_active l \<longleftrightarrow> sl_doc l = d)"
proof -
  let ?h = "buildHash (js ''docs'') (Some d) (Some sec)"
  have ph: "parseHash ?h = \<lparr>hd_view = js ''docs'', hd_doc = Some d, hd_section = Some sec, hd_target = None\<rparr>"
    using assms(2-5) by (simp add: parseHash_buildHash_section)
  define q where "q = start cfg (dom_ready (new_page path ?h w api th))"
  have q: "q = switchToView (js ''docs'') (loadMarkdownDocs d (mark_links d (generateSidebar
      ((dom_ready (new_page path ?h w api th))\<lparr>DOCS_CONFIG := cfg, boot_state := Ready\<rparr>))))"
    unfolding q_def by (rule start_at_doc) (simp_all add: ph assms(1))
  have find: "find_load 0 q = Some \<lparr>ld_id = 0, ld_doc = d, ld_phase = Fetching\<rparr>" by (simp add: q find_load_def)
  define r where "r = app_run md [Load_answer 0 (Status True), Load_answer 0 (Body s)] q"
  have pg_r: "pg = scroll_timer r" unfolding pg boot_steps r_def q_def by (simp add: app_run_Cons)
  note res = load_completes [where md = md and s = s, OF find assms(7) r_def]
  have r: "content_div r = Rendered 0 (fst (decorate html d))" "toc_rail r = snd (decorate html d)"
    "loads r = []" "currentDoc r = Some d" "scroll_timers r = [sec]"
    using res by (simp_all add: q ph)
  have sl: "\<forall>l \<in> set (side_links r). link_is_active l \<longleftrightarrow> sl_doc l = d"
    using res(6) mark_links_marks by (simp add: q)
  have "find_target sec (r\<lparr>scroll_timers := []\<rparr>) = Some (In_document sec)"
    using assms(6,8) r(1) by (auto simp: find_target_def)
  then show ?thesis
    using r sl unfolding pg_r by (simp add: scroll_timer_def scroll_to_def)
qed


text \<open>A page for the examples: two documents, and a parser that makes one heading of the text.\<close>

definition demo_cfg :: nav_config where
  "demo_cfg = \<lparr>sections = [\<lparr>ns_title = js ''S'', ns_links = [\<lparr>nl_title = js ''A'', nl_file = js ''a''\<rparr>,
     \<lparr>nl_title = js ''B'', nl_file = js ''b''\<rparr>]\<rparr>], defaultDoc = js ''a''\<rparr>"

definition demo_md :: "jstr \<Rightarrow> node list option" where
  "demo_md s = Some [Elem (js ''h2'') [] [] [Text s]]"

lemma demo_files: "nav_files demo_cfg = [js ''a'', js ''b'']"
  by (simp add: nav_files_def demo_cfg_def)

lemma demo_heading:
  "getElementById (js ''hi'') (fst (decorate [Elem (js ''h2'') [] [] [Text (js ''hi'')]] d)) \<noteq> None"
  by (simp add: decorate_def buildTableOfContents_def enhanceCodeBlocks_def addHeadingAnchors_def
      generateSlug_def toc_text_def getElementById_def querySelectorAll_def get_attr_def remove_chars_def slug_bad_def
      trim_def is_toc_heading_def heading_anchor_def js_eval char_classes Let_def)

theorem sidebar_click_opens_witness:
  "currentView (handleSidebarClick 1 (start demo_cfg (new_page [slash] [] 1000 True None))) = js ''docs''"
proof -
  have "nth_opt (side_links (start demo_cfg (new_page [slash] [] 1000 True None))) 1 =
      Some \<lparr>sl_href = buildHash (js ''docs'') (Some (js ''b'')) None, sl_class = [js ''sidebar-link''],
        sl_doc = js ''b'', sl_title = js ''B''\<rparr>"
    by (simp add: start_def Let_def new_page_def demo_cfg_def generateSidebar_def section_links_def parseHash_def
        initial_doc_def nth_opt_def js_eval)
  from sidebar_click_opens [OF this] show ?thesis by (simp add: js_eval)
qed

theorem deep_link_opens_witness:
  "scrolled (app_run demo_md [Dom_ready, Nav_answer (Some demo_cfg), Load_answer 0 (Status True),
      Load_answer 0 (Body (js ''hi'')), Scroll_timer]
      (new_page [slash] (buildHash (js ''docs'') (Some (js ''b'')) (Some (js ''hi''))) 1000 True None))
   = Some (In_document (js ''hi''))"
proof -
  let ?html = "[Elem (js ''h2'') [] [] [Text (js ''hi'')]]"
  have files: "js ''b'' \<in> set (nav_files demo_cfg)" by (simp add: demo_files)
  have names: "js ''b'' \<noteq> []" "colon \<notin> set (js ''b'')" "js ''hi'' \<noteq> []" "colon \<notin> set (js ''hi'')"
    "js ''hi'' \<notin> set page_ids" "demo_md (js ''hi'') = Some ?html"
    by (simp_all add: page_ids_def demo_md_def js_eval)
  show ?thesis
    using deep_link_opens [where md = demo_md and s = "js ''hi''" and html = ?html, OF files names demo_heading refl]
    by blast
qed

text \<open>
  C35: a load that is answered puts its document and table of contents on the page and ends; a load
  whose request fails, gets a bad status, breaks off or cannot be parsed puts the error notice there
  and ends. In no case does another load end with it.
\<close>

theorem load_outcomes:
  assumes "find_load k pg = Some l" "ld_phase l = Fetching" "md s = Some html" "md t = None"
  shows "content_div (app_run md [Load_answer k (Status True), Load_answer k (Body s)] pg) =
      Rendered k (fst (decorate html (ld_doc l))) \<and>
    (\<forall>es \<in> {[Load_answer k Network_error], [Load_answer k (Status False)],
        [Load_answer k (Status True), Load_answer k Network_error],
        [Load_answer k (Status True), Load_answer k (Body t)]}.
      content_div (app_run md es pg) = Load_error) \<and>
    (\<forall>es \<in> {[Load_answer k Network_error], [Load_answer k (Status False)],
        [Load_answer k (Status True), Load_answer k Network_error],
        [Load_answer k (Status True), Load_answer k (Body t)], [Load_answer k (Status True), Load_answer k (Body s)]}.
      map ld_id (loads (app_run md es pg)) = filter (\<lambda>j. j \<noteq> k) (map ld_id (loads pg)))"
proof -
  have id: "ld_id l = k" using find_load_id [OF assms(1)] by simp
  let ?pg = "pg\<lparr>loads := map (set_reading k) (loads pg)\<rparr>"
  have ids: "map ld_id (filter (\<lambda>m. ld_id m \<noteq> k) (map (set_reading k) ls)) = filter (\<lambda>j. j \<noteq> k) (map ld_id ls)"
    "map ld_id (filter (\<lambda>m. ld_id m \<noteq> k) ls) = filter (\<lambda>j. j \<noteq> k) (map ld_id ls)" for ls
    by (simp_all add: filter_map comp_def)
  have ok: "app_run md [Load_answer k (Status True), Load_answer k (Body s)] pg =
      load_finished md (l\<lparr>ld_phase := Reading\<rparr>) s ?pg"
    "app_run md [Load_answer k (Status True), Load_answer k (Body t)] pg = load_failed k ?pg"
    using load_two_steps [OF assms(1,2)] by (simp_all add: load_finished_def assms(4) id)
  have "find_load k ?pg = Some (l\<lparr>ld_phase := Reading\<rparr>)"
    using assms(1) by (simp add: find_load_def find_set_reading)
  then have bad: "app_run md [Load_answer k Network_error] pg = load_failed k pg"
    "app_run md [Load_answer k (Status False)] pg = load_failed k pg"
    "app_run md [Load_answer k (Status True), Load_answer k Network_error] pg = load_failed k ?pg"
    using assms(1,2) answer_status_ok [OF assms(1,2), of md] by (simp_all add: app_run_Cons answer_load_def)
  have err: "content_div (load_failed k q) = Load_error" "loads (load_failed k q) = filter (\<lambda>m. ld_id m \<noteq> k) (loads q)" for q
    by (simp_all add: load_failed_def drop_load_def)
  have fin: "content_div (load_finished md (l\<lparr>ld_phase := Reading\<rparr>) s ?pg) = Rendered k (fst (decorate html (ld_doc l)))"
    "loads (load_finished md (l\<lparr>ld_phase := Reading\<rparr>) s ?pg) = filter (\<lambda>m. ld_id m \<noteq> k) (map (set_reading k) (loads pg))"
    using load_finished_result(1,3) [where md = md and s = s, OF assms(3)] by (simp_all add: id)
  show ?thesis by (simp add: ok bad err fin ids comp_def)
qed

definition picky_md :: "jstr \<Rightarrow> node list option" where
  "picky_md s = (if s = [] then None else demo_md s)"

theorem load_outcomes_witness:
  "content_div (app_run picky_md [Load_answer 0 Network_error]
     (loadMarkdownDocs (js ''a'') (new_page [slash] [] 1000 True None))) = Load_error"
proof -
  let ?pg = "loadMarkdownDocs (js ''a'') (new_page [slash] [] 1000 True None)"
  have "find_load 0 ?pg = Some \<lparr>ld_id = 0, ld_doc = js ''a'', ld_phase = Fetching\<rparr>"
    by (simp add: find_load_def new_page_def)
  from load_outcomes [OF this, of picky_md "js ''x''" "[Elem (js ''h2'') [] [] [Text (js ''x'')]]" "[]"]
  show ?thesis by (simp add: picky_md_def demo_md_def js_eval)
qed


text \<open>
  overlapping loads are not ordered: after clicking two links, if the first document arrives
  last, the page shows the first document while the address bar, the current document and the
  marked link are those of the second.
\<close>

theorem stale_load_wins:
  assumes "loads pg = []" "nth_opt (side_links pg) i = Some l1" "nth_opt (side_links pg) j = Some l2" "i \<noteq> j"
    and "sl_doc l2 \<noteq> []" "colon \<notin> set (sl_doc l2)" "md s1 = Some h1" "md s2 = Some h2"
    and pg': "pg' = app_run md [Sidebar_click i, Sidebar_click j,
      Load_answer (next_load pg + 1) (Status True), Load_answer (next_load pg + 1) (Body s2),
      Load_answer (next_load pg) (Status True), Load_answer (next_load pg) (Body s1)] pg"
  shows "content_div pg' = Rendered (next_load pg) (fst (decorate h1 (sl_doc l1))) \<and>
    currentDoc pg' = Some (sl_doc l2) \<and> hd_doc (parseHash (hash pg')) = Some (sl_doc l2) \<and>
    link_is_active (side_links pg' ! j) \<and> loads pg' = []"
proof -
  define k where "k = next_load pg"
  define q1 where "q1 = handleSidebarClick i pg"
  define l2' where "l2' = link_remove l2"
  define q2 where "q2 = handleSidebarClick j q1"
  note f1 = sidebar_click_fields [OF assms(2), folded q1_def k_def]
  have ij: "i < length (side_links pg)" "j < length (side_links pg)" "side_links pg ! j = l2"
    using assms(2,3) by auto
  then have "nth_opt (side_links q1) j = Some l2'"
    using assms(4) by (simp add: f1 l2'_def nth_opt_def)
  note f2 = sidebar_click_fields [OF this, folded q2_def]
  define la lb where "la = \<lparr>ld_id = k, ld_doc = sl_doc l1, ld_phase = Fetching\<rparr>"
    and "lb = \<lparr>ld_id = k + 1, ld_doc = sl_doc l2, ld_phase = Fetching\<rparr>"
  have loads2: "loads q2 = [la, lb]" by (simp add: f1 f2 assms(1) la_def lb_def l2'_def)
  define q3 where "q3 = app_run md [Load_answer (k + 1) (Status True), Load_answer (k + 1) (Body s2)] q2"
  have "find_load (k + 1) q2 = Some lb" by (simp add: find_load_def loads2 la_def lb_def)
  note r3 = load_completes [where md = md and s = s2, OF this [unfolded lb_def] assms(8) q3_def]
  have loads3: "loads q3 = [la]" by (simp add: r3 loads2 la_def lb_def set_reading_def)
  have find3: "find_load k q3 = Some \<lparr>ld_id = k, ld_doc = sl_doc l1, ld_phase = Fetching\<rparr>"
    by (simp add: find_load_def loads3 la_def)
  have "pg' = app_run md [Load_answer k (Status True), Load_answer k (Body s1)] q3"
    unfolding pg' q3_def k_def [symmetric] by (simp add: app_run_Cons q1_def q2_def)
  note r4 = load_completes [where md = md and s = s1, OF find3 assms(7) this]
  have "link_is_active (side_links pg' ! j)" by (simp add: r4 r3 f2 f1 ij)
  moreover have "loads pg' = []" by (simp add: r4(3) loads3 la_def)
  moreover have "hash pg' = buildHash (js ''docs'') (Some (sl_doc l2)) None" "currentDoc pg' = Some (sl_doc l2)"
    using assms(5) by (simp_all add: r4 r3 f2 l2'_def)
  ultimately show ?thesis
    using assms(5,6) r4(1) by (simp add: parseHash_buildHash_doc k_def)
qed

definition demo_page :: page where
  "demo_page = (new_page [slash] [] 1000 True None)\<lparr>side_links :=
     [\<lparr>sl_href = [], sl_class = [], sl_doc = js ''a'', sl_title = js ''A''\<rparr>,
      \<lparr>sl_href = [], sl_class = [], sl_doc = js ''b'', sl_title = js ''B''\<rparr>], boot_state := Ready\<rparr>"

theorem stale_load_wins_witness:
  "currentDoc (app_run demo_md [Sidebar_click 0, Sidebar_click 1,
      Load_answer (0 + 1) (Status True), Load_answer (0 + 1) (Body (js ''y'')),
      Load_answer 0 (Status True), Load_answer 0 (Body (js ''x''))] demo_page) = Some (js ''b'') \<and>
   content_div (app_run demo_md [Sidebar_click 0, Sidebar_click 1,
      Load_answer (0 + 1) (Status True), Load_answer (0 + 1) (Body (js ''y'')),
      Load_answer 0 (Status True), Load_answer 0 (Body (js ''x''))] demo_page) =
     Rendered 0 (fst (decorate [Elem (js ''h2'') [] [] [Text (js ''x'')]] (js ''a'')))"
proof -
  have sl: "nth_opt (side_links demo_page) 0 = Some \<lparr>sl_href = [], sl_class = [], sl_doc = js ''a'', sl_title = js ''A''\<rparr>"
    "nth_opt (side_links demo_page) 1 = Some \<lparr>sl_href = [], sl_class = [], sl_doc = js ''b'', sl_title = js ''B''\<rparr>"
    by (simp_all add: demo_page_def)
  have n: "loads demo_page = []" "next_load demo_page = 0" by (simp_all add: demo_page_def new_page_def)
  have c: "colon \<notin> set (js ''b'')" "js ''b'' \<noteq> []" by (simp_all add: js_eval)
  show ?thesis
    using stale_load_wins [where md = demo_md and i = 0 and j = 1 and pg = demo_page, OF n(1) sl, unfolded n(2),
        OF _ _ _ _ _ refl, of "js ''x''" "[Elem (js ''h2'') [] [] [Text (js ''x'')]]" "js ''y''"
        "[Elem (js ''h2'') [] [] [Text (js ''y'')]]"] c
    by (simp add: demo_md_def)
qed


text \<open>Events by which the reader asks for a document.\<close>

fun asks_for_doc :: "app_event \<Rightarrow> bool" where
  "asks_for_doc (Sidebar_click i) = True"
| "asks_for_doc (Hash_change h) = True"
| "asks_for_doc e = False"

definition idle_spinner :: "page \<Rightarrow> bool" where
  "idle_spinner pg \<longleftrightarrow> content_div pg = Spinner \<and> loads pg = [] \<and> currentDoc pg = None \<and>
     diagrams_due pg = [] \<and> boot_state pg = Ready"

lemma idle_spinner_step: "idle_spinner pg \<Longrightarrow> \<not> asks_for_doc e \<Longrightarrow> idle_spinner (app_step md e pg)"
proof (cases e)
  case (Tab_click i)
  assume i: "idle_spinner pg"
  have "idle_spinner (switchToView v (pushState u pg))" for v u
    using i by (simp add: idle_spinner_def)
  with i show ?thesis unfolding Tab_click
    by (simp add: tab_click_def Let_def split: option.split prod.split)
next
  case Scroll_timer
  assume "idle_spinner pg"
  then show ?thesis unfolding Scroll_timer
    by (cases "scroll_timers pg")
      (simp_all add: idle_spinner_def scroll_timer_def scroll_to_def split: option.split)
next
  case (Theme_click w)
  assume "idle_spinner pg"
  then show ?thesis unfolding Theme_click
    by (simp add: idle_spinner_def theme_click_def paint_def Let_def)
qed (simp_all add: idle_spinner_def dom_ready_def nav_answer_def answer_load_def find_load_def diagrams_ready_def
    toggleSidebar_def Let_def)

text \<open>
  a page opened at an API route never loads a document of its own accord: with the navigation
  loaded, tabs, theme and menu clicks, timers and answers in any order leave the docs view at its
  spinner until the reader picks a document or changes the hash.
\<close>

theorem api_start_spins:
  assumes "768 < w" "\<forall>e \<in> set es. \<not> asks_for_doc e"
  shows "content_div (app_run md (Dom_ready # Nav_answer (Some cfg) # es) (new_page path (js ''#api:'' @ t) w api th))
    = Spinner \<and>
    loads (app_run md (Dom_ready # Nav_answer (Some cfg) # es) (new_page path (js ''#api:'' @ t) w api th)) = []"
proof -
  define q where "q = start cfg (dom_ready (new_page path (js ''#api:'' @ t) w api th))"
  have "q = switchToView (js ''api'') (generateSidebar
      ((dom_ready (new_page path (js ''#api:'' @ t) w api th))\<lparr>DOCS_CONFIG := cfg, boot_state := Ready\<rparr>))"
    unfolding q_def by (rule start_at_api) (simp_all add: parseHash_api assms(1))
  then have q: "idle_spinner q" by (simp add: idle_spinner_def)
  have "idle_spinner (app_run md es r)" if "idle_spinner r" for r
    using that assms(2)
  proof (induction es arbitrary: r)
    case (Cons e es)
    then show ?case by (simp add: app_run_Cons idle_spinner_step)
  qed simp
  then show ?thesis
    using q unfolding boot_steps by (simp add: idle_spinner_def q_def)
qed

theorem api_start_spins_witness:
  "content_div (app_run demo_md (Dom_ready # Nav_answer (Some demo_cfg) # [Tab_click 0, Theme_click True])
     (new_page [slash] (js ''#api:'' @ []) 1000 True None)) = Spinner"
proof -
  have "\<forall>e \<in> set [Tab_click 0, Theme_click True]. \<not> asks_for_doc e" by simp
  from api_start_spins [OF _ this, of 1000 demo_md demo_cfg "[slash]" "[]" True None] show ?thesis by simp
qed

text \<open>
  visiting the API tab forgets the document: on a page showing some document, the API tab
  followed by the docs tab puts the default document's route into the address bar while the document
  on the page stays and nothing is loaded.
\<close>

theorem docs_tab_forgets_document:
  assumes "boot_state pg = Ready" "map fst (nav_tabs pg) = [js ''docs'', js ''api'']"
    and "defaultDoc (DOCS_CONFIG pg) \<noteq> []"
  shows "hash (app_run md [Tab_click 1, Tab_click 0] pg) = buildHash (js ''docs'') (Some (defaultDoc (DOCS_CONFIG pg))) None \<and>
    content_div (app_run md [Tab_click 1, Tab_click 0] pg) = content_div pg \<and>
    currentDoc (app_run md [Tab_click 1, Tab_click 0] pg) = currentDoc pg \<and>
    currentView (app_run md [Tab_click 1, Tab_click 0] pg) = js ''docs'' \<and>
    loads (app_run md [Tab_click 1, Tab_click 0] pg) = loads pg"
proof -
  from assms(2) obtain c1 c2 where tabs: "nav_tabs pg = [(js ''docs'', c1), (js ''api'', c2)]"
    by (cases "nav_tabs pg"; cases "tl (nav_tabs pg)") auto
  define q where "q = switchToView (js ''api'') (pushState (js ''#api:'') pg)"
  have b: "buildHash (js ''api'') (Some []) None = js ''#api:''" by (simp add: buildHash_def)
  have q: "tab_click 1 pg = q"
    using assms(1) by (simp add: tab_click_def nth_opt_def tabs b q_def)
  have hq: "hash q = js ''#api:'' @ []" by (simp add: q_def js_eval)
  have "map fst (nav_tabs q) = [js ''docs'', js ''api'']" by (simp add: q_def tabs)
  then obtain d1 d2 where tabs': "nav_tabs q = [(js ''docs'', d1), (js ''api'', d2)]"
    by (cases "nav_tabs q"; cases "tl (nav_tabs q)") auto
  have bq: "boot_state q = Ready" "DOCS_CONFIG q = DOCS_CONFIG pg" using assms(1) by (simp_all add: q_def)
  have ne: "js ''docs'' \<noteq> js ''api''" by (simp add: js_eval)
  have "tab_click 0 q = switchToView (js ''docs'')
      (pushState (buildHash (js ''docs'') (Some (defaultDoc (DOCS_CONFIG pg))) None) q)"
    unfolding tab_click_def hq parseHash_api
    using bq ne by (simp add: nth_opt_def tabs' Let_def)
  then show ?thesis
    using assms(3) q by (simp add: app_run_Cons) (simp add: q_def js_eval)
qed

theorem docs_tab_forgets_document_witness:
  "hash (app_run demo_md [Tab_click 1, Tab_click 0] (demo_page\<lparr>DOCS_CONFIG := demo_cfg, hash := js ''#docs:b''\<rparr>)) =
     buildHash (js ''docs'') (Some (js ''a'')) None"
  using docs_tab_forgets_document [of "demo_page\<lparr>DOCS_CONFIG := demo_cfg, hash := js ''#docs:b''\<rparr>" demo_md]
  by (simp add: demo_page_def new_page_def demo_cfg_def js_eval)

text \<open>
  API behaviour is not gated on the API tab: on the static site, which has no API view, an API
  route in the address bar leaves no content view active at all.
\<close>

theorem api_route_blank_on_static:
  assumes "768 < innerWidth pg" "map fst (content_views pg) = [js ''docs-view'']" "currentView pg = js ''docs''"
  shows "\<forall>(i, cs) \<in> set (content_views (hash_change (js ''#api:'' @ t) pg)). \<not> cl_contains cs (js ''active'')"
proof -
  from assms(2) obtain cs where "content_views pg = [(js ''docs-view'', cs)]"
    by (cases "content_views pg") auto
  moreover have "js ''api'' \<noteq> js ''docs''" "js ''docs-view'' \<noteq> js ''api'' @ js ''-view''" by (simp_all add: js_eval)
  ultimately show ?thesis
    using assms(1,3) by (simp add: hash_change_def parseHash_api switchToView_def Let_def)
qed

theorem api_route_blank_on_static_witness:
  "list_all (\<lambda>(i, cs). \<not> cl_contains cs (js ''active''))
     (content_views (hash_change (js ''#api:'' @ js ''x'') (new_page [slash] [] 1000 False None)))"
  unfolding list_all_iff by (rule api_route_blank_on_static) (simp_all add: new_page_def)

text \<open>
  the theme button alternates: a click switches the theme, remembers it, repaints the button for
  the theme now shown and re-requests the document on screen; a second click restores the theme.
\<close>

theorem theme_toggles:
  assumes "currentDoc pg = Some d" "d \<noteq> []"
  shows "currentTheme (theme_click True pg) \<noteq> currentTheme pg \<and>
    saved_theme (theme_click True pg) = Some (currentTheme (theme_click True pg)) \<and>
    theme_button (theme_click True pg) = theme_button (paint (theme_click True pg)) \<and>
    content_div (theme_click True pg) = Spinner \<and>
    map ld_doc (loads (theme_click True pg)) = map ld_doc (loads pg) @ [d] \<and>
    currentTheme (theme_click True (theme_click True pg)) = currentTheme pg"
  using assms by (simp add: theme_click_def paint_def currentTheme_def loadMarkdownDocs_def Let_def js_eval)

theorem theme_toggles_witness:
  "currentTheme (theme_click True (theme_click True (demo_page\<lparr>currentDoc := Some (js ''a'')\<rparr>))) = js ''dark''"
  using theme_toggles [of "demo_page\<lparr>currentDoc := Some (js ''a'')\<rparr>" "js ''a''"]
  by (simp add: currentTheme_def demo_page_def new_page_def js_eval)

end
