(* ===== verification/Html.thy ===== *)
theory Html
  imports Prelude
begin

text \<open>
  What a template of the API reference produces. The reference is the RapiDoc component the viewer loads
  (\<open>docs/ui/assets/rapidoc-min.js\<close>); its templates are functions from the component's state to a tree of
  elements. An element has its tag, its attributes and property bindings (a binding \<open>.value=\<close> or
  \<open>?checked=\<close> keeps the dot or question mark in its name, and a false boolean binding is absent), its event
  handlers as values of an action type, and its children. Text is text; markdown that a template inserts as
  HTML is kept as its source. Left out are white space between elements, the attributes that only style
  (\<open>style\<close> apart from a computed \<open>display\<close>, \<open>part\<close>, \<open>exportparts\<close>, \<open>spellcheck\<close>, \<open>role\<close>) and the
  drawings (\<open>svg\<close>).
\<close>

lemma js_eq_Nil [simp]: "js s = [] \<longleftrightarrow> s = []" "[] = js s \<longleftrightarrow> s = []"
  by (auto simp: js_def)

datatype 'a html =
    Txt jstr
  | Md jstr
  | El string "(string \<times> jstr) list" "(string \<times> 'a) list" "'a html list"

abbreviation el :: "string \<Rightarrow> (string \<times> jstr) list \<Rightarrow> 'a html list \<Rightarrow> 'a html" where
  "el tag attrs kids \<equiv> El tag attrs [] kids"

abbreviation cls :: "string \<Rightarrow> string \<times> jstr" where
  "cls c \<equiv> (''class'', js c)"

abbreviation lit :: "string \<Rightarrow> 'a html" where
  "lit s \<equiv> Txt (js s)"

text \<open>\<open>c ? t : ""\<close>.\<close>

definition show_if :: "bool \<Rightarrow> 'b list \<Rightarrow> 'b list" where
  "show_if c t = (if c then t else [])"

lemma show_if_simps [simp]: "show_if True t = t" "show_if False t = []" "show_if c [] = []"
  by (simp_all add: show_if_def)

lemma set_show_if: "set (show_if c t) = (if c then set t else {})"
  by (simp add: show_if_def)

text \<open>\<open>a || b\<close> where either may be undefined.\<close>

definition js_or :: "jstr option \<Rightarrow> jstr option \<Rightarrow> jstr option" where
  "js_or a b = (if truthy a then a else b)"

definition or_empty :: "jstr option \<Rightarrow> jstr" where
  "or_empty a = (case a of None \<Rightarrow> [] | Some s \<Rightarrow> s)"

definition display :: "bool \<Rightarrow> string \<times> jstr" where
  "display b = (''display'', js (if b then ''block'' else ''none''))"

text \<open>Every node of a tree in document order, its text, its handlers.\<close>

primrec nodes :: "'a html \<Rightarrow> 'a html list" where
  "nodes (Txt s) = [Txt s]"
| "nodes (Md s) = [Md s]"
| "nodes (El t as hs ks) = El t as hs ks # concat (map nodes ks)"

primrec inner_text :: "'a html \<Rightarrow> jstr" where
  "inner_text (Txt s) = s"
| "inner_text (Md s) = []"
| "inner_text (El t as hs ks) = concat (map inner_text ks)"

primrec actions :: "'a html \<Rightarrow> 'a list" where
  "actions (Txt s) = []"
| "actions (Md s) = []"
| "actions (El t as hs ks) = map snd hs @ concat (map actions ks)"

definition all_nodes :: "'a html list \<Rightarrow> 'a html list" where
  "all_nodes ks = concat (map nodes ks)"

definition all_text :: "'a html list \<Rightarrow> jstr" where
  "all_text ks = concat (map inner_text ks)"

definition all_actions :: "'a html list \<Rightarrow> 'a list" where
  "all_actions ks = concat (map actions ks)"

fun attr_of :: "string \<Rightarrow> 'a html \<Rightarrow> jstr option" where
  "attr_of n (El t as hs ks) = map_of as n"
| "attr_of n _ = None"

fun tag_of :: "'a html \<Rightarrow> string" where
  "tag_of (El t as hs ks) = t"
| "tag_of _ = []"

definition with_attr :: "string \<Rightarrow> jstr \<Rightarrow> 'a html list \<Rightarrow> 'a html list" where
  "with_attr n v ks = filter (\<lambda>x. attr_of n x = Some v) (all_nodes ks)"

lemma concat_concat [simp]: "concat (concat xss) = concat (map concat xss)"
  by (induction xss) auto

lemma all_nodes_simps [simp]:
  "all_nodes [] = []" "all_nodes (k # ks) = nodes k @ all_nodes ks" "all_nodes (ks @ ls) = all_nodes ks @ all_nodes ls"
  "all_nodes (concat kss) = concat (map all_nodes kss)"
  by (simp_all add: all_nodes_def [abs_def] map_concat comp_def)

lemma all_text_simps [simp]:
  "all_text [] = []" "all_text (k # ks) = inner_text k @ all_text ks" "all_text (ks @ ls) = all_text ks @ all_text ls"
  "all_text (concat kss) = concat (map all_text kss)"
  by (simp_all add: all_text_def [abs_def] map_concat comp_def)

lemma all_actions_simps [simp]:
  "all_actions [] = []" "all_actions (k # ks) = actions k @ all_actions ks"
  "all_actions (ks @ ls) = all_actions ks @ all_actions ls"
  "all_actions (concat kss) = concat (map all_actions kss)"
  by (simp_all add: all_actions_def [abs_def] map_concat comp_def)

lemma concat_all [simp]:
  "concat (map nodes ks) = all_nodes ks" "concat (map inner_text ks) = all_text ks" "concat (map actions ks) = all_actions ks"
  by (simp_all add: all_nodes_def all_text_def all_actions_def)

lemma all_show_if [simp]:
  "all_nodes (show_if c t) = show_if c (all_nodes t)" "all_actions (show_if c t) = show_if c (all_actions t)"
  "all_text (show_if c t) = show_if c (all_text t)"
  by (simp_all add: show_if_def)

lemma filter_show_if [simp]: "filter P (show_if c t) = show_if c (filter P t)"
  by (simp add: show_if_def)

lemma with_attr_simps [simp]:
  "with_attr n v [] = []" "with_attr n v (ks @ ls) = with_attr n v ks @ with_attr n v ls"
  "with_attr n v (show_if c t) = show_if c (with_attr n v t)"
  "with_attr n v (Txt s # ks) = with_attr n v ks" "with_attr n v (Md s # ks) = with_attr n v ks"
  "with_attr n v (El tg as hs kids # ks) =
     (if map_of as n = Some v then [El tg as hs kids] else []) @ with_attr n v kids @ with_attr n v ks"
  by (simp_all add: with_attr_def)

lemma with_attr_concat: "with_attr n v (concat kss) = concat (map (with_attr n v) kss)"
  by (induction kss) auto

lemma list_all_show_if [simp]: "list_all P (show_if c t) \<longleftrightarrow> \<not> c \<or> list_all P t"
  by (simp add: show_if_def)

lemma list_all_concat_map [simp]: "list_all P (concat (map f xs)) \<longleftrightarrow> list_all (\<lambda>x. list_all P (f x)) xs"
  by (induction xs) auto

lemma list_all_nodes_map [simp]: "list_all P (all_nodes (map f xs)) \<longleftrightarrow> list_all (\<lambda>x. list_all P (nodes (f x))) xs"
  by (induction xs) auto

end
