(* ===== verification/Api_Auth.thy ===== *)
theory Api_Auth
  imports Html
begin

text \<open>
  Authentication in the API reference (\<open>docs/ui/assets/rapidoc-min.js\<close>): the security schemes of a
  specification, the operations that apply, remove, clear, store and restore their keys, the OAuth requests,
  and the templates of the section and of an operation's security badge. In the minified source the
  operations are \<open>OR\<close> (apply a key), \<open>jR\<close> (clear all), \<open>TR\<close> and \<open>PR\<close> (read and write the stored keys), \<open>CR\<close>
  (restore), \<open>IR\<close> (the set button), \<open>_R\<close> (take an OAuth token), \<open>RR\<close> (token request), \<open>MR\<close> (get
  token), \<open>DR\<close> (remove), and the templates \<open>LR\<close> (an OAuth flow), \<open>BR\<close> (the section), \<open>qR\<close> (the badge).
  \<open>base64\<close> (of the UTF-8 bytes of a text) is a parameter.
\<close>

section \<open>Security schemes\<close>

record flow =
  authorizationUrl :: jstr
  tokenUrl :: jstr
  refreshUrl :: jstr
  scopes :: "(jstr \<times> jstr) list option"
  fl_pkce_only :: bool
  fl_client_id :: "jstr option"
  fl_client_secret :: "jstr option"
  fl_default_scopes :: "jstr list option"
  fl_receive_in :: "jstr option"
  fl_receive_options :: "jstr list option"

text \<open>A scheme as the specification writes it (an absent text is \<open>None\<close>).\<close>

record raw_scheme =
  rw_type :: jstr
  rw_scheme :: "jstr option"
  rw_name :: "jstr option"
  rw_in :: "jstr option"
  rw_description :: jstr
  rw_flows :: "(jstr \<times> flow) list"
  rw_client_id :: "jstr option"
  rw_client_secret :: "jstr option"
  rw_default_scopes :: "jstr list option"
  rw_receive_in :: "jstr option"
  rw_receive_options :: "jstr list option"

record scheme = raw_scheme +
  securitySchemeId :: jstr
  sc_name :: jstr
  sc_in :: jstr
  sc_user :: jstr
  sc_password :: jstr
  sc_value :: jstr
  finalKeyValue :: jstr
  typeDisplay :: jstr

definition type_display :: "jstr \<Rightarrow> jstr option \<Rightarrow> jstr \<Rightarrow> jstr \<Rightarrow> jstr" where
  "type_display ty sc nm i =
     (if ty = js ''http'' then (if sc = Some (js ''basic'') then js ''HTTP Basic'' else js ''HTTP Bearer'')
      else if ty = js ''apiKey'' then js ''API Key ('' @ nm @ js '')''
      else if ty = js ''oauth2'' then js ''OAuth ('' @ i @ js '')''
      else if ty \<noteq> [] then ty else js ''None'')"

definition resolve_scheme :: "jstr \<times> raw_scheme \<Rightarrow> scheme" where
  "resolve_scheme e =
     (let i = fst e; r = snd e; ty = rw_type r;
          named = (ty = js ''apiKey'' \<or> ty = js ''http'');
          nm = (if named then or_empty (js_or (rw_name r) (Some (js ''Authorization'')))
                else if ty = js ''oauth2'' then js ''Authorization'' else or_empty (rw_name r));
          loc = (if named then or_empty (js_or (rw_in r) (Some (js ''header'')))
                 else if ty = js ''oauth2'' then js ''header'' else or_empty (rw_in r))
      in raw_scheme.extend r
           \<lparr>securitySchemeId = i, sc_name = nm, sc_in = loc, sc_user = [], sc_password = [], sc_value = [],
            finalKeyValue = [], typeDisplay = type_display ty (rw_scheme r) nm i\<rparr>)"

definition resolve_schemes :: "(jstr \<times> raw_scheme) list \<Rightarrow> scheme list" where
  "resolve_schemes = map resolve_scheme"

section \<open>Applying and removing keys\<close>

record auth =
  schemes :: "scheme list"
  stored :: "(jstr \<times> scheme) list"     \<comment> \<open>what \<open>localStorage\<close> holds, in insertion order\<close>
  persistAuth :: bool

definition find_scheme :: "jstr \<Rightarrow> scheme list \<Rightarrow> scheme option" where
  "find_scheme i ss = List.find (\<lambda>s. securitySchemeId s = i) ss"

fun upd_scheme :: "jstr \<Rightarrow> (scheme \<Rightarrow> scheme) \<Rightarrow> scheme list \<Rightarrow> scheme list" where
  "upd_scheme i f [] = []"
| "upd_scheme i f (s # ss) = (if securitySchemeId s = i then f s # ss else s # upd_scheme i f ss)"

definition is_scheme :: "string \<Rightarrow> scheme \<Rightarrow> bool" where
  "is_scheme w s \<longleftrightarrow> map_option toLowerCase (rw_scheme s) = Some (js w)"

definition applyApiKey :: "(jstr \<Rightarrow> jstr) \<Rightarrow> jstr \<Rightarrow> jstr \<Rightarrow> jstr \<Rightarrow> scheme \<Rightarrow> scheme" where
  \<comment> \<open>\<open>OR\<close> on the scheme it finds\<close>
  "applyApiKey base64 user pw key s =
     (if is_scheme ''basic'' s then
        (if user \<noteq> [] then s\<lparr>finalKeyValue := js ''Basic '' @ base64 (user @ js '':'' @ pw)\<rparr> else s)
      else if key \<noteq> [] then
        s\<lparr>sc_value := key, finalKeyValue := (if is_scheme ''bearer'' s then js ''Bearer '' else []) @ key\<rparr>
      else s)"

definition setApiKey :: "(jstr \<Rightarrow> jstr) \<Rightarrow> jstr \<Rightarrow> jstr \<Rightarrow> jstr \<Rightarrow> jstr \<Rightarrow> auth \<Rightarrow> auth" where
  "setApiKey base64 i user pw key a = a\<lparr>schemes := upd_scheme i (applyApiKey base64 user pw key) (schemes a)\<rparr>"

definition clear_scheme :: "scheme \<Rightarrow> scheme" where
  "clear_scheme s = s\<lparr>sc_user := [], sc_password := [], sc_value := [], finalKeyValue := []\<rparr>"

definition clearAllApiKeys :: "auth \<Rightarrow> auth" where
  "clearAllApiKeys a = a\<lparr>schemes := map clear_scheme (schemes a)\<rparr>"

fun put_stored :: "jstr \<Rightarrow> scheme \<Rightarrow> (jstr \<times> scheme) list \<Rightarrow> (jstr \<times> scheme) list" where
  "put_stored i s [] = [(i, s)]"
| "put_stored i s ((j, t) # es) = (if i = j then (i, s) # es else (j, t) # put_stored i s es)"

text \<open>
  Restoring reads \<open>username\<close>, \<open>password\<close> and \<open>value\<close> of each stored scheme; a stored scheme has no
  \<open>username\<close>, so its default, the empty text, is used.
\<close>

definition recoverPersistedApiKeys :: "(jstr \<Rightarrow> jstr) \<Rightarrow> auth \<Rightarrow> auth" where
  "recoverPersistedApiKeys base64 a =
     fold (\<lambda>(k, s). setApiKey base64 (securitySchemeId s) [] (sc_password s) (sc_value s)) (stored a) a"

text \<open>The main template restores the stored keys each time it is rendered.\<close>

definition render :: "(jstr \<Rightarrow> jstr) \<Rightarrow> auth \<Rightarrow> auth" where
  "render base64 a = (if persistAuth a then recoverPersistedApiKeys base64 a else a)"

definition is_http_basic :: "scheme \<Rightarrow> bool" where
  "is_http_basic s \<longleftrightarrow> rw_type s = js ''http'' \<and> is_scheme ''basic'' s"

definition onApiKeyChange :: "(jstr \<Rightarrow> jstr) \<Rightarrow> jstr \<Rightarrow> jstr \<Rightarrow> jstr \<Rightarrow> jstr \<Rightarrow> auth \<Rightarrow> auth" where
  \<comment> \<open>\<open>IR\<close>, with the contents of the fields of the scheme's row\<close>
  "onApiKeyChange base64 i user pw key a =
     (case find_scheme i (schemes a) of
        None \<Rightarrow> a
      | Some s \<Rightarrow>
          if rw_type s = [] then a
          else
            let a' = (if is_http_basic s then setApiKey base64 i (trim user) (trim pw) [] a
                      else setApiKey base64 i [] [] (trim key) a)
            in if persistAuth a
               then (case find_scheme i (schemes a') of
                       None \<Rightarrow> a' | Some s' \<Rightarrow> a'\<lparr>stored := put_stored i s' (stored a')\<rparr>)
               else a')"

definition removeApiKey :: "jstr \<Rightarrow> auth \<Rightarrow> auth" where
  "removeApiKey i a =
     (let a' = a\<lparr>schemes := upd_scheme i clear_scheme (schemes a)\<rparr>
      in if persistAuth a then a'\<lparr>stored := filter (\<lambda>(k, s). k \<noteq> i) (stored a')\<rparr> else a')"

definition token_prefix :: "jstr \<Rightarrow> jstr" where
  "token_prefix ty = (if toLowerCase ty = js ''bearer'' then js ''Bearer''
     else if toLowerCase ty = js ''mac'' then js ''MAC'' else ty)"

definition setOAuthToken :: "jstr \<Rightarrow> jstr \<Rightarrow> jstr \<Rightarrow> auth \<Rightarrow> auth" where
  "setOAuthToken i tok ty a =
     a\<lparr>schemes := upd_scheme i (\<lambda>s. s\<lparr>finalKeyValue := token_prefix ty @ js '' '' @ tok\<rparr>) (schemes a)\<rparr>"

datatype auth_event =
    Set_key jstr jstr jstr jstr      \<comment> \<open>scheme, user, password and key fields\<close>
  | Remove_key jstr
  | Clear_all
  | Token jstr jstr jstr
  | Reload "(jstr \<times> raw_scheme) list"

text \<open>Each operation asks for an update, so it is followed by a rendering.\<close>

fun auth_step :: "(jstr \<Rightarrow> jstr) \<Rightarrow> auth_event \<Rightarrow> auth \<Rightarrow> auth" where
  "auth_step base64 (Set_key i u p k) a = render base64 (onApiKeyChange base64 i u p k a)"
| "auth_step base64 (Remove_key i) a = render base64 (removeApiKey i a)"
| "auth_step base64 Clear_all a = render base64 (clearAllApiKeys a)"
| "auth_step base64 (Token i t ty) a = render base64 (setOAuthToken i t ty a)"
| "auth_step base64 (Reload spec) a = render base64 (a\<lparr>schemes := resolve_schemes spec\<rparr>)"

definition auth_run :: "(jstr \<Rightarrow> jstr) \<Rightarrow> auth_event list \<Rightarrow> auth \<Rightarrow> auth" where
  "auth_run base64 es a = fold (auth_step base64) es a"

definition opened :: "(jstr \<Rightarrow> jstr) \<Rightarrow> bool \<Rightarrow> (jstr \<times> scheme) list \<Rightarrow> (jstr \<times> raw_scheme) list \<Rightarrow> auth" where
  "opened base64 persist kept spec =
     render base64 \<lparr>schemes = resolve_schemes spec, stored = kept, persistAuth = persist\<rparr>"

section \<open>OAuth requests\<close>

definition codeVerifier :: jstr where
  "codeVerifier = js ''731DB1C3F7EA533B85E29492D26AA-1234567890-1234567890''"

definition codeChallenge :: jstr where
  "codeChallenge = js ''4FatVDBJKPAo4JgLLaaQFMUcQPn5CrPRvLlaob9PTYc''"

record token_request =
  tr_params :: "(string \<times> jstr) list"
  tr_authorization :: "jstr option"

definition fetchAccessToken ::
  "(jstr \<Rightarrow> jstr) \<Rightarrow> jstr \<Rightarrow> jstr \<Rightarrow> jstr \<Rightarrow> jstr \<Rightarrow> jstr \<Rightarrow> jstr \<Rightarrow> jstr \<Rightarrow> jstr \<Rightarrow> jstr \<Rightarrow> token_request" where
  \<comment> \<open>client, secret, redirect, grant, code, where the secret goes, scopes, user, password\<close>
  "fetchAccessToken base64 cid secret redirect grant code send_in scope user pw =
     \<lparr>tr_params =
        [(''grant_type'', grant)] @
        show_if (grant = js ''authorization_code'') [(''client_id'', cid), (''client_secret'', secret)] @
        show_if (grant \<noteq> js ''client_credentials'' \<and> grant \<noteq> js ''password'') [(''redirect_uri'', redirect)] @
        show_if (code \<noteq> []) [(''code'', code), (''code_verifier'', codeVerifier)] @
        show_if (send_in \<noteq> js ''header'' \<and> grant \<noteq> js ''authorization_code'') [(''client_id'', cid), (''client_secret'', secret)] @
        show_if (grant = js ''password'') [(''username'', user), (''password'', pw)] @
        show_if (scope \<noteq> []) [(''scope'', scope)],
      tr_authorization =
        (if send_in = js ''header'' then Some (js ''Basic '' @ base64 (cid @ js '':'' @ secret)) else None)\<rparr>"

text \<open>The parameters the authorization page is opened with, after those of its own URL.\<close>

definition authorization_params :: "bool \<Rightarrow> bool \<Rightarrow> jstr \<Rightarrow> jstr \<Rightarrow> jstr \<Rightarrow> jstr \<Rightarrow> jstr \<Rightarrow> (string \<times> jstr) list" where
  "authorization_params code_flow pkce scope cid redirect state nonce =
     show_if (scope \<noteq> []) [(''scope'', scope)] @
     [(''client_id'', cid), (''redirect_uri'', redirect),
      (''response_type'', js (if code_flow then ''code'' else ''token'')), (''state'', state), (''nonce'', nonce)] @
     show_if pkce [(''code_challenge'', codeChallenge), (''code_challenge_method'', js ''S256'')] @
     [(''show_dialog'', js ''true'')]"


section \<open>Templates\<close>

datatype auth_act =
    OnApply jstr
  | OnRemove jstr
  | OnClearAll
  | OnGetToken jstr jstr jstr jstr   \<comment> \<open>scheme, flow, authorization URL, token URL\<close>

subsection \<open>An OAuth flow\<close>

definition is_absolute :: "jstr \<Rightarrow> bool" where
  "is_absolute u \<longleftrightarrow> (case find_sub u (js ''://'') of None \<Rightarrow> False | Some n \<Rightarrow> n > 0) \<or> startsWith u (js ''//'')"

definition full_url :: "jstr \<Rightarrow> jstr \<Rightarrow> jstr" where
  "full_url origin u =
     (if u = [] \<or> is_absolute u then u
      else origin @ js ''/'' @ (if startsWith u (js ''/'') then drop 1 u else u))"

definition flow_title :: "jstr \<Rightarrow> jstr" where
  "flow_title f =
     (if f = js ''authorizationCode'' then js ''Authorization Code Flow''
      else if f = js ''clientCredentials'' then js ''Client Credentials Flow''
      else if f = js ''implicit'' then js ''Implicit Flow''
      else if f = js ''password'' then js ''Password Flow'' else f)"

definition url_line :: "string \<Rightarrow> jstr \<Rightarrow> auth_act html list" where
  "url_line label u = show_if (u \<noteq> [])
     [el ''div'' [] [el ''span'' [] [lit label], el ''span'' [cls ''mono-font''] [Txt u]]]"

definition scope_box :: "jstr \<Rightarrow> jstr \<Rightarrow> jstr list \<Rightarrow> nat \<times> jstr \<times> jstr \<Rightarrow> (nat \<Rightarrow> jstr) \<Rightarrow> auth_act html" where
  \<comment> \<open>\<open>num\<close>: how a number is printed\<close>
  "scope_box sid f checked e num =
     (case e of (r, scope, descr) \<Rightarrow>
        el ''div'' [cls ''m-checkbox'']
          [el ''input''
             ([(''type'', js ''checkbox''), cls ''scope-checkbox'', (''id'', sid @ f @ num r)] @
              show_if (scope \<in> set checked) [(''?checked'', [])] @ [(''value'', scope)]) [],
           el ''label'' [(''for'', sid @ f @ num r)]
             [el ''span'' [cls ''mono-font''] [Txt scope],
              Txt (if scope \<noteq> descr then js '' - '' @ descr else [])]])"

definition standard_flow :: "jstr \<Rightarrow> bool" where
  "standard_flow f \<longleftrightarrow> f \<in> set (map js [''authorizationCode'', ''clientCredentials'', ''implicit'', ''password''])"

definition password_fields :: "jstr \<Rightarrow> jstr \<Rightarrow> auth_act html list" where
  "password_fields f sid =
     [el ''div'' []
        [el ''input'' [(''type'', js ''text''), (''value'', []), (''placeholder'', js ''username''),
           (''class'', js ''oauth2 '' @ f @ js '' '' @ sid @ js '' api-key-user''),
           (''id'', js ''input-'' @ sid @ js ''-'' @ f @ js ''-api-key-user'')] [],
         el ''input'' [(''type'', js ''password''), (''value'', []), (''placeholder'', js ''password''),
           (''class'', js ''oauth2 '' @ f @ js '' '' @ sid @ js '' api-key-password''),
           (''id'', js ''input-'' @ sid @ js ''-'' @ f @ js ''-api-key-password'')] []]]"

definition secret_fields :: "jstr \<Rightarrow> jstr \<Rightarrow> jstr \<Rightarrow> bool \<Rightarrow> jstr \<Rightarrow> jstr list option \<Rightarrow> auth_act html list" where
  "secret_fields f secret sid pkce_only send_in options =
     [el ''input''
        ([(''id'', sid @ js ''-'' @ f @ js ''-oauth-client-secret''), (''type'', js ''password''),
          (''value'', secret), (''placeholder'', js ''client-secret''),
          (''class'', js ''oauth2 '' @ f @ js '' '' @ sid @ js '' oauth-client-secret'')] @
         show_if pkce_only [(''display'', js ''none'')]) [],
      el ''select''
        ([(''class'', f @ js '' '' @ sid @ js '' oauth-send-client-secret-in'')] @ show_if pkce_only [(''display'', js ''none'')])
        (show_if (case options of None \<Rightarrow> True | Some os \<Rightarrow> js ''header'' \<in> set os)
           [el ''option'' ([(''value'', js ''header'')] @ show_if (send_in = js ''header'') [(''.selected'', [])])
              [lit ''Authorization Header'']] @
         show_if (case options of None \<Rightarrow> True | Some os \<Rightarrow> js ''request-body'' \<in> set os)
           [el ''option'' ([(''value'', js ''request-body'')] @ show_if (send_in = js ''request-body'') [(''.selected'', [])])
              [lit ''Request Body'']])]"

definition oAuthFlowTemplate ::
  "(nat \<Rightarrow> jstr) \<Rightarrow> jstr \<Rightarrow> jstr \<Rightarrow> jstr \<Rightarrow> jstr \<Rightarrow> jstr \<Rightarrow> flow \<Rightarrow> jstr list \<Rightarrow> jstr \<Rightarrow> jstr list option \<Rightarrow> auth_act html" where
  "oAuthFlowTemplate num origin f cid secret sid fl defaults send_in options =
     (let c = full_url origin (authorizationUrl fl); p = full_url origin (tokenUrl fl);
          u = full_url origin (refreshUrl fl); d = fl_pkce_only fl
      in el ''div'' [(''class'', js ''oauth-flow '' @ f)]
           ([el ''div'' [cls ''tiny-title upper''] [Txt (flow_title f)]] @
            url_line ''Auth URL'' c @ url_line ''Token URL'' p @ url_line ''Refresh URL'' u @
            show_if (standard_flow f)
              ((case scopes fl of
                  None \<Rightarrow> []
                | Some ss \<Rightarrow>
                    [el ''span'' [] [lit '' Scopes ''],
                     el ''div'' [cls ''oauth-scopes'']
                       (map (\<lambda>e. scope_box sid f defaults e num) (zip [0..<length ss] ss))]) @
               show_if (f = js ''password'') (password_fields f sid) @
               [el ''div'' []
                  (show_if (f = js ''authorizationCode'')
                     [el ''div'' []
                        [el ''input'' ([(''type'', js ''checkbox''), (''id'', sid @ js ''-pkce''), (''checked'', [])] @
                           show_if d [(''?disabled'', [])]) [],
                         el ''label'' [(''for'', sid @ js ''-pkce'')] [lit ''Send Proof Key for Code Exchange (PKCE)'']]] @
                   [el ''input'' [(''type'', js ''text''), (''value'', cid), (''placeholder'', js ''client-id''),
                      (''class'', js ''oauth2 '' @ f @ js '' '' @ sid @ js '' oauth-client-id'')] []] @
                   show_if (f \<noteq> js ''implicit'') (secret_fields f secret sid d send_in options) @
                   [El ''button'' [cls ''m-btn thin-border''] [(''click'', OnGetToken sid f c p)] [lit '' GET TOKEN '']]),
                el ''div'' [cls ''oauth-resp-display red-text small-font-size''] []])))"

subsection \<open>The section\<close>

definition key_fields :: "scheme \<Rightarrow> auth_act html list" where
  "key_fields e =
     [el ''div'' []
        (if toLowerCase (rw_type e) = js ''apikey''
         then [lit ''Send '', el ''code'' [] [Txt (sc_name e)], lit '' in '', el ''code'' [] [Txt (sc_in e)]]
         else [lit ''Send '', el ''code'' [] [lit ''Authorization''], lit '' in '', el ''code'' [] [lit ''header''],
               lit '' containing the word '', el ''code'' [] [lit ''Bearer''],
               lit '' followed by a space and a Token String.'']),
      el ''div'' []
        (if sc_in e \<noteq> js ''cookie''
         then [el ''input'' [(''type'', js ''text''), (''value'', sc_value e),
                 (''class'', rw_type e @ js '' '' @ securitySchemeId e @ js '' api-key-input''), (''placeholder'', js ''api-token''),
                 (''id'', rw_type e @ js ''-'' @ securitySchemeId e @ js ''-api-key-input'')] [],
               El ''button'' [cls ''m-btn thin-border''] [(''click'', OnApply (securitySchemeId e))]
                 [lit (if finalKeyValue e \<noteq> [] then ''UPDATE'' else ''SET'')]]
         else [el ''span'' [cls ''gray-text''] [lit '' cookies cannot be set from here'']])]"

definition basic_fields :: "scheme \<Rightarrow> auth_act html list" where
  "basic_fields e =
     [el ''div'' []
        [lit ''Send '', el ''code'' [] [lit ''Authorization''], lit '' in '', el ''code'' [] [lit ''header''],
         lit '' containing the word '', el ''code'' [] [lit ''Basic''],
         lit '' followed by a space and a base64 encoded string of '', el ''code'' [] [lit ''username:password''], lit ''.''],
      el ''div'' []
        [el ''input'' [(''type'', js ''text''), (''value'', sc_user e), (''placeholder'', js ''username''),
           (''class'', rw_type e @ js '' '' @ securitySchemeId e @ js '' api-key-user''),
           (''id'', js ''input-'' @ rw_type e @ js ''-'' @ securitySchemeId e @ js ''-api-key-user'')] [],
         el ''input'' [(''type'', js ''password''), (''value'', sc_password e), (''placeholder'', js ''password''),
           (''class'', rw_type e @ js '' '' @ securitySchemeId e @ js '' api-key-password''),
           (''id'', js ''input-'' @ rw_type e @ js ''-'' @ securitySchemeId e @ js ''-api-key-password'')] [],
         El ''button'' [cls ''m-btn thin-border''] [(''click'', OnApply (securitySchemeId e))]
           [lit (if finalKeyValue e \<noteq> [] then ''UPDATE'' else ''SET'')]]]"

definition first_some :: "'b option \<Rightarrow> 'b option \<Rightarrow> 'b option" where
  "first_some a b = (case a of None \<Rightarrow> b | Some x \<Rightarrow> Some x)"

definition scheme_flows :: "(nat \<Rightarrow> jstr) \<Rightarrow> jstr \<Rightarrow> scheme \<Rightarrow> auth_act html list" where
  "scheme_flows num origin e =
     map (\<lambda>(t, fl). oAuthFlowTemplate num origin t
        (or_empty (js_or (fl_client_id fl) (rw_client_id e)))
        (or_empty (js_or (fl_client_secret fl) (rw_client_secret e)))
        (securitySchemeId e) fl
        (case first_some (fl_default_scopes fl) (rw_default_scopes e) of None \<Rightarrow> [] | Some ds \<Rightarrow> ds)
        (case js_or (fl_receive_in fl) (rw_receive_in e) of None \<Rightarrow> js ''header'' | Some s \<Rightarrow> s)
        (first_some (fl_receive_options fl) (rw_receive_options e))) (rw_flows e)"

definition scheme_rows :: "(nat \<Rightarrow> jstr) \<Rightarrow> jstr \<Rightarrow> scheme \<Rightarrow> auth_act html list" where
  "scheme_rows num origin e =
     [el ''tr'' [(''id'', js ''security-scheme-'' @ securitySchemeId e), (''class'', toLowerCase (rw_type e))]
        [el ''td'' []
           ([el ''div'' []
               ([el ''span'' [] [Txt (typeDisplay e)]] @
                show_if (finalKeyValue e \<noteq> [])
                  [el ''span'' [cls ''blue-text''] [lit ''Key Applied''],
                   El ''button'' [cls ''m-btn thin-border small''] [(''click'', OnRemove (securitySchemeId e))] [lit ''REMOVE'']])] @
            show_if (rw_description e \<noteq> []) [el ''div'' [cls ''m-markdown''] [Md (rw_description e)]] @
            show_if (toLowerCase (rw_type e) = js ''apikey'' \<or> toLowerCase (rw_type e) = js ''http'' \<and> is_scheme ''bearer'' e)
              (key_fields e) @
            show_if (toLowerCase (rw_type e) = js ''http'' \<and> is_scheme ''basic'' e) (basic_fields e))]] @
     show_if (toLowerCase (rw_type e) = js ''oauth2'')
       [el ''tr'' [] [el ''td'' [] (scheme_flows num origin e)]]"

definition securitySchemeTemplate :: "(nat \<Rightarrow> jstr) \<Rightarrow> jstr \<Rightarrow> jstr \<Rightarrow> scheme list \<Rightarrow> auth_act html" where
  "securitySchemeTemplate num origin renderStyle ss =
     (let applied = filter (\<lambda>e. finalKeyValue e \<noteq> []) ss
      in el ''section''
           [(''id'', js ''auth''),
            (''class'', js ''observe-me '' @ js (if occurs renderStyle (js ''read focused'') then ''section-gap--read-mode'' else ''section-gap ''))]
           ([el ''div'' [cls ''sub-title regular-font''] [lit '' AUTHENTICATION ''],
             el ''div'' [cls ''small-font-size'']
               (if applied \<noteq> []
                then [el ''div'' [cls ''blue-text''] [Txt (num (length applied)), lit '' API key applied ''],
                      El ''button'' [cls ''m-btn thin-border''] [(''click'', OnClearAll)] [lit ''CLEAR ALL API KEYS'']]
                else [el ''div'' [cls ''red-text''] [lit ''No API key applied'']])] @
            show_if (ss \<noteq> [])
              [el ''table'' [(''id'', js ''auth-table'')]
                 (concat (map (scheme_rows num origin) (filter (\<lambda>e. rw_type e \<noteq> []) ss)))] @
            [el ''slot'' [(''name'', js ''auth'')] []]))"

subsection \<open>The badge of an operation\<close>

type_synonym requirement = "(jstr \<times> jstr list option) list"

definition joined :: "string \<Rightarrow> jstr list \<Rightarrow> jstr" where
  "joined sep xs = concat (map (\<lambda>(n, x). (if n = 0 then [] else js sep) @ x) (zip [0..<length xs] xs))"

definition requirement_defs :: "scheme list \<Rightarrow> requirement \<Rightarrow> (scheme \<times> jstr) list" where
  "requirement_defs ss req =
     concat (map (\<lambda>(k, sc). case find_scheme k ss of
        None \<Rightarrow> [] | Some s \<Rightarrow> [(s, case sc of None \<Rightarrow> [] | Some xs \<Rightarrow> joined '', '' xs)]) req)"

definition requirement_label :: "(nat \<Rightarrow> jstr) \<Rightarrow> scheme list \<Rightarrow> requirement \<Rightarrow> jstr \<times> (scheme \<times> jstr) list" where
  \<comment> \<open>an undefined label is the empty text\<close>
  "requirement_label num ss req =
     (if req = [] then (js ''None'', [])
      else let ds = requirement_defs ss req
           in (case ds of
                 [] \<Rightarrow> []
               | [d] \<Rightarrow> typeDisplay (fst d)
               | d # d' # _ \<Rightarrow> typeDisplay (fst d) @ js '' + '' @ num (length ds - 1) @ js '' more'', ds))"

definition scopes_block :: "jstr \<Rightarrow> auth_act html list" where
  "scopes_block sc = show_if (sc \<noteq> [])
     [el ''div'' []
        [el ''b'' [] [lit ''Required scopes:''], el ''br'' [] [],
         el ''div'' []
           (concat (map (\<lambda>(n, x). [Txt (if n = 0 then [] else [0x2503]), el ''span'' [] [Txt x]])
              (zip [0..<length (split_on 44 sc)] (split_on 44 sc))))]]"

definition def_block :: "(nat \<Rightarrow> jstr) \<Rightarrow> nat \<Rightarrow> nat \<times> scheme \<times> jstr \<Rightarrow> auth_act html" where
  "def_block num ndefs d =
     (case d of (r, t, sc) \<Rightarrow>
        el ''div'' []
          (if rw_type t = js ''oauth2''
           then (if ndefs > 1 then [el ''b'' [] [Txt (num (r + 1) @ js ''.'')]] else [lit ''Needs'']) @
                [lit '' OAuth Token '', el ''span'' [] [Txt (securitySchemeId t)], lit '' in '',
                 el ''b'' [] [lit ''Authorization header'']] @ scopes_block sc
           else if rw_type t = js ''http''
           then (if ndefs > 1 then [el ''b'' [] [Txt (num (r + 1) @ js ''.'')]] else [lit ''Requires'']) @
                [lit (if rw_scheme t = Some (js ''basic'') then ''Base 64 encoded username:password'' else ''Bearer Token''),
                 lit '' in '', el ''b'' [] [lit ''Authorization header'']] @ scopes_block sc
           else (if ndefs > 1 then [el ''b'' [] [Txt (num (r + 1) @ js ''.'')]] else [lit ''Requires'']) @
                [lit '' Token in '', el ''b'' [] [Txt (sc_name t @ js '' '' @ sc_in t)]] @ scopes_block sc))"

definition alternative :: "(nat \<Rightarrow> jstr) \<Rightarrow> bool \<Rightarrow> nat \<times> jstr \<times> (scheme \<times> jstr) list \<Rightarrow> auth_act html list" where
  "alternative num linked e =
     (case e of (n, label, ds) \<Rightarrow>
        show_if (label \<noteq> [])
          (show_if (n \<noteq> 0) [el ''div'' [] [lit '' OR '']] @
           [el ''div'' [cls ''tooltip'']
              [el ''div'' [] (if linked then [el ''a'' [(''href'', js ''#auth'')] [Txt label]] else [Txt label]),
               el ''div'' [cls ''tooltip-text'']
                 (show_if (length ds > 1) [el ''div'' [] [lit ''Requires '', el ''b'' [] [lit ''all''], lit '' of the following '']] @
                  [el ''div'' [] (map (def_block num (length ds)) (zip [0..<length ds] ds))])]]))"

definition pathSecurityTemplate :: "(nat \<Rightarrow> jstr) \<Rightarrow> bool \<Rightarrow> scheme list \<Rightarrow> requirement list option \<Rightarrow> auth_act html list" where
  \<comment> \<open>\<open>linked\<close>: routes are updated and authentication is allowed\<close>
  "pathSecurityTemplate num linked ss security =
     (case security of
        None \<Rightarrow> []
      | Some reqs \<Rightarrow>
          if reqs = [] then []
          else [el ''div'' [] [el ''div'' []
                  (concat (map (\<lambda>(n, req). alternative num linked (n, requirement_label num ss req))
                     (zip [0..<length reqs] reqs)))]])"


section \<open>Lemmas\<close>

subsection \<open>One scheme among many\<close>

definition keeps_id :: "(scheme \<Rightarrow> scheme) \<Rightarrow> bool" where
  "keeps_id f \<longleftrightarrow> (\<forall>s. securitySchemeId (f s) = securitySchemeId s)"

lemma keeps_id_ops [simp]: "keeps_id (applyApiKey base64 u p k)" "keeps_id clear_scheme"
  "keeps_id (\<lambda>s. s\<lparr>finalKeyValue := v\<rparr>)"
  by (simp_all add: keeps_id_def applyApiKey_def clear_scheme_def)

lemma find_scheme_simps [simp]:
  "find_scheme i [] = None" "find_scheme i (s # ss) = (if securitySchemeId s = i then Some s else find_scheme i ss)"
  by (simp_all add: find_scheme_def)

lemma find_upd_scheme:
  "keeps_id f \<Longrightarrow> find_scheme j (upd_scheme i f ss) = (if i = j then map_option f (find_scheme i ss) else find_scheme j ss)"
  by (induction ss) (auto simp: keeps_id_def)

lemma find_map_scheme: "keeps_id f \<Longrightarrow> find_scheme i (map f ss) = map_option f (find_scheme i ss)"
  by (induction ss) (auto simp: keeps_id_def)

lemma find_schemeD: "find_scheme i ss = Some s \<Longrightarrow> s \<in> set ss \<and> securitySchemeId s = i"
  by (induction ss) (auto split: if_splits)

lemma setApiKey_simps [simp]:
  "find_scheme j (schemes (setApiKey base64 i u p k a)) =
     (if i = j then map_option (applyApiKey base64 u p k) (find_scheme i (schemes a)) else find_scheme j (schemes a))"
  "stored (setApiKey base64 i u p k a) = stored a" "persistAuth (setApiKey base64 i u p k a) = persistAuth a"
  by (simp_all add: setApiKey_def find_upd_scheme)

subsection \<open>The store\<close>

text \<open>Each stored scheme is kept under its own identifier.\<close>

definition store_ok :: "(jstr \<times> scheme) list \<Rightarrow> bool" where
  "store_ok st \<longleftrightarrow> distinct (map fst st) \<and> list_all (\<lambda>(k, s). securitySchemeId s = k) st"

lemma store_ok_simps [simp]: "store_ok []"
  "store_ok ((k, s) # st) \<longleftrightarrow> k \<notin> fst ` set st \<and> securitySchemeId s = k \<and> store_ok st"
  by (auto simp: store_ok_def)

lemma put_stored_keys: "fst ` set (put_stored i s st) = insert i (fst ` set st)"
  by (induction i s st rule: put_stored.induct) auto

lemma put_stored_ok: "store_ok st \<Longrightarrow> securitySchemeId s = i \<Longrightarrow> store_ok (put_stored i s st)"
  by (induction i s st rule: put_stored.induct) (auto simp: put_stored_keys)

lemma map_of_put_stored: "map_of (put_stored i s st) j = (if i = j then Some s else map_of st j)"
  by (induction i s st rule: put_stored.induct) auto

definition restore :: "(jstr \<Rightarrow> jstr) \<Rightarrow> scheme option \<Rightarrow> scheme \<Rightarrow> scheme" where
  "restore base64 kept s = (case kept of None \<Rightarrow> s | Some t \<Rightarrow> applyApiKey base64 [] (sc_password t) (sc_value t) s)"

lemma restore_None [simp]: "map_option (restore base64 None) x = x"
  by (cases x) (simp_all add: restore_def)

lemma fold_restore:
  assumes "store_ok st"
  shows "find_scheme i (schemes (fold (\<lambda>(k, s). setApiKey base64 (securitySchemeId s) [] (sc_password s) (sc_value s)) st a)) =
    map_option (restore base64 (map_of st i)) (find_scheme i (schemes a))"
  using assms
proof (induction st arbitrary: a)
  case Nil
  then show ?case by simp
next
  case (Cons e st)
  obtain k s where e: "e = (k, s)" by (cases e)
  with Cons.prems have k: "k \<notin> fst ` set st" "securitySchemeId s = k" "store_ok st" by auto
  have "map_of st k = None" using k(1) by (simp add: map_of_eq_None_iff)
  then show ?case using Cons.IH [OF k(3)] k(2) e
    by (auto simp: restore_def option.map_comp comp_def)
qed

lemma fold_restore_other [simp]:
  "stored (fold (\<lambda>(k, s). setApiKey base64 (securitySchemeId s) [] (sc_password s) (sc_value s)) st a) = stored a"
  "persistAuth (fold (\<lambda>(k, s). setApiKey base64 (securitySchemeId s) [] (sc_password s) (sc_value s)) st a) = persistAuth a"
  by (induction st arbitrary: a) auto

lemma render_other [simp]: "stored (render base64 a) = stored a" "persistAuth (render base64 a) = persistAuth a"
  by (simp_all add: render_def recoverPersistedApiKeys_def)

lemma find_render:
  "store_ok (stored a) \<Longrightarrow> find_scheme i (schemes (render base64 a)) =
    map_option (restore base64 (if persistAuth a then map_of (stored a) i else None)) (find_scheme i (schemes a))"
  by (simp add: render_def recoverPersistedApiKeys_def fold_restore)

lemma find_resolved: "find_scheme i (resolve_schemes spec) = map_option (\<lambda>r. resolve_scheme (i, r)) (map_of spec i)"
  by (induction spec) (auto simp: resolve_schemes_def resolve_scheme_def Let_def raw_scheme.defs)

lemma resolve_scheme_fields [simp]:
  "securitySchemeId (resolve_scheme (i, r)) = i" "finalKeyValue (resolve_scheme (i, r)) = []"
  "sc_value (resolve_scheme (i, r)) = []" "rw_type (resolve_scheme (i, r)) = rw_type r"
  "rw_scheme (resolve_scheme (i, r)) = rw_scheme r"
  by (simp_all add: resolve_scheme_def Let_def raw_scheme.defs)


lemma applyApiKey_fields [simp]:
  "securitySchemeId (applyApiKey base64 u p k s) = securitySchemeId s" "rw_type (applyApiKey base64 u p k s) = rw_type s"
  "rw_scheme (applyApiKey base64 u p k s) = rw_scheme s"
  by (simp_all add: applyApiKey_def)

lemma stored_onApiKeyChange:
  "store_ok (stored a) \<Longrightarrow> store_ok (stored (onApiKeyChange base64 i u p k a))"
  by (auto simp: onApiKeyChange_def Let_def split: option.split dest!: find_schemeD intro!: put_stored_ok)

lemma stored_removeApiKey: "store_ok (stored a) \<Longrightarrow> store_ok (stored (removeApiKey i a))"
  by (auto simp: removeApiKey_def Let_def store_ok_def list_all_iff distinct_map_filter)

lemma store_ok_step: "store_ok (stored a) \<Longrightarrow> store_ok (stored (auth_step base64 e a))"
  by (cases e) (simp_all add: stored_onApiKeyChange stored_removeApiKey clearAllApiKeys_def setOAuthToken_def)

lemma store_ok_run: "store_ok (stored a) \<Longrightarrow> store_ok (stored (auth_run base64 es a))"
  unfolding auth_run_def by (induction es arbitrary: a) (simp_all add: store_ok_step)

text \<open>The set button on a scheme that is not HTTP basic.\<close>

definition key_prefix :: "scheme \<Rightarrow> jstr" where
  "key_prefix s = (if is_scheme ''bearer'' s then js ''Bearer '' else [])"

lemma apply_key: "\<not> is_scheme ''basic'' s \<Longrightarrow> k \<noteq> [] \<Longrightarrow>
    applyApiKey base64 u p k s = s\<lparr>sc_value := k, finalKeyValue := key_prefix s @ k\<rparr>"
  by (simp add: applyApiKey_def key_prefix_def)

lemma set_key_stored:
  assumes "persistAuth a" "find_scheme i (schemes a) = Some s" "rw_type s \<noteq> []" "\<not> is_scheme ''basic'' s" "trim k \<noteq> []"
  shows "stored (onApiKeyChange base64 i u p k a) =
    put_stored i (s\<lparr>sc_value := trim k, finalKeyValue := key_prefix s @ trim k\<rparr>) (stored a)"
  using assms by (simp add: onApiKeyChange_def is_http_basic_def apply_key)

lemma is_scheme_update [simp]:
  "is_scheme w (s\<lparr>sc_value := v\<rparr>) = is_scheme w s" "is_scheme w (s\<lparr>finalKeyValue := f\<rparr>) = is_scheme w s"
  "key_prefix (s\<lparr>sc_value := v\<rparr>) = key_prefix s" "key_prefix (s\<lparr>finalKeyValue := f\<rparr>) = key_prefix s"
  by (simp_all add: is_scheme_def key_prefix_def)

lemma restore_basic: "is_scheme ''basic'' t \<Longrightarrow> restore base64 kept t = t"
  by (simp add: restore_def applyApiKey_def split: option.split)

lemma find_reload:
  assumes "store_ok (stored a)"
  shows "find_scheme i (schemes (auth_step base64 (Reload spec) a)) =
    map_option (\<lambda>r. restore base64 (if persistAuth a then map_of (stored a) i else None) (resolve_scheme (i, r))) (map_of spec i)"
  using assms by (simp add: find_render find_resolved option.map_comp comp_def)

section \<open>Properties\<close>

text \<open>
  A key set with \<open>persist-auth\<close> survives a reload: for a scheme that is not HTTP basic, setting a key that
  is not blank and loading the specification again gives the same trimmed key, with the bearer prefix exactly for a
  bearer scheme, whatever other keys are stored; and removing it deletes the stored copy, so that the
  scheme has no key after a reload.
\<close>

theorem persisted_key_roundtrip:
  assumes "persistAuth a" "store_ok (stored a)" "find_scheme i (schemes a) = Some s" "rw_type s \<noteq> []"
    and "\<not> is_scheme ''basic'' s" "trim k \<noteq> []" "map_of spec i = Some r" "rw_scheme r = rw_scheme s"
  shows "map_option finalKeyValue (find_scheme i (schemes (auth_run base64 [Set_key i u p k, Reload spec] a))) =
      Some (key_prefix s @ trim k) \<and>
    map_option finalKeyValue (find_scheme i (schemes (auth_run base64 [Set_key i u p k, Remove_key i, Reload spec] a))) = Some []"
proof -
  let ?a = "auth_step base64 (Set_key i u p k) a"
  let ?b = "auth_step base64 (Remove_key i) ?a"
  have st: "store_ok (stored ?a)" "store_ok (stored ?b)" using store_ok_step assms(2) by blast+
  have pa: "persistAuth ?a" "persistAuth ?b"
    using assms(1) by (simp_all add: onApiKeyChange_def removeApiKey_def Let_def split: option.split)
  have "map_of (stored ?a) i = Some (s\<lparr>sc_value := trim k, finalKeyValue := key_prefix s @ trim k\<rparr>)"
    using set_key_stored [OF assms(1,3,4,5,6)] by (simp add: map_of_put_stored)
  moreover have "\<not> is_scheme ''basic'' (resolve_scheme (i, r))" "key_prefix (resolve_scheme (i, r)) = key_prefix s"
    using assms(5,8) by (simp_all add: is_scheme_def key_prefix_def)
  ultimately have one: "map_option finalKeyValue (find_scheme i (schemes (auth_step base64 (Reload spec) ?a))) =
      Some (key_prefix s @ trim k)"
    using find_reload [OF st(1), of i base64 spec] pa(1) assms(6,7) by (simp add: restore_def apply_key)
  have "stored ?b = filter (\<lambda>(k, s). k \<noteq> i) (stored ?a)" using pa(1) by (simp add: removeApiKey_def)
  then have "map_of (stored ?b) i = None" by (auto simp: map_of_eq_None_iff)
  then have "map_option finalKeyValue (find_scheme i (schemes (auth_step base64 (Reload spec) ?b))) = Some []"
    using find_reload [OF st(2), of i base64 spec] pa(2) assms(7) by (simp add: restore_def)
  with one show ?thesis by (simp add: auth_run_def)
qed

text \<open>A specification with one API key, one bearer and one basic scheme.\<close>

definition demo_raw :: "string \<Rightarrow> string option \<Rightarrow> raw_scheme" where
  "demo_raw ty sc = \<lparr>rw_type = js ty, rw_scheme = map_option js sc, rw_name = Some (js ''X-Key''), rw_in = Some (js ''header''),
     rw_description = [], rw_flows = [], rw_client_id = None, rw_client_secret = None, rw_default_scopes = None,
     rw_receive_in = None, rw_receive_options = None\<rparr>"

definition demo_spec :: "(jstr \<times> raw_scheme) list" where
  "demo_spec = [(js ''key'', demo_raw ''apiKey'' None), (js ''jwt'', demo_raw ''http'' (Some ''bearer'')),
     (js ''login'', demo_raw ''http'' (Some ''basic''))]"

definition demo_auth :: "bool \<Rightarrow> auth" where
  "demo_auth persist = \<lparr>schemes = resolve_schemes demo_spec, stored = [], persistAuth = persist\<rparr>"

lemma demo_find:
  "find_scheme (js ''jwt'') (schemes (demo_auth b)) = Some (resolve_scheme (js ''jwt'', demo_raw ''http'' (Some ''bearer'')))"
  "find_scheme (js ''login'') (schemes (demo_auth b)) = Some (resolve_scheme (js ''login'', demo_raw ''http'' (Some ''basic'')))"
  by (simp_all add: demo_auth_def demo_spec_def resolve_schemes_def)

lemma demo_kinds:
  "\<not> is_scheme ''basic'' (resolve_scheme (i, demo_raw ''http'' (Some ''bearer'')))"
  "is_scheme ''bearer'' (resolve_scheme (i, demo_raw ''http'' (Some ''bearer'')))"
  "is_scheme ''basic'' (resolve_scheme (i, demo_raw ''http'' (Some ''basic'')))"
  by (simp_all add: is_scheme_def demo_raw_def) (code_simp+)

theorem persisted_key_roundtrip_witness:
  "map_option finalKeyValue (find_scheme (js ''jwt'') (schemes (auth_run id
     [Set_key (js ''jwt'') [] [] (js ''tok''), Reload demo_spec] (demo_auth True)))) = Some (js ''Bearer tok'')"
proof -
  have "trim (js ''tok'') = js ''tok''" by code_simp
  with persisted_key_roundtrip [of "demo_auth True" "js ''jwt''" _ "js ''tok''" demo_spec "demo_raw ''http'' (Some ''bearer'')" id "[]" "[]", OF _ _ demo_find(1)]
    demo_kinds(1,2) show ?thesis
    by (simp add: demo_auth_def demo_spec_def demo_raw_def key_prefix_def) (simp add: js_def)
qed

text \<open>
  With \<open>persist-auth\<close>, CLEAR ALL API KEYS does nothing to a stored key: the operation clears the
  schemes but not the store, and the rendering it asks for restores every stored key at once. Without it the
  operation clears every scheme.
\<close>

theorem clear_all_keeps_stored_keys:
  assumes "store_ok (stored a)" "map_of (stored a) i = Some t" "sc_value t \<noteq> []"
    and "find_scheme i (schemes a) = Some s" "\<not> is_scheme ''basic'' s"
  shows "(persistAuth a \<longrightarrow>
      map_option finalKeyValue (find_scheme i (schemes (auth_step base64 Clear_all a))) = Some (key_prefix s @ sc_value t)) \<and>
    (\<not> persistAuth a \<longrightarrow> list_all (\<lambda>s. finalKeyValue s = []) (schemes (auth_step base64 Clear_all a)))"
proof (intro conjI impI)
  assume "persistAuth a"
  have "\<not> is_scheme ''basic'' (clear_scheme s)" "key_prefix (clear_scheme s) = key_prefix s"
    using assms(5) by (simp_all add: is_scheme_def key_prefix_def clear_scheme_def)
  then show "map_option finalKeyValue (find_scheme i (schemes (auth_step base64 Clear_all a))) = Some (key_prefix s @ sc_value t)"
    using assms \<open>persistAuth a\<close>
    by (simp add: clearAllApiKeys_def find_render find_map_scheme restore_def apply_key)
next
  assume "\<not> persistAuth a"
  then show "list_all (\<lambda>s. finalKeyValue s = []) (schemes (auth_step base64 Clear_all a))"
    by (simp add: clearAllApiKeys_def render_def clear_scheme_def list_all_iff)
qed


theorem clear_all_keeps_stored_keys_witness:
  "map_option finalKeyValue (find_scheme (js ''jwt'') (schemes (auth_step id Clear_all ((demo_auth True)\<lparr>stored :=
     [(js ''jwt'', (resolve_scheme (js ''jwt'', demo_raw ''http'' (Some ''bearer'')))\<lparr>sc_value := js ''tok''\<rparr>)]\<rparr>)))) =
   Some (js ''Bearer '' @ js ''tok'')"
  using clear_all_keeps_stored_keys [of "(demo_auth True)\<lparr>stored :=
      [(js ''jwt'', (resolve_scheme (js ''jwt'', demo_raw ''http'' (Some ''bearer'')))\<lparr>sc_value := js ''tok''\<rparr>)]\<rparr>"
      "js ''jwt''" "(resolve_scheme (js ''jwt'', demo_raw ''http'' (Some ''bearer'')))\<lparr>sc_value := js ''tok''\<rparr>"
      "resolve_scheme (js ''jwt'', demo_raw ''http'' (Some ''bearer''))" id] demo_find(1) [of True] demo_kinds
  by (simp add: key_prefix_def) (simp add: demo_auth_def)

text \<open>
  HTTP basic credentials are never restored: the stored scheme has no \<open>username\<close>, which is what restoring reads, so after
  setting a user and password with \<open>persist-auth\<close> the header is right until the page is reloaded and gone
  afterwards.
\<close>

theorem basic_credentials_are_lost:
  assumes "persistAuth a" "store_ok (stored a)" "find_scheme i (schemes a) = Some s" "is_http_basic s" "trim u \<noteq> []"
    and "map_of spec i = Some r" "rw_scheme r = rw_scheme s"
  shows "map_option finalKeyValue (find_scheme i (schemes (auth_step base64 (Set_key i u p k) a))) =
      Some (js ''Basic '' @ base64 (trim u @ js '':'' @ trim p)) \<and>
    map_option finalKeyValue (find_scheme i (schemes (auth_run base64 [Set_key i u p k, Reload spec] a))) = Some []"
proof -
  let ?a = "auth_step base64 (Set_key i u p k) a"
  have basic: "rw_type s \<noteq> []" "is_scheme ''basic'' s" using assms(4) by (simp_all add: is_http_basic_def)
  then have rbasic: "is_scheme ''basic'' (resolve_scheme (i, r))" using assms(7) by (simp add: is_scheme_def)
  have st: "store_ok (stored (onApiKeyChange base64 i u p k a))" using stored_onApiKeyChange [OF assms(2)] .
  have new: "find_scheme i (schemes (onApiKeyChange base64 i u p k a)) = Some (applyApiKey base64 (trim u) (trim p) [] s)"
    using assms(1,3,4) basic by (simp add: onApiKeyChange_def)
  have "is_scheme ''basic'' (applyApiKey base64 (trim u) (trim p) [] s)" using basic(2) by (simp add: is_scheme_def)
  then have "find_scheme i (schemes ?a) = Some (applyApiKey base64 (trim u) (trim p) [] s)"
    using new find_render [OF st, of i base64] by (simp add: restore_basic)
  then have "map_option finalKeyValue (find_scheme i (schemes ?a)) = Some (js ''Basic '' @ base64 (trim u @ js '':'' @ trim p))"
    using basic(2) assms(5) by (simp add: applyApiKey_def)
  moreover have "map_option finalKeyValue (find_scheme i (schemes (auth_step base64 (Reload spec) ?a))) = Some []"
    using find_reload [OF store_ok_step [OF assms(2)], of i base64 spec base64 "Set_key i u p k"] assms(6)
    by (simp add: restore_basic [OF rbasic])
  ultimately show ?thesis by (simp add: auth_run_def)
qed

theorem basic_credentials_are_lost_witness:
  "map_option finalKeyValue (find_scheme (js ''login'') (schemes (auth_run id
     [Set_key (js ''login'') (js ''me'') (js ''pw'') [], Reload demo_spec] (demo_auth True)))) = Some []"
proof -
  have "trim (js ''me'') = js ''me''" by code_simp
  moreover have "is_http_basic (resolve_scheme (js ''login'', demo_raw ''http'' (Some ''basic'')))"
    by (simp add: is_http_basic_def demo_kinds) (simp add: demo_raw_def)
  ultimately show ?thesis
    using basic_credentials_are_lost [of "demo_auth True" "js ''login''", OF _ _ demo_find(2), of "js ''me''" demo_spec
        "demo_raw ''http'' (Some ''basic'')" id "js ''pw''" "[]"]
    by (simp add: demo_auth_def demo_spec_def)
qed

subsection \<open>What an applied key looks like\<close>

definition key_ok :: "(jstr \<Rightarrow> jstr) \<Rightarrow> scheme \<Rightarrow> bool" where
  "key_ok base64 s \<longleftrightarrow> finalKeyValue s = [] \<or> rw_type s = js ''oauth2'' \<or>
     (if is_scheme ''basic'' s then \<exists>u p. u \<noteq> [] \<and> finalKeyValue s = js ''Basic '' @ base64 (u @ js '':'' @ p)
      else sc_value s \<noteq> [] \<and> finalKeyValue s = key_prefix s @ sc_value s)"

lemma key_ok_apply: "key_ok base64 s \<Longrightarrow> key_ok base64 (applyApiKey base64 u p k s)"
  by (auto simp: key_ok_def applyApiKey_def key_prefix_def)

lemma key_ok_clear: "key_ok base64 (clear_scheme s)"
  by (simp add: key_ok_def clear_scheme_def)

lemma key_ok_resolved: "list_all (key_ok base64) (resolve_schemes spec)"
  by (auto simp: list_all_iff resolve_schemes_def key_ok_def)

lemma upd_scheme_all:
  "list_all P ss \<Longrightarrow> (\<And>s. P s \<Longrightarrow> P (f s)) \<Longrightarrow> list_all P (upd_scheme i f ss)"
  by (induction ss) auto

lemma key_ok_set: "list_all (key_ok base64) (schemes a) \<Longrightarrow> list_all (key_ok base64) (schemes (setApiKey base64 i u p k a))"
  by (simp add: setApiKey_def upd_scheme_all key_ok_apply)

lemma key_ok_render: "list_all (key_ok base64) (schemes a) \<Longrightarrow> list_all (key_ok base64) (schemes (render base64 a))"
proof -
  have "list_all (key_ok base64) (schemes a) \<Longrightarrow> list_all (key_ok base64)
      (schemes (fold (\<lambda>(k, s). setApiKey base64 (securitySchemeId s) [] (sc_password s) (sc_value s)) st a))"
    for st :: "(jstr \<times> scheme) list"
    by (induction st arbitrary: a) (auto simp: key_ok_set)
  then show "list_all (key_ok base64) (schemes a) \<Longrightarrow> list_all (key_ok base64) (schemes (render base64 a))"
    by (simp add: render_def recoverPersistedApiKeys_def)
qed

text \<open>A token arrives for an OAuth scheme: the button that asks for it stands in such a scheme's row.\<close>

definition token_for_oauth :: "auth_event \<Rightarrow> auth \<Rightarrow> bool" where
  "token_for_oauth e a = (case e of
     Token i t ty \<Rightarrow> (case find_scheme i (schemes a) of None \<Rightarrow> True | Some s \<Rightarrow> rw_type s = js ''oauth2'') | _ \<Rightarrow> True)"

lemma token_key_ok:
  "(case find_scheme i ss of None \<Rightarrow> True | Some s \<Rightarrow> rw_type s = js ''oauth2'') \<Longrightarrow> list_all (key_ok base64) ss \<Longrightarrow>
    list_all (key_ok base64) (upd_scheme i (\<lambda>s. s\<lparr>finalKeyValue := v\<rparr>) ss)"
  by (induction ss) (auto simp: key_ok_def split: if_splits)

lemma key_ok_step:
  assumes "list_all (key_ok base64) (schemes a)" "token_for_oauth e a"
  shows "list_all (key_ok base64) (schemes (auth_step base64 e a))"
proof (cases e)
  case (Set_key i u p k)
  have "list_all (key_ok base64) (schemes (onApiKeyChange base64 i u p k a))"
    using assms(1) by (simp add: onApiKeyChange_def Let_def key_ok_set split: option.split)
  then show ?thesis using Set_key by (simp add: key_ok_render)
next
  case (Remove_key i)
  have "list_all (key_ok base64) (upd_scheme i clear_scheme (schemes a))"
    using assms(1) by (rule upd_scheme_all) (simp add: key_ok_clear)
  then show ?thesis using Remove_key by (simp add: key_ok_render removeApiKey_def Let_def)
next
  case Clear_all
  have "list_all (key_ok base64) (map clear_scheme (schemes a))" by (simp add: key_ok_clear list_all_iff)
  then show ?thesis using Clear_all by (simp add: key_ok_render clearAllApiKeys_def)
next
  case (Token i t ty)
  then show ?thesis using assms token_key_ok [of i "schemes a"]
    by (simp add: key_ok_render setOAuthToken_def token_for_oauth_def)
next
  case (Reload spec)
  then show ?thesis by (simp add: key_ok_render key_ok_resolved)
qed

fun tokens_ok :: "(jstr \<Rightarrow> jstr) \<Rightarrow> auth_event list \<Rightarrow> auth \<Rightarrow> bool" where
  "tokens_ok base64 [] a = True"
| "tokens_ok base64 (e # es) a = (token_for_oauth e a \<and> tokens_ok base64 es (auth_step base64 e a))"

text \<open>
  In every state the section can reach, each scheme that is not an OAuth scheme has either no key, or the
  value of its \<open>Authorization\<close> header or parameter in the right form: \<open>Basic\<close> and the encoded credentials with a
  user name for HTTP basic, \<open>Bearer\<close> and the entered token for HTTP bearer, the entered key itself
  otherwise; whatever sequence of setting, removing, clearing, OAuth tokens and reloads led there, with or without stored keys.
\<close>

theorem applied_keys_are_wellformed:
  assumes "tokens_ok base64 es (opened base64 persist kept spec)"
  shows "list_all (key_ok base64) (schemes (auth_run base64 es (opened base64 persist kept spec)))"
proof -
  have "list_all (key_ok base64) (schemes a) \<Longrightarrow> tokens_ok base64 es a \<Longrightarrow>
      list_all (key_ok base64) (schemes (auth_run base64 es a))" for a
    unfolding auth_run_def by (induction es arbitrary: a) (auto simp: key_ok_step)
  then show ?thesis using assms by (simp add: opened_def key_ok_render key_ok_resolved)
qed

theorem applied_keys_are_wellformed_witness:
  "list_all (key_ok id) (schemes (auth_run id [Set_key (js ''jwt'') [] [] (js ''tok''), Clear_all] (opened id True [] demo_spec)))"
  by (rule applied_keys_are_wellformed) (simp add: token_for_oauth_def)


subsection \<open>The templates and the operations\<close>

definition key_row :: "scheme \<Rightarrow> bool" where
  "key_row e \<longleftrightarrow> toLowerCase (rw_type e) = js ''apikey'' \<or> toLowerCase (rw_type e) = js ''http'' \<and> is_scheme ''bearer'' e"

definition basic_row :: "scheme \<Rightarrow> bool" where
  "basic_row e \<longleftrightarrow> toLowerCase (rw_type e) = js ''http'' \<and> is_scheme ''basic'' e"

lemma actions_url_line [simp]: "all_actions (url_line l u) = []"
  by (simp add: url_line_def)

lemma actions_scope_box [simp]: "actions (scope_box sid f ds e num) = []"
  by (simp add: scope_box_def split: prod.split)

lemma concat_Nil_map: "concat (map (\<lambda>x. []) xs) = []"
  by (induction xs) auto

lemma actions_flow:
  "actions (oAuthFlowTemplate num origin f cid secret sid fl ds si os) =
    show_if (standard_flow f) [OnGetToken sid f (full_url origin (authorizationUrl fl)) (full_url origin (tokenUrl fl))]"
  by (cases "scopes fl")
    (simp_all add: oAuthFlowTemplate_def Let_def password_fields_def secret_fields_def comp_def concat_Nil_map)

lemma actions_row:
  "all_actions (scheme_rows num origin e) =
    show_if (finalKeyValue e \<noteq> []) [OnRemove (securitySchemeId e)] @
    show_if (key_row e \<and> sc_in e \<noteq> js ''cookie'') [OnApply (securitySchemeId e)] @
    show_if (basic_row e) [OnApply (securitySchemeId e)] @
    show_if (toLowerCase (rw_type e) = js ''oauth2'') (all_actions (scheme_flows num origin e))"
  by (simp add: scheme_rows_def key_fields_def basic_fields_def key_row_def basic_row_def show_if_def)

lemma actions_flows_token:
  "OnRemove i \<notin> set (all_actions (scheme_flows num origin e))" "OnApply i \<notin> set (all_actions (scheme_flows num origin e))"
  "OnClearAll \<notin> set (all_actions (scheme_flows num origin e))"
  unfolding scheme_flows_def by (auto simp: all_actions_def actions_flow set_show_if split: if_splits)

lemma actions_section:
  "set (actions (securitySchemeTemplate num origin rs ss)) =
    (if \<exists>s \<in> set ss. finalKeyValue s \<noteq> [] then {OnClearAll} else {}) \<union>
    (\<Union>s \<in> {s \<in> set ss. rw_type s \<noteq> []}. set (all_actions (scheme_rows num origin s)))"
  by (auto simp: securitySchemeTemplate_def Let_def set_show_if filter_empty_conv)

text \<open>
  The buttons of the authentication section are the operations that make sense: a REMOVE button for
  exactly the schemes that have a key, a CLEAR ALL button exactly when some scheme has one, a SET button for exactly the
  API key, bearer and basic schemes whose key does not travel in a cookie, or is a basic one.
\<close>

theorem auth_buttons_match_state:
  "(OnRemove i \<in> set (actions (securitySchemeTemplate num origin style ss)) \<longleftrightarrow>
      (\<exists>s \<in> set ss. rw_type s \<noteq> [] \<and> securitySchemeId s = i \<and> finalKeyValue s \<noteq> [])) \<and>
   (OnClearAll \<in> set (actions (securitySchemeTemplate num origin style ss)) \<longleftrightarrow> (\<exists>s \<in> set ss. finalKeyValue s \<noteq> [])) \<and>
   (OnApply i \<in> set (actions (securitySchemeTemplate num origin style ss)) \<longleftrightarrow>
      (\<exists>s \<in> set ss. rw_type s \<noteq> [] \<and> securitySchemeId s = i \<and> (key_row s \<and> sc_in s \<noteq> js ''cookie'' \<or> basic_row s)))"
  unfolding actions_section actions_row
  using actions_flows_token by (auto simp: set_show_if)

subsection \<open>Secrets are masked\<close>

definition secret_field :: "'a html \<Rightarrow> bool" where
  "secret_field n \<longleftrightarrow> attr_of ''placeholder'' n \<in> set (map (\<lambda>p. Some (js p)) [''password'', ''client-secret''])"

definition masked :: "'a html \<Rightarrow> bool" where
  "masked n \<longleftrightarrow> \<not> secret_field n \<or> attr_of ''type'' n = Some (js ''password'')"

lemma masked_text [simp]: "masked (Txt s)" "masked (Md s)"
  by (simp_all add: masked_def secret_field_def)

lemma masked_El: "masked (El t as hs ks) \<longleftrightarrow> map_of as ''placeholder'' \<notin> {Some (js ''password''), Some (js ''client-secret'')} \<or>
    map_of as ''type'' = Some (js ''password'')"
  by (auto simp: masked_def secret_field_def)

lemma masked_flow: "list_all masked (nodes (oAuthFlowTemplate num origin f cid secret sid fl ds si os))"
proof -
  have box: "list_all masked (nodes (scope_box sid f ds e num))" for e
    by (cases e) (simp add: scope_box_def masked_El show_if_def)
  have url: "list_all masked (all_nodes (url_line l u))" for l u
    by (simp add: url_line_def masked_El)
  have pw: "list_all masked (all_nodes (password_fields f sid))"
    by (simp add: password_fields_def masked_El)
  have sec: "list_all masked (all_nodes (secret_fields f secret sid (fl_pkce_only fl) si os))"
    by (simp add: secret_fields_def masked_El show_if_def)
  show ?thesis using box url pw sec
    by (cases "scopes fl") (simp_all add: oAuthFlowTemplate_def Let_def masked_El comp_def, simp_all add: show_if_def list_all_iff)
qed

lemma masked_rows: "list_all masked (all_nodes (scheme_rows num origin e))"
proof -
  have "list_all masked (all_nodes (scheme_flows num origin e))"
    unfolding scheme_flows_def by (simp add: masked_flow case_prod_beta list.pred_True)
  moreover have "list_all masked (all_nodes (key_fields e))" by (simp add: key_fields_def masked_El)
  moreover have "list_all masked (all_nodes (basic_fields e))" by (simp add: basic_fields_def masked_El)
  ultimately show ?thesis by (simp add: scheme_rows_def masked_El)
qed

text \<open>
  Every field of the authentication section for a password or a client secret is a password field, in
  each flow of each scheme and whatever state the keys are in.
\<close>

theorem secrets_are_masked:
  "list_all (\<lambda>n. attr_of ''type'' n = Some (js ''password''))
     (filter secret_field (nodes (securitySchemeTemplate num origin style ss)))"
proof -
  have "list_all masked (all_nodes (concat (map (scheme_rows num origin) xs)))" for xs
    by (induction xs) (simp_all add: masked_rows)
  then have "list_all masked (nodes (securitySchemeTemplate num origin style ss))"
    by (simp add: securitySchemeTemplate_def Let_def masked_El)
  then show ?thesis by (auto simp: list_all_iff masked_def)
qed

text \<open>
  Where the token request carries the client secret. For every grant but the authorization code the
  choice is respected: in the header when the header is chosen, in the body otherwise, never in both. For the authorization code
  it is always in the body, so with the header chosen it is sent twice; and the code verifier that goes with the code
  is the same constant in every request, whether or not a challenge was sent.
\<close>

theorem client_secret_placement:
  "(grant = js ''authorization_code'' \<or>
      ((''client_secret'', secret) \<in> set (tr_params (fetchAccessToken b64 cid secret redirect grant code send_in scope user pw)))
        = (send_in \<noteq> js ''header'')) \<and>
   (tr_authorization (fetchAccessToken b64 cid secret redirect grant code send_in scope user pw) \<noteq> None) = (send_in = js ''header'') \<and>
   (let t = fetchAccessToken b64 cid secret redirect (js ''authorization_code'') (c # code) (js ''header'') scope user pw
    in (''client_secret'', secret) \<in> set (tr_params t) \<and>
       tr_authorization t = Some (js ''Basic '' @ b64 (cid @ js '':'' @ secret)) \<and>
       (''code_verifier'', codeVerifier) \<in> set (tr_params t))"
  by (auto simp: fetchAccessToken_def set_show_if)


subsection \<open>The badge\<close>

abbreviation tooltips :: "auth_act html list \<Rightarrow> auth_act html list" where
  "tooltips \<equiv> with_attr ''class'' (js ''tooltip'')"

lemma tooltips_scopes [simp]: "tooltips (scopes_block sc) = []"
proof -
  have "tooltips (concat (map (\<lambda>(n, x). [Txt (if n = 0 then [] else [0x2503]), el ''span'' [] [Txt x]]) xs)) = []"
    for xs :: "(nat \<times> jstr) list"
    by (induction xs) auto
  then show ?thesis by (simp add: scopes_block_def)
qed

lemma tooltips_def_block [simp]: "tooltips (def_block num n d # ks) = tooltips ks"
  by (simp add: def_block_def split: prod.split)

lemma tooltips_defs [simp]: "tooltips (map (def_block num n) xs) = []"
  by (induction xs) simp_all

lemma tooltips_alternative: "length (tooltips (alternative num linked (n, label, ds))) = (if label \<noteq> [] then 1 else 0)"
  by (simp add: alternative_def show_if_def)

definition known_requirement :: "scheme list \<Rightarrow> requirement \<Rightarrow> bool" where
  "known_requirement ss req \<longleftrightarrow> req = [] \<or> list_ex (\<lambda>(k, sc). find_scheme k ss \<noteq> None) req"

lemma requirement_defs_Nil: "requirement_defs ss req = [] \<longleftrightarrow> \<not> list_ex (\<lambda>(k, sc). find_scheme k ss \<noteq> None) req"
  by (induction req) (auto simp: requirement_defs_def split: option.splits)

lemma requirement_defs_from: "(s, sc) \<in> set (requirement_defs ss req) \<Longrightarrow> s \<in> set ss"
  by (auto simp: requirement_defs_def dest: find_schemeD find_schemeD [OF sym] split: option.splits)

lemma label_shown:
  assumes "list_all (\<lambda>s. typeDisplay s \<noteq> []) ss"
  shows "fst (requirement_label num ss req) \<noteq> [] \<longleftrightarrow> known_requirement ss req"
proof (cases "requirement_defs ss req")
  case Nil
  then show ?thesis using requirement_defs_Nil [of ss req] by (auto simp: requirement_label_def known_requirement_def)
next
  case (Cons d ds)
  then have "typeDisplay (fst d) \<noteq> []" using requirement_defs_from [of "fst d" "snd d" ss req] assms by (auto simp: list_all_iff)
  with Cons requirement_defs_Nil [of ss req] show ?thesis
    by (auto simp: requirement_label_def known_requirement_def Let_def split: list.split)
qed

text \<open>
  The security badge of an operation shows one entry for each of its alternatives that is empty or names a scheme the
  specification defines, and none for an alternative all of whose schemes are unknown.
\<close>

theorem badge_shows_known_alternatives:
  assumes "list_all (\<lambda>s. typeDisplay s \<noteq> []) ss"
  shows "length (tooltips (pathSecurityTemplate num linked ss (Some reqs))) = length (filter (known_requirement ss) reqs)"
proof -
  have "length (tooltips (concat (map (\<lambda>(n, req). alternative num linked (n, requirement_label num ss req)) (zip [m..<m + length reqs] reqs))))
      = length (filter (known_requirement ss) reqs)" for m
  proof (induction reqs arbitrary: m)
    case (Cons req reqs)
    have "length (tooltips (alternative num linked (m, requirement_label num ss req))) = (if known_requirement ss req then 1 else 0)"
      using tooltips_alternative [of num linked m "fst (requirement_label num ss req)" "snd (requirement_label num ss req)"]
        label_shown [OF assms, of num req] by simp
    moreover have "[m..<m + length (req # reqs)] = m # [Suc m..<Suc m + length reqs]" by (simp add: upt_rec)
    ultimately show ?case using Cons.IH [of "Suc m"] by simp
  qed simp
  from this [of 0] show ?thesis by (simp add: pathSecurityTemplate_def)
qed

theorem badge_shows_known_alternatives_witness:
  "length (tooltips (pathSecurityTemplate (\<lambda>n. []) False (resolve_schemes demo_spec) (Some [[(js ''jwt'', None)], [(js ''gone'', None)], []]))) = 2"
proof -
  have "list_all (\<lambda>s. typeDisplay s \<noteq> []) (resolve_schemes demo_spec)" by code_simp
  moreover have "filter (known_requirement (resolve_schemes demo_spec)) [[(js ''jwt'', None)], [(js ''gone'', None)], []] = [[(js ''jwt'', None)], []]"
    by (simp add: known_requirement_def find_resolved demo_spec_def)
  ultimately show ?thesis
    using badge_shows_known_alternatives [of "resolve_schemes demo_spec" "\<lambda>n. []" False "[[(js ''jwt'', None)], [(js ''gone'', None)], []]"]
    by simp
qed

end
