(* ===== verification/Json_Tree.thy ===== *)
theory Json_Tree
  imports Html
begin

text \<open>
  JSON values and the \<open>json-tree\<close> component of the API reference (\<open>docs/ui/assets/rapidoc-min.js\<close>), which
  shows an example or a response: \<open>generateTree\<close> and \<open>toggleExpand\<close>. A number is the text it is printed
  as; the fields of an object are in the order of \<open>Object.keys\<close>.
\<close>

section \<open>Definitions\<close>

datatype json =
    JNull
  | JBool bool
  | JNum jstr
  | JStr jstr
  | JArr "json list"
  | JObj "(jstr \<times> json) list"

datatype tree_act = CopyJson | ToggleExpand

definition comma :: "bool \<Rightarrow> 'a html list" where
  "comma last_one = show_if (\<not> last_one) [lit '','']"

definition quoted :: "jstr \<Rightarrow> jstr" where
  "quoted s = js [CHR 0x22] @ s @ js [CHR 0x22]"

definition bool_text :: "bool \<Rightarrow> jstr" where
  "bool_text b = js (if b then ''true'' else ''false'')"

definition bracketed :: "string \<Rightarrow> string \<Rightarrow> string \<Rightarrow> bool \<Rightarrow> 'a html list \<Rightarrow> 'a html list" where
  "bracketed kind opening closing last_one items =
     [el ''div'' [(''class'', js ''open-bracket expanded '' @ js kind)] [lit opening],
      el ''div'' [cls ''inside-bracket''] items,
      el ''div'' [cls ''close-bracket''] [lit closing, Txt (js (if last_one then '''' else '',''))]]"

fun generateTree :: "json \<Rightarrow> bool \<Rightarrow> tree_act html list"
  and arr_items :: "json list \<Rightarrow> tree_act html list"
  and obj_items :: "(jstr \<times> json) list \<Rightarrow> tree_act html list" where
  "generateTree JNull t = [el ''span'' [cls ''null''] [lit ''null'']] @ comma t"
| "generateTree (JArr vs) t = (if vs = [] then [lit ''[ ],''] else bracketed ''array'' ''['' '']'' t (arr_items vs))"
| "generateTree (JObj kvs) t = (if kvs = [] then [lit ''{ },''] else bracketed ''object'' ''{'' ''}'' t (obj_items kvs))"
| "generateTree (JStr s) t = [el ''span'' [cls ''string''] [Txt (quoted s)]] @ comma t"
| "generateTree (JNum n) t = [el ''span'' [cls ''number''] [Txt n]] @ comma t"
| "generateTree (JBool b) t = [el ''span'' [cls ''boolean''] [Txt (bool_text b)]] @ comma t"
| "arr_items [] = []"
| "arr_items (v # vs) = el ''div'' [cls ''item''] (generateTree v (vs = [])) # arr_items vs"
| "obj_items [] = []"
| "obj_items ((k, v) # kvs) =
     el ''div'' [cls ''item''] (Txt (quoted k @ js '':'') # generateTree v (kvs = [])) # obj_items kvs"

definition json_tree :: "json \<Rightarrow> tree_act html" where
  "json_tree data =
     El ''div'' [cls ''json-tree''] [(''click'', ToggleExpand)]
       (El ''div'' [cls ''toolbar''] [] [El ''button'' [cls ''toolbar-btn btn-copy''] [(''click'', CopyJson)] [lit '' Copy '']]
        # generateTree data True)"

subsection \<open>Collapsing\<close>

text \<open>The clicked element: its classes and its text.\<close>

record bracket =
  br_classes :: "jstr list"
  br_text :: jstr

definition cl_replace :: "jstr \<Rightarrow> jstr \<Rightarrow> jstr list \<Rightarrow> jstr list" where
  "cl_replace old new cs = map (\<lambda>c. if c = old then new else c) cs"

definition toggleExpand :: "bracket \<Rightarrow> bracket" where
  "toggleExpand b =
     (if js ''open-bracket'' \<notin> set (br_classes b) then b
      else
        let arr = js ''array'' \<in> set (br_classes b)
        in if js ''expanded'' \<in> set (br_classes b)
           then \<lparr>br_classes = cl_replace (js ''expanded'') (js ''collapsed'') (br_classes b),
                 br_text = js (if arr then ''[...]'' else ''{...}'')\<rparr>
           else \<lparr>br_classes = cl_replace (js ''collapsed'') (js ''expanded'') (br_classes b),
                 br_text = js (if arr then ''['' else ''{'')\<rparr>)"

fun bracket_of :: "'a html \<Rightarrow> bracket option" where
  "bracket_of (El t as hs [Txt s]) =
     (case map_of as ''class'' of
        None \<Rightarrow> None
      | Some c \<Rightarrow> if js ''open-bracket'' \<in> set (split_on 32 c) then Some \<lparr>br_classes = split_on 32 c, br_text = s\<rparr> else None)"
| "bracket_of _ = None"

section \<open>Reference: JSON text\<close>

fun json_text :: "json \<Rightarrow> jstr" and arr_text :: "json list \<Rightarrow> jstr" and obj_text :: "(jstr \<times> json) list \<Rightarrow> jstr" where
  "json_text JNull = js ''null''"
| "json_text (JBool b) = bool_text b"
| "json_text (JNum n) = n"
| "json_text (JStr s) = quoted s"
| "json_text (JArr vs) = js ''['' @ arr_text vs @ js '']''"
| "json_text (JObj kvs) = js ''{'' @ obj_text kvs @ js ''}''"
| "arr_text [] = []"
| "arr_text [v] = json_text v"
| "arr_text (v # w # vs) = json_text v @ js '','' @ arr_text (w # vs)"
| "obj_text [] = []"
| "obj_text [(k, v)] = quoted k @ js '':'' @ json_text v"
| "obj_text ((k, v) # e # kvs) = quoted k @ js '':'' @ json_text v @ js '','' @ obj_text (e # kvs)"

fun no_empty :: "json \<Rightarrow> bool" where
  "no_empty (JArr vs) \<longleftrightarrow> vs \<noteq> [] \<and> list_all no_empty vs"
| "no_empty (JObj kvs) \<longleftrightarrow> kvs \<noteq> [] \<and> list_all no_empty (map snd kvs)"
| "no_empty _ \<longleftrightarrow> True"

section \<open>Lemmas\<close>

lemma text_comma [simp]: "all_text (comma t) = (if t then [] else js '','')"
  by (simp add: comma_def show_if_def)

lemma tree_text:
  "no_empty v \<Longrightarrow> all_text (generateTree v t) = json_text v @ (if t then [] else js '','')"
  "list_all no_empty vs \<Longrightarrow> all_text (arr_items vs) = arr_text vs"
  "list_all no_empty (map snd kvs) \<Longrightarrow> all_text (obj_items kvs) = obj_text kvs"
proof (induction v t and vs and kvs rule: generateTree_arr_items_obj_items.induct)
  case (8 v vs)
  then show ?case by (cases vs) auto
next
  case (10 k v kvs)
  then show ?case by (cases kvs) auto
qed (auto simp: bracketed_def)

lemma cl_replace_back:
  "a \<notin> set cs \<Longrightarrow> cl_replace a b (cl_replace b a cs) = cs"
  by (induction cs) (auto simp: cl_replace_def)

lemma set_cl_replace: "c \<in> set (cl_replace a b cs) \<longleftrightarrow> c = b \<and> a \<in> set cs \<or> c \<noteq> a \<and> c \<in> set cs"
  by (induction cs) (auto simp: cl_replace_def)

text \<open>What the tree generates as an opening bracket.\<close>

definition generated_bracket :: "bracket \<Rightarrow> bool" where
  "generated_bracket b \<longleftrightarrow>
     b = \<lparr>br_classes = map js [''open-bracket'', ''expanded'', ''array''], br_text = js ''[''\<rparr> \<or>
     b = \<lparr>br_classes = map js [''open-bracket'', ''expanded'', ''object''], br_text = js ''{''\<rparr>"

lemma split_classes:
  "split_on 32 (js ''open-bracket expanded '' @ js ''array'') = map js [''open-bracket'', ''expanded'', ''array'']"
  "split_on 32 (js ''open-bracket expanded '' @ js ''object'') = map js [''open-bracket'', ''expanded'', ''object'']"
  by code_simp+

definition good_node :: "'a html \<Rightarrow> bool" where
  "good_node n \<longleftrightarrow> (case bracket_of n of None \<Rightarrow> True | Some b \<Rightarrow> generated_bracket b)"

lemma no_bracket_classes:
  "list_all (\<lambda>c. js ''open-bracket'' \<notin> set (split_on 32 (js c)))
     [''null'', ''string'', ''number'', ''boolean'', ''item'', ''inside-bracket'', ''close-bracket'', ''toolbar'', ''json-tree'', ''toolbar-btn btn-copy'']"
  by code_simp

lemma good_other:
  "js ''open-bracket'' \<notin> set (split_on 32 c) \<Longrightarrow> good_node (El t [(''class'', c)] hs ks)"
proof -
  assume "js ''open-bracket'' \<notin> set (split_on 32 c)"
  then have "bracket_of (El t [(''class'', c)] hs ks) = None"
    by (cases "El t [(''class'', c)] hs ks" rule: bracket_of.cases) auto
  then show ?thesis by (simp add: good_node_def)
qed

lemma good_simple [simp]:
  "good_node (Txt s)" "good_node (El t [cls ''null''] hs ks)" "good_node (El t [cls ''string''] hs ks)"
  "good_node (El t [cls ''number''] hs ks)" "good_node (El t [cls ''boolean''] hs ks)" "good_node (El t [cls ''item''] hs ks)"
  "good_node (El t [cls ''inside-bracket''] hs ks)" "good_node (El t [cls ''close-bracket''] hs ks)"
  "good_node (El t [cls ''toolbar''] hs ks)" "good_node (El t [cls ''json-tree''] hs ks)"
  "good_node (El t [cls ''toolbar-btn btn-copy''] hs ks)"
  using no_bracket_classes by (auto intro!: good_other) (simp add: good_node_def)

lemma good_open [simp]:
  "good_node (El t [(''class'', js ''open-bracket expanded '' @ js ''array'')] hs [lit ''['' ])"
  "good_node (El t [(''class'', js ''open-bracket expanded '' @ js ''object'')] hs [lit ''{''])"
  by (simp_all add: good_node_def split_classes generated_bracket_def)

lemma tree_brackets:
  "list_all good_node (all_nodes (generateTree v t))"
  "list_all good_node (all_nodes (arr_items vs))"
  "list_all good_node (all_nodes (obj_items kvs))"
  by (induction v t and vs and kvs rule: generateTree_arr_items_obj_items.induct)
    (auto simp: bracketed_def comma_def)

section \<open>Properties\<close>

text \<open>
  For a value without empty arrays and objects, the text the tree shows is the JSON text of the value:
  elements and fields separated by commas with none after the last one, although the code writes
  a comma behind an element instead of between two.
\<close>

theorem json_tree_shows_json:
  assumes "no_empty v"
  shows "all_text (generateTree v True) = json_text v"
  using tree_text(1) [OF assms, of True] by simp

theorem json_tree_shows_json_witness:
  "all_text (generateTree (JObj [(js ''a'', JArr [JNum (js ''1''), JNull])]) True) =
   json_text (JObj [(js ''a'', JArr [JNum (js ''1''), JNull])])"
  by (rule json_tree_shows_json) simp

text \<open>
  An empty array or object is always followed by a comma, also where it is the last element: the tree then
  shows a text that is not JSON.
\<close>

theorem empty_value_gets_a_comma:
  "all_text (generateTree (JArr []) True) = js ''[ ],'' \<and>
   all_text (generateTree (JObj [(k, JArr [])]) True) = js ''{'' @ quoted k @ js '':[ ],}'' \<and>
   all_text (generateTree (JArr [JObj []]) t) = js ''[{ },]'' @ (if t then [] else js '','')"
  by (simp add: bracketed_def js_def)

text \<open>
  Every opening bracket the tree generates can be collapsed and opened again: a click on it shows the
  collapsed form and changes its class, and a second click gives back exactly the element that was
  generated.
\<close>

theorem toggle_is_reversible:
  "list_all (\<lambda>n. case bracket_of n of None \<Rightarrow> True
     | Some b \<Rightarrow> toggleExpand (toggleExpand b) = b \<and> js ''collapsed'' \<in> set (br_classes (toggleExpand b)) \<and>
         br_text (toggleExpand b) \<in> {js ''[...]'', js ''{...}''})
     (nodes (json_tree v))"
proof -
  have "toggleExpand (toggleExpand b) = b \<and> js ''collapsed'' \<in> set (br_classes (toggleExpand b)) \<and>
      br_text (toggleExpand b) \<in> {js ''[...]'', js ''{...}''}" if "generated_bracket b" for b
    using that by (auto simp: generated_bracket_def toggleExpand_def cl_replace_def)
  moreover have "list_all good_node (nodes (json_tree v))"
    by (simp add: json_tree_def tree_brackets)
  ultimately show ?thesis by (auto simp: list_all_iff good_node_def split: option.splits)
qed

end
