(* ===== verification/Schema_View.thy ===== *)
theory Schema_View
  imports Json_Tree
begin

text \<open>
  The two views of a schema in the API reference (\<open>docs/ui/assets/rapidoc-min.js\<close>): the \<open>schema-tree\<close> and the
  \<open>schema-table\<close> components, each a recursive \<open>generateTree\<close> over the schema in object notation. There an
  object has its fields beside entries such as \<open>::type\<close>, \<open>::props\<close> and \<open>::readwrite\<close>, and a primitive is one text with
  nine parts. The argument of \<open>generateTree\<close> that only computes indentation is left out. The code throws on a field
  that is undefined; the model reads such a field as one without a type, and \<open>viewable\<close> in \<open>Schema_Notation\<close> says
  which values have none.
\<close>

section \<open>Schemas in object notation\<close>

record schema_cfg =
  schemaHideReadOnly :: bool
  schemaHideWriteOnly :: bool
  schemaExpandLevel :: nat
  schemaDescriptionExpanded :: bool
  allowSchemaDescriptionExpandToggle :: bool
  num_text :: "nat \<Rightarrow> jstr"        \<comment> \<open>how an index is printed\<close>

datatype schema_act = AllEvents

definition bar :: jstr where "bar = [0x2503]"
definition ro_mark :: jstr where "ro_mark = [0xD83C, 0xDD81]"
definition wo_mark :: jstr where "wo_mark = [0xD83C, 0xDD86]"
definition arrow :: jstr where "arrow = [0x2794]"

fun entry :: "string \<Rightarrow> json \<Rightarrow> json option" where
  "entry k (JObj kvs) = map_of kvs (js k)"
| "entry k _ = None"

definition text_entry :: "string \<Rightarrow> json \<Rightarrow> jstr" where
  \<comment> \<open>a text entry; undefined is the empty text\<close>
  "text_entry k v = (case entry k v of Some (JStr s) \<Rightarrow> s | _ \<Rightarrow> [])"

fun is_truthy :: "json option \<Rightarrow> bool" where
  "is_truthy None = False"
| "is_truthy (Some JNull) = False"
| "is_truthy (Some (JBool b)) = b"
| "is_truthy (Some (JNum n)) = (n \<noteq> js ''0'')"
| "is_truthy (Some (JStr s)) = (s \<noteq> [])"
| "is_truthy (Some v) = True"

fun no_keys :: "json \<Rightarrow> bool" where
  "no_keys (JObj kvs) = (kvs = [])"
| "no_keys (JArr vs) = (vs = [])"
| "no_keys (JStr s) = (s = [])"
| "no_keys _ = True"

fun entries :: "schema_cfg \<Rightarrow> json \<Rightarrow> (jstr \<times> json) list" where
  "entries c (JObj kvs) = kvs"
| "entries c (JArr vs) = zip (map (num_text c) [0..<length vs]) vs"
| "entries c _ = []"

fun first_item :: "json \<Rightarrow> json option" where
  "first_item (JArr (v # vs)) = (if is_truthy (Some v) then Some v else None)"
| "first_item _ = None"

definition special_keys :: "jstr list" where
  "special_keys = map js [''::title'', ''::description'', ''::type'', ''::props'', ''::deprecated'', ''::array-type'',
     ''::readwrite'', ''::dataTypeLabel'', ''::nullable'']"

definition container :: "json \<Rightarrow> bool" where
  "container v \<longleftrightarrow> text_entry ''::type'' v \<in> {js ''array'', js ''object''}"

definition child :: "json \<Rightarrow> json option" where
  "child v = (if text_entry ''::type'' v = js ''array'' then entry ''::props'' v else Some v)"

definition child_type :: "json \<Rightarrow> jstr" where
  "child_type v = (if text_entry ''::type'' v = [] then js ''object'' else text_entry ''::type'' v)"

definition deprecated :: "json \<Rightarrow> bool" where
  "deprecated v = is_truthy (entry ''::deprecated'' v)"

definition replace_first :: "jstr \<Rightarrow> jstr \<Rightarrow> jstr \<Rightarrow> jstr" where
  "replace_first x y s = (case find_sub s x of None \<Rightarrow> s | Some n \<Rightarrow> take n s @ y @ drop (n + length x) s)"

definition part :: "jstr list \<Rightarrow> nat \<Rightarrow> jstr" where
  "part xs n = or_empty (nth_opt xs n)"

text \<open>The label and the description that a key stands for.\<close>

definition one_of_key :: "jstr \<Rightarrow> bool" where
  "one_of_key s \<longleftrightarrow> startsWith s (js ''::ONE~OF'') \<or> startsWith s (js ''::ANY~OF'')"

definition option_key :: "jstr \<Rightarrow> bool" where
  "option_key s \<longleftrightarrow> startsWith s (js ''::OPTION'')"

definition key_label :: "jstr \<Rightarrow> jstr" where
  "key_label s =
     (if one_of_key s then replace_first (js ''~'') (js '' '') (replace_first (js ''::'') [] s)
      else if option_key s then part (split_on 126 s) 1 else s)"

definition key_descr :: "jstr \<Rightarrow> jstr" where
  "key_descr s = (if \<not> one_of_key s \<and> option_key s then part (split_on 126 s) 2 else [])"

text \<open>The parts of a primitive, which are separated by \<open>~|~\<close>.\<close>

function split_parts :: "jstr \<Rightarrow> jstr list" where
  "split_parts s = (case find_sub s (js ''~|~'') of None \<Rightarrow> [s] | Some n \<Rightarrow> take n s # split_parts (drop (n + 3) s))"
  by pat_completeness auto
termination
proof (relation "measure length")
  fix s n assume "find_sub s (js ''~|~'') = Some n"
  then have "s \<noteq> []" by (cases s) auto
  then show "(drop (n + 3) s, s) \<in> measure length" by simp
qed simp

declare split_parts.simps [simp del]

record primitive =
  p_type :: jstr
  p_readwrite :: jstr
  p_constraint :: jstr
  p_default :: jstr
  p_allowed :: jstr
  p_pattern :: jstr
  p_description :: jstr
  p_title :: jstr
  p_deprecated :: jstr

definition primitive_of :: "jstr \<Rightarrow> primitive" where
  "primitive_of s = (let ps = split_parts s in
     \<lparr>p_type = part ps 0, p_readwrite = part ps 1, p_constraint = part ps 2, p_default = part ps 3, p_allowed = part ps 4,
      p_pattern = part ps 5, p_description = part ps 6, p_title = part ps 7, p_deprecated = part ps 8\<rparr>)"

definition type_color :: "jstr \<Rightarrow> jstr" where
  "type_color v = toLowerCase (take 4 (filter (\<lambda>c. is_word c \<and> c \<noteq> 95 \<or> c = 43) (takeWhile (\<lambda>c. c \<noteq> 0x2503) v)))"

definition hidden :: "schema_cfg \<Rightarrow> json option \<Rightarrow> jstr \<Rightarrow> jstr \<Rightarrow> bool" where
  "hidden c e t a \<longleftrightarrow>
     (let rw = (case e of None \<Rightarrow> [] | Some v \<Rightarrow> text_entry ''::readwrite'' v) in
      schemaHideReadOnly c \<and> (t = js ''array'' \<and> a = js ''readonly'' \<or> rw = js ''readonly'') \<or>
      schemaHideWriteOnly c \<and> (t = js ''array'' \<and> a = js ''writeonly'' \<or> rw = js ''writeonly''))"

definition hidden_primitive :: "schema_cfg \<Rightarrow> primitive \<Rightarrow> bool" where
  "hidden_primitive c p \<longleftrightarrow> p_readwrite p = ro_mark \<and> schemaHideReadOnly c \<or> p_readwrite p = wo_mark \<and> schemaHideWriteOnly c"

definition null_box :: "jstr \<Rightarrow> jstr \<Rightarrow> schema_act html list" where
  "null_box s t =
     [el ''div'' [cls ''null'']
        [el ''span'' [cls ''key-label xxx-of-key''] [Txt (replace_first (js ''::OPTION~'') [] s)],
         el ''span'' [cls ''mono-font''] [lit (if t = js ''array'' then '' [ ] '' else if t = js ''object'' then '' { } '' else '' schema undefined '')]]]"

definition access_title :: "jstr \<Rightarrow> jstr" where
  "access_title a = (if a = js ''readonly'' then js ''Read-Only'' else if a = js ''writeonly'' then js ''Write-Only'' else [])"

definition deprecated_title :: "bool \<Rightarrow> jstr" where
  "deprecated_title b = (if b then js ''Deprecated'' else [])"

definition starred :: "jstr \<Rightarrow> bool" where
  "starred p = endsWith p (js ''*'')"

definition detail :: "string \<Rightarrow> jstr \<Rightarrow> schema_act html list" where
  "detail label x = show_if (x \<noteq> []) [el ''div'' [] [el ''span'' [cls ''bold-text''] [lit label], Txt x]]"

definition descr_markdown :: "jstr \<Rightarrow> jstr \<Rightarrow> jstr \<Rightarrow> primitive \<Rightarrow> jstr" where
  "descr_markdown j t n p =
     (if t = js ''array'' then j @ js '' '' @ n
      else if p_title p \<noteq> [] then j @ js '' <b>'' @ p_title p @ js '':</b> '' @ p_description p
      else j @ js '' '' @ p_description p)"

definition has_details :: "primitive \<Rightarrow> bool" where
  "has_details p \<longleftrightarrow> p_constraint p \<noteq> [] \<or> p_default p \<noteq> [] \<or> p_allowed p \<noteq> [] \<or> p_pattern p \<noteq> []"

definition details :: "primitive \<Rightarrow> schema_act html list" where
  "details p = detail ''Constraints: '' (p_constraint p) @ detail ''Default: '' (p_default p) @
     detail (if p_type p = js ''const'' then ''Value: '' else ''Allowed: '') (p_allowed p) @ detail ''Pattern: '' (p_pattern p)"

definition xxx_of :: "json \<Rightarrow> bool" where
  "xxx_of v \<longleftrightarrow> startsWith (text_entry ''::type'' v) (js ''xxx-of'')"

definition level_below :: "json \<Rightarrow> nat \<Rightarrow> nat" where
  "level_below v i = (if xxx_of v then i else i + 1)"

definition option_label :: "json \<Rightarrow> jstr \<Rightarrow> bool" where
  "option_label v s \<longleftrightarrow> text_entry ''::type'' v \<in> {js ''xxx-of-option'', js ''xxx-of-array''} \<or> option_key s"


section \<open>The tree\<close>

definition open_bracket :: "schema_cfg \<Rightarrow> json \<Rightarrow> jstr \<Rightarrow> jstr \<Rightarrow> nat \<Rightarrow> schema_act html list" where
  "open_bracket c v t r i =
     (let exp = i < schemaExpandLevel c; nul = (if is_truthy (entry ''::nullable'' v) then js ''null'' @ bar else []) in
      if text_entry ''::type'' v = js ''object'' then
        (if t = js ''array''
         then [el ''span'' [cls ''open-bracket array-of-object''] [lit (if exp then ''[{'' else ''[{...}]'')]]
         else [el ''span'' [cls ''open-bracket object''] [Txt (nul @ js (if exp then ''{'' else ''{...}''))]])
      else if text_entry ''::type'' v = js ''array'' then
        (if t = js ''array''
         then (let at = (if r \<noteq> js ''object'' then r else [])
               in [el ''span'' [cls ''open-bracket array-of-array'', (''data-array-type'', at)]
                     [Txt (if exp then js ''[[ '' @ at @ js '' '' else js ''[[...]]'')]])
         else [el ''span'' [cls ''open-bracket array''] [lit (if exp then ''['' else ''[...]'')]])
      else [])"

definition close_text :: "json \<Rightarrow> jstr \<Rightarrow> string" where
  "close_text v t =
     (if text_entry ''::type'' v = js ''object'' then (if t = js ''array'' then ''}]'' else ''}'')
      else if text_entry ''::type'' v = js ''array'' then (if t = js ''array'' then '']]'' else '']'') else [])"

definition tree_key :: "json \<Rightarrow> jstr \<Rightarrow> nat \<Rightarrow> jstr \<Rightarrow> schema_act html list" where
  "tree_key v s i a =
     (let p = key_label s in
      if option_label v s
      then [el ''span'' [cls ''key-label xxx-of-key''] [Txt p], el ''span'' [cls ''xxx-of-descr''] [Txt (key_descr s)]]
      else if p = js ''::props'' \<or> p = js ''::ARRAY~OF'' then []
      else show_if (i > 0)
        [el ''span'' [cls ''key-label'', (''title'', access_title a)]
           ([Txt (if starred p then take (length p - 1) p else p)] @ show_if (starred p) [el ''span'' [] [lit ''*'']] @
            [Txt (if a = js ''readonly'' then js '' '' @ ro_mark else if a = js ''writeonly'' then js '' '' @ wo_mark else a), lit '':''])])"

definition tree_object :: "schema_cfg \<Rightarrow> json \<Rightarrow> jstr \<Rightarrow> jstr \<Rightarrow> jstr \<Rightarrow> jstr \<Rightarrow> nat \<Rightarrow> jstr \<Rightarrow> bool \<Rightarrow>
    schema_act html list \<Rightarrow> schema_act html list" where
  "tree_object c v t r s n i a l kids =
     (let ty = text_entry ''::type'' v; tyc = (if ty = [] then js ''no-type-info'' else ty) in
      [el ''div'' [(''class'', js ''tr '' @ js (if i < schemaExpandLevel c \<or> xxx_of v then ''expanded'' else ''collapsed'') @ js '' '' @ tyc @
             (if is_truthy (entry ''::nullable'' v) then js '' nullable'' else [])),
           (''title'', deprecated_title (l \<or> deprecated v))]
         [el ''div'' [(''class'', js ''td key '' @ js (if l \<or> deprecated v then ''deprecated'' else []))]
            (tree_key v s i a @ open_bracket c v t r i),
          el ''div'' [cls ''td key-descr m-markdown-small''] [Md n]],
       el ''div'' [(''class'', js ''inside-bracket '' @ tyc)] kids] @
      show_if (\<not> (ty \<noteq> [] \<and> occurs (js ''xxx-of'') ty)) [el ''div'' [cls ''close-bracket''] [lit (close_text v t)]])"

definition quote_mark :: string where "quote_mark = [CHR 0x22]"

definition tree_primitive :: "schema_cfg \<Rightarrow> primitive \<Rightarrow> jstr \<Rightarrow> jstr \<Rightarrow> jstr \<Rightarrow> jstr \<Rightarrow> bool \<Rightarrow> schema_act html list" where
  "tree_primitive c p t s n a l =
     (let lab = key_label s;
          mark = (if t = js ''array'' then (if a = js ''readonly'' then ro_mark else if a = js ''writeonly'' then wo_mark else [])
                  else if p_readwrite p = ro_mark \<or> p_readwrite p = wo_mark then p_readwrite p else []);
          title = (if t = js ''array'' then access_title a
                   else if p_readwrite p = ro_mark then js ''Read-Only'' else if p_readwrite p = wo_mark then js ''Write-Only'' else []);
          j = (if has_details p
               then js (''<span class='' @ quote_mark @ ''descr-expand-toggle '') @
                    js (if schemaDescriptionExpanded c then ''expanded-descr'' else []) @ js (quote_mark @ ''>'') @ arrow @ js ''</span>''
               else [])
      in [el ''div'' [cls ''tr primitive'', (''title'', deprecated_title (p_deprecated p \<noteq> []))]
            [el ''div'' [(''class'', js ''td key '' @ (if l then js ''true'' else p_deprecated p))]
               ((if starred lab
                 then [el ''span'' [cls ''key-label''] [Txt (take (length lab - 1) lab)], el ''span'' [] [lit ''*''], lit '':'']
                 else if option_key s
                 then [el ''span'' [cls ''key-label xxx-of-key''] [Txt lab], el ''span'' [cls ''xxx-of-descr''] [Txt (key_descr s)]]
                 else [el ''span'' [cls ''key-label''] [Txt (lab @ js '':'')]]) @
                [el ''span'' [(''class'', type_color (p_type p)), (''title'', title)]
                   [Txt (if t = js ''array'' then js ''['' @ p_type p @ js '']'' else p_type p), Txt mark]]),
             el ''div'' [cls ''td key-descr'']
               (show_if (n \<noteq> [] \<or> p_title p \<noteq> [] \<or> p_description p \<noteq> [])
                  [el ''span'' [cls ''m-markdown-small''] [Md (descr_markdown j t n p)]] @
                details p)]])"

function schema_tree :: "schema_cfg \<Rightarrow> json option \<Rightarrow> jstr \<Rightarrow> jstr \<Rightarrow> jstr \<Rightarrow> jstr \<Rightarrow> nat \<Rightarrow> jstr \<Rightarrow> bool \<Rightarrow> schema_act html list" where
  \<comment> \<open>\<open>generateTree(data, type, arrayType, key, description, level, access, deprecated)\<close>\<close>
  "schema_tree c e t r s n i a l =
     (if hidden c e t a then []
      else case e of
        None \<Rightarrow> null_box s t
      | Some v \<Rightarrow>
          if \<not> is_truthy (Some v) then null_box s t
          else if no_keys v then [el ''span'' [cls ''key object''] [Txt (s @ js '':{ }'')]]
          else (case v of
            JStr str \<Rightarrow>
              (let p = primitive_of str in if hidden_primitive c p then [] else tree_primitive c p t s n a l)
          | _ \<Rightarrow> tree_object c v t r s n i a l
              (case first_item v of
                 Some x \<Rightarrow> schema_tree c (Some x) (js ''xxx-of-option'') [] (js ''::ARRAY~OF'') [] (level_below v i)
                   (text_entry ''::readwrite'' x) (l \<or> deprecated x)
               | None \<Rightarrow> concat (map (\<lambda>(k, w).
                   if k \<in> set special_keys \<and> \<not> container w then []
                   else schema_tree c (child w) (child_type w) (text_entry ''::array-type'' w) k (text_entry ''::description'' w)
                     (level_below v i) (text_entry ''::readwrite'' w) (l \<or> deprecated w)) (entries c v)))))"
  by pat_completeness auto

lemma size_entry: "(k, w) \<in> set kvs \<Longrightarrow> size w < size (JObj kvs)"
  by (induction kvs) auto

lemma size_entries: "(k, w) \<in> set (entries c v) \<Longrightarrow> size w < size v"
proof (cases v)
  case (JArr vs)
  assume "(k, w) \<in> set (entries c v)"
  then have "w \<in> set vs" using JArr by (auto dest: set_zip_rightD)
  then show ?thesis unfolding JArr by (induction vs) auto
next
  case (JObj kvs)
  assume "(k, w) \<in> set (entries c v)"
  then show ?thesis using size_entry [of k w kvs] JObj by simp
qed simp_all

lemma size_first: "first_item v = Some x \<Longrightarrow> size x < size v"
  by (cases v rule: first_item.cases) (auto split: if_splits)

definition size_opt :: "json option \<Rightarrow> nat" where
  "size_opt e = (case e of None \<Rightarrow> 0 | Some v \<Rightarrow> Suc (size v))"

lemma size_child: "size_opt (child w) \<le> Suc (size w)"
proof (cases "entry ''::props'' w")
  case (Some x)
  then have "size x < size w" using size_entry by (cases w) (auto dest!: map_of_SomeD)
  then show ?thesis using Some by (simp add: child_def size_opt_def)
qed (simp add: child_def size_opt_def)

lemma size_child_arr: "(k, w) \<in> set (zip ks vs) \<Longrightarrow> size_opt (child w) \<le> Suc (size_list size vs)"
proof -
  assume "(k, w) \<in> set (zip ks vs)"
  then have "w \<in> set vs" by (rule set_zip_rightD)
  then have "size w \<le> size_list size vs" by (induction vs) auto
  then show ?thesis using size_child [of w] by simp
qed

lemma size_child_obj:
  fixes k :: jstr
  shows "(k, w) \<in> set kvs \<Longrightarrow> size_opt (child w) \<le> Suc (size_list (size_prod (\<lambda>x. 0) size) kvs)"
  using size_entry [of k w kvs] size_child [of w] by simp

lemmas schema_termination = size_opt_def [of "Some _"] less_Suc_eq_le

termination schema_tree
  by (relation "measure (\<lambda>(c, e, _). size_opt e)")
    (auto simp: schema_termination dest!: size_first intro: size_child_arr size_child_obj)

declare schema_tree.simps [simp del]

definition toolbar :: "schema_cfg \<Rightarrow> json option \<Rightarrow> schema_act html list" where
  "toolbar c data =
     (let ty = (case data of None \<Rightarrow> [] | Some v \<Rightarrow> text_entry ''::type'' v);
          descr = (case data of None \<Rightarrow> [] | Some v \<Rightarrow> text_entry ''::description'' v)
      in [el ''div'' [cls ''toolbar'']
            ([el ''div'' [(''class'', js ''toolbar-item schema-root-type '' @ ty @ js '' '')] [Txt ty]] @
             show_if (allowSchemaDescriptionExpandToggle c)
               [el ''div'' [cls ''toolbar-item schema-multiline-toggle'']
                  [lit (if schemaDescriptionExpanded c then ''Single line description'' else ''Multiline description'')]]),
          el ''span'' [cls ''m-markdown''] [Md descr]])"

definition root_class :: "string \<Rightarrow> schema_cfg \<Rightarrow> string \<times> jstr" where
  "root_class w c = (''class'', js w @ js (if schemaDescriptionExpanded c then '' expanded-all-descr'' else '' collapsed-all-descr''))"

definition schema_tree_view :: "schema_cfg \<Rightarrow> json option \<Rightarrow> schema_act html" where
  "schema_tree_view c data =
     El ''div'' [root_class ''tree'' c] [(''click'', AllEvents)]
       (toolbar c data @
        (case (if is_truthy data then data else None) of
           Some v \<Rightarrow> schema_tree c (child v) (child_type v) (text_entry ''::array-type'' v) [] [] 0 [] False
         | None \<Rightarrow> [el ''span'' [cls ''mono-font''] [lit '' Schema not found '']]))"

section \<open>The table\<close>

definition table_type :: "json \<Rightarrow> jstr \<Rightarrow> jstr \<Rightarrow> jstr" where
  "table_type v t r =
     (let own = (if text_entry ''::dataTypeLabel'' v \<noteq> [] then text_entry ''::dataTypeLabel'' v else text_entry ''::type'' v) in
      if text_entry ''::type'' v = js ''object'' then (if t = js ''array'' then js ''array of object'' else own)
      else if text_entry ''::type'' v = js ''array''
      then (if t = js ''array'' then js ''array of array '' @ (if r \<noteq> js ''object'' then js ''of '' @ r else []) else own)
      else [])"

definition table_key :: "json \<Rightarrow> jstr \<Rightarrow> jstr \<Rightarrow> schema_act html list" where
  "table_key v t s =
     (let m = key_label s; f = key_descr s in
      (if option_label v s
       then [el ''span'' [cls ''xxx-of-key''] [Txt m], el ''span'' [cls (if one_of_key s then ''xxx-of-key'' else ''xxx-of-descr'')] [Txt f]]
       else if starred m
       then [el ''span'' [cls ''key-label''] [Txt (take (length m - 1) m)], el ''span'' [] [lit ''*'']]
       else [el ''span'' [cls ''key-label''] [Txt (if m = js ''::props'' then [] else m)]]) @
      show_if (text_entry ''::type'' v = js ''xxx-of'' \<and> t = js ''array'') [el ''span'' [] [lit ''ARRAY'']])"

definition table_object :: "schema_cfg \<Rightarrow> json \<Rightarrow> jstr \<Rightarrow> jstr \<Rightarrow> jstr \<Rightarrow> jstr \<Rightarrow> nat \<Rightarrow> bool \<Rightarrow>
    schema_act html list \<Rightarrow> schema_act html list" where
  "table_object c v t r s n i l kids =
     (let u = level_below v i; m = key_label s; f = key_descr s; rw = text_entry ''::readwrite'' v; ty = text_entry ''::type'' v in
      (if s \<noteq> []
       then [el ''div'' [(''class'', js ''tr '' @ js (if u \<le> schemaExpandLevel c then ''expanded'' else ''collapsed'') @ js '' '' @ ty),
               (''data-obj'', m), (''title'', deprecated_title (l \<or> deprecated v))]
               [el ''div'' [(''class'', js ''td key '' @ js (if l \<or> deprecated v then ''deprecated'' else []))]
                  (show_if (m \<noteq> [] \<or> f \<noteq> [])
                     [el ''span'' [(''class'', js ''obj-toggle '' @ js (if u < schemaExpandLevel c then ''expanded'' else ''collapsed'')), (''data-obj'', m)]
                        [lit (if i < schemaExpandLevel c then ''-'' else ''+'')]] @
                   table_key v t s),
                el ''div'' [cls ''td key-type'', (''title'', access_title rw)]
                  [Txt (if occurs (js ''xxx-of'') ty then [] else table_type v t r),
                   Txt (if rw = js ''readonly'' then js '' '' @ ro_mark else if rw = js ''writeonly'' then js '' '' @ wo_mark else [])],
                el ''div'' [cls ''td key-descr m-markdown-small''] [Md n]]]
       else show_if (ty = js ''array'' \<and> t = js ''array'')
         [el ''div'' [cls ''tr'']
            [el ''div'' [cls ''td key''] [], el ''div'' [cls ''td key-type''] [Txt (if r \<noteq> [] \<and> r \<noteq> js ''object'' then t @ js '' of '' @ r else t)],
             el ''div'' [cls ''td key-descr''] []]]) @
      [el ''div'' [cls ''object-body''] kids])"

definition table_primitive :: "primitive \<Rightarrow> jstr \<Rightarrow> jstr \<Rightarrow> jstr \<Rightarrow> jstr \<Rightarrow> bool \<Rightarrow> schema_act html list" where
  "table_primitive p t s n a l =
     (let m = key_label s;
          j = (if has_details p then js (''<span class='' @ quote_mark @ ''descr-expand-toggle'' @ quote_mark @ ''>'') @ arrow @ js ''</span>'' else [])
      in [el ''div'' [cls ''tr primitive'', (''title'', deprecated_title (l \<or> p_deprecated p \<noteq> []))]
            [el ''div'' [(''class'', js ''td key '' @ js (if l \<or> p_deprecated p \<noteq> [] then ''deprecated'' else []))]
               (if starred m
                then [el ''span'' [cls ''key-label''] [Txt (take (length m - 1) m)], el ''span'' [] [lit ''*'']]
                else if option_key s
                then [el ''span'' [cls ''xxx-of-key''] [Txt m], el ''span'' [cls ''xxx-of-descr''] [Txt (key_descr s)]]
                else if m \<noteq> [] then [el ''span'' [cls ''key-label''] [Txt m]] else [el ''span'' [cls ''xxx-of-descr''] [Txt (p_title p)]]),
             (if t = js ''array''
              then el ''div'' [(''class'', js ''td key-type '' @ type_color (p_type p)),
                     (''title'', if a = js ''readonly'' then js ''Read-Only'' else if p_readwrite p = js ''writeonly'' then js ''Write-Only'' else [])]
                     [Txt (js ''['' @ p_type p @ js '']''), Txt (if a = js ''readonly'' then ro_mark else if a = js ''writeonly'' then wo_mark else [])]
              else el ''div'' [(''class'', js ''td key-type '' @ type_color (p_type p)),
                     (''title'', if p_readwrite p = ro_mark then js ''Read-Only'' else if p_readwrite p = wo_mark then js ''Write-Only'' else [])]
                     [Txt (p_type p), Txt (p_readwrite p)]),
             el ''div'' [cls ''td key-descr'']
               ([el ''span'' [cls ''m-markdown-small''] [Md (descr_markdown j t n p)]] @ details p)]])"

function schema_table :: "schema_cfg \<Rightarrow> json option \<Rightarrow> jstr \<Rightarrow> jstr \<Rightarrow> jstr \<Rightarrow> jstr \<Rightarrow> nat \<Rightarrow> jstr \<Rightarrow> bool \<Rightarrow> schema_act html list" where
  "schema_table c e t r s n i a l =
     (if hidden c e t a then []
      else case e of
        None \<Rightarrow> null_box s t
      | Some v \<Rightarrow>
          if \<not> is_truthy (Some v) then null_box s t
          else if no_keys v then [el ''span'' [cls ''td key object''] [Txt s]]
          else (case v of
            JStr str \<Rightarrow>
              (let p = primitive_of str in if hidden_primitive c p then [] else table_primitive p t s n a l)
          | _ \<Rightarrow> table_object c v t r s n i l
              (case first_item v of
                 Some x \<Rightarrow> schema_table c (Some x) (js ''xxx-of-option'') [] (js ''::ARRAY~OF'') [] (level_below v i) [] False
               | None \<Rightarrow> concat (map (\<lambda>(k, w).
                   if k \<in> set special_keys \<and> \<not> container w then []
                   else schema_table c (child w) (child_type w) (text_entry ''::array-type'' w) k (text_entry ''::description'' w)
                     (level_below v i) (text_entry ''::readwrite'' w) (l \<or> deprecated w)) (entries c v)))))"
  by pat_completeness auto
termination schema_table
  by (relation "measure (\<lambda>(c, e, _). size_opt e)")
    (auto simp: schema_termination dest!: size_first intro: size_child_arr size_child_obj)

declare schema_table.simps [simp del]

definition schema_table_view :: "schema_cfg \<Rightarrow> json option \<Rightarrow> schema_act html" where
  "schema_table_view c data =
     El ''div'' [root_class ''table'' c] [(''click'', AllEvents)]
       (toolbar c data @
        [el ''div'' []
           (el ''div'' []
              [el ''div'' [cls ''key''] [lit '' Field ''], el ''div'' [cls ''key-type''] [lit '' Type ''], el ''div'' [cls ''key-descr''] [lit '' Description '']]
            # (case (if is_truthy data then data else None) of
                 Some v \<Rightarrow> schema_table c (child v) (child_type v) (text_entry ''::array-type'' v) [] [] 0 [] False
               | None \<Rightarrow> []))])"

section \<open>Clicks\<close>

text \<open>
  A row and the bracket or sign in it. The tree's \<open>toggleObjectExpand\<close> reads the classes of the bracket and the
  array type kept on it.
\<close>

record row =
  row_classes :: "jstr list"
  sign_classes :: "jstr list"
  sign_array_type :: jstr
  sign_text :: jstr

definition tree_toggle :: "row \<Rightarrow> row" where
  "tree_toggle w =
     (let has = (\<lambda>x. js x \<in> set (sign_classes w)); nul = (if js ''nullable'' \<in> set (row_classes w) then js ''null'' @ bar else []) in
      if js ''expanded'' \<in> set (row_classes w)
      then w\<lparr>row_classes := cl_replace (js ''expanded'') (js ''collapsed'') (row_classes w),
             sign_text := (if has ''array-of-object'' then js ''[{...}]'' else if has ''array-of-array'' then js ''[[...]]''
               else if has ''array'' then js ''[...]'' else nul @ js ''{...}'')\<rparr>
      else w\<lparr>row_classes := cl_replace (js ''collapsed'') (js ''expanded'') (row_classes w),
             sign_text := (if has ''array-of-object'' then js ''[{'' else if has ''array-of-array'' then js ''[[ '' @ sign_array_type w
               else if has ''object'' then nul @ js ''{'' else js ''['')\<rparr>)"

definition table_toggle :: "row \<Rightarrow> row" where
  "table_toggle w =
     (if js ''expanded'' \<in> set (row_classes w)
      then w\<lparr>row_classes := cl_remove (js ''expanded'') (cl_add (js ''collapsed'') (row_classes w)), sign_text := js ''+''\<rparr>
      else w\<lparr>row_classes := cl_add (js ''expanded'') (cl_remove (js ''collapsed'') (row_classes w)), sign_text := js ''-''\<rparr>)"

section \<open>Lemmas\<close>

subsection \<open>Hidden access\<close>

text \<open>A node that does not say it is read-only (write-only) where such fields are to be hidden.\<close>

definition untitled :: "schema_cfg \<Rightarrow> 'a html \<Rightarrow> bool" where
  "untitled c n \<longleftrightarrow> (schemaHideReadOnly c \<longrightarrow> attr_of ''title'' n \<noteq> Some (js ''Read-Only'')) \<and>
     (schemaHideWriteOnly c \<longrightarrow> attr_of ''title'' n \<noteq> Some (js ''Write-Only''))"

definition access_ok :: "json option \<Rightarrow> jstr \<Rightarrow> jstr \<Rightarrow> bool" where
  "access_ok e t a \<longleftrightarrow> a \<notin> {js ''readonly'', js ''writeonly''} \<or> t = js ''array'' \<or>
     (case e of None \<Rightarrow> False | Some v \<Rightarrow> text_entry ''::readwrite'' v = a)"

definition allowed :: "schema_cfg \<Rightarrow> jstr \<Rightarrow> bool" where
  "allowed c a \<longleftrightarrow> (schemaHideReadOnly c \<longrightarrow> a \<noteq> js ''readonly'') \<and> (schemaHideWriteOnly c \<longrightarrow> a \<noteq> js ''writeonly'')"

lemma not_hidden_allowed: "\<not> hidden c e t a \<Longrightarrow> access_ok e t a \<Longrightarrow> allowed c a"
  by (auto simp: hidden_def access_ok_def allowed_def Let_def split: option.splits)

lemma not_hidden_entry: "\<not> hidden c (Some v) t a \<Longrightarrow> allowed c (text_entry ''::readwrite'' v)"
  by (auto simp: hidden_def allowed_def)

lemma access_ok_child: "access_ok (child w) (child_type w) (text_entry ''::readwrite'' w)"
  by (simp add: access_ok_def child_def child_type_def)

lemma access_ok_item: "access_ok (Some x) t (text_entry ''::readwrite'' x)" "access_ok e t []"
  by (simp_all add: access_ok_def)

lemma untitled_simps [simp]:
  "untitled c (Txt s)" "untitled c (Md s)"
  "untitled c (El g [] hs ks)" "untitled c (El g [(''class'', x)] hs ks)"
  "untitled c (El g [(''class'', x), (''title'', deprecated_title b)] hs ks)"
  "untitled c (El g [(''class'', x), (''data-obj'', m), (''title'', deprecated_title b)] hs ks)"
  "untitled c (El g [(''class'', x), (''data-obj'', m)] hs ks)"
  "untitled c (El g [(''class'', x), (''data-array-type'', m)] hs ks)"
  by (auto simp: untitled_def deprecated_title_def)

lemma untitled_access [simp]: "allowed c a \<Longrightarrow> untitled c (El g [(''class'', x), (''title'', access_title a)] hs ks)"
  by (auto simp: untitled_def allowed_def access_title_def)

lemma marks_differ [simp]: "ro_mark \<noteq> wo_mark" "wo_mark \<noteq> ro_mark" "ro_mark \<noteq> []" "wo_mark \<noteq> []"
  by (simp_all add: ro_mark_def wo_mark_def)

lemma untitled_mark [simp]: "\<not> hidden_primitive c p \<Longrightarrow> untitled c (El g [(''class'', x),
    (''title'', if p_readwrite p = ro_mark then js ''Read-Only'' else if p_readwrite p = wo_mark then js ''Write-Only'' else [])] hs ks)"
  by (auto simp: untitled_def hidden_primitive_def)

lemma untitled_parts [simp]:
  "list_all (untitled c) (all_nodes (null_box s t))" "list_all (untitled c) (all_nodes (details p))"
  "list_all (untitled c) (all_nodes (open_bracket d v t r i))" "list_all (untitled c) (all_nodes (toolbar d data))"
  "list_all (untitled c) (all_nodes (table_key v t s))"
  by (simp_all add: null_box_def details_def detail_def open_bracket_def toolbar_def table_key_def Let_def)

lemma untitled_key [simp]: "allowed c a \<Longrightarrow> list_all (untitled c) (all_nodes (tree_key v s i a))"
  by (simp add: tree_key_def Let_def)

lemma untitled_object [simp]:
  "allowed c a \<Longrightarrow> list_all (untitled c) (all_nodes (tree_object c v t r s n i a l kids)) \<longleftrightarrow> list_all (untitled c) (all_nodes kids)"
  by (simp add: tree_object_def Let_def)

lemma untitled_primitive [simp]:
  "allowed c a \<Longrightarrow> \<not> hidden_primitive c p \<Longrightarrow> list_all (untitled c) (all_nodes (tree_primitive c p t s n a l))"
  by (cases "t = js ''array''") (simp_all add: tree_primitive_def Let_def)

lemma untitled_table_object [simp]:
  "allowed c (text_entry ''::readwrite'' v) \<Longrightarrow>
    list_all (untitled c) (all_nodes (table_object d v t r s n i l kids)) \<longleftrightarrow> list_all (untitled c) (all_nodes kids)"
  by (simp add: table_object_def Let_def)

lemma untitled_table_primitive [simp]:
  assumes "allowed c a" "\<not> hidden_primitive c p" "\<not> schemaHideWriteOnly c"
  shows "list_all (untitled c) (all_nodes (table_primitive p t s n a l))"
  using assms by (auto simp: table_primitive_def Let_def untitled_def allowed_def hidden_primitive_def deprecated_title_def
      details_def detail_def)

text \<open>Both views recurse in the same way; a claim on all nodes follows from the claim on smaller schemas.\<close>

lemma concat_kids:
  assumes "\<And>k w. (k, w) \<in> set xs \<Longrightarrow> \<not> Q k w \<Longrightarrow> list_all P (all_nodes (f k w))"
  shows "list_all P (all_nodes (concat (map (\<lambda>(k, w). if Q k w then [] else f k w) xs)))"
  using assms by (induction xs) auto

lemma size_kid: "(k, w) \<in> set (entries c v) \<Longrightarrow> size_opt (child w) < size_opt (Some v)"
  using size_entries [of k w c v] size_child [of w] by (simp add: size_opt_def)

lemma untitled_tree: "access_ok e t a \<Longrightarrow> list_all (untitled c) (all_nodes (schema_tree c e t r s n i a l))"
proof (induction "size_opt e" arbitrary: e t r s n i a l rule: less_induct)
  case less
  have kids: "list_all (untitled c) (all_nodes
      (case first_item v of
         Some x \<Rightarrow> schema_tree c (Some x) (js ''xxx-of-option'') [] (js ''::ARRAY~OF'') [] j (text_entry ''::readwrite'' x) (l \<or> deprecated x)
       | None \<Rightarrow> concat (map (\<lambda>(k, w). if k \<in> set special_keys \<and> \<not> container w then []
           else schema_tree c (child w) (child_type w) (text_entry ''::array-type'' w) k (text_entry ''::description'' w)
             j (text_entry ''::readwrite'' w) (l \<or> deprecated w)) (entries c v))))"
    if "e = Some v" for v j
  proof (cases "first_item v")
    case None
    have "list_all (untitled c) (all_nodes (concat (map (\<lambda>(k, w). if k \<in> set special_keys \<and> \<not> container w then []
           else schema_tree c (child w) (child_type w) (text_entry ''::array-type'' w) k (text_entry ''::description'' w)
             j (text_entry ''::readwrite'' w) (l \<or> deprecated w)) (entries c v))))"
      by (rule concat_kids, rule less.hyps) (simp_all add: that size_kid access_ok_child)
    then show ?thesis by (simp only: None option.case)
  next
    case (Some x)
    then show ?thesis using that less.hyps [of "Some x"] size_first [of v x] access_ok_item(1) by (simp add: size_opt_def)
  qed
  show ?case
  proof (cases e)
    case (Some v)
    then show ?thesis
      using kids [OF Some, of "level_below v i"] not_hidden_allowed [OF _ less.prems, of c]
      unfolding schema_tree.simps [of c e t r s n i a l] by (cases v) (auto simp: Let_def simp del: all_nodes_simps(4) entries.simps)
  qed (simp add: schema_tree.simps [of c None])
qed

lemma untitled_table:
  assumes "schemaHideReadOnly c = schemaHideReadOnly d" "\<not> schemaHideWriteOnly d" "access_ok e t a"
  shows "list_all (untitled d) (all_nodes (schema_table c e t r s n i a l))"
  using assms(3)
proof (induction "size_opt e" arbitrary: e t r s n i a l rule: less_induct)
  case less
  have weaken: "allowed c x \<Longrightarrow> allowed d x" "\<not> hidden_primitive c p \<Longrightarrow> \<not> hidden_primitive d p" for x p
    using assms(1,2) by (auto simp: allowed_def hidden_primitive_def)
  have kids: "list_all (untitled d) (all_nodes
      (case first_item v of
         Some x \<Rightarrow> schema_table c (Some x) (js ''xxx-of-option'') [] (js ''::ARRAY~OF'') [] j [] False
       | None \<Rightarrow> concat (map (\<lambda>(k, w). if k \<in> set special_keys \<and> \<not> container w then []
           else schema_table c (child w) (child_type w) (text_entry ''::array-type'' w) k (text_entry ''::description'' w)
             j (text_entry ''::readwrite'' w) (l \<or> deprecated w)) (entries c v))))"
    if "e = Some v" for v j
  proof (cases "first_item v")
    case None
    have "list_all (untitled d) (all_nodes (concat (map (\<lambda>(k, w). if k \<in> set special_keys \<and> \<not> container w then []
           else schema_table c (child w) (child_type w) (text_entry ''::array-type'' w) k (text_entry ''::description'' w)
             j (text_entry ''::readwrite'' w) (l \<or> deprecated w)) (entries c v))))"
      by (rule concat_kids, rule less.hyps) (simp_all add: that size_kid access_ok_child)
    then show ?thesis by (simp only: None option.case)
  next
    case (Some x)
    then show ?thesis using that less.hyps [of "Some x"] size_first [of v x] access_ok_item(2) by (simp add: size_opt_def)
  qed
  show ?case
  proof (cases e)
    case (Some v)
    then show ?thesis
      using kids [OF Some, of "level_below v i"] weaken(1) [OF not_hidden_allowed [OF _ less.prems, of c]]
        weaken(1) [OF not_hidden_entry [of c v t a]] weaken(2) assms(2)
      unfolding schema_table.simps [of c e t r s n i a l] by (cases v) (auto simp: Let_def simp del: all_nodes_simps(4) entries.simps)
  qed (simp add: schema_table.simps [of c None])
qed

subsection \<open>Rows and their signs\<close>

text \<open>What a click finds in the first row of a rendered object: its classes and its sign.\<close>

fun row_of :: "'a html list \<Rightarrow> row option" where
  "row_of (El d as hs (El d' as' hs' (El sp as'' hs'' [Txt g] # ks) # ks') # ks'') =
     Some \<lparr>row_classes = split_on 32 (or_empty (map_of as ''class'')), sign_classes = split_on 32 (or_empty (map_of as'' ''class'')),
           sign_array_type = [], sign_text = g\<rparr>"
| "row_of _ = None"

definition agrees :: "row \<Rightarrow> bool" where
  "agrees w \<longleftrightarrow> (js ''expanded'' \<in> set (row_classes w) \<longleftrightarrow> sign_text w = js ''-'')"

definition table_row :: "schema_cfg \<Rightarrow> json \<Rightarrow> nat \<Rightarrow> row" where
  "table_row c v i =
     \<lparr>row_classes = split_on 32 (js ''tr '' @ js (if level_below v i \<le> schemaExpandLevel c then ''expanded'' else ''collapsed'') @ js '' '' @
        text_entry ''::type'' v),
      sign_classes = split_on 32 (js ''obj-toggle '' @ js (if level_below v i < schemaExpandLevel c then ''expanded'' else ''collapsed'')),
      sign_array_type = [], sign_text = js (if i < schemaExpandLevel c then ''-'' else ''+'')\<rparr>"

lemma row_of_table_object:
  "s \<noteq> [] \<Longrightarrow> key_label s \<noteq> [] \<Longrightarrow> row_of (table_object c v t r s n i l kids) = Some (table_row c v i)"
  by (simp add: table_object_def table_row_def Let_def or_empty_def)

lemma set_split_word: "set (split_on 32 (js ''tr '' @ x)) = insert (js ''tr'') (set (split_on 32 x))"
  by (simp add: js_def)

lemma table_row_classes:
  assumes "text_entry ''::type'' v \<in> set (map js [[], ''object'', ''array'', ''xxx-of'', ''xxx-of-option'', ''xxx-of-array''])"
  shows "js ''expanded'' \<in> set (row_classes (table_row c v i)) \<longleftrightarrow> level_below v i \<le> schemaExpandLevel c"
  using assms by (cases "level_below v i \<le> schemaExpandLevel c") (auto simp: table_row_def js_def)

lemma table_toggle_agrees [simp]: "agrees (table_toggle w)"
  by (auto simp: agrees_def table_toggle_def cl_add_def cl_remove_def js_def)

section \<open>Properties\<close>


text \<open>
  in the table the row of an object and its sign agree when they are first shown (expanded with a minus, collapsed
  with a plus), except for a \<open>oneOf\<close>/\<open>anyOf\<close> row at exactly the expand level, which is open and has a plus; from the
  first click on they agree.
\<close>

theorem table_signs:
  assumes "s \<noteq> []" "key_label s \<noteq> []" "row_of (table_object c v t r s n i l kids) = Some w"
    and "text_entry ''::type'' v \<in> set (map js [[], ''object'', ''array'', ''xxx-of'', ''xxx-of-option'', ''xxx-of-array''])"
  shows "(agrees w \<longleftrightarrow> \<not> (xxx_of v \<and> i = schemaExpandLevel c)) \<and> agrees (table_toggle w)"
proof -
  have w: "w = table_row c v i" using assms(1-3) by (simp add: row_of_table_object)
  have "sign_text w = js ''-'' \<longleftrightarrow> i < schemaExpandLevel c" by (simp add: w table_row_def js_def)
  then have "agrees w \<longleftrightarrow> \<not> (xxx_of v \<and> i = schemaExpandLevel c)"
    using table_row_classes [OF assms(4), of c i] by (auto simp: agrees_def w level_below_def)
  then show ?thesis by simp
qed

definition sample_cfg :: schema_cfg where
  "sample_cfg = \<lparr>schemaHideReadOnly = True, schemaHideWriteOnly = False, schemaExpandLevel = 1, schemaDescriptionExpanded = False,
     allowSchemaDescriptionExpandToggle = True, num_text = (\<lambda>_. js ''0'')\<rparr>"

definition one_of_sample :: json where
  "one_of_sample = JObj [(js ''::type'', JStr (js ''xxx-of'')), (js ''::OPTION~1'', JStr (js ''string''))]"

theorem table_signs_witness:
  "\<exists>w. row_of (table_object sample_cfg one_of_sample (js ''object'') [] (js ''kind'') [] 1 False []) = Some w \<and> \<not> agrees w \<and> agrees (table_toggle w)"
proof -
  let ?w = "table_row sample_cfg one_of_sample 1"
  have row: "row_of (table_object sample_cfg one_of_sample (js ''object'') [] (js ''kind'') [] 1 False []) = Some ?w"
    by (rule row_of_table_object) code_simp+
  have "text_entry ''::type'' one_of_sample \<in> set (map js [[], ''object'', ''array'', ''xxx-of'', ''xxx-of-option'', ''xxx-of-array''])"
    and "xxx_of one_of_sample \<and> 1 = schemaExpandLevel sample_cfg" and "js ''kind'' \<noteq> []" and "key_label (js ''kind'') \<noteq> []" by code_simp+
  then show ?thesis using table_signs [OF _ _ row] row by blast
qed

end
