(* ===== verification/Schema_Info.thy ===== *)
theory Schema_Info
  imports Schema_View
begin

text \<open>
  What the API reference reads off a schema (\<open>docs/ui/assets/rapidoc-min.js\<close>): the printed form of a value,
  the type information of a schema and its text with nine parts that the schema views take apart again, the
  schema of a parameter, and the normal form of its examples. A schema is JSON as it stands in the
  specification. A function that throws on some input has \<open>None\<close> there.
\<close>

section \<open>Values as text\<close>

function nat_text :: "nat \<Rightarrow> jstr" where
  "nat_text n = (if n < 10 then [48 + of_nat n] else nat_text (n div 10) @ [48 + of_nat (n mod 10)])"
  by pat_completeness auto
termination by (relation "measure id") auto

declare nat_text.simps [simp del]

fun join :: "jstr \<Rightarrow> jstr list \<Rightarrow> jstr" where
  "join sep [] = []"
| "join sep [x] = x"
| "join sep (x # y # xs) = x @ sep @ join sep (y # xs)"

definition upper_char :: "jchar \<Rightarrow> jchar" where
  "upper_char c = (if 97 \<le> c \<and> c \<le> 122 then c - 32 else c)"

text \<open>\<open>String(v)\<close>; inside an array \<open>null\<close> is the empty text.\<close>

fun to_text :: "json \<Rightarrow> jstr" and items_text :: "json list \<Rightarrow> jstr" where
  "to_text JNull = js ''null''"
| "to_text (JBool b) = bool_text b"
| "to_text (JNum n) = n"
| "to_text (JStr s) = s"
| "to_text (JArr vs) = items_text vs"
| "to_text (JObj kvs) = js ''[object Object]''"
| "items_text [] = []"
| "items_text [v] = (if v = JNull then [] else to_text v)"
| "items_text (v # w # vs) = (if v = JNull then [] else to_text v) @ js '','' @ items_text (w # vs)"

definition in_template :: "json option \<Rightarrow> jstr" where
  \<comment> \<open>a value in a template literal\<close>
  "in_template e = (case e of None \<Rightarrow> js ''undefined'' | Some v \<Rightarrow> to_text v)"

definition shown :: "json option \<Rightarrow> jstr" where
  \<comment> \<open>a value in an HTML template\<close>
  "shown e = (case e of None \<Rightarrow> [] | Some v \<Rightarrow> if v = JNull then [] else to_text v)"

definition or_else :: "json option \<Rightarrow> json option \<Rightarrow> json option" where
  "or_else a b = (if is_truthy a then a else b)"

definition or_text :: "json option \<Rightarrow> jstr" where
  \<comment> \<open>\<open>e || ""\<close> as text\<close>
  "or_text e = (if is_truthy e then shown e else [])"

definition truthy_entry :: "string \<Rightarrow> json \<Rightarrow> bool" where
  "truthy_entry k v = is_truthy (entry k v)"

definition empty_sign :: jstr where "empty_sign = [0x2205]"
definition dot_sign :: jchar where "dot_sign = 0x25CF"
definition cross_sign :: jstr where "cross_sign = [0x274C]"

definition dotted :: "jstr \<Rightarrow> jstr" where
  \<comment> \<open>\<open>s.replace(/^ +| +$/g, e => dot.repeat(e.length))\<close>\<close>
  "dotted s =
     (let a = length (takeWhile (\<lambda>c. c = 32) s); r = drop a s; b = length (takeWhile (\<lambda>c. c = 32) (rev r))
      in replicate a dot_sign @ take (length r - b) r @ replicate b dot_sign)"

fun printableValue :: "json option \<Rightarrow> jstr" where
  "printableValue None = []"
| "printableValue (Some JNull) = js ''null''"
| "printableValue (Some (JBool b)) = bool_text b"
| "printableValue (Some (JNum n)) = n"
| "printableValue (Some (JStr s)) = (if s = [] then empty_sign else dotted s)"
| "printableValue (Some (JArr vs)) =
     join (js '', '') (map (\<lambda>v. if v = JNull then js ''null'' else if v = JStr [] then empty_sign else dotted (to_text v)) vs)"
| "printableValue (Some (JObj kvs)) =
     js ''{ '' @ (case kvs of [] \<Rightarrow> js ''undefined:undefined'' | (k, v) # _ \<Rightarrow> k @ js '':'' @ to_text v) @
     (if length kvs > 1 then js '','' else []) @ js '' ... }''"

section \<open>Fields of an object\<close>

text \<open>
  A new field comes last, but a name that is an array index comes among the indices, which stand first in numeric
  order. Two indices are compared by length and then digit by digit.
\<close>

fun lex_less :: "jstr \<Rightarrow> jstr \<Rightarrow> bool" where
  "lex_less [] ys = (ys \<noteq> [])"
| "lex_less (x # xs) [] = False"
| "lex_less (x # xs) (y # ys) = (x < y \<or> x = y \<and> lex_less xs ys)"

definition index_less :: "jstr \<Rightarrow> jstr \<Rightarrow> bool" where
  "index_less a b \<longleftrightarrow> length a < length b \<or> length a = length b \<and> lex_less a b"

definition array_index :: "jstr \<Rightarrow> bool" where
  \<comment> \<open>the decimal form of a number below \<open>2^32 - 1\<close>\<close>
  "array_index k \<longleftrightarrow> k \<noteq> [] \<and> list_all (\<lambda>c. 48 \<le> c \<and> c \<le> 57) k \<and> (hd k \<noteq> 48 \<or> tl k = []) \<and> index_less k (js ''4294967295'')"

definition comes_before :: "jstr \<Rightarrow> jstr \<Rightarrow> bool" where
  "comes_before l k \<longleftrightarrow> (if array_index k then array_index l \<and> index_less l k else True)"

definition put_entry :: "jstr \<Rightarrow> 'v \<Rightarrow> (jstr \<times> 'v) list \<Rightarrow> (jstr \<times> 'v) list" where
  "put_entry k v kvs =
     (if k \<in> set (map fst kvs) then map (\<lambda>(l, w). (l, if l = k then v else w)) kvs
      else takeWhile (\<lambda>x. comes_before (fst x) k) kvs @ (k, v) # dropWhile (\<lambda>x. comes_before (fst x) k) kvs)"

definition put_entries :: "(jstr \<times> 'v) list \<Rightarrow> (jstr \<times> 'v) list \<Rightarrow> (jstr \<times> 'v) list" where
  \<comment> \<open>\<open>Object.assign\<close>\<close>
  "put_entries new kvs = fold (\<lambda>(k, v). put_entry k v) new kvs"

definition object_fields :: "json \<Rightarrow> (jstr \<times> json) list" where
  \<comment> \<open>\<open>Object.assign({}, v)\<close>\<close>
  "object_fields v =
     (case v of
        JObj kvs \<Rightarrow> kvs
      | JArr vs \<Rightarrow> zip (map nat_text [0..<length vs]) vs
      | JStr s \<Rightarrow> zip (map nat_text [0..<length s]) (map (\<lambda>c. JStr [c]) s)
      | _ \<Rightarrow> [])"

section \<open>The type information of a schema\<close>

record type_info =
  ti_type :: jstr
  ti_format :: jstr
  ti_pattern :: jstr
  ti_readOrWriteOnly :: jstr
  ti_deprecated :: jstr
  ti_examples :: "json option"
  ti_default :: jstr
  ti_description :: jstr
  ti_constrain :: jstr
  ti_allowedValues :: "json option"     \<comment> \<open>a text, or the constant itself\<close>
  ti_arrayType :: jstr
  ti_html :: jstr

definition after_last_slash :: "jstr \<Rightarrow> jstr" where
  "after_last_slash s = rev (takeWhile (\<lambda>c. c \<noteq> slash) (rev s))"

fun is_array :: "json option \<Rightarrow> bool" where
  "is_array (Some (JArr vs)) = True"
| "is_array _ = False"

fun array_items :: "json option \<Rightarrow> json list" where
  "array_items (Some (JArr vs)) = vs"
| "array_items _ = []"

definition enum_text :: "json option \<Rightarrow> json option" where
  "enum_text e = Some (JStr (if is_array e then join bar (map (\<lambda>v. printableValue (Some v)) (array_items e)) else []))"

definition type_name :: "json \<Rightarrow> jstr" where
  "type_name e =
     (if truthy_entry ''$ref'' e then js ''{recursive: '' @ after_last_slash (text_entry ''$ref'' e) @ js ''} ''
      else if truthy_entry ''type'' e then
        (let t = (if is_array (entry ''type'' e)
                  then join (if entry ''length'' e = Some (JNum (js ''2'')) then js '' or '' else bar)
                         (map (\<lambda>v. if v = JNull then [] else to_text v) (array_items (entry ''type'' e)))
                  else text_entry ''type'' e);
             t' = (if truthy_entry ''format'' e \<or> truthy_entry ''enum'' e \<or> truthy_entry ''const'' e
                   then replace_first (js ''string'')
                          (if truthy_entry ''enum'' e then js ''enum'' else if truthy_entry ''const'' e then js ''const''
                           else text_entry ''format'' e) t
                   else t)
         in if truthy_entry ''nullable'' e then t' @ bar @ js ''null'' else t')
      else if truthy_entry ''const'' e then js ''const''
      else if no_keys e then js ''any'' else js ''{missing-type-info}'')"

definition after_bar :: "jstr \<Rightarrow> jstr" where
  "after_bar r = (if r \<noteq> [] then bar else [])"

definition number_range :: "json \<Rightarrow> jstr" where
  "number_range e =
     (let num = (\<lambda>k. in_template (entry k e)); has = (\<lambda>k. entry k e \<noteq> None);
          lo = (if has ''minimum'' then js ''Min '' @ num ''minimum''
                else if has ''exclusiveMinimum'' then js ''More than '' @ num ''exclusiveMinimum'' else []);
          hi = (if has ''maximum'' then lo @ after_bar lo @ js ''Max '' @ num ''maximum''
                else if has ''exclusiveMaximum'' then lo @ after_bar lo @ js ''Less than '' @ num ''exclusiveMaximum'' else lo)
      in if has ''multipleOf'' then hi @ after_bar hi @ js '' multiple of '' @ num ''multipleOf'' else hi)"

definition length_range :: "json \<Rightarrow> jstr \<Rightarrow> jstr" where
  "length_range e r =
     (let num = (\<lambda>k. in_template (entry k e)); has = (\<lambda>k. entry k e \<noteq> None) in
      if has ''minLength'' \<and> has ''maxLength''
      then r @ after_bar r @ num ''minLength'' @ js '' to '' @ num ''maxLength'' @ js '' chars''
      else if has ''minLength'' then r @ after_bar r @ js ''Min '' @ num ''minLength'' @ js '' chars''
      else if has ''maxLength'' then r @ js ''Max '' @ after_bar r @ num ''maxLength'' @ js '' chars''
      else r)"

definition constraint_text :: "json \<Rightarrow> jstr \<Rightarrow> jstr" where
  "constraint_text e t =
     (let r = (if occurs (js ''integer'') t \<or> occurs (js ''number'') t then number_range e else [])
      in if occurs (js ''string'') t then length_range e r else r)"

definition separator :: jstr where "separator = js ''~|~''"

definition getTypeInfo :: "json option \<Rightarrow> type_info option" where
  "getTypeInfo sch =
     (if \<not> is_truthy sch then None
      else (let e = the sch; t = type_name e;
          items = entry ''items'' e; of_items = (t = js ''array'' \<and> is_truthy items);
          item = (\<lambda>k. case items of None \<Rightarrow> None | Some i \<Rightarrow> entry k i);
          info = \<lparr>ti_type = t, ti_format = or_text (entry ''format'' e),
             ti_pattern = (if truthy_entry ''pattern'' e \<and> \<not> truthy_entry ''enum'' e then text_entry ''pattern'' e else []),
             ti_readOrWriteOnly = (if truthy_entry ''readOnly'' e then ro_mark else if truthy_entry ''writeOnly'' e then wo_mark else []),
             ti_deprecated = (if truthy_entry ''deprecated'' e then cross_sign else []),
             ti_examples = or_else (entry ''examples'' e) (entry ''example'' e),
             ti_default = printableValue (if of_items then item ''default'' else entry ''default'' e),
             ti_description = or_text (entry ''description'' e),
             ti_constrain = constraint_text e t,
             ti_allowedValues =
               (if of_items
                then (if is_truthy (item ''const'') then entry ''const'' e else enum_text (item ''enum''))
                else if truthy_entry ''const'' e then entry ''const'' e else enum_text (entry ''enum'' e)),
             ti_arrayType =
               (if of_items
                then in_template (entry ''type'' e) @ js '' of '' @
                     (if is_array (item ''type'')
                      then concat (map (\<lambda>v. if v = JNull then [] else to_text v) (array_items (item ''type'')))
                      else in_template (item ''type''))
                else []),
             ti_html = []\<rparr>
      in Some (info\<lparr>ti_html := join separator
           [ti_type info, ti_readOrWriteOnly info, ti_constrain info, ti_default info, in_template (ti_allowedValues info),
            ti_pattern info, ti_description info, or_text (entry ''title'' e),
            if ti_deprecated info \<noteq> [] then js ''deprecated'' else []]\<rparr>)))"

section \<open>The schema of a parameter\<close>

definition serialize_style :: "jstr \<Rightarrow> jstr option" where
  "serialize_style mime =
     (if mime = js ''application/json'' then Some (js ''json'') else if mime = js ''application/xml'' then Some (js ''xml'') else None)"

definition obj_fields :: "json option \<Rightarrow> (jstr \<times> json) list" where
  "obj_fields e = (case e of Some (JObj kvs) \<Rightarrow> kvs | _ \<Rightarrow> [])"

definition getSchemaFromParam :: "json \<Rightarrow> json option \<times> jstr option \<times> json option" where
  "getSchemaFromParam r =
     (if truthy_entry ''schema'' r then (entry ''schema'' r, None, None)
      else case List.find (\<lambda>(k, v). truthy_entry ''schema'' v) (obj_fields (entry ''content'' r)) of
        Some (k, v) \<Rightarrow> (entry ''schema'' v, serialize_style k, Some v)
      | None \<Rightarrow> (None, None, None))"

section \<open>Examples\<close>

definition example_of :: "json \<Rightarrow> json" where
  "example_of v = JObj [(js ''value'', v)]"

definition standardizeExample :: "json option \<Rightarrow> json option option" where
  \<comment> \<open>\<open>None\<close> where it throws, \<open>Some None\<close> where it returns \<open>undefined\<close>\<close>
  "standardizeExample e =
     (case e of
        None \<Rightarrow> Some None
      | Some JNull \<Rightarrow> None
      | Some (JObj kvs) \<Rightarrow>
          if entry ''value'' (JObj kvs) \<noteq> None then Some (Some (JObj [(js ''Example'', JObj kvs)]))
          else if JNull \<in> set (map snd kvs) then None
          else (case filter (\<lambda>(k, v). entry ''value'' v \<noteq> None) kvs of [] \<Rightarrow> Some None | kept \<Rightarrow> Some (Some (JObj kept)))
      | Some (JArr vs) \<Rightarrow> Some (Some (JObj (map (\<lambda>(n, v). (js ''Example'' @ nat_text (n + 1), example_of v)) (zip [0..<length vs] vs))))
      | Some v \<Rightarrow> Some (if is_truthy (Some v) then Some (JObj [(js ''Example'', example_of v)]) else None))"

fun first_standardized :: "json option list \<Rightarrow> json option option" where
  \<comment> \<open>\<open>tF(a) || tF(b) || ...\<close>\<close>
  "first_standardized [] = Some None"
| "first_standardized (e # es) =
     (case standardizeExample e of None \<Rightarrow> None | Some None \<Rightarrow> first_standardized es | Some v \<Rightarrow> Some v)"

record example =
  ex_value :: json
  ex_printable :: jstr
  ex_summary :: jstr
  ex_description :: jstr

definition named_example :: "json \<Rightarrow> example" where
  "named_example v =
     \<lparr>ex_value = (case entry ''value'' v of
          Some (JBool b) \<Rightarrow> JStr (bool_text b) | Some (JNum n) \<Rightarrow> JStr n
        | e \<Rightarrow> if is_truthy e then the e else JStr []),
      ex_printable = printableValue (entry ''value'' v),
      ex_summary = or_text (entry ''summary'' v), ex_description = or_text (entry ''description'' v)\<rparr>"

definition plain_example :: "(json \<Rightarrow> json) \<Rightarrow> json \<Rightarrow> example" where
  "plain_example f v = \<lparr>ex_value = f v, ex_printable = printableValue (Some v), ex_summary = [], ex_description = []\<rparr>"

definition first_value :: "example list \<Rightarrow> json" where
  "first_value es = (case es of [] \<Rightarrow> JStr [] | e # _ \<Rightarrow> ex_value e)"

definition normalizeExamples :: "json option \<Rightarrow> jstr \<Rightarrow> (json \<times> example list) option" where
  \<comment> \<open>\<open>exampleVal\<close> and \<open>exampleList\<close>; \<open>None\<close> where it throws\<close>
  "normalizeExamples e t =
     (if \<not> is_truthy e then Some (JStr [], [])
      else case the e of
        JObj kvs \<Rightarrow>
          if JNull \<in> set (map snd kvs) then None
          else (let es = map (named_example \<circ> snd) (filter (\<lambda>(k, v). entry ''x-example-show-value'' v \<noteq> Some (JBool False)) kvs)
                in Some (first_value es, es))
      | v \<Rightarrow>
          (let vs = (case v of JArr ws \<Rightarrow> ws | _ \<Rightarrow> [v]) in
           if t = js ''array'' then (let es = map (plain_example id) vs in Some (first_value es, es))
           else if JNull \<in> set vs then None
           else (let es = map (plain_example (JStr \<circ> to_text)) vs in Some (first_value es, es))))"

section \<open>Lemmas\<close>

lemma find_sub_here: "startsWith s t \<Longrightarrow> find_sub s t = Some 0"
  by (cases s) (auto simp: startsWith_def)

lemma startsWith_head: "startsWith (c # s) (d # t) \<longleftrightarrow> c = d \<and> startsWith s t"
  by (simp add: startsWith_def)

lemma find_separator: "126 \<notin> set p \<Longrightarrow> find_sub (p @ separator @ s) separator = Some (length p)"
proof (induction p)
  case Nil
  then show ?case using find_sub_here [of "separator @ s" separator] by (simp add: startsWith_def)
next
  case (Cons c p)
  then have "\<not> startsWith ((c # p) @ separator @ s) separator" by (auto simp: separator_def js_def startsWith_head)
  then show ?case using Cons by simp
qed

lemma find_no_separator: "126 \<notin> set p \<Longrightarrow> find_sub p separator = None"
  by (induction p) (auto simp: separator_def js_def startsWith_def)

lemma split_parts_join: "ps \<noteq> [] \<Longrightarrow> list_all (\<lambda>p. 126 \<notin> set p) ps \<Longrightarrow> split_parts (join separator ps) = ps"
proof (induction separator ps rule: join.induct)
  case (2 x)
  then show ?case using find_no_separator [of x] by (simp add: split_parts.simps [of x] flip: separator_def)
next
  case (3 x y xs)
  have "drop (length x + 3) (x @ separator @ join separator (y # xs)) = join separator (y # xs)"
    by (simp add: separator_def js_def)
  then show ?case using 3 find_separator [of x "join separator (y # xs)"]
    by (simp add: split_parts.simps [of "x @ _"] flip: separator_def)
qed simp

lemma typeInfo_html:
  assumes "getTypeInfo (Some e) = Some i"
  shows "ti_html i = join separator
           [ti_type i, ti_readOrWriteOnly i, ti_constrain i, ti_default i, in_template (ti_allowedValues i),
            ti_pattern i, ti_description i, or_text (entry ''title'' e), if ti_deprecated i \<noteq> [] then js ''deprecated'' else []]"
  using assms unfolding getTypeInfo_def Let_def
  by (cases "is_truthy (Some e)") (auto simp only: if_False if_True option.sel option.inject type_info.simps option.distinct not_True_eq_False not_False_eq_True)

lemma typeInfo_mark:
  "getTypeInfo (Some e) = Some i \<Longrightarrow>
    ti_readOrWriteOnly i = (if truthy_entry ''readOnly'' e then ro_mark else if truthy_entry ''writeOnly'' e then wo_mark else [])"
  unfolding getTypeInfo_def Let_def by (cases "is_truthy (Some e)") auto

lemma text_entry_JStr [simp]: "text_entry k (JStr s) = []"
  by (simp add: text_entry_def)

lemma separator_not_Nil [simp]: "separator \<noteq> []"
  by (simp add: separator_def)

lemma mark_not_Nil [simp]: "[] \<noteq> ro_mark" "[] \<noteq> wo_mark"
  by (simp_all add: ro_mark_def wo_mark_def)

section \<open>Properties\<close>

text \<open>
  C27: the text that \<open>getTypeInfo\<close> builds for a primitive schema is taken apart by the schema views into exactly the
  parts it was built from, when no part has a tilde; so a primitive is left out of the tree exactly when it is
  read-only and read-only fields are hidden, or it is write-only (and not read-only) and write-only fields are.
\<close>

theorem type_info_roundtrip:
  assumes "getTypeInfo (Some e) = Some i"
    and "list_all (\<lambda>p. 126 \<notin> set p)
      [ti_type i, ti_constrain i, ti_default i, in_template (ti_allowedValues i), ti_pattern i, ti_description i, or_text (entry ''title'' e)]"
  shows "primitive_of (ti_html i) =
      \<lparr>p_type = ti_type i, p_readwrite = ti_readOrWriteOnly i, p_constraint = ti_constrain i, p_default = ti_default i,
       p_allowed = in_template (ti_allowedValues i), p_pattern = ti_pattern i, p_description = ti_description i,
       p_title = or_text (entry ''title'' e), p_deprecated = (if ti_deprecated i \<noteq> [] then js ''deprecated'' else [])\<rparr> \<and>
    (schema_tree c (Some (JStr (ti_html i))) (js ''object'') [] k n m [] l = [] \<longleftrightarrow>
       schemaHideReadOnly c \<and> truthy_entry ''readOnly'' e \<or>
       schemaHideWriteOnly c \<and> truthy_entry ''writeOnly'' e \<and> \<not> truthy_entry ''readOnly'' e)"
proof -
  have "126 \<notin> set (ti_readOrWriteOnly i)" and dep: "126 \<notin> set (js ''deprecated'')"
    using typeInfo_mark [OF assms(1)] by (auto simp: ro_mark_def wo_mark_def js_def)
  then have parts: "split_parts (ti_html i) =
     [ti_type i, ti_readOrWriteOnly i, ti_constrain i, ti_default i, in_template (ti_allowedValues i),
      ti_pattern i, ti_description i, or_text (entry ''title'' e), if ti_deprecated i \<noteq> [] then js ''deprecated'' else []]" (is "_ = ?ps")
    using assms(2) unfolding typeInfo_html [OF assms(1)] by (intro split_parts_join) auto
  let ?p = "primitive_of (ti_html i)"
  have prim: "?p = \<lparr>p_type = ti_type i, p_readwrite = ti_readOrWriteOnly i, p_constraint = ti_constrain i, p_default = ti_default i,
       p_allowed = in_template (ti_allowedValues i), p_pattern = ti_pattern i, p_description = ti_description i,
       p_title = or_text (entry ''title'' e), p_deprecated = (if ti_deprecated i \<noteq> [] then js ''deprecated'' else [])\<rparr>"
    unfolding primitive_of_def parts by (simp add: part_def nth_opt_def or_empty_def)
  have "ti_html i \<noteq> []" unfolding typeInfo_html [OF assms(1)] by simp
  then have "schema_tree c (Some (JStr (ti_html i))) (js ''object'') [] k n m [] l =
      (if hidden_primitive c ?p then [] else tree_primitive c ?p (js ''object'') k n [] l)"
    unfolding schema_tree.simps [of c "Some (JStr (ti_html i))"] by (simp add: hidden_def)
  moreover have "tree_primitive c ?p (js ''object'') k n [] l \<noteq> []" by (simp add: tree_primitive_def Let_def)
  ultimately show ?thesis using prim by (auto simp: hidden_primitive_def typeInfo_mark [OF assms(1)])
qed

definition sample_string :: json where
  "sample_string = JObj [(js ''type'', JStr (js ''string'')), (js ''readOnly'', JBool True), (js ''maxLength'', JNum (js ''64''))]"

definition sample_info :: type_info where
  "sample_info = \<lparr>ti_type = js ''string'', ti_format = [], ti_pattern = [], ti_readOrWriteOnly = ro_mark, ti_deprecated = [],
     ti_examples = None, ti_default = [], ti_description = [], ti_constrain = js ''Max 64 chars'', ti_allowedValues = Some (JStr []),
     ti_arrayType = [],
     ti_html = join separator [js ''string'', ro_mark, js ''Max 64 chars'', [], [], [], [], [], []]\<rparr>"

theorem type_info_roundtrip_witness:
  "getTypeInfo (Some sample_string) = Some sample_info \<and> p_constraint (primitive_of (ti_html sample_info)) = js ''Max 64 chars'' \<and>
     schema_tree sample_cfg (Some (JStr (ti_html sample_info))) (js ''object'') [] (js ''id'') [] 1 [] False = []"
proof -
  have i: "getTypeInfo (Some sample_string) = Some sample_info" by code_simp
  have "list_all (\<lambda>p. 126 \<notin> set p) [ti_type sample_info, ti_constrain sample_info, ti_default sample_info,
      in_template (ti_allowedValues sample_info), ti_pattern sample_info, ti_description sample_info, or_text (entry ''title'' sample_string)]"
    by code_simp
  moreover have "schemaHideReadOnly sample_cfg \<and> truthy_entry ''readOnly'' sample_string" by code_simp
  ultimately show ?thesis using i type_info_roundtrip [OF i, of sample_cfg "js ''id''" "[]" 1 False] by (simp add: sample_info_def)
qed

text \<open>
  an array schema whose items are a constant shows the constant of the array itself in place of the constant of the
  items; where the array has none, the allowed values read \<open>undefined\<close>.
\<close>

theorem items_constant_is_lost:
  assumes "type_name e = js ''array''" "entry ''items'' e = Some x" "truthy_entry ''const'' x" "entry ''const'' e = None"
  shows "\<exists>i. getTypeInfo (Some e) = Some i \<and> in_template (ti_allowedValues i) = js ''undefined''"
proof -
  have "is_truthy (Some e)" using assms(2) by (cases e) auto
  moreover have "is_truthy (Some x)" using assms(3) by (cases x) (auto simp: truthy_entry_def)
  ultimately show ?thesis using assms by (simp add: getTypeInfo_def Let_def truthy_entry_def in_template_def)
qed

theorem items_constant_is_lost_witness:
  "\<exists>i. getTypeInfo (Some (JObj [(js ''type'', JStr (js ''array'')), (js ''items'', JObj [(js ''const'', JStr (js ''a''))])])) = Some i \<and>
     in_template (ti_allowedValues i) = js ''undefined''"
  by (rule items_constant_is_lost [where x = "JObj [(js ''const'', JStr (js ''a''))]"]) code_simp+

end
