(* ===== verification/Schema_Notation.thy ===== *)
theory Schema_Notation
  imports Schema_Info
begin

text \<open>
  The conversion of a schema of the specification into the object notation that the schema views show
  (\<open>docs/ui/assets/rapidoc-min.js\<close>, function \<open>uF\<close>, and \<open>pF\<close> for the description of arrays and objects).

  \<open>uF\<close> writes into the object it is given and returns it, or it returns a fresh text or object and leaves the
  given one aside; the two cases are the constructors of \<open>notated\<close>. \<open>None\<close> stands for a call that throws and
  for one whose result would contain itself: the schema of a pattern property is converted into the very object
  that gets it as a field. \<open>undefined\<close> is kept as \<open>JNull\<close> in the result. The keywords of a schema are taken to
  have the shapes the format prescribes: a \<open>properties\<close> that is no object has no properties.
\<close>

section \<open>Definitions\<close>

definition or_empty_text :: "json option \<Rightarrow> json" where
  \<comment> \<open>\<open>e || ""\<close>\<close>
  "or_empty_text e = (if is_truthy e then the e else JStr [])"

definition has_type :: "string \<Rightarrow> json \<Rightarrow> bool" where
  "has_type t e \<longleftrightarrow> entry ''type'' e = Some (JStr (js t))"

definition object_schema :: "json \<Rightarrow> bool" where
  "object_schema e \<longleftrightarrow> has_type ''object'' e \<or> truthy_entry ''properties'' e"

definition structured_schema :: "json \<Rightarrow> bool" where
  "structured_schema e \<longleftrightarrow> object_schema e \<or> truthy_entry ''allOf'' e \<or> truthy_entry ''anyOf'' e \<or> truthy_entry ''oneOf'' e"

definition array_schema :: "json \<Rightarrow> bool" where
  "array_schema e \<longleftrightarrow> has_type ''array'' e \<or> truthy_entry ''items'' e"

definition item_of :: "json \<Rightarrow> json" where
  "item_of e = (case entry ''items'' e of None \<Rightarrow> JNull | Some i \<Rightarrow> i)"

definition fat_arrow :: jstr where "fat_arrow = [0x2B95]"

definition nested_descr :: "json \<Rightarrow> jstr" where
  "nested_descr i =
     (let lo = (if truthy_entry ''minProperties'' i then js ''<b>Min Properties:</b> '' @ in_template (entry ''minProperties'' i) else []);
          hi = (if truthy_entry ''maxProperties'' i then lo @ js '' <b>Max Properties:</b> '' @ in_template (entry ''maxProperties'' i) else lo)
      in js '' '' @ fat_arrow @ js '' '' @ hi @ js '' [ '' @ in_template (entry ''description'' i) @ js '' ] '')"

definition structure_descr :: "json \<Rightarrow> nat \<Rightarrow> jstr" where
  \<comment> \<open>\<open>generateMarkdownForArrayAndObjectDescription\<close>\<close>
  "structure_descr e level =
     (let descr = in_template (entry ''description'' e); title = in_template (entry ''title'' e);
          limited = truthy_entry ''minItems'' e \<or> truthy_entry ''maxItems'' e;
          s0 = (if (truthy_entry ''description'' e \<or> truthy_entry ''title'' e) \<and> limited
                then js (''<span class='' @ quote_mark @ ''descr-expand-toggle'' @ quote_mark @ ''>'') @ arrow @ js ''</span>'' else []);
          s1 = (if truthy_entry ''title'' e
                then (if truthy_entry ''description'' e then s0 @ js '' <b>'' @ title @ js '':</b> '' @ descr @ js ''<br/>''
                      else s0 @ js '' '' @ title @ js ''<br/>'')
                else if truthy_entry ''description'' e then s0 @ js '' '' @ descr @ js ''<br/>'' else s0);
          s2 = (if truthy_entry ''minItems'' e then s1 @ js '' <b>Min Items:</b> '' @ in_template (entry ''minItems'' e) else s1);
          s3 = (if truthy_entry ''maxItems'' e then s2 @ js '' <b>Max Items:</b> '' @ in_template (entry ''maxItems'' e) else s2)
      in if level > 0 \<and> truthy_entry ''description'' (item_of e) then s3 @ nested_descr (item_of e) else s3)"

definition info_text :: "json \<Rightarrow> jstr" where
  \<comment> \<open>\<open>getTypeInfo(e).html\<close> of a schema that is not falsy\<close>
  "info_text e = (case getTypeInfo (Some e) of None \<Rightarrow> [] | Some i \<Rightarrow> ti_html i)"

datatype notated = Fresh json | Into "(jstr \<times> json) list"

definition notated_value :: "notated \<Rightarrow> json" where
  \<comment> \<open>the value returned when the object given is empty\<close>
  "notated_value x = (case x of Fresh v \<Rightarrow> v | Into kvs \<Rightarrow> JObj kvs)"

type_synonym converter = "nat \<Rightarrow> jstr \<Rightarrow> json \<Rightarrow> notated option"

definition sub_value :: "converter \<Rightarrow> nat \<Rightarrow> jstr \<Rightarrow> json \<Rightarrow> json option" where
  \<comment> \<open>the conversion of a part into a new object\<close>
  "sub_value f level opt e = (if is_truthy (Some e) then map_option notated_value (f level opt e) else Some JNull)"


subsection \<open>Properties and options\<close>

definition requires_key :: "json \<Rightarrow> jstr \<Rightarrow> bool option" where
  \<comment> \<open>\<open>e.required && e.required.includes(k)\<close>\<close>
  "requires_key e k =
     (if \<not> truthy_entry ''required'' e then Some False
      else case entry ''required'' e of
        Some (JArr vs) \<Rightarrow> Some (JStr k \<in> set vs)
      | Some (JStr s) \<Rightarrow> Some (occurs k s)
      | _ \<Rightarrow> None)"

definition prop_key :: "json \<Rightarrow> jstr \<Rightarrow> jstr option" where
  "prop_key e k = map_option (\<lambda>b. if b then k @ js ''*'' else k) (requires_key e k)"

definition prop_fields :: "converter \<Rightarrow> nat \<Rightarrow> json \<Rightarrow> (jstr \<times> json) list option" where
  "prop_fields f level e =
     those (map (\<lambda>(k, v). Option.bind (prop_key e k) (\<lambda>k'. map_option (Pair k') (sub_value f (level + 1) [] v)))
       (obj_fields (entry ''properties'' e)))"

definition typed_fields :: "converter \<Rightarrow> nat \<Rightarrow> json \<Rightarrow> (jstr \<times> json) list \<Rightarrow> (jstr \<times> json) list option" where
  \<comment> \<open>the loop over the properties that writes into an object\<close>
  "typed_fields f level e kvs = map_option (\<lambda>ps. put_entries ps kvs) (prop_fields f level e)"

definition titled :: "jstr \<Rightarrow> json \<Rightarrow> jstr" where
  "titled sign e = (if truthy_entry ''title'' e then sign @ in_template (entry ''title'' e) else [])"

definition option_name :: "nat \<Rightarrow> json \<Rightarrow> jstr" where
  "option_name n e = js ''::OPTION~'' @ nat_text (n + 1) @ titled (js ''~'') e"

definition clear_mark :: "json \<Rightarrow> json option" where
  \<comment> \<open>\<open>n[k]["::readwrite"] = ""\<close>, which throws where \<open>n[k]\<close> is a text\<close>
  "clear_mark v = (case v of JObj kvs \<Rightarrow> Some (JObj (put_entry (js ''::readwrite'') (JStr []) kvs)) | _ \<Rightarrow> None)"

definition option_fields :: "converter \<Rightarrow> nat \<Rightarrow> json \<Rightarrow> (jstr \<times> json) list option" where
  "option_fields f n e =
     (if \<not> is_truthy (Some e) then None
      else if structured_schema e \<or> array_schema e
      then map_option (\<lambda>v. [(option_name n e, v), (js ''::type'', JStr (js (if structured_schema e then ''xxx-of-option'' else ''xxx-of-array'')))])
             (Option.bind (sub_value f 0 [] e) clear_mark)
      else Some [(option_name n e, JStr (info_text e)), (js ''::type'', JStr (js ''xxx-of-option''))])"

definition options_object :: "converter \<Rightarrow> json list \<Rightarrow> json option" where
  "options_object f vs =
     map_option (\<lambda>kvss. JObj (put_entries (concat kvss) [])) (those (map (\<lambda>(n, e). option_fields f n e) (zip [0..<length vs] vs)))"

definition one_of_notation :: "converter \<Rightarrow> converter" where
  "one_of_notation f level opt e =
     (let any = truthy_entry ''anyOf'' e;
          descr = (js ''::description'', or_empty_text (entry ''description'' e)); ty = (js ''::type'', JStr (js ''object'')) in
      Option.bind (if object_schema e then typed_fields f level e (put_entries [descr, ty] []) else Some [descr])
        (\<lambda>kvs.
      Option.bind (case entry (if any then ''anyOf'' else ''oneOf'') e of Some (JArr vs) \<Rightarrow> options_object f vs | _ \<Rightarrow> None)
        (\<lambda>opts.
      Some (Into (put_entries [(js (if any then ''::ANY~OF '' else ''::ONE~OF '') @ opt, opts), ty] kvs)))))"

subsection \<open>\<open>allOf\<close>\<close>

datatype all_of_part = Fields "(jstr \<times> json) list" | New_prop jstr

definition contribution :: "converter \<Rightarrow> nat \<Rightarrow> nat \<Rightarrow> json \<Rightarrow> all_of_part option" where
  "contribution f level n e =
     (if e = JNull then None
      else if structured_schema e
      then map_option (\<lambda>v. Fields (object_fields v))
             (sub_value f (level + 1) (if (truthy_entry ''anyOf'' e \<or> truthy_entry ''oneOf'' e) \<and> n > 0 then nat_text n else []) e)
      else if array_schema e then map_option (\<lambda>v. Fields (object_fields v)) (sub_value f (level + 1) [] e)
      else if \<not> truthy_entry ''type'' e then Some (Fields [])
      else Some (New_prop (info_text e)))"

fun contribute :: "all_of_part \<Rightarrow> (jstr \<times> json) list \<Rightarrow> (jstr \<times> json) list" where
  "contribute (Fields new) kvs = put_entries new kvs"
| "contribute (New_prop s) kvs = put_entry (js ''prop'' @ nat_text (length kvs)) (JStr s) kvs"

definition all_of_notation :: "converter \<Rightarrow> nat \<Rightarrow> json \<Rightarrow> notated option" where
  "all_of_notation f level e =
     (case entry ''allOf'' e of
        Some (JArr vs) \<Rightarrow>
          if length vs = 1 \<and> \<not> truthy_entry ''properties'' (hd vs) \<and> \<not> truthy_entry ''items'' (hd vs)
          then (if is_truthy (Some (hd vs)) then Some (Fresh (JStr (info_text (hd vs)))) else None)
          else map_option (\<lambda>cs. Fresh (JObj (fold contribute cs []))) (those (map (\<lambda>(n, v). contribution f level n v) (zip [0..<length vs] vs)))
      | _ \<Rightarrow> None)"

subsection \<open>A list of types\<close>

definition simple_type :: "jstr \<Rightarrow> bool" where
  \<comment> \<open>\<open>t.match(/integer|number|string|null|boolean/g)\<close>\<close>
  "simple_type t \<longleftrightarrow> list_ex (\<lambda>w. occurs (js w) t) [''integer'', ''number'', ''string'', ''null'', ''boolean'']"

definition simple_items :: "json \<Rightarrow> bool" where
  "simple_items e \<longleftrightarrow> (case entry ''type'' (item_of e) of Some (JStr t) \<Rightarrow> simple_type t | _ \<Rightarrow> False)"

definition type_label :: "json \<Rightarrow> jstr \<Rightarrow> jstr option" where
  \<comment> \<open>how a type is shown among the simple types, if it is one of them\<close>
  "type_label e t =
     (if simple_type t then Some t
      else if t = js ''array'' \<and> simple_items e
      then Some (js ''['' @ (if has_type ''string'' (item_of e) \<and> truthy_entry ''format'' (item_of e)
                             then in_template (entry ''format'' (item_of e)) else text_entry ''type'' (item_of e)) @ js '']'')
      else None)"

definition with_type :: "json \<Rightarrow> jstr \<Rightarrow> json" where
  "with_type e t = (case e of JObj kvs \<Rightarrow> JObj (put_entry (js ''type'') (JStr t) kvs) | _ \<Rightarrow> e)"

definition null_option :: jstr where
  "null_option = js ''NULL~|~~|~~|~~|~~|~~|~~|~~|~''"

definition type_option :: "converter \<Rightarrow> nat \<Rightarrow> json \<Rightarrow> jstr \<Rightarrow> json option option" where
  \<comment> \<open>the option of a type that is not simple; \<open>Some None\<close> where there is none\<close>
  "type_option f level e t =
     (if t = js ''null'' then Some (Some (JStr null_option))
      else if occurs (t @ js '','') (js ''integer, number, string, boolean,'') then Some (Some (JStr (info_text (with_type e t))))
      else if t = js ''object''
      then map_option (\<lambda>kvs. Some (JObj kvs))
             (typed_fields f level e
                [(js ''::title'', or_empty_text (entry ''title'' e)), (js ''::description'', or_empty_text (entry ''description'' e)),
                 (js ''::type'', JStr (js ''object'')),
                 (js ''::deprecated'', if truthy_entry ''deprecated'' e then the (entry ''deprecated'' e) else JBool False)])
      else if t = js ''array''
      then map_option (\<lambda>p. Some (JObj
             [(js ''::title'', or_empty_text (entry ''title'' e)), (js ''::description'', or_empty_text (entry ''description'' e)),
              (js ''::type'', JStr (js ''array'')), (js ''::props'', p)])) (sub_value f (level + 1) [] (item_of e))
      else Some None)"

definition type_texts :: "json \<Rightarrow> jstr list option" where
  "type_texts e = those (map (\<lambda>v. case v of JStr t \<Rightarrow> Some t | _ \<Rightarrow> None) (array_items (entry ''type'' e)))"

definition type_choice :: "json option list \<Rightarrow> jstr \<Rightarrow> notated" where
  "type_choice os label =
     (let chosen = concat (map (\<lambda>(n, o'). case o' of None \<Rightarrow> [] | Some v \<Rightarrow> [(js ''::OPTION~'' @ nat_text (n + 1), v)]) (zip [0..<length os] os))
      in Into [(js ''::type'', JStr (js ''object'')),
           (js ''::ONE~OF'', JObj (put_entries ([(js ''::type'', JStr (js ''xxx-of-option''))] @ chosen @
              [(js ''::OPTION~'' @ nat_text (length os + 1), JStr label)]) []))])"

definition type_list_notation :: "converter \<Rightarrow> nat \<Rightarrow> json \<Rightarrow> notated option" where
  "type_list_notation f level e =
     (case type_texts e of
        None \<Rightarrow> None
      | Some ts \<Rightarrow>
          (let labels = List.map_filter (type_label e) ts; others = filter (\<lambda>t. type_label e t = None) ts;
               label = (if labels = [] then [] else info_text (with_type e (join (if length labels = 2 then js '' or '' else bar) labels)))
           in if labels \<noteq> [] \<and> others = [] then Some (Fresh (JStr label))
              else if others = [] then Some (Into [])
              else map_option (\<lambda>os. type_choice os label) (those (map (type_option f level e) others))))"

subsection \<open>Objects and arrays\<close>

definition pattern_fields :: "converter \<Rightarrow> nat \<Rightarrow> json \<Rightarrow> (jstr \<times> json) list option" where
  \<comment> \<open>\<open>t[k] = uF(p, t, r + 1)\<close>: the object itself where \<open>uF\<close> writes into it\<close>
  "pattern_fields f level e =
     those (map (\<lambda>(k, p). let key = js ''[pattern: '' @ k @ js '']'' in
         if \<not> is_truthy (Some p) then Some (key, JNull)
         else case f (level + 1) [] p of Some (Fresh v) \<Rightarrow> Some (key, v) | _ \<Rightarrow> None)
       (obj_fields (entry ''patternProperties'' e)))"

definition access_of :: "json \<Rightarrow> jstr" where
  "access_of e = (if truthy_entry ''readOnly'' e then js ''readonly'' else if truthy_entry ''writeOnly'' e then js ''writeonly'' else [])"

definition common_fields :: "nat \<Rightarrow> string \<Rightarrow> json \<Rightarrow> (jstr \<times> json) list" where
  "common_fields level t e =
     [(js ''::title'', or_empty_text (entry ''title'' e)), (js ''::description'', JStr (structure_descr e level)), (js ''::type'', JStr (js t))] @
     (if truthy_entry ''nullable'' e then [(js ''::dataTypeLabel'', JStr (js (t @ '' or null''))), (js ''::nullable'', JBool True)] else []) @
     [(js ''::deprecated'', if truthy_entry ''deprecated'' e then the (entry ''deprecated'' e) else JBool False),
      (js ''::readwrite'', JStr (access_of e))]"

definition object_notation :: "converter \<Rightarrow> nat \<Rightarrow> json \<Rightarrow> notated option" where
  "object_notation f level e =
     Option.bind (typed_fields f level e (common_fields level ''object'' e)) (\<lambda>kvs.
     Option.bind (pattern_fields f level e) (\<lambda>ps.
     Option.bind (if truthy_entry ''additionalProperties'' e
                  then map_option (\<lambda>v. [(js ''[any-key]'', v)]) (sub_value f 0 [] (the (entry ''additionalProperties'' e))) else Some [])
       (\<lambda>extra. Some (Into (put_entries (ps @ extra) kvs)))))"

definition array_notation :: "converter \<Rightarrow> nat \<Rightarrow> json \<Rightarrow> notated option" where
  "array_notation f level e =
     map_option (\<lambda>p. Into (common_fields level ''array'' e @
         (if truthy_entry ''items'' (item_of e)
          then [(js ''::array-type'', case entry ''type'' (the (entry ''items'' (item_of e))) of None \<Rightarrow> JNull | Some t \<Rightarrow> t)] else []) @
         [(js ''::props'', p)]))
       (sub_value f (level + 1) [] (item_of e))"

subsection \<open>The conversion\<close>

definition convert_step :: "converter \<Rightarrow> converter" where
  "convert_step f level opt e =
     (if truthy_entry ''allOf'' e then all_of_notation f level e
      else if truthy_entry ''anyOf'' e \<or> truthy_entry ''oneOf'' e then one_of_notation f level opt e
      else if is_array (entry ''type'' e) then type_list_notation f level e
      else if object_schema e then object_notation f level e
      else if array_schema e then array_notation f level e
      else Some (Fresh (JStr (info_text e))))"

text \<open>The parts of a schema are smaller than the schema, so a step only needs the conversion of smaller schemas.\<close>

definition agree_below :: "json \<Rightarrow> converter \<Rightarrow> converter \<Rightarrow> bool" where
  "agree_below e f g \<longleftrightarrow> (\<forall>level opt x. size x < size e \<longrightarrow> f level opt x = g level opt x)"

lemma size_entry_less: "entry k e = Some v \<Longrightarrow> size v < size e"
  by (cases e) (auto dest!: map_of_SomeD size_entry)

lemma size_JArr_less: "v \<in> set vs \<Longrightarrow> size v < size (JArr vs)"
  by (induction vs) auto

lemma size_field_less: "(k, v) \<in> set (obj_fields (entry l e)) \<Longrightarrow> size v < size e"
  using size_entry size_entry_less by (fastforce simp: obj_fields_def split: option.splits json.splits)

lemma size_item_of: "size (item_of e) < size e \<or> item_of e = JNull"
  using size_entry_less [of "''items''" e] by (auto simp: item_of_def split: option.split)

lemma sub_value_cong: "size x < size e \<or> x = JNull \<Longrightarrow> agree_below e f g \<Longrightarrow> sub_value f l s x = sub_value g l s x"
  by (auto simp: sub_value_def agree_below_def)

lemma sub_value_JNull [simp]: "sub_value f l s JNull = Some JNull"
  by (simp add: sub_value_def)

lemma those_map_cong: "(\<And>x. x \<in> set xs \<Longrightarrow> f x = g x) \<Longrightarrow> those (map f xs) = those (map g xs)"
  by (metis map_cong)

lemma prop_fields_cong: "agree_below e f g \<Longrightarrow> prop_fields f l e = prop_fields g l e"
  unfolding prop_fields_def
  by (rule those_map_cong)
    (auto dest!: size_field_less intro!: bind_option_cong arg_cong [where f = "map_option _"] sub_value_cong)

lemma typed_fields_cong: "agree_below e f g \<Longrightarrow> typed_fields f l e kvs = typed_fields g l e kvs"
  by (simp add: typed_fields_def prop_fields_cong)

lemma agree_below_entry: "agree_below e f g \<Longrightarrow> entry k e = Some v \<Longrightarrow> x \<in> set (array_items (Some v)) \<Longrightarrow> size x < size e"
  using size_entry_less [of k e v] size_JArr_less by (cases v) fastforce+

lemma option_fields_cong: "agree_below e f g \<Longrightarrow> size x < size e \<Longrightarrow> option_fields f n x = option_fields g n x"
  using sub_value_cong [of x e f g 0 "[]"] by (simp add: option_fields_def)

lemma options_object_cong:
  assumes "agree_below e f g" "entry k e = Some (JArr vs)"
  shows "options_object f vs = options_object g vs"
proof -
  have "size x < size e" if "x \<in> set vs" for x using agree_below_entry [OF assms] that by simp
  then show ?thesis unfolding options_object_def
    using option_fields_cong [OF assms(1)]
    by (intro arg_cong [where f = "map_option _"] those_map_cong) (auto dest: set_zip_rightD)
qed

lemma one_of_cong: "agree_below e f g \<Longrightarrow> one_of_notation f l s e = one_of_notation g l s e"
  unfolding one_of_notation_def Let_def
  by (intro bind_option_cong) (auto simp: typed_fields_cong options_object_cong split: option.split json.split)

lemma all_of_cong: "agree_below e f g \<Longrightarrow> all_of_notation f l e = all_of_notation g l e"
proof -
  assume fg: "agree_below e f g"
  have "contribution f l n x = contribution g l n x" if "size x < size e" for n x
    using sub_value_cong [OF _ fg] that by (simp add: contribution_def)
  moreover have "size x < size e" if "entry ''allOf'' e = Some (JArr vs)" "x \<in> set vs" for x vs
    using agree_below_entry [OF fg that(1)] that(2) by simp
  ultimately show ?thesis unfolding all_of_notation_def
    by (auto split: option.split json.split intro!: arg_cong [where f = "map_option _"] those_map_cong dest: set_zip_rightD)
qed

lemma type_option_cong: "agree_below e f g \<Longrightarrow> type_option f l e t = type_option g l e t"
  using sub_value_cong [OF size_item_of] by (simp add: type_option_def typed_fields_cong)

lemma type_list_cong: "agree_below e f g \<Longrightarrow> type_list_notation f l e = type_list_notation g l e"
proof -
  assume "agree_below e f g"
  then have "type_option f l e = type_option g l e" by (intro ext type_option_cong)
  then show ?thesis by (simp only: type_list_notation_def)
qed

lemma pattern_fields_cong: "agree_below e f g \<Longrightarrow> pattern_fields f l e = pattern_fields g l e"
  unfolding pattern_fields_def
  by (rule those_map_cong) (auto dest!: size_field_less simp: agree_below_def Let_def)

lemma truthy_entryD: "truthy_entry k e \<Longrightarrow> \<exists>v. entry k e = Some v \<and> is_truthy (Some v)"
  by (cases "entry k e") (auto simp: truthy_entry_def)

lemma sub_entry_cong: "agree_below e f g \<Longrightarrow> truthy_entry k e \<Longrightarrow> sub_value f l s (the (entry k e)) = sub_value g l s (the (entry k e))"
  by (auto dest!: truthy_entryD intro!: sub_value_cong dest: size_entry_less)

lemma object_notation_cong: "agree_below e f g \<Longrightarrow> object_notation f l e = object_notation g l e"
  unfolding object_notation_def by (intro bind_option_cong) (simp_all add: typed_fields_cong pattern_fields_cong sub_entry_cong)

lemma array_notation_cong: "agree_below e f g \<Longrightarrow> array_notation f l e = array_notation g l e"
  by (simp add: array_notation_def sub_value_cong [OF size_item_of])

lemma convert_step_cong [fundef_cong]:
  assumes "e = e'" "\<And>level opt x. size x < size e' \<Longrightarrow> f level opt x = g level opt x"
  shows "convert_step f l s e = convert_step g l s e'"
proof -
  have "agree_below e' f g" using assms(2) by (simp add: agree_below_def)
  then show ?thesis
    by (simp add: assms(1) convert_step_def all_of_cong one_of_cong type_list_cong object_notation_cong array_notation_cong)
qed

function schemaInObjectNotation :: "nat \<Rightarrow> jstr \<Rightarrow> json \<Rightarrow> notated option" where
  "schemaInObjectNotation level opt e = convert_step schemaInObjectNotation level opt e"
  by pat_completeness auto
termination
  by (relation "measure (\<lambda>(level, opt, e). size e)") auto

declare schemaInObjectNotation.simps [simp del]

definition notation_of :: "json option \<Rightarrow> json option option" where
  \<comment> \<open>\<open>uF(e, {})\<close>: \<open>None\<close> where it throws or the result contains itself, \<open>Some None\<close> where it is \<open>undefined\<close>\<close>
  "notation_of e = (if is_truthy e then map_option (Some \<circ> notated_value) (schemaInObjectNotation 0 [] (the e)) else Some None)"

section \<open>What the views accept\<close>

text \<open>
  A view that reaches an object reads the type of each of its fields, and throws on a field that is undefined.
  \<open>viewable\<close> follows \<open>generateTree\<close> through the value it is given.
\<close>

function viewable :: "json option \<Rightarrow> bool" where
  "viewable e =
     (case e of
        None \<Rightarrow> True
      | Some v \<Rightarrow>
          (case first_item v of
             Some x \<Rightarrow> viewable (Some x)
           | None \<Rightarrow> (\<forall>(k, w) \<in> set (case v of JStr s \<Rightarrow> [] | _ \<Rightarrow> object_fields v).
               w \<noteq> JNull \<and> (k \<in> set special_keys \<and> \<not> container w \<or> viewable (child w)))))"
  by pat_completeness auto
termination
  by (relation "measure size_opt")
    (auto simp: schema_termination object_fields_def split: json.splits dest!: size_first intro: size_child_arr size_child_obj)

declare viewable.simps [simp del]

definition field_ok :: "jstr \<times> json \<Rightarrow> bool" where
  "field_ok x \<longleftrightarrow> snd x \<noteq> JNull \<and> (fst x \<in> set special_keys \<and> \<not> container (snd x) \<or> viewable (child (snd x)))"

lemma viewable_simps [simp]:
  "viewable None"
  "viewable (Some JNull)" "viewable (Some (JBool b))" "viewable (Some (JNum n))" "viewable (Some (JStr s))"
  "viewable (Some (JObj kvs)) \<longleftrightarrow> list_all field_ok kvs"
  by (auto simp: viewable.simps [of "Some _"] viewable.simps [of None] object_fields_def field_ok_def list_all_iff)

section \<open>Schemas that can be converted\<close>

definition plain_schema :: "json \<Rightarrow> bool" where
  "plain_schema e \<longleftrightarrow> \<not> truthy_entry ''allOf'' e \<and> \<not> truthy_entry ''anyOf'' e \<and> \<not> truthy_entry ''oneOf'' e \<and> \<not> is_array (entry ''type'' e)"

definition array_node :: "json \<Rightarrow> bool" where
  "array_node e \<longleftrightarrow> plain_schema e \<and> \<not> object_schema e \<and> array_schema e"

definition single_simple :: "json list \<Rightarrow> bool" where
  "single_simple vs \<longleftrightarrow> length vs = 1 \<and> \<not> truthy_entry ''properties'' (hd vs) \<and> \<not> truthy_entry ''items'' (hd vs)"

definition text_node :: "json \<Rightarrow> bool" where
  \<comment> \<open>schemas that are converted into a text\<close>
  "text_node e \<longleftrightarrow>
     (if truthy_entry ''allOf'' e then single_simple (array_items (entry ''allOf'' e))
      else \<not> truthy_entry ''anyOf'' e \<and> \<not> truthy_entry ''oneOf'' e \<and>
        (if is_array (entry ''type'' e)
         then array_items (entry ''type'' e) \<noteq> [] \<and>
           list_all (\<lambda>v. case v of JStr t \<Rightarrow> type_label e t \<noteq> None | _ \<Rightarrow> False) (array_items (entry ''type'' e))
         else \<not> object_schema e \<and> \<not> array_schema e))"

definition option_ok :: "json \<Rightarrow> bool" where
  "option_ok x \<longleftrightarrow> is_truthy (Some x) \<and> (structured_schema x \<or> array_schema x \<longrightarrow> \<not> text_node x)"

definition nested_ok :: "json \<Rightarrow> bool" where
  \<comment> \<open>an array of arrays says what the inner arrays hold\<close>
  "nested_ok i \<longleftrightarrow> array_node i \<longrightarrow> is_truthy (Some (item_of i)) \<and>
     (truthy_entry ''items'' (item_of i) \<longrightarrow> (case entry ''type'' (item_of (item_of i)) of None \<Rightarrow> False | Some t \<Rightarrow> t \<noteq> JNull \<and> \<not> container t))"

definition well_shaped :: "json \<Rightarrow> bool" where
  "well_shaped e \<longleftrightarrow>
     (truthy_entry ''required'' e \<longrightarrow> (case entry ''required'' e of Some (JArr vs) \<Rightarrow> True | Some (JStr s) \<Rightarrow> True | _ \<Rightarrow> False)) \<and>
     list_all (\<lambda>(k, v). is_truthy (Some v) \<and> \<not> startsWith k (js ''::'')) (obj_fields (entry ''properties'' e)) \<and>
     list_all (\<lambda>k. case entry k e of None \<Rightarrow> True | Some v \<Rightarrow> \<not> container v) [''title'', ''description'', ''deprecated''] \<and>
     (truthy_entry ''allOf'' e \<longrightarrow> is_array (entry ''allOf'' e) \<and>
        list_all (\<lambda>x. is_truthy (Some x) \<and> \<not> array_node x) (array_items (entry ''allOf'' e))) \<and>
     (let alts = entry (if truthy_entry ''anyOf'' e then ''anyOf'' else ''oneOf'') e in
      is_truthy alts \<longrightarrow> is_array alts \<and> list_all option_ok (array_items alts)) \<and>
     (is_array (entry ''type'' e) \<longrightarrow> list_all (\<lambda>v. case v of JStr t \<Rightarrow> True | _ \<Rightarrow> False) (array_items (entry ''type'' e))) \<and>
     list_all (\<lambda>(k, p). is_truthy (Some p) \<and> (truthy_entry ''allOf'' p \<or> text_node p)) (obj_fields (entry ''patternProperties'' e)) \<and>
     (array_node e \<or> is_array (entry ''type'' e) \<longrightarrow> nested_ok (item_of e))"

fun all_json :: "(json \<Rightarrow> bool) \<Rightarrow> json \<Rightarrow> bool" where
  "all_json P (JArr vs) \<longleftrightarrow> P (JArr vs) \<and> list_all (all_json P) vs"
| "all_json P (JObj kvs) \<longleftrightarrow> P (JObj kvs) \<and> list_all (\<lambda>(k, v). all_json P v) kvs"
| "all_json P v \<longleftrightarrow> P v"

section \<open>Lemmas\<close>

subsection \<open>Fields\<close>

lemma put_entry_set: "x \<in> set (put_entry k v kvs) \<Longrightarrow> x = (k, v) \<or> x \<in> set kvs"
  by (auto simp: put_entry_def dest: set_takeWhileD set_dropWhileD split: if_splits)

lemma put_entry_all: "P (k, v) \<Longrightarrow> list_all P kvs \<Longrightarrow> list_all P (put_entry k v kvs)"
  unfolding list_all_iff using put_entry_set [of _ k v kvs] by blast

lemma put_entries_all: "list_all P new \<Longrightarrow> list_all P kvs \<Longrightarrow> list_all P (put_entries new kvs)"
proof (induction new arbitrary: kvs)
  case (Cons x new)
  then show ?case using put_entry_all [of P "fst x" "snd x" kvs] by (simp add: put_entries_def case_prod_beta)
qed (simp add: put_entries_def)

lemma map_of_replace: "k \<in> set (map fst kvs) \<Longrightarrow> map_of (map (\<lambda>(l, w). (l, if l = k then v else w)) kvs) = (map_of kvs)(k \<mapsto> v)"
proof -
  assume "k \<in> set (map fst kvs)"
  then have "map_of (map (\<lambda>(l, w). (l, if l = k then v else w)) kvs) k = Some v"
    by (induction kvs) force+
  moreover have "x \<noteq> k \<Longrightarrow> map_of (map (\<lambda>(l, w). (l, if l = k then v else w)) kvs) x = map_of kvs x" for x
    by (induction kvs) auto
  ultimately show ?thesis by (intro ext) simp
qed

lemma map_of_insert: "k \<notin> set (map fst xs) \<Longrightarrow> map_of (xs @ (k, v) # ys) = (map_of (xs @ ys))(k \<mapsto> v)"
  by (induction xs) auto

lemma map_of_put_entry: "map_of (put_entry k v kvs) = (map_of kvs)(k \<mapsto> v)"
proof (cases "k \<in> set (map fst kvs)")
  case False
  then have "k \<notin> set (map fst (takeWhile (\<lambda>x. comes_before (fst x) k) kvs))" by (auto dest: set_takeWhileD)
  then show ?thesis using False by (simp add: put_entry_def map_of_insert del: map_of_append)
qed (simp add: put_entry_def map_of_replace)

subsection \<open>Parts of a schema\<close>

lemma all_json_here: "all_json P e \<Longrightarrow> P e"
  by (cases e) auto

lemma all_json_entry: "all_json P e \<Longrightarrow> entry k e = Some v \<Longrightarrow> all_json P v"
  by (cases e) (auto simp: list_all_iff dest!: map_of_SomeD)

lemma all_json_item: "all_json P e \<Longrightarrow> entry k e = Some v \<Longrightarrow> x \<in> set (array_items (Some v)) \<Longrightarrow> all_json P x"
  by (drule (1) all_json_entry, cases v) (auto simp: list_all_iff)

lemma all_json_field:
  assumes "all_json P e" "(l, x) \<in> set (obj_fields (entry k e))"
  shows "all_json P x"
proof -
  obtain kvs where "entry k e = Some (JObj kvs)" "(l, x) \<in> set kvs"
    using assms(2) by (cases "entry k e" rule: option.exhaust; cases "the (entry k e)") (simp_all add: obj_fields_def)
  then show ?thesis using all_json_entry [OF assms(1)] by (fastforce simp: list_all_iff)
qed

lemma those_total: "(\<And>x. x \<in> set xs \<Longrightarrow> \<exists>y. f x = Some y \<and> Q y) \<Longrightarrow> \<exists>ys. those (map f xs) = Some ys \<and> list_all Q ys"
proof (induction xs)
  case (Cons x xs)
  then obtain y ys where "f x = Some y" "Q y" "those (map f xs) = Some ys" "list_all Q ys" by fastforce
  then show ?case by auto
qed simp

subsection \<open>Schemas that are converted\<close>

definition field_fine :: "jstr \<times> json \<Rightarrow> bool" where
  "field_fine x \<longleftrightarrow> field_ok x \<and> x \<noteq> (js ''::type'', JStr (js ''array''))"

definition value_ok :: "json \<Rightarrow> json \<Rightarrow> bool" where
  "value_ok e v \<longleftrightarrow>
     (if text_node e then \<exists>t. v = JStr t
      else \<exists>kvs. v = JObj kvs \<and>
        (if array_node e then viewable (child v) \<and> (nested_ok e \<longrightarrow> viewable (Some v)) else list_all field_fine kvs))"

definition converted :: "json \<Rightarrow> notated option \<Rightarrow> bool" where
  "converted e r \<longleftrightarrow> (case r of None \<Rightarrow> False | Some x \<Rightarrow> value_ok e (notated_value x) \<and>
     (truthy_entry ''allOf'' e \<or> text_node e \<longrightarrow> (\<exists>v. x = Fresh v)))"

definition below_ok :: "json \<Rightarrow> converter \<Rightarrow> bool" where
  "below_ok e f \<longleftrightarrow> (\<forall>l s x. size x < size e \<longrightarrow> all_json well_shaped x \<longrightarrow> is_truthy (Some x) \<longrightarrow> converted x (f l s x))"

lemma child_simps [simp]:
  "text_entry ''::type'' v \<noteq> js ''array'' \<Longrightarrow> child v = Some v"
  "child (JStr t) = Some (JStr t)"
  "child (JBool b) = Some (JBool b)"
  by (auto simp: child_def text_entry_def js_def)

lemma sub_value_ok:
  assumes "below_ok e f" "size x < size e" "all_json well_shaped x" "is_truthy (Some x)"
  shows "\<exists>v. sub_value f l s x = Some v \<and> value_ok x v"
  using assms by (fastforce simp: below_ok_def converted_def sub_value_def split: option.splits)

lemma fine_object: "list_all field_fine kvs \<Longrightarrow> viewable (Some (JObj kvs)) \<and> child (JObj kvs) = Some (JObj kvs)"
  by (auto simp: field_fine_def list_all_iff child_def text_entry_def js_def split: option.splits json.splits dest: map_of_SomeD)

lemma object_field_fine: "list_all field_fine kvs \<Longrightarrow> field_fine (k, JObj kvs)"
  using fine_object [of kvs] by (simp add: field_fine_def field_ok_def)

lemma value_ok_child: "value_ok e v \<Longrightarrow> viewable (child v)"
  using fine_object by (fastforce simp: value_ok_def split: if_splits)

lemma value_ok_field: "value_ok e v \<Longrightarrow> field_ok (k, v)"
  using value_ok_child [of e v] by (auto simp: value_ok_def field_ok_def split: if_splits)

lemma value_ok_viewable: "value_ok e v \<Longrightarrow> \<not> array_node e \<or> nested_ok e \<Longrightarrow> viewable (Some v)"
  using fine_object by (fastforce simp: value_ok_def split: if_splits)

lemma field_ok_text [simp]: "field_ok (k, JStr t)"
  by (simp add: field_ok_def)

lemma field_ok_special:
  assumes "well_shaped e" "k \<in> {''title'', ''description'', ''deprecated''}"
  shows "field_ok (js (''::'' @ k), or_empty_text (entry k e))"
    "field_ok (js (''::'' @ k), if truthy_entry k e then the (entry k e) else JBool b)"
proof -
  have "case entry k e of None \<Rightarrow> True | Some v \<Rightarrow> \<not> container v" using assms by (auto simp: well_shaped_def)
  moreover have "js (''::'' @ k) \<in> set special_keys" using assms(2) by (auto simp: special_keys_def)
  ultimately show "field_ok (js (''::'' @ k), or_empty_text (entry k e))"
    "field_ok (js (''::'' @ k), if truthy_entry k e then the (entry k e) else JBool b)"
    by (auto simp: field_ok_def or_empty_text_def truthy_entry_def split: option.splits)
qed

lemma prop_key_ok:
  assumes "well_shaped e" "(k, v) \<in> set (obj_fields (entry ''properties'' e))"
  shows "\<exists>k'. prop_key e k = Some k' \<and> \<not> startsWith k' (js ''::'')"
proof -
  have "\<not> startsWith k (js ''::'')" and r: "truthy_entry ''required'' e \<longrightarrow>
      (case entry ''required'' e of Some (JArr vs) \<Rightarrow> True | Some (JStr s) \<Rightarrow> True | _ \<Rightarrow> False)"
    using assms by (auto simp: well_shaped_def list_all_iff)
  then have "\<not> startsWith (k @ js ''*'') (js ''::'')" by (cases k; cases "tl k") (auto simp: startsWith_Cons js_def)
  then show ?thesis using r \<open>\<not> startsWith k _\<close>
    by (auto simp: prop_key_def requires_key_def split: option.splits json.splits)
qed

lemma typed_fields_ok:
  assumes "below_ok e f" "all_json well_shaped e" "list_all field_fine kvs"
  shows "\<exists>r. typed_fields f l e kvs = Some r \<and> list_all field_fine r"
proof -
  let ?g = "\<lambda>(k, v). Option.bind (prop_key e k) (\<lambda>k'. map_option (Pair k') (sub_value f (l + 1) [] v))"
  have "\<exists>y. ?g x = Some y \<and> field_fine y" if x: "x \<in> set (obj_fields (entry ''properties'' e))" for x
  proof -
    obtain k v where [simp]: "x = (k, v)" by (cases x)
    have "is_truthy (Some v)" using x all_json_here [OF assms(2)] by (auto simp: well_shaped_def list_all_iff)
    moreover have "size v < size e" "all_json well_shaped v" using x size_field_less all_json_field [OF assms(2)] by auto
    ultimately obtain w where "sub_value f (l + 1) [] v = Some w" "value_ok v w" using sub_value_ok [OF assms(1)] by blast
    moreover obtain k' where "prop_key e k = Some k'" "\<not> startsWith k' (js ''::'')"
      using prop_key_ok [OF all_json_here [OF assms(2)]] x by auto
    ultimately show ?thesis by (auto intro: value_ok_field simp: field_fine_def js_def startsWith_Cons)
  qed
  from those_total [of _ ?g field_fine, OF this]
  obtain ps where "prop_fields f l e = Some ps" "list_all field_fine ps" unfolding prop_fields_def by blast
  then show ?thesis using assms(3) by (simp add: typed_fields_def put_entries_all)
qed

lemma field_fine_text [simp]: "field_fine (k, JStr t) \<longleftrightarrow> (k, t) \<noteq> (js ''::type'', js ''array'')"
  by (simp add: field_fine_def)

lemma clear_mark_ok: "value_ok e v \<Longrightarrow> \<not> text_node e \<Longrightarrow> \<exists>w. clear_mark v = Some w \<and> (\<forall>k. field_ok (k, w))"
proof -
  assume v: "value_ok e v" "\<not> text_node e"
  then obtain kvs where [simp]: "v = JObj kvs" by (auto simp: value_ok_def)
  let ?w = "JObj (put_entry (js ''::readwrite'') (JStr []) kvs)"
  have "viewable (child ?w)"
  proof (cases "array_node e")
    case True
    have ty: "entry k ?w = entry k v" if "js k \<noteq> js ''::readwrite''" for k using that by (simp add: map_of_put_entry)
    show ?thesis
    proof (cases "text_entry ''::type'' v = js ''array''")
      case True
      then show ?thesis using value_ok_child [OF v(1)] ty [of "''::type''"] ty [of "''::props''"]
        by (simp add: child_def text_entry_def js_def del: entry.simps)
    next
      case False
      have "viewable (Some v)" using value_ok_child [OF v(1)] False by simp
      then have "viewable (Some ?w)" by (simp add: put_entry_all)
      then show ?thesis using False ty [of "''::type''"] by (simp add: text_entry_def js_def del: entry.simps)
    qed
  next
    case False
    then have "list_all field_fine (put_entry (js ''::readwrite'') (JStr []) kvs)"
      using v by (intro put_entry_all) (auto simp: value_ok_def js_def)
    then show ?thesis using fine_object by simp
  qed
  then show ?thesis by (simp add: clear_mark_def field_ok_def)
qed

lemma option_name_type: "option_name n e \<noteq> js ''::type''"
  by (simp add: option_name_def js_def)

lemma option_fields_ok:
  assumes "below_ok e f" "size x < size e" "all_json well_shaped x" "option_ok x"
  shows "\<exists>y. option_fields f n x = Some y \<and> list_all field_fine y"
proof (cases "structured_schema x \<or> array_schema x")
  case True
  then have "\<not> text_node x" "is_truthy (Some x)" using assms(4) by (auto simp: option_ok_def)
  moreover obtain v where "sub_value f 0 [] x = Some v" "value_ok x v"
    using sub_value_ok [OF assms(1-3) calculation(2)] by blast
  moreover obtain w where "clear_mark v = Some w" "\<forall>k. field_ok (k, w)" using clear_mark_ok calculation by blast
  ultimately show ?thesis using True by (simp add: option_fields_def field_fine_def option_name_type)
qed (use assms(4) in \<open>simp add: option_fields_def option_ok_def option_name_type\<close>)

lemma options_object_ok:
  assumes "below_ok e f" "all_json well_shaped e" "entry k e = Some (JArr vs)" "list_all option_ok vs"
  shows "\<exists>kvs. options_object f vs = Some (JObj kvs) \<and> list_all field_fine kvs"
proof -
  have "\<exists>y. option_fields f n x = Some y \<and> list_all field_fine y" if "x \<in> set vs" for n x
    using option_fields_ok [OF assms(1)] agree_below_entry [of e f f k "JArr vs" x] all_json_item [OF assms(2,3), of x] that assms(3,4)
    by (simp add: agree_below_def list_all_iff)
  then have "\<exists>y. (\<lambda>(n, x). option_fields f n x) z = Some y \<and> list_all field_fine y" if "z \<in> set (zip [0..<length vs] vs)" for z
    using that by (cases z) (auto dest: set_zip_rightD)
  from those_total [of _ "\<lambda>(n, x). option_fields f n x" "list_all field_fine", OF this] obtain kvss where "those (map (\<lambda>(n, x). option_fields f n x) (zip [0..<length vs] vs)) = Some kvss"
    "list_all (list_all field_fine) kvss" by blast
  then show ?thesis using put_entries_all [of field_fine "concat kvss" "[]"] by (auto simp: options_object_def list_all_iff)
qed

lemma Let_alts: "truthy_entry ''anyOf'' e \<or> truthy_entry ''oneOf'' e \<Longrightarrow> well_shaped e \<Longrightarrow>
    \<exists>vs. entry (if truthy_entry ''anyOf'' e then ''anyOf'' else ''oneOf'') e = Some (JArr vs) \<and> list_all option_ok vs"
proof -
  let ?alts = "entry (if truthy_entry ''anyOf'' e then ''anyOf'' else ''oneOf'') e"
  assume "truthy_entry ''anyOf'' e \<or> truthy_entry ''oneOf'' e" "well_shaped e"
  then have "is_array ?alts \<and> list_all option_ok (array_items ?alts)"
    by (auto simp: well_shaped_def Let_def truthy_entry_def split: if_splits)
  then show ?thesis by (cases ?alts rule: is_array.cases) auto
qed

lemma one_of_ok:
  assumes "below_ok e f" "all_json well_shaped e" "\<not> truthy_entry ''allOf'' e" "truthy_entry ''anyOf'' e \<or> truthy_entry ''oneOf'' e"
  shows "converted e (one_of_notation f l s e)"
proof -
  note w = all_json_here [OF assms(2)]
  let ?d = "(js ''::description'', or_empty_text (entry ''description'' e))"
  let ?t = "(js ''::type'', JStr (js ''object''))"
  have d: "field_fine ?d" using field_ok_special(1) [OF w, of "''description''"] by (simp add: field_fine_def js_def)
  have t: "field_fine ?t" by (simp add: js_def)
  have "\<exists>kvs. (if object_schema e then typed_fields f l e (put_entries [?d, ?t] []) else Some [?d]) = Some kvs \<and> list_all field_fine kvs"
    using typed_fields_ok [OF assms(1,2), of "put_entries [?d, ?t] []"] put_entries_all [of field_fine "[?d, ?t]" "[]"] d t by auto
  then obtain kvs where kvs: "(if object_schema e then typed_fields f l e (put_entries [?d, ?t] []) else Some [?d]) = Some kvs"
    "list_all field_fine kvs" by blast
  obtain vs where vs: "entry (if truthy_entry ''anyOf'' e then ''anyOf'' else ''oneOf'') e = Some (JArr vs)" "list_all option_ok vs"
    using Let_alts [OF assms(4) w] by blast
  obtain os where os: "options_object f vs = Some (JObj os)" "list_all field_fine os"
    using options_object_ok [OF assms(1,2) vs] by blast
  let ?k = "js (if truthy_entry ''anyOf'' e then ''::ANY~OF '' else ''::ONE~OF '') @ s"
  have "viewable (child (JObj os))" using fine_object [OF os(2)] by simp
  then have "field_fine (?k, JObj os)" by (simp add: field_fine_def field_ok_def)
  then have "list_all field_fine (put_entries [(?k, JObj os), ?t] kvs)" using kvs(2) t by (intro put_entries_all) auto
  moreover have "one_of_notation f l s e = Some (Into (put_entries [(?k, JObj os), ?t] kvs))"
    using kvs(1) vs(1) os(1) by (simp add: one_of_notation_def)
  ultimately show ?thesis using assms(3,4)
    by (auto simp: converted_def value_ok_def notated_value_def text_node_def array_node_def plain_schema_def)
qed

lemma value_ok_fields: "value_ok e v \<Longrightarrow> \<not> array_node e \<Longrightarrow> list_all field_fine (object_fields v)"
  by (auto simp: value_ok_def object_fields_def list_all_iff js_def split: if_splits dest!: set_zip_rightD)

lemma contribution_ok:
  assumes "below_ok e f" "size x < size e" "all_json well_shaped x" "is_truthy (Some x)" "\<not> array_node x"
  shows "\<exists>c. contribution f l n x = Some c \<and> (\<forall>kvs. list_all field_fine kvs \<longrightarrow> list_all field_fine (contribute c kvs))"
proof (cases "structured_schema x \<or> array_schema x")
  case True
  let ?s = "if structured_schema x \<and> (truthy_entry ''anyOf'' x \<or> truthy_entry ''oneOf'' x) \<and> n > 0 then nat_text n else []"
  obtain v where "sub_value f (l + 1) ?s x = Some v" "list_all field_fine (object_fields v)"
    using sub_value_ok [OF assms(1-4), of "l + 1" ?s] value_ok_fields [OF _ assms(5)] by blast
  then have "contribution f l n x = Some (Fields (object_fields v)) \<and> list_all field_fine (object_fields v)"
    using True assms(4) by (auto simp: contribution_def split: if_splits)
  then show ?thesis by (simp add: put_entries_all)
next
  case False
  then show ?thesis using assms(4) put_entries_all [of field_fine "[]"]
    by (auto simp: contribution_def intro!: put_entry_all) (simp add: js_def)
qed

lemma all_of_ok:
  assumes "below_ok e f" "all_json well_shaped e" "truthy_entry ''allOf'' e"
  shows "converted e (all_of_notation f l e)"
proof -
  have "is_array (entry ''allOf'' e)" "list_all (\<lambda>x. is_truthy (Some x) \<and> \<not> array_node x) (array_items (entry ''allOf'' e))"
    using all_json_here [OF assms(2)] assms(3) by (auto simp: well_shaped_def)
  then obtain vs where vs: "entry ''allOf'' e = Some (JArr vs)" "list_all (\<lambda>x. is_truthy (Some x) \<and> \<not> array_node x) vs"
    by (cases "entry ''allOf'' e" rule: is_array.cases) auto
  show ?thesis
  proof (cases "single_simple vs")
    case True
    then have "is_truthy (Some (hd vs))" using vs(2) by (cases vs) (auto simp: single_simple_def)
    then show ?thesis using True vs(1) assms(3)
      by (simp add: all_of_notation_def single_simple_def converted_def value_ok_def notated_value_def text_node_def)
  next
    case False
    let ?P = "\<lambda>c. \<forall>kvs. list_all field_fine kvs \<longrightarrow> list_all field_fine (contribute c kvs)"
    have "\<exists>c. contribution f l n x = Some c \<and> ?P c" if "x \<in> set vs" for n x
      using contribution_ok [OF assms(1)] agree_below_entry [of e f f "''allOf''" "JArr vs" x]
        all_json_item [OF assms(2) vs(1), of x] that vs by (simp add: agree_below_def list_all_iff)
    then have "\<exists>c. (\<lambda>(n, x). contribution f l n x) z = Some c \<and> ?P c" if "z \<in> set (zip [0..<length vs] vs)" for z
      using that by (cases z) (auto dest: set_zip_rightD)
    from those_total [of _ "\<lambda>(n, x). contribution f l n x" ?P, OF this]
    obtain cs where cs: "those (map (\<lambda>(n, x). contribution f l n x) (zip [0..<length vs] vs)) = Some cs" "list_all ?P cs" by blast
    have "list_all field_fine kvs \<Longrightarrow> list_all field_fine (fold contribute cs kvs)" for kvs
      using cs(2) by (induction cs arbitrary: kvs) auto
    from this [of "[]"] show ?thesis using False cs(1) vs(1) assms(3)
      by (auto simp: all_of_notation_def single_simple_def converted_def value_ok_def notated_value_def text_node_def
        array_node_def plain_schema_def)
  qed
qed

lemma map_filter_Nil: "List.map_filter h xs = [] \<longleftrightarrow> list_all (\<lambda>x. h x = None) xs"
  by (induction xs) (auto simp: map_filter_simps split: option.splits)

lemma type_texts_Some: "list_all (\<lambda>v. case v of JStr t \<Rightarrow> True | _ \<Rightarrow> False) vs \<Longrightarrow>
    \<exists>ts. those (map (\<lambda>v. case v of JStr t \<Rightarrow> Some t | _ \<Rightarrow> None) vs) = Some ts \<and> vs = map JStr ts"
  by (induction vs) (auto split: json.splits)

lemma sub_item_ok:
  assumes "below_ok e f" "all_json well_shaped e" "nested_ok (item_of e)"
  shows "\<exists>p. sub_value f l s (item_of e) = Some p \<and> viewable (Some p) \<and> (is_truthy (Some (item_of e)) \<longrightarrow> field_ok (k, p))"
proof (cases "is_truthy (Some (item_of e))")
  case True
  then obtain i where i: "entry ''items'' e = Some i" "item_of e = i" by (cases "entry ''items'' e") (auto simp: item_of_def)
  then show ?thesis using sub_value_ok [OF assms(1) size_entry_less [OF i(1)] all_json_entry [OF assms(2) i(1)], of l s] True assms(3)
      value_ok_viewable value_ok_field by blast
qed (simp add: sub_value_def)

lemma head_fields_ok:
  assumes "well_shaped e"
  shows "field_fine (js ''::title'', or_empty_text (entry ''title'' e))"
    "field_fine (js ''::description'', or_empty_text (entry ''description'' e))"
    "field_fine (js ''::deprecated'', if truthy_entry ''deprecated'' e then the (entry ''deprecated'' e) else JBool False)"
  using field_ok_special [OF assms, of "''title''"] field_ok_special [OF assms, of "''description''"] field_ok_special [OF assms, of "''deprecated''"]
  by (auto simp: field_fine_def js_def)

lemma type_option_ok:
  assumes "below_ok e f" "all_json well_shaped e" "nested_ok (item_of e)"
  shows "\<exists>o'. type_option f l e t = Some o' \<and> (\<forall>v k. o' = Some v \<longrightarrow> field_ok (k, v))"
proof -
  note head = head_fields_ok [OF all_json_here [OF assms(2)]]
  let ?h = "[(js ''::title'', or_empty_text (entry ''title'' e)), (js ''::description'', or_empty_text (entry ''description'' e)),
     (js ''::type'', JStr (js ''object'')),
     (js ''::deprecated'', if truthy_entry ''deprecated'' e then the (entry ''deprecated'' e) else JBool False)]"
  have "list_all field_fine ?h" using head by (simp add: js_def)
  then obtain r where r: "typed_fields f l e ?h = Some r" "list_all field_fine r" using typed_fields_ok [OF assms(1,2)] by blast
  obtain p where p: "sub_value f (l + 1) [] (item_of e) = Some p" "viewable (Some p)" using sub_item_ok [OF assms] by blast
  have "child (JObj [(js ''::title'', a), (js ''::description'', b), (js ''::type'', JStr (js ''array'')), (js ''::props'', p)]) = Some p" for a b
    by (simp add: child_def text_entry_def js_def)
  then show ?thesis using r p fine_object [OF r(2)] by (auto simp: type_option_def field_ok_def)
qed

lemma type_choice_ok: "list_all (\<lambda>o'. \<forall>v k. o' = Some v \<longrightarrow> field_ok (k, v)) os \<Longrightarrow>
    \<exists>kvs. type_choice os label = Into kvs \<and> list_all field_fine kvs"
proof -
  assume "list_all (\<lambda>o'. \<forall>v k. o' = Some v \<longrightarrow> field_ok (k, v)) os"
  then have "list_all field_fine (concat (map (\<lambda>(n, o'). case o' of None \<Rightarrow> [] | Some v \<Rightarrow> [(js ''::OPTION~'' @ nat_text (n + 1), v)])
      (zip [0..<length os] os)))"
    by (fastforce simp: list_all_iff field_fine_def js_def split: option.splits dest!: set_zip_rightD)
  then have "list_all field_fine (put_entries ([(js ''::type'', JStr (js ''xxx-of-option''))] @
      concat (map (\<lambda>(n, o'). case o' of None \<Rightarrow> [] | Some v \<Rightarrow> [(js ''::OPTION~'' @ nat_text (n + 1), v)]) (zip [0..<length os] os)) @
      [(js ''::OPTION~'' @ nat_text (length os + 1), JStr label)]) [])" (is "list_all _ ?kvs")
    by (intro put_entries_all) (auto simp: js_def)
  from object_field_fine [OF this] have "list_all field_fine [(js ''::type'', JStr (js ''object'')), (js ''::ONE~OF'', JObj ?kvs)]"
    by (simp only: list.pred_inject field_fine_text js_inj prod.inject) simp
  then show ?thesis unfolding type_choice_def Let_def by blast
qed

lemma type_list_ok:
  assumes "below_ok e f" "all_json well_shaped e" "is_array (entry ''type'' e)"
    "\<not> truthy_entry ''allOf'' e" "\<not> truthy_entry ''anyOf'' e" "\<not> truthy_entry ''oneOf'' e"
  shows "converted e (type_list_notation f l e)"
proof -
  have ne: "nested_ok (item_of e)" and "list_all (\<lambda>v. case v of JStr t \<Rightarrow> True | _ \<Rightarrow> False) (array_items (entry ''type'' e))"
    using all_json_here [OF assms(2)] assms(3) by (auto simp: well_shaped_def)
  then obtain ts where ts: "type_texts e = Some ts" "array_items (entry ''type'' e) = map JStr ts"
    unfolding type_texts_def using type_texts_Some by blast
  have tn: "text_node e \<longleftrightarrow> ts \<noteq> [] \<and> list_all (\<lambda>t. type_label e t \<noteq> None) ts"
    using assms(3-6) ts(2) by (simp add: text_node_def list_all_iff)
  have an: "\<not> array_node e" using assms(3) by (simp add: array_node_def plain_schema_def)
  let ?others = "filter (\<lambda>t. type_label e t = None) ts"
  show ?thesis
  proof (cases "?others = []")
    case True
    then have "list_all (\<lambda>t. type_label e t \<noteq> None) ts" by (simp add: filter_empty_conv list_all_iff)
    moreover from this have "List.map_filter (type_label e) ts = [] \<longleftrightarrow> ts = []" by (cases ts) (auto simp: map_filter_simps)
    ultimately show ?thesis using True ts(1) tn an assms(4)
      by (auto simp: type_list_notation_def converted_def value_ok_def notated_value_def Let_def)
  next
    case False
    let ?P = "\<lambda>o'. \<forall>v k. o' = Some v \<longrightarrow> field_ok (k, v)"
    obtain os where os: "those (map (type_option f l e) ?others) = Some os" "list_all ?P os"
      using those_total [of ?others "type_option f l e" ?P] type_option_ok [OF assms(1,2) ne] by blast
    have "\<not> text_node e" using False tn by (auto simp: list_all_iff filter_empty_conv)
    moreover obtain label kvs where "type_list_notation f l e = Some (Into kvs)" "list_all field_fine kvs"
    proof -
      have "\<exists>label. type_list_notation f l e = Some (type_choice os label)"
        using False by (auto simp: type_list_notation_def Let_def ts(1) os(1))
      then show ?thesis using that type_choice_ok [OF os(2)] by metis
    qed
    ultimately show ?thesis using an assms(4) by (simp add: converted_def value_ok_def notated_value_def)
  qed
qed

lemma common_fields_ok:
  assumes "well_shaped e"
  shows "list_all field_ok (common_fields l t e)" "t \<noteq> ''array'' \<Longrightarrow> list_all field_fine (common_fields l t e)"
proof -
  note head = head_fields_ok [OF assms]
  have "field_fine (js ''::nullable'', JBool True)" by (simp add: field_fine_def field_ok_def js_def special_keys_def container_def text_entry_def)
  then have "list_all field_ok (common_fields l t e) \<and> (t \<noteq> ''array'' \<longrightarrow> list_all field_fine (common_fields l t e))"
    using head js_inj [of t "''array''"] by (auto simp: common_fields_def field_fine_def)
  then show "list_all field_ok (common_fields l t e)" "t \<noteq> ''array'' \<Longrightarrow> list_all field_fine (common_fields l t e)" by auto
qed

lemma pattern_fields_ok:
  assumes "below_ok e f" "all_json well_shaped e"
  shows "\<exists>ps. pattern_fields f l e = Some ps \<and> list_all field_fine ps"
proof -
  let ?g = "\<lambda>(k, p). let key = js ''[pattern: '' @ k @ js '']'' in
         if \<not> is_truthy (Some p) then Some (key, JNull)
         else case f (l + 1) [] p of Some (Fresh v) \<Rightarrow> Some (key, v) | _ \<Rightarrow> None"
  have "\<exists>y. ?g x = Some y \<and> field_fine y" if x: "x \<in> set (obj_fields (entry ''patternProperties'' e))" for x
  proof -
    obtain k p where [simp]: "x = (k, p)" by (cases x)
    have p: "is_truthy (Some p)" "truthy_entry ''allOf'' p \<or> text_node p"
      using x all_json_here [OF assms(2)] by (auto simp: well_shaped_def list_all_iff)
    have "size p < size e" "all_json well_shaped p" using x size_field_less all_json_field [OF assms(2)] by auto
    then have "converted p (f (l + 1) [] p)" using assms(1) p(1) by (auto simp: below_ok_def)
    then obtain v where "f (l + 1) [] p = Some (Fresh v)" "value_ok p v"
      using p(2) by (auto simp: converted_def notated_value_def split: option.splits)
    then show ?thesis using p(1) value_ok_field by (auto simp: field_fine_def js_def)
  qed
  from those_total [of _ ?g field_fine, OF this] show ?thesis unfolding pattern_fields_def by blast
qed

lemma object_notation_ok:
  assumes "below_ok e f" "all_json well_shaped e" "plain_schema e" "object_schema e"
  shows "converted e (object_notation f l e)"
proof -
  obtain kvs where kvs: "typed_fields f l e (common_fields l ''object'' e) = Some kvs" "list_all field_fine kvs"
    using typed_fields_ok [OF assms(1,2), of "common_fields l ''object'' e"] common_fields_ok(2) [OF all_json_here [OF assms(2)], of "''object''"]
    by auto
  obtain ps where ps: "pattern_fields f l e = Some ps" "list_all field_fine ps" using pattern_fields_ok [OF assms(1,2)] by blast
  have "\<exists>ex. (if truthy_entry ''additionalProperties'' e
        then map_option (\<lambda>v. [(js ''[any-key]'', v)]) (sub_value f 0 [] (the (entry ''additionalProperties'' e))) else Some []) = Some ex \<and>
      list_all field_fine ex"
  proof (cases "truthy_entry ''additionalProperties'' e")
    case True
    then obtain x where x: "entry ''additionalProperties'' e = Some x" "is_truthy (Some x)" using truthy_entryD by blast
    obtain v where "sub_value f 0 [] x = Some v" "value_ok x v"
      using sub_value_ok [OF assms(1) size_entry_less [OF x(1)] all_json_entry [OF assms(2) x(1)] x(2)] by blast
    then show ?thesis using True x(1) value_ok_field by (auto simp: field_fine_def js_def)
  qed simp
  then show ?thesis using kvs ps assms(3,4)
    by (auto simp: object_notation_def converted_def value_ok_def notated_value_def text_node_def array_node_def plain_schema_def
      intro!: put_entries_all)
qed

lemma array_notation_ok:
  assumes "below_ok e f" "all_json well_shaped e" "array_node e"
  shows "converted e (array_notation f l e)"
proof -
  have ne: "nested_ok (item_of e)" using all_json_here [OF assms(2)] assms(3) by (auto simp: well_shaped_def)
  obtain p where p: "sub_value f (l + 1) [] (item_of e) = Some p" "viewable (Some p)"
      "is_truthy (Some (item_of e)) \<longrightarrow> field_ok (js ''::props'', p)"
    using sub_item_ok [OF assms(1,2) ne] by blast
  define at where "at = (if truthy_entry ''items'' (item_of e)
          then [(js ''::array-type'', case entry ''type'' (the (entry ''items'' (item_of e))) of None \<Rightarrow> JNull | Some t \<Rightarrow> t)] else [])"
  let ?v = "JObj (common_fields l ''array'' e @ at @ [(js ''::props'', p)])"
  have "child ?v = Some p" by (simp add: child_def text_entry_def common_fields_def at_def js_def)
  moreover have "viewable (Some ?v)" if n: "nested_ok e"
  proof -
    have "list_all field_ok at"
    proof (cases "truthy_entry ''items'' (item_of e)")
      case True
      then obtain i where "entry ''items'' (item_of e) = Some i" using truthy_entryD by blast
      moreover from this obtain t where "entry ''type'' i = Some t" "t \<noteq> JNull" "\<not> container t"
        using n assms(3) True by (auto simp: nested_ok_def item_of_def split: option.splits)
      ultimately show ?thesis using True by (simp add: at_def field_ok_def special_keys_def)
    qed (simp add: at_def)
    then show ?thesis using n assms(3) p(3) common_fields_ok(1) [OF all_json_here [OF assms(2)]] by (simp add: nested_ok_def)
  qed
  moreover have "array_notation f l e = Some (Into (common_fields l ''array'' e @ at @ [(js ''::props'', p)]))"
    using p(1) by (simp add: array_notation_def at_def)
  ultimately show ?thesis using p(2) assms(3)
    by (auto simp: converted_def value_ok_def notated_value_def text_node_def array_node_def plain_schema_def)
qed

lemma convert_step_ok:
  assumes "below_ok e f" "all_json well_shaped e"
  shows "converted e (convert_step f l s e)"
  using all_of_ok [OF assms] one_of_ok [OF assms] type_list_ok [OF assms] object_notation_ok [OF assms] array_notation_ok [OF assms]
  by (auto simp: convert_step_def array_node_def plain_schema_def converted_def value_ok_def notated_value_def text_node_def)

lemma schema_converted: "all_json well_shaped e \<Longrightarrow> converted e (schemaInObjectNotation l s e)"
proof (induction l s e rule: schemaInObjectNotation.induct)
  case (1 l s e)
  then have "below_ok e schemaInObjectNotation" by (simp add: below_ok_def)
  from convert_step_ok [OF this "1.prems"] show ?case by (subst schemaInObjectNotation.simps)
qed

subsection \<open>Access marks\<close>

lemma map_of_put_entries: "k \<notin> fst ` set new \<Longrightarrow> map_of (put_entries new kvs) k = map_of kvs k"
  unfolding put_entries_def by (induction new arbitrary: kvs) (auto simp: map_of_put_entry)

lemma those_SomeD: "those (map f xs) = Some ys \<Longrightarrow> y \<in> set ys \<Longrightarrow> \<exists>x \<in> set xs. f x = Some y"
  by (induction xs arbitrary: ys) (auto split: option.splits)

lemma those_None: "x \<in> set xs \<Longrightarrow> f x = None \<Longrightarrow> those (map f xs) = None"
  by (induction xs) (auto split: option.splits)

lemma starred_key: "\<not> startsWith k (js ''::'') \<Longrightarrow> \<not> startsWith (k @ js ''*'') (js ''::'')"
  by (cases k; cases "tl k") (auto simp: startsWith_Cons js_def)

lemma own_fields:
  assumes "object_notation f l e = Some x" "list_all (\<lambda>(k, v). \<not> startsWith k (js ''::'')) (obj_fields (entry ''properties'' e))"
    "startsWith k (js ''::'')"
  shows "\<exists>kvs. x = Into kvs \<and> map_of kvs k = map_of (common_fields l ''object'' e) k"
proof -
  obtain ps qs ex where parts: "prop_fields f l e = Some ps" "pattern_fields f l e = Some qs"
      "(if truthy_entry ''additionalProperties'' e
        then map_option (\<lambda>v. [(js ''[any-key]'', v)]) (sub_value f 0 [] (the (entry ''additionalProperties'' e))) else Some []) = Some ex"
    and x: "x = Into (put_entries (qs @ ex) (put_entries ps (common_fields l ''object'' e)))"
    using assms(1) unfolding object_notation_def typed_fields_def by (auto simp: bind_eq_Some_conv)
  have "\<not> startsWith k' (js ''::'')" if "(k', v) \<in> set ps" for k' v
    using those_SomeD [OF parts(1) [unfolded prop_fields_def] that] assms(2)
    by (fastforce simp: bind_eq_Some_conv prop_key_def list_all_iff dest: starred_key split: if_splits)
  then have "k \<notin> fst ` set ps" using assms(3) by auto
  moreover have "\<not> startsWith k' (js ''::'')" if "(k', v) \<in> set (qs @ ex)" for k' v
    using that parts(3) those_SomeD [OF parts(2) [unfolded pattern_fields_def], of "(k', v)"]
    by (auto simp: Let_def js_def startsWith_Cons split: if_splits option.splits notated.splits)
  then have "k \<notin> fst ` set (qs @ ex)" using assms(3) by fastforce
  ultimately show ?thesis unfolding x by (simp add: map_of_put_entries)
qed

lemma common_entries:
  "map_of (common_fields l t e) (js ''::type'') = Some (JStr (js t))"
  "map_of (common_fields l t e) (js ''::readwrite'') = Some (JStr (access_of e))"
  by (simp_all add: common_fields_def js_inj)

lemma primitive_mark:
  assumes "is_truthy (Some e)" "126 \<notin> set (type_name e)"
  shows "p_readwrite (primitive_of (info_text e)) =
    (if truthy_entry ''readOnly'' e then ro_mark else if truthy_entry ''writeOnly'' e then wo_mark else [])"
proof -
  obtain i where i: "getTypeInfo (Some e) = Some i" using assms(1) by (simp add: getTypeInfo_def Let_def)
  let ?m = "ti_readOrWriteOnly i"
  have t: "ti_type i = type_name e" using i assms(1) unfolding getTypeInfo_def Let_def by auto
  have m: "126 \<notin> set ?m" using typeInfo_mark [OF i] by (simp add: ro_mark_def wo_mark_def)
  obtain r where h: "ti_html i = type_name e @ separator @ ?m @ separator @ r" unfolding typeInfo_html [OF i] t by simp
  have "split_parts (type_name e @ separator @ s) = type_name e # split_parts s" for s
    using find_separator [OF assms(2), of s] by (subst split_parts.simps) (simp add: separator_def)
  moreover have "split_parts (?m @ separator @ r) = ?m # split_parts r"
    using find_separator [OF m, of r] by (subst split_parts.simps) (simp add: separator_def)
  ultimately have "split_parts (ti_html i) = type_name e # ?m # split_parts r" unfolding h by metis
  then show ?thesis using typeInfo_mark [OF i] i by (simp add: primitive_of_def info_text_def part_def nth_opt_def or_empty_def Let_def)
qed

lemma info_text_not_Nil: "is_truthy (Some e) \<Longrightarrow> info_text e \<noteq> []"
proof -
  assume "is_truthy (Some e)"
  then obtain i where i: "getTypeInfo (Some e) = Some i" by (simp add: getTypeInfo_def Let_def)
  show ?thesis using typeInfo_html [OF i] i by (simp add: info_text_def)
qed

lemma colon_keys: "startsWith (js ''::type'') (js ''::'')" "startsWith (js ''::readwrite'') (js ''::'')"
  by (simp_all add: js_def startsWith_Cons)

lemma plain_step:
  "plain_schema e \<Longrightarrow> convert_step f l s e =
    (if object_schema e then object_notation f l e else if array_schema e then array_notation f l e else Some (Fresh (JStr (info_text e))))"
  by (simp add: convert_step_def plain_schema_def)

lemma hidden_left_out:
  "hidden c e t a \<Longrightarrow> schema_tree c e t at k d i a dep = [] \<and> schema_table c e t at k d i a dep = []"
  by (simp add: schema_tree.simps [of c e] schema_table.simps [of c e])

lemma hidden_primitive_left_out:
  "hidden_primitive c (primitive_of s) \<Longrightarrow> s \<noteq> [] \<Longrightarrow>
    schema_tree c (Some (JStr s)) t at k d i a dep = [] \<and> schema_table c (Some (JStr s)) t at k d i a dep = []"
  by (simp add: schema_tree.simps [of c "Some (JStr s)"] schema_table.simps [of c "Some (JStr s)"])

section \<open>Properties\<close>

text \<open>
  C23: every schema whose parts are well shaped is converted, and the views can show the result: they never read the type of
  an undefined field. Well shaped means: a required list, properties and combined schemas that are there, options of
  an \<open>anyOf\<close> or \<open>oneOf\<close> that are not turned into texts although they have a structure, patterns for simple values,
  and inner arrays that say what they hold.
\<close>

theorem conversion_is_viewable:
  assumes "all_json well_shaped e" "is_truthy (Some e)"
  shows "\<exists>v. notation_of (Some e) = Some (Some v) \<and> viewable (child v)"
  using schema_converted [OF assms(1), of 0 "[]"] assms(2) value_ok_child
  by (auto simp: notation_of_def converted_def split: option.splits)

definition typed :: "string \<Rightarrow> json" where
  "typed t = JObj [(js ''type'', JStr (js t))]"

definition message_schema :: json where
  "message_schema = JObj [(js ''type'', JStr (js ''object'')), (js ''required'', JArr [JStr (js ''to'')]),
     (js ''properties'', JObj [(js ''to'', JObj [(js ''type'', JStr (js ''array'')), (js ''items'', typed ''string'')]),
        (js ''content'', JObj [(js ''oneOf'', JArr [typed ''string'',
           JObj [(js ''title'', JStr (js ''media'')), (js ''properties'', JObj [(js ''url'', typed ''string'')])]])])])]"

theorem conversion_is_viewable_witness: "\<exists>v. notation_of (Some message_schema) = Some (Some v) \<and> viewable (child v)"
proof (rule conversion_is_viewable)
  show "all_json well_shaped message_schema"
    by (simp add: message_schema_def typed_def well_shaped_def truthy_entry_def obj_fields_def array_node_def plain_schema_def
        object_schema_def has_type_def array_schema_def nested_ok_def item_of_def option_ok_def text_node_def structured_schema_def
        js_inj startsWith_def Let_def) (simp add: js_def container_def)
qed (simp add: message_schema_def)


definition server_id :: json where
  "server_id = JObj [(js ''type'', JStr (js ''string'')), (js ''readOnly'', JBool True)]"

definition request_view :: schema_cfg where
  "request_view = \<lparr>schemaHideReadOnly = True, schemaHideWriteOnly = False, schemaExpandLevel = 9, schemaDescriptionExpanded = True,
     allowSchemaDescriptionExpandToggle = True, num_text = nat_text\<rparr>"


text \<open>
  the access of a schema that is combined from others is lost: with or without \<open>readOnly\<close> it is converted into the
  same notation, so a read-only field described by \<open>allOf\<close>, \<open>anyOf\<close> or \<open>oneOf\<close> is shown and offered as if it could be
  written.
\<close>

theorem combined_access_is_lost:
  assumes "truthy_entry ''allOf'' (JObj kvs) \<or> truthy_entry ''anyOf'' (JObj kvs) \<or> truthy_entry ''oneOf'' (JObj kvs)"
  shows "schemaInObjectNotation l s (JObj (put_entry (js ''readOnly'') (JBool b) kvs)) = schemaInObjectNotation l s (JObj kvs)"
proof -
  let ?e = "JObj (put_entry (js ''readOnly'') (JBool b) kvs)"
  have same: "entry k ?e = entry k (JObj kvs)" if "k \<noteq> ''readOnly''" for k using that by (simp add: map_of_put_entry js_inj)
  then have "truthy_entry k ?e = truthy_entry k (JObj kvs)" if "k \<noteq> ''readOnly''" for k using that by (simp add: truthy_entry_def)
  moreover have "obj_fields (entry ''properties'' ?e) = obj_fields (entry ''properties'' (JObj kvs))"
    by (simp add: same del: entry.simps)
  moreover have "prop_key ?e k = prop_key (JObj kvs) k" for k
    using same [of "''required''"] calculation(1) [of "''required''"] by (simp add: prop_key_def requires_key_def del: entry.simps)
  ultimately show ?thesis using assms unfolding schemaInObjectNotation.simps [of l s]
    by (auto simp: convert_step_def all_of_notation_def one_of_notation_def same object_schema_def has_type_def typed_fields_def prop_fields_def
      simp del: entry.simps)
qed

theorem combined_access_is_lost_witness:
  "schemaInObjectNotation 1 [] (JObj (put_entry (js ''readOnly'') (JBool True) [(js ''allOf'', JArr [message_schema, message_schema])])) =
    schemaInObjectNotation 1 [] (JObj [(js ''allOf'', JArr [message_schema, message_schema])])"
  by (rule combined_access_is_lost) (simp add: truthy_entry_def js_inj)

text \<open>
  two kinds of schemas make the conversion fail: an object with a pattern property that is itself an object or an array
  (the result would contain itself), and a choice with an option that is a single simple schema under \<open>allOf\<close> (the
  conversion writes a field into the text the option was turned into, which throws).
\<close>

theorem some_schemas_cannot_be_converted:
  "(plain_schema e \<and> object_schema e \<and> (k, p) \<in> set (obj_fields (entry ''patternProperties'' e)) \<and>
      plain_schema p \<and> (object_schema p \<or> array_schema p) \<longrightarrow> schemaInObjectNotation l s e = None) \<and>
   (\<not> truthy_entry ''allOf'' e \<and> \<not> truthy_entry ''anyOf'' e \<and> entry ''oneOf'' e = Some (JArr vs) \<and> x \<in> set vs \<and>
      entry ''allOf'' x = Some (JArr [y]) \<and> single_simple [y] \<longrightarrow> schemaInObjectNotation l s e = None)"
proof (intro conjI impI; elim conjE)
  assume e: "plain_schema e" "object_schema e" "(k, p) \<in> set (obj_fields (entry ''patternProperties'' e))"
    and p: "plain_schema p" "object_schema p \<or> array_schema p"
  have "is_truthy (Some p)" using p(2) by (cases p) (auto simp: object_schema_def array_schema_def has_type_def truthy_entry_def)
  moreover have "(case schemaInObjectNotation (l + 1) [] p of Some (Fresh v) \<Rightarrow> Some (key, v) | _ \<Rightarrow> None) = None" for key :: jstr
    using p by (auto simp: schemaInObjectNotation.simps [of _ _ p] plain_step object_notation_def array_notation_def bind_eq_Some_conv
      split: option.splits notated.splits)
  ultimately have "pattern_fields schemaInObjectNotation l e = None"
    unfolding pattern_fields_def by (intro those_None [OF e(3)]) (simp add: Let_def)
  then show "schemaInObjectNotation l s e = None"
    using e(1,2) by (auto simp: schemaInObjectNotation.simps [of l s e] plain_step object_notation_def bind_eq_None_conv)
next
  assume e: "\<not> truthy_entry ''allOf'' e" "\<not> truthy_entry ''anyOf'' e" "entry ''oneOf'' e = Some (JArr vs)"
    and x: "x \<in> set vs" "entry ''allOf'' x = Some (JArr [y])" "single_simple [y]"
  obtain n where "(n, x) \<in> set (zip [0..<length vs] vs)"
    using x(1) by (metis in_set_conv_nth in_set_zip fst_conv snd_conv length_upt minus_nat.diff_0 nth_upt add_0)
  moreover have "truthy_entry ''allOf'' x" using x(2) by (simp add: truthy_entry_def)
  then have "option_fields schemaInObjectNotation n x = None" for n
    using x(2,3) by (auto simp: option_fields_def structured_schema_def sub_value_def schemaInObjectNotation.simps [of _ _ x] convert_step_def
      all_of_notation_def single_simple_def notated_value_def clear_mark_def)
  ultimately have "options_object schemaInObjectNotation vs = None"
    unfolding options_object_def by (auto intro!: those_None)
  then show "schemaInObjectNotation l s e = None"
    using e by (simp add: schemaInObjectNotation.simps [of l s e] convert_step_def one_of_notation_def truthy_entry_def bind_eq_None_conv)
qed

theorem some_schemas_cannot_be_converted_witness:
  "schemaInObjectNotation 0 [] (JObj [(js ''type'', JStr (js ''object'')), (js ''patternProperties'', JObj [(js ''^x-'', typed ''object'')])]) = None \<and>
   schemaInObjectNotation 0 [] (JObj [(js ''oneOf'', JArr [JObj [(js ''allOf'', JArr [typed ''string''])]])]) = None"
proof (rule conjI)
  show "schemaInObjectNotation 0 [] (JObj [(js ''type'', JStr (js ''object'')), (js ''patternProperties'', JObj [(js ''^x-'', typed ''object'')])]) = None"
    by (rule some_schemas_cannot_be_converted [THEN conjunct1, rule_format, of _ "js ''^x-''" "typed ''object''"]) code_simp
  show "schemaInObjectNotation 0 [] (JObj [(js ''oneOf'', JArr [JObj [(js ''allOf'', JArr [typed ''string''])]])]) = None"
    by (rule some_schemas_cannot_be_converted [THEN conjunct2, rule_format, of _ "[JObj [(js ''allOf'', JArr [typed ''string''])]]"
        "JObj [(js ''allOf'', JArr [typed ''string''])]" "typed ''string''"]) code_simp
qed

end
