(* ===== verification/Web_Text.thy ===== *)
theory Web_Text
  imports Schema_Info
begin

text \<open>
  The functions of the language on text that the request panel of the API reference uses: \<open>JSON.stringify\<close> and
  \<open>JSON.parse\<close>, \<open>encodeURIComponent\<close> and the encoding of \<open>URLSearchParams\<close>, with the texts in UTF-8. Numbers in a
  parsed JSON text keep the form they are written in.
\<close>

section \<open>\<open>JSON.stringify\<close>\<close>

definition hex_digit :: "nat \<Rightarrow> jchar" where
  "hex_digit n = (if n < 10 then 48 + of_nat n else 87 + of_nat n)"

definition unicode_escape :: "jchar \<Rightarrow> jstr" where
  "unicode_escape c = js [CHR 0x5C, CHR ''u''] @
     map (\<lambda>k. hex_digit (unat c div 16 ^ k mod 16)) [3, 2, 1, 0]"

definition escape_char :: "jchar \<Rightarrow> jstr" where
  "escape_char c =
     (if c = 34 \<or> c = 92 then [92, c]
      else if c = 8 then [92, 98] else if c = 12 then [92, 102] else if c = 10 then [92, 110]
      else if c = 13 then [92, 114] else if c = 9 then [92, 116]
      else if c < 32 then unicode_escape c else [c])"

definition high_surrogate :: "jchar \<Rightarrow> bool" where "high_surrogate c \<longleftrightarrow> 0xD800 \<le> c \<and> c < 0xDC00"
definition low_surrogate :: "jchar \<Rightarrow> bool" where "low_surrogate c \<longleftrightarrow> 0xDC00 \<le> c \<and> c < 0xE000"

fun escape_text :: "jstr \<Rightarrow> jstr" where
  "escape_text [] = []"
| "escape_text (c # s) =
     (if high_surrogate c
      then (case s of d # s' \<Rightarrow> if low_surrogate d then c # d # escape_text s' else unicode_escape c @ escape_text s
            | [] \<Rightarrow> unicode_escape c)
      else if low_surrogate c then unicode_escape c @ escape_text s
      else escape_char c @ escape_text s)"

definition indent :: "nat \<Rightarrow> jstr" where
  "indent n = 10 # replicate (2 * n) 32"

fun stringify :: "nat \<Rightarrow> json \<Rightarrow> jstr" where
  \<comment> \<open>\<open>JSON.stringify(v, null, 2)\<close> at a depth\<close>
  "stringify n JNull = js ''null''"
| "stringify n (JBool b) = bool_text b"
| "stringify n (JNum x) = x"
| "stringify n (JStr s) = quoted (escape_text s)"
| "stringify n (JArr vs) =
     (if vs = [] then js ''[]''
      else js ''['' @ indent (n + 1) @ join (js '','' @ indent (n + 1)) (map (stringify (n + 1)) vs) @ indent n @ js '']'')"
| "stringify n (JObj kvs) =
     (if kvs = [] then js ''{}''
      else js ''{'' @ indent (n + 1) @
        join (js '','' @ indent (n + 1)) (map (\<lambda>(k, v). quoted (escape_text k) @ js '': '' @ stringify (n + 1) v) kvs) @
        indent n @ js ''}'')"

fun compact :: "json \<Rightarrow> jstr" where
  \<comment> \<open>\<open>JSON.stringify(v)\<close>\<close>
  "compact JNull = js ''null''"
| "compact (JBool b) = bool_text b"
| "compact (JNum x) = x"
| "compact (JStr s) = quoted (escape_text s)"
| "compact (JArr vs) = js ''['' @ join (js '','') (map compact vs) @ js '']''"
| "compact (JObj kvs) = js ''{'' @ join (js '','') (map (\<lambda>(k, v). quoted (escape_text k) @ js '':'' @ compact v) kvs) @ js ''}''"

section \<open>Encoding\<close>

fun code_points :: "jstr \<Rightarrow> nat list" where
  "code_points [] = []"
| "code_points [c] = [unat c]"
| "code_points (c # d # s) =
     (if high_surrogate c \<and> low_surrogate d
      then (0x10000 + (unat c - 0xD800) * 0x400 + (unat d - 0xDC00)) # code_points s
      else unat c # code_points (d # s))"

definition lone_surrogate :: "nat \<Rightarrow> bool" where
  "lone_surrogate n \<longleftrightarrow> 0xD800 \<le> n \<and> n < 0xE000"

definition utf8 :: "nat \<Rightarrow> nat list" where
  "utf8 n =
     (if n < 0x80 then [n]
      else if n < 0x800 then [0xC0 + n div 64, 0x80 + n mod 64]
      else if n < 0x10000 then [0xE0 + n div 4096, 0x80 + n div 64 mod 64, 0x80 + n mod 64]
      else [0xF0 + n div 262144, 0x80 + n div 4096 mod 64, 0x80 + n div 64 mod 64, 0x80 + n mod 64])"

definition hex_upper :: "nat \<Rightarrow> jchar" where
  "hex_upper n = (if n < 10 then of_nat (48 + n) else of_nat (55 + n))"

definition pct :: "nat \<Rightarrow> jstr" where
  "pct b = [37, hex_upper (b div 16), hex_upper (b mod 16)]"

definition alnum :: "nat \<Rightarrow> bool" where
  "alnum n \<longleftrightarrow> 48 \<le> n \<and> n \<le> 57 \<or> 65 \<le> n \<and> n \<le> 90 \<or> 97 \<le> n \<and> n \<le> 122"

definition uri_keeps :: "nat \<Rightarrow> bool" where
  "uri_keeps n \<longleftrightarrow> alnum n \<or> n \<in> set (map of_char ''-_.!~*()'') \<or> n = 39"

definition encodeURIComponent :: "jstr \<Rightarrow> jstr option" where
  \<comment> \<open>\<open>None\<close>: it throws a \<open>URIError\<close>\<close>
  "encodeURIComponent s =
     (let cs = code_points s in
      if list_ex lone_surrogate cs then None
      else Some (concat (map (\<lambda>n. if uri_keeps n then [of_nat n] else concat (map pct (utf8 n))) cs)))"

definition form_keeps :: "nat \<Rightarrow> bool" where
  "form_keeps n \<longleftrightarrow> alnum n \<or> n \<in> set (map of_char ''*-._'')"

definition scalar :: "nat \<Rightarrow> nat" where
  "scalar n = (if lone_surrogate n then 0xFFFD else n)"

definition form_byte :: "nat \<Rightarrow> jstr" where
  "form_byte b = (if form_keeps b then [of_nat b] else if b = 32 then [43] else pct b)"

definition text_bytes :: "jstr \<Rightarrow> nat list" where
  \<comment> \<open>the text in UTF-8\<close>
  "text_bytes s = concat (map (utf8 \<circ> scalar) (code_points s))"

definition form_encode :: "jstr \<Rightarrow> jstr" where
  "form_encode s = concat (map form_byte (text_bytes s))"

definition form_pair :: "jstr \<times> jstr \<Rightarrow> jstr" where
  "form_pair kv = form_encode (fst kv) @ js ''='' @ form_encode (snd kv)"

definition params_text :: "(jstr \<times> jstr) list \<Rightarrow> jstr" where
  \<comment> \<open>\<open>URLSearchParams.toString()\<close>\<close>
  "params_text kvs = join (js ''&'') (map form_pair kvs)"

section \<open>\<open>JSON.parse\<close>\<close>

definition json_space :: "jchar \<Rightarrow> bool" where
  "json_space c \<longleftrightarrow> c = 9 \<or> c = 10 \<or> c = 13 \<or> c = 32"

definition skip_space :: "jstr \<Rightarrow> jstr" where
  "skip_space s = dropWhile json_space s"

definition digit_char :: "jchar \<Rightarrow> bool" where
  "digit_char c \<longleftrightarrow> 48 \<le> c \<and> c \<le> 57"

definition hex_value :: "jchar \<Rightarrow> nat option" where
  "hex_value c =
     (if 48 \<le> c \<and> c \<le> 57 then Some (unat c - 48) else if 65 \<le> c \<and> c \<le> 70 then Some (unat c - 55)
      else if 97 \<le> c \<and> c \<le> 102 then Some (unat c - 87) else None)"

definition simple_escape :: "jchar \<Rightarrow> jchar option" where
  "simple_escape c = map_of [(34, 34), (92, 92), (47, 47), (98, 8), (102, 12), (110, 10), (114, 13), (116, 9)] c"

fun parse_chars :: "jstr \<Rightarrow> (jstr \<times> jstr) option" where
  \<comment> \<open>the rest of a string after its opening quote\<close>
  "parse_chars [] = None"
| "parse_chars (c # s) =
     (if c = 34 then Some ([], s)
      else if c < 32 then None
      else if c \<noteq> 92 then map_option (\<lambda>(x, r). (c # x, r)) (parse_chars s)
      else (case s of
          [] \<Rightarrow> None
        | d # s' \<Rightarrow>
            if d = 117 then
              (case s' of
                 a # b # c' # d' # r \<Rightarrow>
                   (case (hex_value a, hex_value b, hex_value c', hex_value d') of
                      (Some p, Some q, Some u, Some v) \<Rightarrow>
                        map_option (\<lambda>(x, r'). (of_nat (((p * 16 + q) * 16 + u) * 16 + v) # x, r')) (parse_chars r)
                    | _ \<Rightarrow> None)
               | _ \<Rightarrow> None)
            else (case simple_escape d of None \<Rightarrow> None | Some e \<Rightarrow> map_option (\<lambda>(x, r). (e # x, r)) (parse_chars s'))))"

definition take_digits :: "jstr \<Rightarrow> (jstr \<times> jstr) option" where
  \<comment> \<open>at least one digit\<close>
  "take_digits s = (let d = takeWhile digit_char s in if d = [] then None else Some (d, drop (length d) s))"

definition int_part :: "jstr \<Rightarrow> (jstr \<times> jstr) option" where
  "int_part s = (case s of c # r \<Rightarrow> if c = 48 then Some ([48], r) else take_digits s | [] \<Rightarrow> None)"

definition frac_part :: "jstr \<Rightarrow> (jstr \<times> jstr) option" where
  "frac_part s = (case s of c # r \<Rightarrow> if c = 46 then map_option (apfst ((#) 46)) (take_digits r) else Some ([], s) | [] \<Rightarrow> Some ([], s))"

definition exp_part :: "jstr \<Rightarrow> (jstr \<times> jstr) option" where
  "exp_part s =
     (case s of
        c # r \<Rightarrow>
          if c = 101 \<or> c = 69
          then (case r of d # r' \<Rightarrow> if d = 43 \<or> d = 45 then map_option (apfst (\<lambda>x. c # d # x)) (take_digits r') else map_option (apfst ((#) c)) (take_digits r)
                | [] \<Rightarrow> None)
          else Some ([], s)
      | [] \<Rightarrow> Some ([], s))"

definition parse_number :: "jstr \<Rightarrow> (json \<times> jstr) option" where
  "parse_number s =
     (let neg = startsWith s (js ''-''); s0 = (if neg then tl s else s) in
      case int_part s0 of
        None \<Rightarrow> None
      | Some (i, s1) \<Rightarrow>
         (case frac_part s1 of
            None \<Rightarrow> None
          | Some (f, s2) \<Rightarrow> (case exp_part s2 of None \<Rightarrow> None | Some (x, s3) \<Rightarrow> Some (JNum ((if neg then [45] else []) @ i @ f @ x), s3))))"

fun parse_value :: "nat \<Rightarrow> jstr \<Rightarrow> (json \<times> jstr) option"
  and parse_items :: "nat \<Rightarrow> json list \<Rightarrow> jstr \<Rightarrow> (json \<times> jstr) option"
  and parse_members :: "nat \<Rightarrow> (jstr \<times> json) list \<Rightarrow> jstr \<Rightarrow> (json \<times> jstr) option" where
  "parse_value 0 s = None"
| "parse_value (Suc n) s =
     (let s' = skip_space s in
      if startsWith s' (js ''null'') then Some (JNull, drop 4 s')
      else if startsWith s' (js ''true'') then Some (JBool True, drop 4 s')
      else if startsWith s' (js ''false'') then Some (JBool False, drop 5 s')
      else (case s' of
          [] \<Rightarrow> None
        | c # r \<Rightarrow>
            if c = 34 then map_option (apfst JStr) (parse_chars r)
            else if c = 91 then (if startsWith (skip_space r) (js '']'') then Some (JArr [], drop 1 (skip_space r)) else parse_items n [] r)
            else if c = 123 then (if startsWith (skip_space r) (js ''}'') then Some (JObj [], drop 1 (skip_space r)) else parse_members n [] r)
            else parse_number s'))"
| "parse_items 0 acc s = None"
| "parse_items (Suc n) acc s =
     (case parse_value n s of
        None \<Rightarrow> None
      | Some (v, r) \<Rightarrow>
         (case skip_space r of
            [] \<Rightarrow> None
          | c # r' \<Rightarrow> if c = 44 then parse_items n (acc @ [v]) r' else if c = 93 then Some (JArr (acc @ [v]), r') else None))"
| "parse_members 0 acc s = None"
| "parse_members (Suc n) acc s =
     (case skip_space s of
        [] \<Rightarrow> None
      | c # r \<Rightarrow>
          if c \<noteq> 34 then None
          else (case parse_chars r of
             None \<Rightarrow> None
           | Some (k, r1) \<Rightarrow>
              (case skip_space r1 of
                 [] \<Rightarrow> None
               | d # r2 \<Rightarrow>
                   if d \<noteq> 58 then None
                   else (case parse_value n r2 of
                      None \<Rightarrow> None
                    | Some (v, r3) \<Rightarrow>
                       (case skip_space r3 of
                          [] \<Rightarrow> None
                        | e # r4 \<Rightarrow>
                            if e = 44 then parse_members n (put_entry k v acc) r4
                            else if e = 125 then Some (JObj (put_entry k v acc), r4) else None)))))"

definition json_parse :: "jstr \<Rightarrow> json option" where
  \<comment> \<open>every call of the three readers eats a character or is followed by one that does, so twice the length is enough\<close>
  "json_parse s = (case parse_value (2 * length s + 2) s of Some (v, r) \<Rightarrow> if skip_space r = [] then Some v else None | None \<Rightarrow> None)"

section \<open>Reading a query string\<close>

text \<open>The \<open>application/x-www-form-urlencoded\<close> parser of a server: split at ampersands and equals signs, undo the escapes.\<close>

fun form_decode :: "jstr \<Rightarrow> nat list" where
  "form_decode [] = []"
| "form_decode (c # s) =
     (if c = 43 then 32 # form_decode s
      else if c = 37 then (case s of a # b # r \<Rightarrow> (the (hex_value a) * 16 + the (hex_value b)) # form_decode r | _ \<Rightarrow> [])
      else unat c # form_decode s)"

definition decode_pair :: "jstr \<Rightarrow> nat list \<times> nat list" where
  "decode_pair p = (case split_on 61 p of k # vs \<Rightarrow> (form_decode k, form_decode (join [61] vs)) | [] \<Rightarrow> ([], []))"

definition decode_query :: "jstr \<Rightarrow> (nat list \<times> nat list) list" where
  "decode_query q = (if q = [] then [] else map decode_pair (split_on 38 q))"

lemma hex_back: "n < 16 \<Longrightarrow> hex_value (hex_upper n) = Some n"
proof -
  have "list_all (\<lambda>n. hex_value (hex_upper n) = Some n) [0..<16]" by code_simp
  then show "n < 16 \<Longrightarrow> hex_value (hex_upper n) = Some n" by (simp add: list_all_iff)
qed

lemma unat_small: "n < 256 \<Longrightarrow> unat (of_nat n :: jchar) = n"
  by (simp add: unat_of_nat take_bit_eq_mod)

lemma form_keeps_safe: "form_keeps b \<Longrightarrow> b < 128 \<and> b \<notin> {37, 38, 43, 61}"
  by (auto simp: form_keeps_def alnum_def)

lemma of_nat_small_eq: "b < 256 \<Longrightarrow> (of_nat b :: jchar) = numeral k \<longleftrightarrow> b = unat (numeral k :: jchar)"
  using unat_small [of b] by (metis of_nat_unat ucast_id)

lemma form_decode_byte: "b < 256 \<Longrightarrow> form_decode (form_byte b @ s) = b # form_decode s"
  using form_keeps_safe [of b] hex_back [of "b div 16"] hex_back [of "b mod 16"]
  by (auto simp: form_byte_def pct_def of_nat_small_eq unat_small)

lemma form_byte_safe: "b < 256 \<Longrightarrow> 38 \<notin> set (form_byte b) \<and> 61 \<notin> set (form_byte b)"
proof -
  have hex: "list_all (\<lambda>n. hex_upper n \<noteq> 38 \<and> hex_upper n \<noteq> 61) [0..<16]" by code_simp
  assume "b < 256"
  then have "b div 16 < 16" "b mod 16 < 16" by simp_all
  then have "hex_upper (b div 16) \<noteq> 38 \<and> hex_upper (b div 16) \<noteq> 61" "hex_upper (b mod 16) \<noteq> 38 \<and> hex_upper (b mod 16) \<noteq> 61"
    using hex by (simp_all add: list_all_iff del: upt_rec_numeral)
  then show ?thesis using form_keeps_safe [of b] \<open>b < 256\<close> by (auto simp: form_byte_def pct_def of_nat_small_eq)
qed

lemma surrogate_pair_bound:
  assumes "high_surrogate c" "low_surrogate d"
  shows "0x10000 + (unat c - 0xD800) * 0x400 + (unat d - 0xDC00) < 0x110000"
proof -
  have "unat c < 0xDC00" "unat d < 0xE000"
    using assms by (simp_all add: high_surrogate_def low_surrogate_def word_less_nat_alt)
  then show ?thesis by linarith
qed

lemma unat_jchar [simp]: "unat (c :: jchar) < 0x10000"
  by (rule order_less_le_trans [OF unsigned_less]) simp

lemma code_points_bound: "n \<in> set (code_points s) \<Longrightarrow> n < 0x110000"
proof (induction s rule: code_points.induct)
  case (2 c)
  then show ?case using unat_jchar [of c] by (simp add: less_trans [of _ "0x10000"])
next
  case (3 c d s)
  then show ?case using less_trans [OF unat_jchar [of c], of "0x110000"] surrogate_pair_bound [of c d] by (auto split: if_splits)
qed simp

lemma utf8_bytes: "n < 0x110000 \<Longrightarrow> b \<in> set (utf8 n) \<Longrightarrow> b < 256"
  by (auto simp: utf8_def split: if_splits)

lemma text_bytes_small: "b \<in> set (text_bytes s) \<Longrightarrow> b < 256"
proof -
  assume "b \<in> set (text_bytes s)"
  then obtain n where "n \<in> set (code_points s)" "b \<in> set (utf8 (scalar n))" by (auto simp: text_bytes_def)
  then show ?thesis using utf8_bytes [of "scalar n" b] code_points_bound [of n s] by (simp add: scalar_def split: if_splits)
qed

lemma form_decode_encode: "form_decode (form_encode s) = text_bytes s"
proof -
  have "(\<And>b. b \<in> set bs \<Longrightarrow> b < 256) \<Longrightarrow> form_decode (concat (map form_byte bs)) = bs" for bs
    by (induction bs) (simp_all add: form_decode_byte)
  then show ?thesis using text_bytes_small [of _ s] by (simp add: form_encode_def)
qed

lemma form_encode_safe: "38 \<notin> set (form_encode s)" "61 \<notin> set (form_encode s)"
  using form_byte_safe text_bytes_small by (fastforce simp: form_encode_def)+

end
