(* ===== verification/Api_Request.thy ===== *)
theory Api_Request
  imports Web_Text Api_Auth
begin

text \<open>
  The \<open>api-request\<close> component of the API reference (\<open>docs/ui/assets/rapidoc-min.js\<close>): the panel of an operation
  with its parameters, its request body, the button row and the last response. Parameters and request bodies are
  the JSON of the specification. A template that throws has \<open>None\<close>. The two functions that turn a schema into
  object notation (\<open>Schema_Notation\<close>) and into generated examples (\<open>Schema_Example\<close>) are arguments of the templates; syntax highlighting is left out
  (a highlighted text is the text), and so is the directive that skips a template whose inputs did not change.
\<close>

section \<open>State\<close>

record gen_example =
  exampleId :: jstr
  exampleSummary :: jstr
  exampleDescription :: jstr
  exampleValue :: json
  exampleFormat :: jstr

record gen_args =
  ga_schema :: "json option"
  ga_mime :: jstr
  ga_examples :: "json option"
  ga_example :: "json option"
  ga_readOnly :: bool
  ga_writeOnly :: bool
  ga_text :: bool                          \<comment> \<open>examples as text\<close>

record schema_functions =
  objectNotation :: "json option \<Rightarrow> json option"
  generateExample :: "gen_args \<Rightarrow> gen_example list option"

record request =
  rq_method :: jstr
  rq_path :: jstr
  rq_serverUrl :: jstr
  rq_parameters :: "json list"
  rq_request_body :: "json option"
  rq_security :: nat                       \<comment> \<open>how many alternatives\<close>
  rq_api_keys :: "scheme list"
  rq_callback :: bool
  rq_webhook :: bool
  rq_allowTry :: jstr
  rq_fill :: bool                          \<comment> \<open>\<open>fillRequestFieldsWithExample\<close>\<close>
  rq_renderStyle :: jstr
  rq_schemaStyle :: jstr
  rq_expandLevel :: jstr
  rq_descrExpanded :: jstr
  rq_descrToggle :: jstr
  rq_hideReadOnly :: jstr
  rq_hideWriteOnly :: jstr
  rq_showCurl :: bool                      \<comment> \<open>\<open>showCurlBeforeTry\<close>\<close>
  rq_paramTabs :: "(jstr \<times> jstr) list"     \<comment> \<open>\<open>activeParameterSchemaTabs\<close>\<close>
  rq_schemaTab :: jstr                     \<comment> \<open>\<open>activeSchemaTab\<close>\<close>
  rq_responseTab :: jstr                   \<comment> \<open>\<open>activeResponseTab\<close>\<close>
  rq_bodyType :: jstr                      \<comment> \<open>\<open>selectedRequestBodyType\<close>\<close>
  rq_bodyExample :: jstr                   \<comment> \<open>\<open>selectedRequestBodyExample\<close>\<close>
  rq_responseMessage :: jstr
  rq_responseStatus :: jstr
  rq_responseText :: jstr
  rq_responseHeaders :: jstr
  rq_responseIsBlob :: bool
  rq_responseBlobType :: jstr
  rq_responseBlobUrl :: jstr
  rq_respContentDisposition :: jstr
  rq_responseUrl :: jstr
  rq_curlSyntax :: jstr

datatype req_act =
    UseExample jstr            \<comment> \<open>put the example into the input with this name\<close>
  | UseEnum jstr
  | LiveCurl
  | ParamTab jstr
  | MimeTypeChange
  | SelectExample
  | KeyDown
  | SchemaTab
  | AddRemoveFile jstr jstr
  | Copy jstr
  | ClearResponse
  | ResponseTab
  | Download jstr jstr
  | ViewBlob jstr
  | FillRequest
  | ClearRequest
  | Try

definition can_try :: "request \<Rightarrow> bool" where
  "can_try rq \<longleftrightarrow> rq_allowTry rq = js ''true''"

definition outgoing :: "request \<Rightarrow> bool" where
  \<comment> \<open>neither a callback nor a webhook\<close>
  "outgoing rq \<longleftrightarrow> \<not> rq_callback rq \<and> \<not> rq_webhook rq"

section \<open>Examples of a parameter\<close>

definition item_text :: "json \<Rightarrow> jstr" where
  "item_text v = (if v = JNull then [] else to_text v)"

definition arr_join :: "string \<Rightarrow> json list \<Rightarrow> jstr" where
  "arr_join sep vs = join (js sep) (map item_text vs)"

fun is_object :: "json \<Rightarrow> bool" where
  \<comment> \<open>\<open>typeof v === "object"\<close>\<close>
  "is_object JNull = True"
| "is_object (JArr vs) = True"
| "is_object (JObj kvs) = True"
| "is_object _ = False"

definition object_text :: "json \<Rightarrow> jstr" where
  "object_text v = (if is_object v then stringify 0 v else to_text v)"

definition example_text :: "json \<Rightarrow> jstr" where
  "example_text v = (case v of JArr vs \<Rightarrow> arr_join ''~|~'' vs | _ \<Rightarrow> if is_object v then stringify 0 v else or_text (Some v))"

definition link_class :: "request \<Rightarrow> string \<times> jstr" where
  "link_class rq = cls (if can_try rq then [] else ''inactive-link'')"

definition array_or_string :: "jstr \<Rightarrow> jstr" where
  "array_or_string t = (if t = js ''array'' then t else js ''string'')"

definition renderExample :: "request \<Rightarrow> example \<Rightarrow> jstr \<Rightarrow> jstr \<Rightarrow> req_act html list" where
  "renderExample rq e t name =
     show_if (t = js ''array'') [lit ''[''] @
     [El ''a'' [link_class rq, (''data-example-type'', array_or_string t), (''data-example'', example_text (ex_value e)),
          (''title'', example_text (ex_value e))]
        [(''click'', UseExample name)]
        [Txt (if ex_printable e \<noteq> [] then ex_printable e else shown (Some (ex_value e)))]] @
     show_if (t = js ''array'') [lit ''] '']"

definition renderShortFormatExamples :: "request \<Rightarrow> example list \<Rightarrow> jstr \<Rightarrow> jstr \<Rightarrow> req_act html list" where
  "renderShortFormatExamples rq es t name =
     concat (map (\<lambda>(n, e). show_if (n > 0) [Txt bar] @ renderExample rq e t name) (zip [0..<length es] es))"

definition renderLongFormatExamples :: "request \<Rightarrow> example list \<Rightarrow> jstr \<Rightarrow> jstr \<Rightarrow> req_act html list" where
  "renderLongFormatExamples rq es t name =
     [el ''ul'' [] (map (\<lambda>e. el ''li'' []
        (renderExample rq e t name @
         show_if (ex_summary e \<noteq> []) [el ''span'' [] [Txt (js ''('' @ ex_summary e @ js '')'')]] @
         show_if (ex_description e \<noteq> []) [el ''p'' [] [Md (ex_description e)]])) es)]"

definition exampleListTemplate :: "request \<Rightarrow> jstr \<Rightarrow> jstr \<Rightarrow> example list \<Rightarrow> req_act html list" where
  "exampleListTemplate rq name t es =
     show_if (es \<noteq> [])
       (el ''span'' [] [lit ''Examples: ''] #
        (if list_ex (\<lambda>e. ex_summary e \<noteq> [] \<or> ex_description e \<noteq> []) es
         then renderLongFormatExamples rq es t name else renderShortFormatExamples rq es t name))"

section \<open>Parameters\<close>

record serialization =
  se_style :: jstr
  se_explode :: bool
  se_reserved :: bool

definition bool_entry :: "string \<Rightarrow> bool \<Rightarrow> json \<Rightarrow> bool" where
  "bool_entry k d v = (case entry k v of Some (JBool b) \<Rightarrow> b | _ \<Rightarrow> d)"

definition serialization_of :: "jstr \<Rightarrow> json \<Rightarrow> jstr option \<Rightarrow> serialization" where
  "serialization_of loc r media =
     (if loc \<in> {js ''query'', js ''header'', js ''path''}
      then \<lparr>se_style =
              (if truthy_entry ''style'' r \<and> occurs (text_entry ''style'' r) (js ''form spaceDelimited pipeDelimited'')
               then text_entry ''style'' r
               else case media of Some m \<Rightarrow> m | None \<Rightarrow> js ''form''),
            se_explode = bool_entry ''explode'' True r, se_reserved = bool_entry ''allowReserved'' False r\<rparr>
      else \<lparr>se_style = js ''form'', se_explode = True, se_reserved = False\<rparr>)"

definition param_examples :: "schema_functions \<Rightarrow> request \<Rightarrow> json \<Rightarrow> json option \<Rightarrow> jstr option \<Rightarrow> json option \<Rightarrow> type_info \<Rightarrow>
    (json \<times> example list) option" where
  "param_examples fs rq r sch media content info =
     (case first_standardized [entry ''examples'' r, entry ''example'' r, Option.bind content (entry ''example''),
             Option.bind content (entry ''examples''), ti_examples info] of
        None \<Rightarrow> None
      | Some e \<Rightarrow>
         (case normalizeExamples e (ti_type info) of
            None \<Rightarrow> None
          | Some (v, es) \<Rightarrow>
              if is_truthy (Some v) \<or> ti_type info \<noteq> js ''object'' then Some (v, es)
              else (case generateExample fs \<lparr>ga_schema = sch, ga_mime = (case media of Some m \<Rightarrow> m | None \<Rightarrow> js ''json''),
                      ga_examples = Some (JObj []), ga_example = Some (JObj []),
                      ga_readOnly = \<not> outgoing rq, ga_writeOnly = outgoing rq, ga_text = False\<rparr> of
                     Some (g # _) \<Rightarrow> Some (exampleValue g, es) | _ \<Rightarrow> None)))"

definition fill_mode :: "json \<Rightarrow> jstr" where
  "fill_mode r = (if truthy_entry ''x-fill-example'' r then shown (entry ''x-fill-example'' r) else js ''yes'')"

definition fills :: "request \<Rightarrow> json \<Rightarrow> bool" where
  "fills rq r \<longleftrightarrow> entry ''x-fill-example'' r \<noteq> Some (JStr (js ''no'')) \<and> rq_fill rq"

definition joined_example :: "json \<Rightarrow> jstr" where
  "joined_example v = (case v of JArr vs \<Rightarrow> arr_join ''~|~'' vs | _ \<Rightarrow> shown (Some v))"

definition array_param :: "request \<Rightarrow> jstr \<Rightarrow> json \<Rightarrow> serialization \<Rightarrow> json \<Rightarrow> req_act html list" where
  "array_param rq loc r se v =
     (let name = text_entry ''name'' r in
      [el ''tag-input'' [cls ''request-param'', (''id'', js ''tag-input-request-param-'' @ name), (''data-ptype'', loc), (''data-pname'', name),
         (''data-example'', joined_example v), (''data-param-serialize-style'', se_style se),
         (''data-param-serialize-explode'', bool_text (se_explode se)), (''data-param-allow-reserved'', bool_text (se_reserved se)),
         (''data-x-fill-example'', fill_mode r), (''data-array'', js ''true''), (''placeholder'', js ''add-multiple '' @ [0x21a9]),
         (''.value'', stringify 0 (JArr (if fills rq r then (case v of JArr vs \<Rightarrow> vs | _ \<Rightarrow> [v]) else [])))] []])"

definition tab_button :: "string \<Rightarrow> bool \<Rightarrow> string \<Rightarrow> string \<Rightarrow> req_act html" where
  "tab_button c active tab label =
     el ''button'' [cls (c @ (if active then '' active'' else '' '')), (''data-tab'', js tab)] [lit label]"

definition example_tab :: "request \<Rightarrow> jstr \<Rightarrow> bool" where
  "example_tab rq name \<longleftrightarrow> map_of (rq_paramTabs rq) name = Some (js ''example'')"

definition schema_attrs :: "request \<Rightarrow> jstr \<Rightarrow> jstr \<Rightarrow> (string \<times> jstr) list" where
  "schema_attrs rq ro wo =
     [(''schema-expand-level'', rq_expandLevel rq), (''schema-description-expanded'', rq_descrExpanded rq),
      (''allow-schema-description-expand-toggle'', rq_descrToggle rq), (''schema-hide-read-only'', ro), (''schema-hide-write-only'', wo)]"

definition data_text :: "json option \<Rightarrow> jstr" where
  \<comment> \<open>a value bound to a property, written out\<close>
  "data_text e = (case e of None \<Rightarrow> [] | Some v \<Rightarrow> stringify 0 v)"

definition object_param :: "schema_functions \<Rightarrow> request \<Rightarrow> jstr \<Rightarrow> json \<Rightarrow> serialization \<Rightarrow> json option \<Rightarrow> json \<Rightarrow> req_act html list" where
  "object_param fs rq loc r se sch v =
     (let name = text_entry ''name'' r; ex = example_tab rq name in
      [el ''div'' [cls ''tab-panel col'']
        [El ''div'' [cls ''tab-buttons row''] [(''click'', ParamTab name)]
           [tab_button ''tab-btn'' ex ''example'' ''EXAMPLE '', tab_button ''tab-btn'' (\<not> ex) ''schema'' ''SCHEMA''],
         el ''div'' [cls ''tab-content col'', (''data-tab'', js ''example''), display ex]
           [El ''textarea'' [(''id'', js ''textarea-request-param-'' @ name), cls ''textarea request-param'',
              (''data-ptype'', loc @ js ''-object''), (''data-pname'', name), (''data-example'', shown (Some v)),
              (''data-param-serialize-style'', se_style se), (''data-param-serialize-explode'', bool_text (se_explode se)),
              (''data-param-allow-reserved'', bool_text (se_reserved se)), (''data-x-fill-example'', fill_mode r),
              (''.textContent'', if fills rq r then object_text v else [])]
              [(''input'', LiveCurl)] []],
         el ''div'' [cls ''tab-content col'', (''data-tab'', js ''schema''), display (\<not> ex)]
           [el ''schema-tree'' ([cls ''json'', (''.data'', data_text (objectNotation fs sch))] @
              schema_attrs rq (bool_text (occurs (rq_method rq) (rq_hideReadOnly rq))) (bool_text (occurs (rq_method rq) (rq_hideWriteOnly rq)))) []]]])"

definition text_param :: "request \<Rightarrow> jstr \<Rightarrow> json \<Rightarrow> type_info \<Rightarrow> serialization \<Rightarrow> json \<Rightarrow> req_act html list" where
  "text_param rq loc r info se v =
     (let name = text_entry ''name'' r in
      [El ''input'' [(''type'', js (if ti_format info = js ''password'' then ''password'' else ''text'')),
         (''id'', js ''input-request-param-'' @ name), cls ''request-param'', (''data-ptype'', loc), (''data-pname'', name),
         (''data-example'', joined_example v), (''data-param-allow-reserved'', bool_text (se_reserved se)),
         (''data-x-fill-example'', fill_mode r), (''data-array'', js ''false''),
         (''.value'', if fills rq r then shown (Some v) else [])]
        [(''input'', LiveCurl)] []])"

definition constrained :: "type_info \<Rightarrow> bool" where
  "constrained o' \<longleftrightarrow> ti_default o' \<noteq> [] \<or> ti_constrain o' \<noteq> [] \<or> is_truthy (ti_allowedValues o') \<or> ti_pattern o' \<noteq> []"

definition labelled :: "string \<Rightarrow> jstr \<Rightarrow> req_act html list" where
  "labelled label x = show_if (x \<noteq> []) [el ''span'' [] [lit label], Txt x, el ''br'' [] []]"

definition allowed_links :: "request \<Rightarrow> jstr \<Rightarrow> type_info \<Rightarrow> req_act html list option" where
  "allowed_links rq name info =
     (if \<not> is_truthy (ti_allowedValues info) then Some []
      else case ti_allowedValues info of
        Some (JStr s) \<Rightarrow> Some (concat (map (\<lambda>(n, e).
          [if n > 0 then Txt bar else el ''span'' [] [lit ''Allowed: ''],
           El ''a'' [link_class rq, (''data-type'', array_or_string (ti_type info)), (''data-enum'', trim e)] [(''click'', UseEnum name)] [Txt e]])
          (zip [0..<length (split_on 0x2503 s)] (split_on 0x2503 s))))
      | _ \<Rightarrow> None)"

definition constraint_box :: "request \<Rightarrow> jstr \<Rightarrow> type_info \<Rightarrow> req_act html option" where
  "constraint_box rq name info =
     map_option (\<lambda>links. el ''div'' [cls ''param-constraint'']
        (labelled ''Default: '' (ti_default info) @ labelled ''Pattern: '' (ti_pattern info) @
         show_if (ti_constrain info \<noteq> []) [Txt (ti_constrain info), el ''br'' [] []] @ links))
       (allowed_links rq name info)"

definition param_name_cell :: "request \<Rightarrow> json \<Rightarrow> type_info \<Rightarrow> req_act html" where
  "param_name_cell rq r info =
     el ''td'' [(''rowspan'', js (if can_try rq then ''1'' else ''2''))]
       [el ''div'' [cls (if truthy_entry ''deprecated'' r then ''param-name deprecated'' else ''param-name '')]
          (show_if (truthy_entry ''required'' r) [el ''span'' [] [lit ''*'']] @ [Txt (text_entry ''name'' r)]),
        el ''div'' [cls ''param-type'']
          [Txt (if ti_type info = js ''array'' then ti_arrayType info else if ti_format info \<noteq> [] then ti_format info else ti_type info)]]"

definition param_input :: "schema_functions \<Rightarrow> request \<Rightarrow> jstr \<Rightarrow> json \<Rightarrow> json option \<Rightarrow> type_info \<Rightarrow> serialization \<Rightarrow> json \<Rightarrow> req_act html list" where
  "param_input fs rq loc r sch info se v =
     (if ti_type info = js ''array'' then array_param rq loc r se v
      else if ti_type info = js ''object'' then object_param fs rq loc r se sch v
      else text_param rq loc r info se v)"

definition param_rows :: "schema_functions \<Rightarrow> request \<Rightarrow> jstr \<Rightarrow> json \<Rightarrow> json option \<Rightarrow> type_info \<Rightarrow> serialization \<Rightarrow> json \<Rightarrow>
    example list \<Rightarrow> req_act html list option" where
  "param_rows fs rq loc r sch info se v es =
     map_option (\<lambda>cell.
       [el ''tr'' [(''title'', js (if truthy_entry ''deprecated'' r then ''Deprecated'' else []))]
          ([param_name_cell rq r info] @
           show_if (can_try rq) [el ''td'' [(''colspan'', js (if constrained info then ''1'' else ''2''))] (param_input fs rq loc r sch info se v)] @
           [cell]),
        el ''tr'' []
          (show_if (can_try rq) [el ''td'' [] []] @
           [el ''td'' [(''colspan'', js ''2'')]
              (el ''span'' [cls ''m-markdown-small''] [Md (or_text (entry ''description'' r))] #
               exampleListTemplate rq (text_entry ''name'' r) (ti_type info) es)])])
       (if constrained info
        then map_option (\<lambda>b. el ''td'' [(''colspan'', js (if can_try rq then ''1'' else ''2''))] [b]) (constraint_box rq (text_entry ''name'' r) info)
        else Some (el ''td'' [] []))"

definition param_template :: "schema_functions \<Rightarrow> request \<Rightarrow> jstr \<Rightarrow> json \<Rightarrow> req_act html list option" where
  \<comment> \<open>one turn of the loop; a parameter without a schema is skipped\<close>
  "param_template fs rq loc r =
     (case getSchemaFromParam r of (sch, media, content) \<Rightarrow>
        (case getTypeInfo sch of
           None \<Rightarrow> Some []
         | Some info \<Rightarrow>
            (case param_examples fs rq r sch media content info of
               None \<Rightarrow> None
             | Some (v, es) \<Rightarrow> param_rows fs rq loc r sch info (serialization_of loc r media) v es)))"

fun those_concat :: "'b list option list \<Rightarrow> 'b list option" where
  "those_concat [] = Some []"
| "those_concat (x # xs) = (case x of None \<Rightarrow> None | Some y \<Rightarrow> map_option ((@) y) (those_concat xs))"

definition params_in :: "request \<Rightarrow> jstr \<Rightarrow> json list" where
  "params_in rq loc = filter (\<lambda>r. text_entry ''in'' r = loc) (rq_parameters rq)"

definition params_title :: "jstr \<Rightarrow> string" where
  "params_title loc =
     (if loc = js ''path'' then ''PATH PARAMETERS'' else if loc = js ''query'' then ''QUERY-STRING PARAMETERS''
      else if loc = js ''header'' then ''REQUEST HEADERS'' else if loc = js ''cookie'' then ''COOKIES'' else [])"

definition inputParametersTemplate :: "schema_functions \<Rightarrow> request \<Rightarrow> jstr \<Rightarrow> req_act html list option" where
  "inputParametersTemplate fs rq loc =
     (if params_in rq loc = [] then Some []
      else map_option (\<lambda>rows.
        [el ''div'' [cls ''table-title top-gap''] [lit (params_title loc)],
         el ''div'' [] [el ''table'' [cls ''m-table''] rows]])
        (those_concat (map (param_template fs rq loc) (params_in rq loc))))"

section \<open>The request body\<close>

record media =
  mimeType :: jstr
  md_schema :: "json option"
  md_example :: "json option"
  md_examples :: "json option"

definition body_media :: "json \<Rightarrow> media list" where
  "body_media body = map (\<lambda>(k, v). \<lparr>mimeType = k, md_schema = entry ''schema'' v, md_example = entry ''example'' v, md_examples = entry ''examples'' v\<rparr>)
     (obj_fields (entry ''content'' body))"

definition is_text_type :: "jstr \<Rightarrow> bool" where
  "is_text_type t \<longleftrightarrow> list_ex (\<lambda>k. occurs (js k) t) [''json'', ''xml'', ''text'', ''jose'']"

definition is_form_type :: "jstr \<Rightarrow> bool" where
  "is_form_type t \<longleftrightarrow> occurs (js ''form-urlencoded'') t \<or> occurs (js ''form-data'') t"

definition is_binary_type :: "jstr \<Rightarrow> bool" where
  "is_binary_type t \<longleftrightarrow>
     list_ex (\<lambda>p. startsWith t (js p)) [''audio/'', ''image/'', ''video/'', ''font/''] \<or>
     list_ex (\<lambda>p. endsWith t (js p)) [''tar'', ''zip'', ''7z'', ''rtf'', ''msword'', ''excel'', ''/pdf'', ''/octet-stream'']"

definition after_slash :: "jstr \<Rightarrow> jstr" where
  \<comment> \<open>\<open>s.substring(s.indexOf("/") + 1)\<close>\<close>
  "after_slash s = (case find_sub s (js ''/'') of None \<Rightarrow> s | Some n \<Rightarrow> drop (n + 1) s)"

definition selected_type :: "media list \<Rightarrow> request \<Rightarrow> jstr" where
  "selected_type ms rq = (if rq_bodyType rq \<noteq> [] then rq_bodyType rq else case ms of [] \<Rightarrow> [] | m # _ \<Rightarrow> mimeType m)"

definition mime_select :: "media list \<Rightarrow> jstr \<Rightarrow> req_act html list" where
  "mime_select ms sel =
     (if length ms = 1 then []
      else [El ''select'' [] [(''change'', MimeTypeChange)]
              (map (\<lambda>m. el ''option'' ((''value'', mimeType m) # show_if (mimeType m = sel) [(''?selected'', [])]) [Txt (mimeType m)]) ms)])"

definition gen_text :: "gen_example \<Rightarrow> jstr" where
  "gen_text g = (if exampleFormat g = js ''text'' then shown (Some (exampleValue g)) else stringify 0 (exampleValue g))"

definition example_option :: "jstr \<Rightarrow> gen_example \<Rightarrow> req_act html" where
  "example_option sel g =
     el ''option'' ((''value'', exampleId g) # show_if (exampleId g = sel) [(''?selected'', [])])
       [Txt (if length (exampleSummary g) > 80 then exampleId g else if exampleSummary g \<noteq> [] then exampleSummary g else exampleId g)]"

definition example_body :: "request \<Rightarrow> media \<Rightarrow> jstr \<Rightarrow> gen_example \<Rightarrow> req_act html" where
  "example_body rq m sel g =
     el ''div'' [cls (if exampleId g = sel then ''example example-selected'' else ''example ''), (''data-example'', exampleId g)]
       (show_if (length (exampleSummary g) > 80) [el ''div'' [] [Txt (exampleSummary g)]] @
        show_if (exampleDescription g \<noteq> []) [el ''div'' [cls ''m-markdown-small''] [Md (exampleDescription g)]] @
        [el ''pre'' [(''class'', js ''textarea is-hidden request-body-param '' @ after_slash (mimeType m)), (''data-ptype'', mimeType m)] [Txt (gen_text g)],
         El ''textarea'' [cls ''textarea request-body-param-user-input'', (''data-ptype'', mimeType m), (''data-example'', gen_text g),
            (''data-example-format'', exampleFormat g), (''.textContent'', if rq_fill rq then gen_text g else [])]
           [(''input'', LiveCurl), (''keydown'', KeyDown)] []])"

definition gen_args_of :: "request \<Rightarrow> media \<Rightarrow> json option \<Rightarrow> json option \<Rightarrow> gen_args" where
  "gen_args_of rq m exs ex =
     \<lparr>ga_schema = md_schema m, ga_mime = mimeType m, ga_examples = exs, ga_example = ex, ga_readOnly = \<not> outgoing rq, ga_writeOnly = outgoing rq, ga_text = True\<rparr>"

definition body_examples :: "schema_functions \<Rightarrow> request \<Rightarrow> media \<Rightarrow> gen_example list option" where
  "body_examples fs rq m =
     (case (standardizeExample (md_examples m), standardizeExample (md_example m)) of
        (Some exs, Some ex) \<Rightarrow> generateExample fs (gen_args_of rq m exs ex)
      | _ \<Rightarrow> None)"

definition selected_example :: "gen_example list \<Rightarrow> request \<Rightarrow> jstr" where
  "selected_example gs rq = (if rq_bodyExample rq \<noteq> [] then rq_bodyExample rq else case gs of [] \<Rightarrow> [] | g # _ \<Rightarrow> exampleId g)"

definition example_panel :: "request \<Rightarrow> media \<Rightarrow> gen_example list \<Rightarrow> req_act html list" where
  "example_panel rq m gs =
     (let sel = selected_example gs rq in
      [el ''div'' [cls ''example-panel border-top pad-top-8'']
         ((if length gs = 1 then [] else [El ''select'' [] [(''change'', SelectExample)] (map (example_option sel) gs)]) @
          map (example_body rq m sel) (filter (\<lambda>g. exampleId g = sel) gs))])"

definition schema_view :: "schema_functions \<Rightarrow> request \<Rightarrow> jstr \<Rightarrow> media \<Rightarrow> req_act html list" where
  "schema_view fs rq sel m =
     (let view = (\<lambda>tag. [el tag ([(''class'', after_slash (mimeType m)), display (sel = mimeType m), (''.data'', data_text (objectNotation fs (md_schema m)))] @
                     schema_attrs rq (rq_hideReadOnly rq) (rq_hideWriteOnly rq)) []])
      in if list_ex (\<lambda>k. occurs (js k) (mimeType m)) [''json'', ''xml'', ''text''] \<or> occurs (js ''jose'') sel
         then (if rq_schemaStyle rq = js ''table'' then view ''schema-table''
               else show_if (rq_schemaStyle rq = js ''tree'') (view ''schema-tree''))
         else [])"

definition file_body :: "media \<Rightarrow> req_act html list" where
  "file_body m =
     [el ''div'' [cls ''small-font-size bold-text row'']
        [el ''input'' [(''id'', js ''input-request-body-param-file''), (''type'', js ''file''), cls ''request-body-param-file'', (''data-ptype'', mimeType m)] []]]"

subsection \<open>Forms\<close>

definition form_ptype :: "jstr \<Rightarrow> jstr" where
  "form_ptype mime = (if occurs (js ''form-urlencode'') mime then js ''form-urlencode'' else js ''form-data'')"

definition formDataParamAsObjectTemplate :: "schema_functions \<Rightarrow> request \<Rightarrow> jstr \<Rightarrow> json \<Rightarrow> jstr \<Rightarrow> req_act html list option" where
  "formDataParamAsObjectTemplate fs rq name sch mime =
     (case (standardizeExample (entry ''examples'' sch), standardizeExample (entry ''example'' sch)) of
        (Some exs, Some ex) \<Rightarrow>
          Option.bind (generateExample fs \<lparr>ga_schema = Some sch, ga_mime = js ''json'', ga_examples = exs, ga_example = ex,
                      ga_readOnly = \<not> outgoing rq, ga_writeOnly = outgoing rq, ga_text = True\<rparr>) (\<lambda>gs.
           let active = (rq_schemaTab rq = js ''example'') in
           if rq_fill rq \<and> gs = [] then None
           else Some
             [el ''div'' [cls ''tab-panel row'']
               [el ''div'' []
                 [El ''div'' [cls ''row''] [(''click'', SchemaTab)]
                   [tab_button ''v-tab-btn'' active ''example'' ''EXAMPLE'', tab_button ''v-tab-btn'' (\<not> active) ''schema'' ''SCHEMA'']],
                el ''div'' [cls ''tab-content col'', (''data-tab'', js ''example''), display active]
                 [el ''textarea'' [cls ''textarea'', (''data-array'', js ''false''), (''data-ptype'', form_ptype mime), (''data-pname'', name),
                    (''data-example'', case gs of [] \<Rightarrow> [] | g # _ \<Rightarrow> or_text (Some (exampleValue g))),
                    (''.textContent'', if rq_fill rq then shown (Some (exampleValue (hd gs))) else [])] []],
                el ''div'' [cls ''tab-content col'', (''data-tab'', js ''schema''), display (\<not> active)]
                 [el ''schema-tree'' [(''.data'', data_text (objectNotation fs (Some sch))), (''schema-expand-level'', rq_expandLevel rq),
                    (''schema-description-expanded'', rq_descrExpanded rq), (''allow-schema-description-expand-toggle'', rq_descrToggle rq)] []]]])
      | _ \<Rightarrow> None)"

definition file_list_input :: "jstr \<Rightarrow> jstr \<Rightarrow> req_act html list" where
  "file_list_input name mime =
     [El ''div'' [cls ''file-input-container col''] [(''click'', AddRemoveFile name mime)]
        [el ''div'' [cls ''input-set row'']
           [el ''input'' [(''type'', js ''file''), (''data-pname'', name), (''data-ptype'', form_ptype mime), (''data-array'', js ''false''),
              (''data-file-array'', js ''true'')] [],
            el ''button'' [cls ''file-input-remove-btn''] [Txt [0x2715]]],
         el ''button'' [cls ''m-btn primary file-input-add-btn''] [lit ''ADD'']]]"

definition form_array_input :: "jstr \<Rightarrow> jstr \<Rightarrow> json option \<Rightarrow> req_act html list" where
  "form_array_input name mime a =
     [el ''tag-input'' [(''data-ptype'', form_ptype mime), (''data-pname'', name),
        (''data-example'', case a of Some (JArr vs) \<Rightarrow> arr_join ''~|~'' vs | _ \<Rightarrow> or_text a), (''data-array'', js ''true''),
        (''placeholder'', js ''add-multiple '' @ [0x21a9]),
        (''.value'', stringify 0 (case a of Some (JArr (JArr ws # vs)) \<Rightarrow> JArr ws | Some (JArr vs) \<Rightarrow> JArr vs | _ \<Rightarrow> JArr []))] []]"

definition form_text_input :: "request \<Rightarrow> jstr \<Rightarrow> jstr \<Rightarrow> json \<Rightarrow> json option \<Rightarrow> json \<Rightarrow> req_act html list" where
  "form_text_input rq name mime p a v =
     show_if (can_try rq)
       [el ''input'' [(''.value'', if rq_fill rq then shown (Some v) else []),
          (''type'', js (if text_entry ''format'' p = js ''binary'' then ''file'' else if text_entry ''format'' p = js ''password'' then ''password'' else ''text'')),
          (''data-ptype'', form_ptype mime), (''data-pname'', name),
          (''data-example'', case a of Some (JArr vs) \<Rightarrow> shown (nth_opt vs 0) | _ \<Rightarrow> or_text a), (''data-array'', js ''false'')] []]"

definition form_input :: "schema_functions \<Rightarrow> request \<Rightarrow> jstr \<Rightarrow> jstr \<Rightarrow> json \<Rightarrow> json \<Rightarrow> req_act html list option" where
  "form_input fs rq name mime p v =
     (let a = or_else (or_else (entry ''examples'' p) (entry ''example'' p)) None; l = text_entry ''type'' p in
      if l = js ''array''
      then Some (if Option.bind (entry ''items'' p) (entry ''format'') = Some (JStr (js ''binary''))
                 then file_list_input name mime else form_array_input name mime a)
      else if l = js ''object'' then formDataParamAsObjectTemplate fs rq name p mime
      else Some (form_text_input rq name mime p a v))"

definition form_required :: "json \<Rightarrow> jstr \<Rightarrow> json \<Rightarrow> bool" where
  "form_required sch name p \<longleftrightarrow> JStr name \<in> set (array_items (entry ''required'' sch)) \<or> truthy_entry ''required'' p"

definition form_rows :: "schema_functions \<Rightarrow> request \<Rightarrow> json \<Rightarrow> jstr \<Rightarrow> jstr \<times> json \<Rightarrow> req_act html list option" where
  "form_rows fs rq sch mime np =
     (case np of (name, p) \<Rightarrow>
        if truthy_entry ''readOnly'' p then Some []
        else case getTypeInfo (Some p) of
          None \<Rightarrow> None
        | Some info \<Rightarrow>
           (case (normalizeExamples (ti_examples info) (ti_type info),
                  if text_entry ''type'' p \<noteq> js ''object'' \<and> constrained info then map_option (\<lambda>b. [b]) (constraint_box rq name info) else Some []) of
              (Some (v, es), Some box) \<Rightarrow>
                map_option (\<lambda>inp.
                  [el ''tr'' [(''title'', js (if truthy_entry ''deprecated'' p then ''Deprecated'' else []))]
                     ([el ''td'' []
                         [el ''div'' [cls (if truthy_entry ''deprecated'' p then ''param-name deprecated'' else ''param-name '')]
                            (Txt name # show_if (form_required sch name p) [el ''span'' [] [lit ''*'']]),
                          el ''div'' [cls ''param-type''] [Txt (ti_type info)]],
                       el ''td'' ((''colspan'', js (if text_entry ''type'' p = js ''object'' then ''2'' else ''1'')) #
                            show_if (text_entry ''type'' p \<noteq> js ''object'' \<and> \<not> can_try rq) [(''display'', js ''none'')]) inp] @
                      show_if (text_entry ''type'' p \<noteq> js ''object'') [el ''td'' [] box])] @
                  show_if (text_entry ''type'' p \<noteq> js ''object'')
                    [el ''tr'' []
                       [el ''td'' [] [],
                        el ''td'' [(''colspan'', js ''2'')]
                          (el ''span'' [cls ''m-markdown-small''] [Md (or_text (entry ''description'' p))] # exampleListTemplate rq name (ti_type info) es)]])
                  (form_input fs rq name mime p v)
            | _ \<Rightarrow> None))"

definition formDataTemplate :: "schema_functions \<Rightarrow> request \<Rightarrow> json \<Rightarrow> jstr \<Rightarrow> json \<Rightarrow> req_act html list option" where
  "formDataTemplate fs rq sch mime v =
     (if truthy_entry ''properties'' sch
      then map_option (\<lambda>rows. [el ''table'' [cls ''m-table''] rows])
             (those_concat (map (form_rows fs rq sch mime) (obj_fields (entry ''properties'' sch))))
      else Some
        (el ''textarea'' [(''class'', js ''textarea dynamic-form-param '' @ mime), (''data-pname'', js ''dynamic-form''), (''data-ptype'', mime),
            (''.textContent'', shown (Some v))] [] #
         show_if (truthy_entry ''description'' sch) [el ''span'' [cls ''m-markdown-small''] [Md (text_entry ''description'' sch)]]))"

definition form_body :: "schema_functions \<Rightarrow> request \<Rightarrow> media \<Rightarrow> req_act html list option" where
  "form_body fs rq m =
     Option.bind (generateExample fs (gen_args_of rq m (md_examples m) (md_example m))) (\<lambda>gs.
      if is_truthy (md_schema m)
      then formDataTemplate fs rq (the (md_schema m)) (mimeType m) (case gs of [] \<Rightarrow> JStr [] | g # _ \<Rightarrow> exampleValue g)
      else Some [])"

subsection \<open>The whole body\<close>

definition body_inputs :: "schema_functions \<Rightarrow> request \<Rightarrow> jstr \<Rightarrow> media list \<Rightarrow> req_act html list option" where
  \<comment> \<open>what the loop over the media types makes for the selected one\<close>
  "body_inputs fs rq sel ms =
     those_concat (map (\<lambda>m.
       if mimeType m \<noteq> sel then Some []
       else if is_text_type sel then map_option (example_panel rq m) (body_examples fs rq m)
       else if is_form_type sel then form_body fs rq m
       else Some (show_if (is_binary_type sel) (file_body m))) ms)"

definition requestBodyTemplate :: "schema_functions \<Rightarrow> request \<Rightarrow> req_act html list option" where
  "requestBodyTemplate fs rq =
     (if \<not> is_truthy (rq_request_body rq) \<or> no_keys (the (rq_request_body rq)) then Some []
      else (let body = the (rq_request_body rq); ms = body_media body; sel = selected_type ms rq;
                active = (rq_schemaTab rq = js ''example'') in
        map_option (\<lambda>inputs.
          [el ''div'' [cls ''request-body-container'', (''data-selected-request-body-type'', sel)]
             ([el ''div'' [cls ''table-title top-gap row'']
                 ([lit ''REQUEST BODY ''] @ show_if (truthy_entry ''required'' body) [el ''span'' [cls ''mono-font''] [lit ''*'']] @
                  [el ''span'' [] [Txt sel]] @ mime_select ms sel)] @
              show_if (truthy_entry ''description'' body) [el ''div'' [cls ''m-markdown''] [Md (text_entry ''description'' body)]] @
              (if is_text_type sel
               then [el ''div'' [cls ''tab-panel col'']
                      [El ''div'' [cls ''tab-buttons row''] [(''click'', SchemaTab)]
                         [tab_button ''tab-btn'' active ''example'' ''EXAMPLE'', tab_button ''tab-btn'' (\<not> active) ''schema'' ''SCHEMA''],
                       el ''div'' [cls ''tab-content col'', display active] inputs,
                       el ''div'' [cls ''tab-content col'', display (\<not> active)] (concat (map (schema_view fs rq sel) ms))]]
               else inputs))])
          (body_inputs fs rq sel ms)))"

definition settle_body :: "schema_functions \<Rightarrow> request \<Rightarrow> request" where
  \<comment> \<open>what rendering the body writes to the component\<close>
  "settle_body fs rq =
     (case rq_request_body rq of
        None \<Rightarrow> rq
      | Some body \<Rightarrow>
         (let ms = body_media body; sel = selected_type ms rq; rq' = rq\<lparr>rq_bodyType := sel\<rparr> in
          if is_text_type sel
          then (case List.find (\<lambda>m. mimeType m = sel) ms of
                  None \<Rightarrow> rq'
                | Some m \<Rightarrow> (case body_examples fs rq m of None \<Rightarrow> rq' | Some gs \<Rightarrow> rq'\<lparr>rq_bodyExample := selected_example gs rq\<rparr>))
          else rq'))"

section \<open>The response and the buttons\<close>

definition flex :: "bool \<Rightarrow> string \<times> jstr" where
  "flex b = (''display'', js (if b then ''flex'' else ''none''))"

definition copy_button :: "jstr \<Rightarrow> req_act html" where
  "copy_button s = El ''button'' [cls ''toolbar-btn''] [(''click'', Copy s)] [lit '' Copy '']"

definition curl_text :: "request \<Rightarrow> jstr" where
  \<comment> \<open>\<open>curlSyntax.trim().replace(/\\$/, "")\<close>\<close>
  "curl_text rq = (let s = trim (rq_curlSyntax rq) in if endsWith s (js [CHR 0x5C]) then butlast s else s)"

definition curlSyntaxTemplate :: "request \<Rightarrow> bool \<Rightarrow> req_act html" where
  "curlSyntaxTemplate rq visible =
     el ''div'' [cls ''col m-markdown'', flex visible] [copy_button (curl_text rq), el ''pre'' [] [el ''code'' [] [Txt (curl_text rq)]]]"

definition response_content :: "request \<Rightarrow> req_act html" where
  "response_content rq =
     (let on = (rq_responseTab rq = js ''response'') in
      if rq_responseIsBlob rq
      then el ''div'' [cls ''tab-content col'', flex on]
             (show_if (rq_responseBlobType rq = js ''image'') [el ''img'' [cls ''mar-top-8'', (''src'', rq_responseBlobUrl rq)] []] @
              [El ''button'' [cls ''m-btn thin-border mar-top-8''] [(''click'', Download (rq_responseBlobUrl rq) (rq_respContentDisposition rq))] [lit '' DOWNLOAD '']] @
              show_if (rq_responseBlobType rq \<in> {js ''view'', js ''image''})
                [El ''button'' [cls ''m-btn thin-border mar-top-8''] [(''click'', ViewBlob (rq_responseBlobUrl rq))] [lit ''VIEW (NEW TAB)'']])
      else el ''div'' [cls ''tab-content col m-markdown'', flex on]
             [copy_button (rq_responseText rq), el ''pre'' [] [el ''code'' [] [Txt (rq_responseText rq)]]])"

definition apiResponseTabTemplate :: "request \<Rightarrow> req_act html list" where
  "apiResponseTabTemplate rq =
     (let tab = (\<lambda>t. rq_responseTab rq = js t) in
      [el ''div'' [cls ''row'']
         [el ''div'' [(''class'', js ''response-message '' @ rq_responseStatus rq)] [Txt (js ''Response Status: '' @ rq_responseMessage rq)],
          El ''button'' [cls ''m-btn''] [(''click'', ClearResponse)] [lit ''CLEAR RESPONSE'']],
       el ''div'' [cls ''tab-panel col'']
         ([El ''div'' [(''id'', js ''tab_buttons''), cls ''tab-buttons row''] [(''click'', ResponseTab)]
             ([tab_button ''tab-btn'' (tab ''response'') ''response'' '' RESPONSE'', tab_button ''tab-btn'' (tab ''headers'') ''headers'' '' RESPONSE HEADERS''] @
              show_if (\<not> rq_showCurl rq) [tab_button ''tab-btn'' (tab ''curl'') ''curl'' ''CURL'']),
           response_content rq,
           el ''div'' [cls ''tab-content col m-markdown'', flex (tab ''headers'')]
             [copy_button (rq_responseHeaders rq), el ''pre'' [] [el ''code'' [] [Txt (rq_responseHeaders rq)]]]] @
          show_if (\<not> rq_showCurl rq) [curlSyntaxTemplate rq (tab ''curl'')])])"

definition auth_status :: "request \<Rightarrow> req_act html" where
  "auth_status rq =
     (if rq_security rq > 0
      then (case rq_api_keys rq of
              [] \<Rightarrow> el ''div'' [cls ''gray-text''] [lit ''Required  '', el ''span'' [] [lit ''(None Applied)'']]
            | [k] \<Rightarrow> el ''div'' [] [Txt (typeDisplay k @ js '' in '' @ sc_in k)]
            | ks \<Rightarrow> el ''div'' [] [Txt (nat_text (length ks) @ js '' API keys applied'')])
      else el ''span'' [cls ''gray-text''] [lit '' Not Required ''])"

definition apiCallTemplate :: "request \<Rightarrow> req_act html list" where
  "apiCallTemplate rq =
     [el ''div'' []
        ([el ''div'' [cls ''hide-in-small-screen'']
            [el ''div'' [] [el ''div'' [] (show_if (rq_serverUrl rq \<noteq> [])
               [el ''div'' [] [el ''div'' [] [lit ''API Server''], el ''span'' [cls ''gray-text''] [Txt (rq_serverUrl rq)]]])],
             el ''div'' [] [el ''div'' [] [lit ''Authentication''], auth_status rq]]] @
         show_if (rq_parameters rq \<noteq> [] \<or> is_truthy (rq_request_body rq))
           [El ''button'' [cls ''m-btn thin-border'', (''title'', js ''Fills with example data (if provided)'')] [(''click'', FillRequest)] [lit '' FILL EXAMPLE ''],
            El ''button'' [cls ''m-btn thin-border''] [(''click'', ClearRequest)] [lit '' CLEAR '']] @
         [El ''button'' [cls ''m-btn primary thin-border''] [(''click'', Try)] [lit ''TRY'']]),
      el ''div'' [cls ''row''] (show_if (rq_showCurl rq) [curlSyntaxTemplate rq True])] @
     (if rq_responseMessage rq = [] then [] else apiResponseTabTemplate rq)"

definition render_request :: "schema_functions \<Rightarrow> request \<Rightarrow> req_act html option" where
  "render_request fs rq =
     map_option (\<lambda>parts.
       el ''div'' [cls (if occurs (rq_renderStyle rq) (js ''read focused'') \<or> rq_callback rq
                        then ''col regular-font request-panel read-mode'' else ''col regular-font request-panel view-mode'')]
         [el ''div'' [cls (if rq_callback rq then '' tiny-title '' else '' req-res-title '')] [lit (if rq_callback rq then ''CALLBACK REQUEST'' else ''REQUEST'')],
          el ''div'' [] (parts @ show_if (rq_allowTry rq \<noteq> js ''false'') (apiCallTemplate rq))])
       (those_concat
         [inputParametersTemplate fs rq (js ''path''), inputParametersTemplate fs rq (js ''query''), requestBodyTemplate fs rq,
          inputParametersTemplate fs rq (js ''header''), inputParametersTemplate fs rq (js ''cookie'')])"

section \<open>Operations\<close>

definition clearResponseData :: "request \<Rightarrow> request" where
  "clearResponseData rq =
     rq\<lparr>rq_responseUrl := [], rq_responseHeaders := [], rq_responseText := [], rq_responseStatus := js ''success'', rq_responseMessage := [],
        rq_responseIsBlob := False, rq_responseBlobType := [], rq_respContentDisposition := [], rq_responseBlobUrl := []\<rparr>"

definition onMimeTypeChange :: "jstr \<Rightarrow> request \<Rightarrow> request" where
  "onMimeTypeChange v rq = rq\<lparr>rq_bodyType := v, rq_bodyExample := []\<rparr>"

definition onSelectExample :: "jstr \<Rightarrow> request \<Rightarrow> request" where
  "onSelectExample v rq = rq\<lparr>rq_bodyExample := v\<rparr>"

definition onParamTab :: "jstr \<Rightarrow> jstr \<Rightarrow> request \<Rightarrow> request" where
  "onParamTab name tab rq = rq\<lparr>rq_paramTabs := (name, tab) # filter (\<lambda>(k, v). k \<noteq> name) (rq_paramTabs rq)\<rparr>"

end
