(* ===== verification/Try_It.thy ===== *)
theory Try_It
  imports Api_Request
begin

text \<open>
  What the TRY button of an operation sends (\<open>docs/ui/assets/rapidoc-min.js\<close>): the inputs of the panel, filling and
  clearing them, and the URL, the headers and the body built from them. An input is read off its element in the
  rendered panel, by its tag and its \<open>data-\<close> attributes.
\<close>

section \<open>The inputs of the panel\<close>

record field =
  fd_tag :: string
  fd_class :: jstr
  fd_input_type :: jstr
  fd_ptype :: "jstr option"
  fd_pname :: jstr
  fd_array :: "jstr option"
  fd_example :: "jstr option"
  fd_style :: jstr
  fd_explode :: jstr
  fd_reserved :: jstr
  fd_value :: json
  fd_files :: "jstr list"       \<comment> \<open>the names of the chosen files\<close>

fun field_of :: "'a html \<Rightarrow> field option" where
  "field_of (El t as hs ks) =
     (if t \<in> {''input'', ''tag-input'', ''textarea''} \<and> js ''is-hidden'' \<notin> set (split_on 32 (or_empty (map_of as ''class'')))
      then Some \<lparr>fd_tag = t, fd_class = or_empty (map_of as ''class''), fd_input_type = or_empty (map_of as ''type''),
             fd_ptype = map_of as ''data-ptype'', fd_pname = or_empty (map_of as ''data-pname''), fd_array = map_of as ''data-array'',
             fd_example = map_of as ''data-example'', fd_style = or_empty (map_of as ''data-param-serialize-style''),
             fd_explode = or_empty (map_of as ''data-param-serialize-explode''), fd_reserved = or_empty (map_of as ''data-param-allow-reserved''),
             fd_value = JStr [], fd_files = []\<rparr>
      else None)"
| "field_of _ = None"

definition cleared_fields :: "'a html list \<Rightarrow> field list" where
  \<comment> \<open>the inputs of a panel, with nothing in them\<close>
  "cleared_fields ks = List.map_filter field_of (all_nodes ks)"

definition onFillRequestData :: "field list \<Rightarrow> field list" where
  "onFillRequestData = map (\<lambda>f.
     if truthy (fd_example f)
     then f\<lparr>fd_value := (if fd_tag f = ''tag-input'' then JArr (map JStr (split_parts (the (fd_example f)))) else JStr (the (fd_example f)))\<rparr>
     else f)"

definition onClearRequestData :: "field list \<Rightarrow> field list" where
  "onClearRequestData = map (\<lambda>f. f\<lparr>fd_value := JStr []\<rparr>)"

definition of_ptype :: "string \<Rightarrow> field list \<Rightarrow> field list" where
  "of_ptype p fs = filter (\<lambda>f. fd_ptype f = Some (js p)) fs"

section \<open>The URL\<close>

definition strip_one :: "(jchar \<Rightarrow> bool) \<Rightarrow> jstr \<Rightarrow> jstr" where
  \<comment> \<open>\<open>s.replace(/^x|x$/g, "")\<close>\<close>
  "strip_one P s =
     (let s' = (if s \<noteq> [] \<and> P (hd s) then tl s else s) in if s' \<noteq> [] \<and> P (last s') then butlast s' else s')"

definition value_text :: "field \<Rightarrow> jstr" where
  "value_text f = to_text (fd_value f)"

definition value_items :: "field \<Rightarrow> json list" where
  "value_items f = filter (\<lambda>v. v \<noteq> JStr []) (case fd_value f of JArr vs \<Rightarrow> vs | _ \<Rightarrow> [])"

definition query_pairs :: "field \<Rightarrow> (jstr \<times> jstr) list" where
  "query_pairs f =
     (if fd_array f = Some (js ''false'') then show_if (fd_value f \<noteq> JStr []) [(fd_pname f, value_text f)]
      else (let n = value_items f in
        if n = [] then []
        else if fd_style f = js ''spaceDelimited'' then [(fd_pname f, strip_one is_space (arr_join '' '' n))]
        else if fd_style f = js ''pipeDelimited'' then [(fd_pname f, strip_one (\<lambda>c. c = 124) (arr_join ''|'' n))]
        else if fd_explode f = js ''true'' then map (\<lambda>v. (fd_pname f, to_text v)) n
        else [(fd_pname f, strip_one (\<lambda>c. c = 44) (arr_join '','' n))]))"

lemma size_item_less: "(k, w) \<in> set (zip ks vs) \<Longrightarrow> size w < Suc (size_list size vs)"
  by (drule set_zip_rightD) (induction vs; auto)

function xml_text :: "nat \<Rightarrow> json \<Rightarrow> jstr option" where
  "xml_text t e =
     map_option concat (those (map (\<lambda>(n, v).
       if v = JNull \<or> n = [] \<and> is_array (Some v) \<and> text_entry ''::XML_TAG'' v = [] then None
       else (let i = (if text_entry ''::XML_TAG'' v \<noteq> [] then text_entry ''::XML_TAG'' v else n);
                 tag = (if is_array (Some v) then n else i)
             in if startsWith n (js ''::'') then Some []
                else if is_object v
                then map_option (\<lambda>x. indent t @ js ''<'' @ tag @ js ''>'' @ x @ indent t @ js ''</'' @ tag @ js ''>'') (xml_text (t + 1) v)
                else Some (indent t @ js ''<'' @ tag @ js ''>'' @ to_text v @ js ''</'' @ tag @ js ''>'')))
       (case e of JObj kvs \<Rightarrow> kvs | JArr vs \<Rightarrow> zip (map nat_text [0..<length vs]) vs | _ \<Rightarrow> [])))"
  by pat_completeness auto
termination
  by (relation "measure (\<lambda>(t, e). size e)") (auto split: json.splits dest: size_entry size_item_less)

declare xml_text.simps [simp del]

definition object_pairs :: "jstr \<Rightarrow> jstr \<Rightarrow> jstr \<Rightarrow> (jstr \<times> json) list \<Rightarrow> (jstr \<times> jstr) list" where
  "object_pairs name style explode kvs =
     concat (map (\<lambda>(k, v).
       let o' = name @ js ''['' @ k @ js '']'' in
       case v of
         JArr vs \<Rightarrow>
           if style = js ''spaceDelimited'' then [(o', arr_join '' '' vs)]
           else if style = js ''pipeDelimited'' then [(o', arr_join ''|'' vs)]
           else if explode = js ''true'' then map (\<lambda>w. (o', to_text w)) vs
           else [(o', to_text v)]
       | _ \<Rightarrow> if is_object v then [] else [(o', to_text v)]) kvs)"

definition parsed_object :: "field \<Rightarrow> (jstr \<times> json) list option" where
  "parsed_object f = map_option object_fields (json_parse (replace_runs is_space (js '' '') (value_text f)))"

definition query_object_pairs :: "field \<Rightarrow> (jstr \<times> jstr) list" where
  "query_object_pairs f =
     (case parsed_object f of
        None \<Rightarrow> []
      | Some kvs \<Rightarrow>
          if occurs (fd_style f) (js ''json xml'')
          then (if fd_style f = js ''json'' then [(fd_pname f, compact (JObj kvs))]
                else if fd_style f = js ''xml'' then (case xml_text 1 (JObj kvs) of None \<Rightarrow> [] | Some x \<Rightarrow> [(fd_pname f, x)])
                else [])
          else object_pairs (fd_pname f) (fd_style f) (fd_explode f) kvs)"

type_synonym query_entries = "(jstr \<times> (jstr \<times> jstr) list) list"

fun put_query :: "jstr \<Rightarrow> (jstr \<times> jstr) list \<Rightarrow> query_entries \<Rightarrow> query_entries" where
  \<comment> \<open>\<open>Map.set\<close>: a key keeps its place\<close>
  "put_query k ps [] = [(k, ps)]"
| "put_query k ps ((l, qs) # m) = (if l = k then (l, ps) # m else (l, qs) # put_query k ps m)"

definition add_query :: "jstr \<Rightarrow> (jstr \<times> jstr) list \<Rightarrow> query_entries \<Rightarrow> query_entries" where
  "add_query k ps m = (if params_text ps \<noteq> [] then put_query k ps m else m)"

definition query_map :: "field list \<Rightarrow> query_entries" where
  "query_map fs =
     fold (\<lambda>f. add_query (fd_pname f) (query_object_pairs f)) (of_ptype ''query-object'' fs)
       (fold (\<lambda>f. add_query (fd_pname f) (query_pairs f)) (of_ptype ''query'' fs) [])"

definition reserved_names :: "field list \<Rightarrow> jstr list" where
  "reserved_names fs =
     map fd_pname (filter (\<lambda>f. fd_reserved f = js ''true'') (of_ptype ''query'' fs)) @
     map fd_pname (filter (\<lambda>f. fd_reserved f = js ''true'' \<and> parsed_object f \<noteq> None) (of_ptype ''query-object'' fs))"

definition query_part :: "jstr list \<Rightarrow> jstr \<times> (jstr \<times> jstr) list \<Rightarrow> jstr" where
  "query_part reserved kps =
     (case kps of (k, ps) \<Rightarrow>
        if k \<in> set reserved
        then k @ js ''='' @ join (js ''&'' @ k @ js ''='') (map snd (filter (\<lambda>p. fst p = k) ps))
        else params_text ps)"

definition query_text :: "field list \<Rightarrow> jstr" where
  \<comment> \<open>each part is followed by an ampersand and the last one is cut off\<close>
  "query_text fs = butlast (concat (map (\<lambda>kps. query_part (reserved_names fs) kps @ js ''&'') (query_map fs)))"

fun fill_path :: "field list \<Rightarrow> jstr \<Rightarrow> jstr option" where
  "fill_path [] t = Some t"
| "fill_path (f # fs) t =
     (case encodeURIComponent (value_text f) of
        None \<Rightarrow> None
      | Some v \<Rightarrow> fill_path fs (replace_first (js ''{'' @ fd_pname f @ js ''}'') v t))"

definition with_query :: "jstr \<Rightarrow> jstr \<Rightarrow> jstr" where
  "with_query t q = t @ js (if occurs (js ''?'') t then ''&'' else ''?'') @ q"

fun add_keys :: "scheme list \<Rightarrow> jstr \<Rightarrow> jstr option" where
  "add_keys [] t = Some t"
| "add_keys (k # ks) t =
     (case encodeURIComponent (finalKeyValue k) of
        None \<Rightarrow> None
      | Some v \<Rightarrow> add_keys ks (with_query t (sc_name k @ js ''='' @ v)))"

definition buildFetchURL :: "request \<Rightarrow> field list \<Rightarrow> jstr option" where
  "buildFetchURL rq fs =
     (case fill_path (of_ptype ''path'' fs) (rq_path rq) of
        None \<Rightarrow> None
      | Some t \<Rightarrow>
          map_option (\<lambda>u. (if endsWith (rq_serverUrl rq) (js ''/'') then butlast (rq_serverUrl rq) else rq_serverUrl rq) @ u)
            (add_keys (filter (\<lambda>k. sc_in k = js ''query'') (rq_api_keys rq)) (if query_text fs = [] then t else with_query t (query_text fs))))"

section \<open>Headers\<close>

text \<open>A \<open>Headers\<close> object: lower-case names in order, the values of one name joined.\<close>

type_synonym headers = "(jstr \<times> jstr) list"

fun text_less :: "jstr \<Rightarrow> jstr \<Rightarrow> bool" where
  "text_less s [] = False"
| "text_less [] (d # t) = True"
| "text_less (c # s) (d # t) = (c < d \<or> c = d \<and> text_less s t)"

fun append_header :: "jstr \<Rightarrow> jstr \<Rightarrow> headers \<Rightarrow> headers" where
  "append_header k v [] = [(k, v)]"
| "append_header k v ((l, w) # hs) =
     (if k = l then (l, w @ js '', '' @ v) # hs
      else if text_less k l then (k, v) # (l, w) # hs
      else (l, w) # append_header k v hs)"

definition add_header :: "jstr \<Rightarrow> jstr \<Rightarrow> headers \<Rightarrow> headers" where
  "add_header k v = append_header (toLowerCase k) (trim v)"

definition header_object_text :: "field \<Rightarrow> jstr option" where
  "header_object_text f =
     (case json_parse (trim (filter (\<lambda>c. c \<noteq> 10) (value_text f))) of
        None \<Rightarrow> None
      | Some JNull \<Rightarrow> None
      | Some t \<Rightarrow>
          (let r = js (if fd_explode f = js ''true'' then ''='' else '','') in
           Some (join (js '','') (map (\<lambda>(k, v). k @ r @ (if is_object v then compact v else to_text v)) (object_fields t)))))"

fun add_header_fields :: "field list \<Rightarrow> headers \<Rightarrow> headers option" where
  "add_header_fields [] hs = Some hs"
| "add_header_fields (f # fs) hs =
     (if \<not> is_truthy (Some (fd_value f)) then add_header_fields fs hs
      else if fd_ptype f = Some (js ''header-object'')
      then (case header_object_text f of None \<Rightarrow> None | Some v \<Rightarrow> add_header_fields fs (add_header (fd_pname f) v hs))
      else add_header_fields fs (add_header (fd_pname f) (value_text f) hs))"

definition header_fields :: "field list \<Rightarrow> field list" where
  "header_fields fs = filter (\<lambda>f. fd_ptype f = Some (js ''header'') \<or> fd_ptype f = Some (js ''header-object'')) fs"

definition buildFetchHeaders :: "request \<Rightarrow> jstr option \<Rightarrow> jstr \<Rightarrow> jstr option \<Rightarrow> field list \<Rightarrow> headers option" where
  \<comment> \<open>the type selected in the response panel, the component's \<open>accept\<close> attribute, the type of the body if there is one\<close>
  "buildFetchHeaders rq selected accept bt fs =
     (let h0 = (if truthy selected then add_header (js ''Accept'') (the selected) []
                else if accept \<noteq> [] then add_header (js ''Accept'') accept [] else []);
          h1 = fold (\<lambda>k. add_header (sc_name k) (finalKeyValue k)) (filter (\<lambda>k. sc_in k = js ''header'') (rq_api_keys rq)) h0
      in map_option (\<lambda>h2. case bt of
             Some t \<Rightarrow> if occurs (js ''form-data'') t then h2 else add_header (js ''Content-Type'') t h2
           | None \<Rightarrow> h2)
           (add_header_fields (header_fields fs) h1))"

section \<open>The body\<close>

datatype part_value = PText jstr | PFile jstr

datatype body =
    NoBody
  | UrlParams "(jstr \<times> jstr) list"
  | FormData "(jstr \<times> part_value) list"
  | FileBody jstr
  | TextBody jstr

definition dynamic_form_body :: "field \<Rightarrow> body" where
  "dynamic_form_body f =
     (if value_text f = [] then NoBody
      else case json_parse (value_text f) of
        None \<Rightarrow> NoBody
      | Some v \<Rightarrow> UrlParams (map (\<lambda>(k, w). (k, compact w)) (object_fields v)))"

definition urlencoded_pairs :: "field \<Rightarrow> (jstr \<times> jstr) list" where
  "urlencoded_pairs f =
     (if fd_input_type f = js ''file'' then []
      else if fd_array f = Some (js ''false'') then show_if (is_truthy (Some (fd_value f))) [(fd_pname f, value_text f)]
      else [(fd_pname f, case fd_value f of JArr vs \<Rightarrow> arr_join '','' vs | _ \<Rightarrow> [])])"

definition form_parts :: "field \<Rightarrow> (jstr \<times> part_value) list" where
  "form_parts f =
     (if fd_array f = Some (js ''false'')
      then (case (fd_input_type f = js ''file'', fd_files f) of
              (True, x # _) \<Rightarrow> [(fd_pname f, PFile x)]
            | _ \<Rightarrow> show_if (is_truthy (Some (fd_value f))) [(fd_pname f, PText (value_text f))])
      else (case fd_value f of JArr vs \<Rightarrow> [(fd_pname f, PText (arr_join '','' vs))] | _ \<Rightarrow> []))"

definition with_class :: "string \<Rightarrow> field list \<Rightarrow> field option" where
  "with_class c fs = List.find (\<lambda>f. js c \<in> set (split_on 32 (fd_class f))) fs"

definition buildFetchBody :: "jstr option \<Rightarrow> field list \<Rightarrow> body" where
  "buildFetchBody bt fs =
     (case bt of
        None \<Rightarrow> NoBody
      | Some s \<Rightarrow>
          if occurs (js ''form-urlencoded'') s
          then (case of_ptype ''dynamic-form'' fs of
                  f # _ \<Rightarrow> dynamic_form_body f
                | [] \<Rightarrow> UrlParams (concat (map urlencoded_pairs (of_ptype ''form-urlencode'' fs))))
          else if occurs (js ''form-data'') s then FormData (concat (map form_parts (of_ptype ''form-data'' fs)))
          else if is_binary_type s
          then (case with_class ''request-body-param-file'' fs of Some f \<Rightarrow> (case fd_files f of x # _ \<Rightarrow> FileBody x | [] \<Rightarrow> NoBody) | None \<Rightarrow> NoBody)
          else if occurs (js ''json'') s \<or> occurs (js ''xml'') s \<or> occurs (js ''text'') s
          then (case with_class ''request-body-param-user-input'' fs of
                  Some f \<Rightarrow> if is_truthy (Some (fd_value f)) then TextBody (value_text f) else NoBody
                | None \<Rightarrow> NoBody)
          else NoBody)"

section \<open>The curl command\<close>

fun index_of :: "'b \<Rightarrow> 'b list \<Rightarrow> nat option" where
  "index_of x [] = None"
| "index_of x (y # ys) = (if x = y then Some 0 else map_option Suc (index_of x ys))"

definition dedupe_header :: "jstr \<Rightarrow> jstr" where
  \<comment> \<open>the filter looks the trimmed parts up among the parts before trimming\<close>
  "dedupe_header v =
     (let s = split_on 44 v in
      join (js '', '') (map snd (filter (\<lambda>(n, e). index_of e s = Some n) (zip [0..<length s] (map trim s)))))"

definition curl_headers :: "headers \<Rightarrow> headers" where
  "curl_headers = map (\<lambda>(k, v). (k, dedupe_header v))"

fun comma_pairs :: "jstr \<Rightarrow> jstr list" where
  \<comment> \<open>the matches of \<open>/([^,],)/gm\<close>\<close>
  "comma_pairs (c # d # s) = (if c \<noteq> 44 \<and> d = 44 then [c, d] # comma_pairs s else comma_pairs (d # s))"
| "comma_pairs _ = []"

definition dq :: jstr where "dq = [34]"
definition continued :: jstr where "continued = [32, 92, 10]"

definition form_flag :: "jstr \<times> part_value \<Rightarrow> jstr list" where
  "form_flag kp =
     (case kp of
        (k, PFile n) \<Rightarrow> [js '' -F '' @ dq @ k @ js ''=@'' @ n @ dq]
      | (k, PText v) \<Rightarrow>
          if comma_pairs v \<noteq> [] then map (\<lambda>e. js ''-F '' @ dq @ k @ js ''[]='' @ e @ dq) (comma_pairs v)
          else [js '' -F '' @ dq @ k @ js ''='' @ v @ dq])"

definition shell_quoted :: "jstr \<Rightarrow> jstr" where
  "shell_quoted s = concat (map (\<lambda>c. if c = 39 then [39, 34, 39, 34, 39] else [c]) s)"

definition typed_body :: "jstr option \<Rightarrow> field list \<Rightarrow> jstr option" where
  \<comment> \<open>what the user typed into the body, where a type is selected\<close>
  "typed_body bt fs =
     (if truthy bt
      then (case with_class ''request-body-param-user-input'' fs of
              Some f \<Rightarrow> if is_truthy (Some (fd_value f)) then Some (value_text f) else None
            | None \<Rightarrow> None)
      else None)"

definition generateCURLSyntax :: "(jstr \<Rightarrow> jstr) \<Rightarrow> request \<Rightarrow> jstr \<Rightarrow> headers \<Rightarrow> body \<Rightarrow> jstr option \<Rightarrow> field list \<Rightarrow> jstr \<times> headers \<times> body" where
  \<comment> \<open>the text, and the headers and the body as the call leaves them; \<open>absolute\<close> resolves a URL against the page\<close>
  "generateCURLSyntax absolute rq url hs b bt fs =
     (let n = (if startsWith url (js ''http'') then url else absolute url);
          hs' = curl_headers hs;
          first_line = js ''curl -X '' @ map upper_char (rq_method rq) @ js '' '' @ dq @ n @ dq @ continued;
          flags = join [92, 10] (map (\<lambda>(k, v). js '' -H '' @ [39] @ k @ js '': '' @ v @ [39]) hs');
          head = first_line @ (if flags = [] then [] else flags @ continued)
      in case b of
           UrlParams ps \<Rightarrow> (head @ js '' -d '' @ params_text ps @ continued, hs', b)
         | FileBody x \<Rightarrow> (head @ js '' --data-binary @'' @ x @ continued, hs', b)
         | FormData ps \<Rightarrow> (head @ join [92, 10] (concat (map form_flag ps)), hs', b)
         | _ \<Rightarrow>
           (case typed_body bt fs of
              None \<Rightarrow> (head, hs', b)
            | Some v \<Rightarrow>
               (head @ js '' -d '' @ [39] @
                  (case (if occurs (js ''json'') (the bt) then json_parse v else None) of Some j \<Rightarrow> compact j | None \<Rightarrow> shell_quoted v) @ [39] @ continued,
                hs', TextBody v)))"

record sent =
  st_url :: jstr
  st_headers :: headers
  st_body :: body
  st_curl :: jstr

definition sent_request :: "(jstr \<Rightarrow> jstr) \<Rightarrow> request \<Rightarrow> jstr option \<Rightarrow> jstr \<Rightarrow> jstr option \<Rightarrow> field list \<Rightarrow> sent option" where
  \<comment> \<open>what \<open>onTryClick\<close> passes to \<open>fetch\<close>, built in its order\<close>
  "sent_request absolute rq selected accept bt fs =
     (case buildFetchURL rq fs of
        None \<Rightarrow> None
      | Some url \<Rightarrow>
         (case buildFetchHeaders rq selected accept bt fs of
            None \<Rightarrow> None
          | Some hs \<Rightarrow>
             (case generateCURLSyntax absolute rq url hs (buildFetchBody bt fs) bt fs of
                (curl, hs', b) \<Rightarrow> Some \<lparr>st_url = url, st_headers = hs', st_body = b, st_curl = curl\<rparr>)))"

section \<open>Lemmas\<close>

subsection \<open>Inputs of the templates\<close>

lemma cleared_fields_simps [simp]:
  "cleared_fields [] = []" "cleared_fields (Txt s # ks) = cleared_fields ks" "cleared_fields (Md s # ks) = cleared_fields ks"
  "cleared_fields (ks @ ls) = cleared_fields ks @ cleared_fields ls"
  "cleared_fields (concat kss) = concat (map cleared_fields kss)"
  "cleared_fields (show_if c ks) = show_if c (cleared_fields ks)"
  by (simp_all add: cleared_fields_def [abs_def] map_filter_def show_if_def filter_concat map_concat comp_def [abs_def])

lemma cleared_fields_El [simp]:
  "cleared_fields (El t as hs kids # ks) =
     (case field_of (El t as hs kids) of None \<Rightarrow> [] | Some f \<Rightarrow> [f]) @ cleared_fields kids @ cleared_fields ks"
  by (simp add: cleared_fields_def map_filter_simps map_filter_def split: option.split)

lemma no_field [simp]: "t \<notin> {''input'', ''tag-input'', ''textarea''} \<Longrightarrow> field_of (El t as hs ks) = None"
  by simp

lemma cleared_fields_map_None: "(\<And>x. x \<in> set xs \<Longrightarrow> cleared_fields [f x] = []) \<Longrightarrow> cleared_fields (map f xs) = []"
  by (induction xs) (auto simp: cleared_fields_def map_filter_def)

lemma example_list_has_no_fields [simp]: "cleared_fields (exampleListTemplate rq name t es) = []"
proof -
  have one: "cleared_fields (renderExample rq e t name) = []" for e by (simp add: renderExample_def)
  have "cleared_fields (renderShortFormatExamples rq es t name) = []"
    unfolding renderShortFormatExamples_def by (simp add: one comp_def split_def)
  moreover have "cleared_fields (renderLongFormatExamples rq es t name) = []"
    unfolding renderLongFormatExamples_def by (simp add: one cleared_fields_map_None)
  ultimately show ?thesis by (simp add: exampleListTemplate_def show_if_def)
qed

lemma constraint_box_has_no_fields [simp]: "constraint_box rq name info = Some b \<Longrightarrow> cleared_fields [b] = []"
  by (auto simp: constraint_box_def allowed_links_def labelled_def comp_def split_def split: if_splits option.splits json.splits)

text \<open>The input of a parameter, as its row has it.\<close>

definition param_ptype :: "jstr \<Rightarrow> type_info \<Rightarrow> jstr" where
  "param_ptype loc info = (if ti_type info = js ''object'' then loc @ js ''-object'' else loc)"

definition input_kind :: "type_info \<Rightarrow> string" where
  "input_kind info = (if ti_type info = js ''array'' then ''tag-input'' else if ti_type info = js ''object'' then ''textarea'' else ''input'')"

lemma object_not_array [simp]: "js ''object'' \<noteq> js ''array''" "js ''array'' \<noteq> js ''object''"
  by simp_all

lemma request_param_not_hidden [simp]:
  "js ''is-hidden'' \<notin> set (split_on 32 (js ''request-param''))" "js ''is-hidden'' \<notin> set (split_on 32 (js ''textarea request-param''))"
  by code_simp+

lemma param_input_fields:
  "map (\<lambda>f. (fd_tag f, fd_ptype f, fd_pname f, fd_input_type f)) (cleared_fields (param_input fs rq loc r sch info se v)) =
     [(input_kind info, Some (param_ptype loc info), text_entry ''name'' r,
       if input_kind info = ''input'' then js (if ti_format info = js ''password'' then ''password'' else ''text'') else [])]"
  by (simp add: param_input_def array_param_def object_param_def text_param_def tab_button_def input_kind_def param_ptype_def Let_def or_empty_def
      del: split_on.simps)

lemma param_rows_fields:
  assumes "param_rows fs rq loc r sch info se v es = Some rows"
  shows "cleared_fields rows = show_if (can_try rq) (cleared_fields (param_input fs rq loc r sch info se v))"
  using assms by (auto simp: param_rows_def param_name_cell_def split: if_splits)

lemma those_concat_Some:
  "those_concat xs = Some ys \<longleftrightarrow> None \<notin> set xs \<and> ys = concat (map the xs)"
  by (induction xs arbitrary: ys) (auto split: option.splits)

lemma those_concat_None: "None \<in> set xs \<Longrightarrow> those_concat xs = None"
  by (induction xs) (auto split: option.splits)

definition input_sig :: "field \<Rightarrow> string \<times> jstr option \<times> jstr \<times> jstr" where
  "input_sig f = (fd_tag f, fd_ptype f, fd_pname f, fd_input_type f)"

definition expected_input :: "jstr \<Rightarrow> json \<Rightarrow> (string \<times> jstr option \<times> jstr \<times> jstr) list" where
  \<comment> \<open>what the panel should offer for a parameter: nothing without a schema\<close>
  "expected_input loc r =
     (case getTypeInfo (fst (getSchemaFromParam r)) of
        None \<Rightarrow> []
      | Some info \<Rightarrow> [(input_kind info, Some (param_ptype loc info), text_entry ''name'' r,
          if input_kind info = ''input'' then js (if ti_format info = js ''password'' then ''password'' else ''text'') else [])])"

lemma param_template_fields:
  "param_template fs rq loc r = Some rows \<Longrightarrow> can_try rq \<Longrightarrow> map input_sig (cleared_fields rows) = expected_input loc r"
  using param_input_fields [of fs rq loc r]
  by (auto simp: param_template_def expected_input_def input_sig_def [abs_def] split: prod.splits option.splits dest!: param_rows_fields)

lemma map_concat_fields: "map g (cleared_fields (concat kss)) = concat (map (\<lambda>ks. map g (cleared_fields ks)) kss)"
  by (simp add: map_concat comp_def)

subsection \<open>Parameters that break the panel\<close>

fun is_text :: "json option \<Rightarrow> bool" where
  "is_text (Some (JStr s)) = True"
| "is_text _ = False"

definition breaks_panel :: "json \<Rightarrow> bool" where
  "breaks_panel r \<longleftrightarrow>
     (case getTypeInfo (fst (getSchemaFromParam r)) of
        None \<Rightarrow> False
      | Some info \<Rightarrow>
          entry ''examples'' r = Some JNull \<or> entry ''examples'' r = None \<and> entry ''example'' r = Some JNull \<or>
          is_truthy (ti_allowedValues info) \<and> \<not> is_text (ti_allowedValues info))"

lemma no_text_no_links: "is_truthy (ti_allowedValues info) \<Longrightarrow> \<not> is_text (ti_allowedValues info) \<Longrightarrow> param_rows fs rq loc r sch info se v es = None"
  by (auto simp: param_rows_def constrained_def constraint_box_def allowed_links_def split: option.split json.split)

lemma null_example [simp]: "standardizeExample (Some JNull) = None" "standardizeExample None = Some None"
  by (simp_all add: standardizeExample_def)

lemma breaks_param:
  assumes "breaks_panel r"
  shows "param_template fs rq loc r = None"
proof -
  obtain sch media content where r: "getSchemaFromParam r = (sch, media, content)" by (cases "getSchemaFromParam r")
  obtain info where info: "getTypeInfo sch = Some info" using assms by (auto simp: breaks_panel_def r split: option.splits)
  have rows: "param_template fs rq loc r = (case param_examples fs rq r sch media content info of
      None \<Rightarrow> None | Some (v, es) \<Rightarrow> param_rows fs rq loc r sch info (serialization_of loc r media) v es)"
    by (simp add: param_template_def r info)
  consider "param_examples fs rq r sch media content info = None" | "is_truthy (ti_allowedValues info)" "\<not> is_text (ti_allowedValues info)"
    using assms by (auto simp: breaks_panel_def r info param_examples_def)
  then show ?thesis by cases (simp_all add: rows no_text_no_links split: option.split)
qed

subsection \<open>The query string\<close>

lemma split_on_join:
  "ps \<noteq> [] \<Longrightarrow> list_all (\<lambda>p. c \<notin> set p) ps \<Longrightarrow> split_on c (join [c] ps) = ps"
  by (induction "[c]" ps rule: join.induct) auto

lemma js_one [simp]: "js ''&'' = [38]" "js ''='' = [61]"
  by (simp_all add: js_def)

lemma form_pair_safe: "38 \<notin> set (form_pair kv)"
  by (simp add: form_pair_def form_encode_safe)

lemma form_pair_not_Nil [simp]: "form_pair kv \<noteq> []"
  by (simp add: form_pair_def)

lemma decode_form_pair: "decode_pair (form_pair kv) = map_prod text_bytes text_bytes kv"
  by (cases kv) (simp add: decode_pair_def form_pair_def form_encode_safe form_decode_encode)

lemma join_eq_Nil: "list_all (\<lambda>p. p \<noteq> []) ps \<Longrightarrow> join sep ps = [] \<longleftrightarrow> ps = []"
  by (induction sep ps rule: join.induct) auto

lemma params_text_Nil: "params_text ps = [] \<longleftrightarrow> ps = []"
  unfolding params_text_def by (subst join_eq_Nil) (auto simp: list_all_iff)

lemma decode_params: "decode_query (params_text ps) = map (map_prod text_bytes text_bytes) ps"
proof (cases "ps = []")
  case False
  then have "split_on 38 (params_text ps) = map form_pair ps"
    unfolding params_text_def js_one by (intro split_on_join) (auto simp: list_all_iff form_pair_safe)
  then show ?thesis using False by (simp add: decode_query_def params_text_Nil decode_form_pair)
qed (simp add: decode_query_def params_text_def)

lemma join_append: "xs \<noteq> [] \<Longrightarrow> ys \<noteq> [] \<Longrightarrow> join sep (xs @ ys) = join sep xs @ sep @ join sep ys"
  by (induction sep xs rule: join.induct) (auto simp: neq_Nil_conv)

lemma terminated_parts:
  "list_all (\<lambda>ps. ps \<noteq> []) pss \<Longrightarrow> pss \<noteq> [] \<Longrightarrow>
    concat (map (\<lambda>ps. params_text ps @ js ''&'') pss) = params_text (concat pss) @ js ''&''"
proof (induction pss)
  case (Cons ps pss)
  show ?case
  proof (cases "pss = []")
    case False
    then have "concat pss \<noteq> []" using Cons.prems by (cases pss) auto
    then have "params_text (ps @ concat pss) = params_text ps @ js ''&'' @ params_text (concat pss)"
      using Cons.prems by (simp add: params_text_def join_append)
    then show ?thesis using Cons False by simp
  qed simp
qed simp

lemma put_query_new: "k \<notin> set (map fst m) \<Longrightarrow> put_query k ps m = m @ [(k, ps)]"
  by (induction m) auto

lemma fold_add_query:
  assumes "distinct (map fd_pname fs)" "set (map fst m) \<inter> set (map fd_pname fs) = {}" "list_all (\<lambda>kp. snd kp \<noteq> []) m"
  shows "concat (map snd (fold (\<lambda>f. add_query (fd_pname f) (g f)) fs m)) = concat (map snd m) @ concat (map g fs) \<and>
    set (map fst (fold (\<lambda>f. add_query (fd_pname f) (g f)) fs m)) \<subseteq> set (map fst m) \<union> set (map fd_pname fs) \<and>
    list_all (\<lambda>kp. snd kp \<noteq> []) (fold (\<lambda>f. add_query (fd_pname f) (g f)) fs m)"
  using assms
proof (induction fs arbitrary: m)
  case (Cons f fs)
  let ?m = "add_query (fd_pname f) (g f) m"
  have m: "?m = (if g f = [] then m else m @ [(fd_pname f, g f)])"
    using Cons.prems by (auto simp: add_query_def params_text_Nil put_query_new)
  then have "set (map fst ?m) \<inter> set (map fd_pname fs) = {}" "list_all (\<lambda>kp. snd kp \<noteq> []) ?m"
    using Cons.prems by auto
  then show ?case using Cons.IH [of ?m] Cons.prems(1) m by (auto split: if_splits)
qed simp

lemma query_map_pairs:
  assumes "distinct (map fd_pname (of_ptype ''query'' fs @ of_ptype ''query-object'' fs))"
  shows "concat (map snd (query_map fs)) = concat (map query_pairs (of_ptype ''query'' fs)) @ concat (map query_object_pairs (of_ptype ''query-object'' fs))"
    and "list_all (\<lambda>kp. snd kp \<noteq> []) (query_map fs)"
proof -
  let ?m = "fold (\<lambda>f. add_query (fd_pname f) (query_pairs f)) (of_ptype ''query'' fs) []"
  have m: "concat (map snd ?m) = concat (map query_pairs (of_ptype ''query'' fs))" "list_all (\<lambda>kp. snd kp \<noteq> []) ?m"
    "set (map fst ?m) \<subseteq> set (map fd_pname (of_ptype ''query'' fs))"
    using fold_add_query [of "of_ptype ''query'' fs" "[]" query_pairs] assms by simp_all
  moreover have "set (map fst ?m) \<inter> set (map fd_pname (of_ptype ''query-object'' fs)) = {}" using m(3) assms by auto
  ultimately show "concat (map snd (query_map fs)) = concat (map query_pairs (of_ptype ''query'' fs)) @ concat (map query_object_pairs (of_ptype ''query-object'' fs))"
    "list_all (\<lambda>kp. snd kp \<noteq> []) (query_map fs)"
    using fold_add_query [of "of_ptype ''query-object'' fs" ?m query_object_pairs] assms by (simp_all add: query_map_def)
qed

lemma query_text_params:
  assumes "reserved_names fs = []" "list_all (\<lambda>kp. snd kp \<noteq> []) (query_map fs)"
  shows "query_text fs = params_text (concat (map snd (query_map fs)))"
proof (cases "query_map fs = []")
  case False
  have "concat (map (\<lambda>kps. query_part (reserved_names fs) kps @ js ''&'') (query_map fs)) =
      concat (map (\<lambda>ps. params_text ps @ js ''&'') (map snd (query_map fs)))"
    by (auto simp: assms(1) query_part_def comp_def split_def intro!: arg_cong [where f = concat])
  also have "\<dots> = params_text (concat (map snd (query_map fs))) @ js ''&''"
    using terminated_parts [of "map snd (query_map fs)"] assms(2) False by (simp add: list_all_iff)
  finally show ?thesis by (simp add: query_text_def)
qed (simp add: query_text_def params_text_def)

subsection \<open>Path values\<close>

lemma pct_count: "c \<in> {35, 38, 47, 63} \<Longrightarrow> b < 256 \<Longrightarrow> c \<notin> set (pct b)"
proof -
  have hex: "list_all (\<lambda>n. hex_upper n \<notin> {35, 38, 47, 63}) [0..<16]" by code_simp
  assume "c \<in> {35, 38, 47, 63}" "b < 256"
  moreover from this have "b div 16 \<in> set [0..<16]" "b mod 16 \<in> set [0..<16]" by auto
  then have "hex_upper (b div 16) \<notin> {35, 38, 47, 63}" "hex_upper (b mod 16) \<notin> {35, 38, 47, 63}"
    using hex by (auto simp only: list_all_iff)
  ultimately show ?thesis by (auto simp: pct_def)
qed

lemma uri_keeps_safe: "uri_keeps n \<Longrightarrow> n < 128 \<and> n \<notin> {35, 38, 47, 63}"
  by (auto simp: uri_keeps_def alnum_def)

lemma encoded_value_safe:
  assumes "encodeURIComponent s = Some t" "c \<in> {35, 38, 47, 63}"
  shows "c \<notin> set t"
proof -
  have "c \<notin> set (if uri_keeps n then [of_nat n] else concat (map pct (utf8 n)))" if "n \<in> set (code_points s)" for n
  proof (cases "uri_keeps n")
    case True
    then show ?thesis using uri_keeps_safe [of n] assms(2) by (auto simp: of_nat_small_eq)
  next
    case False
    then show ?thesis using pct_count [OF assms(2)] utf8_bytes [OF code_points_bound [OF that]] by auto
  qed
  then have "c \<notin> set (concat (map (\<lambda>n. if uri_keeps n then [of_nat n] else concat (map pct (utf8 n))) (code_points s)))"
    by (simp only: set_concat set_map UN_iff image_iff) blast
  then show ?thesis using assms(1) by (auto simp only: encodeURIComponent_def Let_def option.inject option.distinct split: if_splits)
qed

lemma count_replace_first:
  assumes "c \<notin> set x" "c \<notin> set y"
  shows "count_list (replace_first x y s) c = count_list s c"
proof (cases "find_sub s x")
  case (Some n)
  then have "s = take n s @ x @ drop (n + length x) s"
    using find_sub_SomeD [of s x n] by (metis add.commute append_take_drop_id drop_drop startsWith_def)
  then have "count_list s c = count_list (take n s) c + count_list (drop (n + length x) s) c"
    using assms(1) by (metis add_0 count_list_0_iff count_list_append)
  then show ?thesis using Some assms(2) by (simp add: replace_first_def count_list_0_iff)
qed (simp add: replace_first_def)

subsection \<open>Headers\<close>

lemma trim_drops_space: "trim (32 # b) \<noteq> 32 # b"
proof
  assume "trim (32 # b) = 32 # b"
  then have "length (trim (32 # b)) = Suc (length b)" by simp
  moreover have "length (trim (32 # b)) \<le> length (dropWhile is_space b)"
    by (simp add: trim_def is_space_def length_dropWhile_le [THEN le_trans])
  ultimately show False using length_dropWhile_le [of is_space b] by simp
qed

lemma dedupe_keeps_first:
  assumes "44 \<notin> set a" "44 \<notin> set b" "trim a = a"
  shows "dedupe_header (a @ js '', '' @ b) = a"
proof -
  have "split_on 44 (a @ js '', '' @ b) = [a, 32 # b]" using assms(1,2) by (simp add: js_def)
  moreover have "index_of (trim (32 # b)) [a, 32 # b] \<noteq> Some 1" using trim_drops_space [of b] by simp
  ultimately show ?thesis using assms(3) by (simp add: dedupe_header_def)
qed

subsection \<open>Shell words\<close>

text \<open>How a shell reads a word of quoted pieces: outside quotes (0), in single (1) or double quotes (2).\<close>

fun sh_word :: "nat \<Rightarrow> jstr \<Rightarrow> (jstr \<times> jstr) option" where
  "sh_word m [] = (if m = 0 then Some ([], []) else None)"
| "sh_word m (c # s) =
     (if m = 0 then
        (if c = 39 then sh_word 1 s else if c = 34 then sh_word 2 s
         else if c = 32 \<or> c = 10 then Some ([], c # s) else map_option (apfst ((#) c)) (sh_word 0 s))
      else if c = (if m = 1 then 39 else 34) then sh_word 0 s
      else map_option (apfst ((#) c)) (sh_word m s))"

lemma sh_word_quoted: "sh_word 1 (shell_quoted v @ 39 # 32 # s) = Some (v, 32 # s)"
  by (induction v) (auto simp: shell_quoted_def)

lemma sh_word_plain: "39 \<notin> set x \<Longrightarrow> sh_word 1 (x @ 39 # 32 # s) = Some (x, 32 # s)"
  by (induction x) auto

lemma sh_word_prefix: "39 \<notin> set a \<Longrightarrow> sh_word 1 (a @ 39 # s) = map_option (apfst ((@) a)) (sh_word 0 s)"
  by (induction a) (auto simp: option.map_comp comp_def apfst_def map_prod_def split_def option.map_id0 [unfolded id_def])

text \<open>A quote that is read as such is not in the word.\<close>

lemma sh_word_shrinks:
  "sh_word m s = Some (w, r) \<Longrightarrow> \<exists>u. s = u @ r \<and> length w + (if m \<noteq> 0 \<or> 39 \<in> set u then 1 else 0) \<le> length u"
proof (induction m s arbitrary: w r rule: sh_word.induct)
  case (2 m c s)
  consider "m = 0" "c = 39" | "m = 0" "c = 34" | "m = 0" "c = 32 \<or> c = 10" | "m = 0" "c \<notin> {10, 32, 34, 39}"
    | "m \<noteq> 0" "c = (if m = 1 then 39 else 34)" | "m \<noteq> 0" "c \<noteq> (if m = 1 then 39 else 34)" by blast
  then show ?case
  proof cases
    case 1
    then show ?thesis using "2.IH"(1) [of w r] "2.prems" by (force simp: Cons_eq_append_conv)
  next
    case 2
    then show ?thesis using "2.IH"(2) [of w r] "2.prems" by (force simp: Cons_eq_append_conv)
  next
    case 3
    then show ?thesis using "2.prems" by auto
  next
    case 4
    then obtain w' where w': "sh_word 0 s = Some (w', r)" "w = c # w'" using "2.prems" by auto
    then obtain u where "s = u @ r" "length w' + (if 39 \<in> set u then 1 else 0) \<le> length u" using "2.IH"(3) [of w' r] 4 by auto
    then show ?thesis using w'(2) 4 by (intro exI [of _ "c # u"]) auto
  next
    case 5
    then show ?thesis using "2.IH"(4) [of w r] "2.prems" by (force simp: Cons_eq_append_conv split: if_splits)
  next
    case 6
    then obtain w' where w': "sh_word m s = Some (w', r)" "w = c # w'" using "2.prems" by (auto split: if_splits)
    then obtain u where "s = u @ r" "length w' + 1 \<le> length u" using "2.IH"(5) [of w' r] 6 by auto
    then show ?thesis using w'(2) by (intro exI [of _ "c # u"]) auto
  qed
qed (auto split: if_splits)

lemma sh_word_broken:
  assumes "39 \<in> set x"
  shows "sh_word 1 (x @ 39 # s) \<noteq> Some (x, s)"
proof
  assume eq: "sh_word 1 (x @ 39 # s) = Some (x, s)"
  obtain a b where x: "x = a @ 39 # b" and a: "39 \<notin> set a" using assms by (metis split_list_first)
  have "sh_word 0 (b @ 39 # s) = Some (39 # b, s)" using eq sh_word_prefix [OF a, of "b @ 39 # s"] by (cases "sh_word 0 (b @ 39 # s)") (auto simp: x)
  from sh_word_shrinks [OF this] obtain u where "b @ 39 # s = u @ s" "length (39 # b) + (if 39 \<in> set u then 1 else 0) \<le> length u" by auto
  moreover from this(1) have "u = b @ [39]" by simp
  ultimately show False by simp
qed

section \<open>Properties\<close>

definition sample_request :: request where
  "sample_request = \<lparr>rq_method = js ''post'', rq_path = js ''/chats/{id}'', rq_serverUrl = js ''/api'', rq_parameters = [], rq_request_body = None,
     rq_security = 0, rq_api_keys = [], rq_callback = False, rq_webhook = False, rq_allowTry = js ''true'', rq_fill = True,
     rq_renderStyle = js ''read'', rq_schemaStyle = js ''tree'', rq_expandLevel = js ''1'', rq_descrExpanded = js ''false'',
     rq_descrToggle = js ''true'', rq_hideReadOnly = js ''post'', rq_hideWriteOnly = [], rq_showCurl = False, rq_paramTabs = [],
     rq_schemaTab = js ''example'', rq_responseTab = js ''response'', rq_bodyType = [], rq_bodyExample = [], rq_responseMessage = [],
     rq_responseStatus = [], rq_responseText = [], rq_responseHeaders = [], rq_responseIsBlob = False, rq_responseBlobType = [],
     rq_responseBlobUrl = [], rq_respContentDisposition = [], rq_responseUrl = [], rq_curlSyntax = []\<rparr>"

definition no_functions :: schema_functions where
  "no_functions = \<lparr>objectNotation = (\<lambda>_. None), generateExample = (\<lambda>_. Some [])\<rparr>"


definition password_param :: json where
  "password_param = JObj [(js ''name'', JStr (js ''pin'')), (js ''in'', JStr (js ''query'')),
     (js ''schema'', JObj [(js ''type'', JStr (js ''string'')), (js ''format'', JStr (js ''password''))])]"


text \<open>
  a parameter whose example is \<open>null\<close>, or whose schema has a constant that is not a text, makes the rendering of
  the whole request panel throw.
\<close>

theorem some_parameters_break_the_panel:
  assumes "r \<in> set (rq_parameters rq)" "breaks_panel r"
    and "text_entry ''in'' r \<in> {js ''path'', js ''query'', js ''header'', js ''cookie''}"
  shows "render_request fs rq = None"
proof -
  have r: "r \<in> set (params_in rq (text_entry ''in'' r))" using assms(1) by (simp add: params_in_def)
  then have "None \<in> set (map (param_template fs rq (text_entry ''in'' r)) (params_in rq (text_entry ''in'' r)))"
    using breaks_param [OF assms(2), of fs rq "text_entry ''in'' r"] by (auto intro: image_eqI [where x = r])
  then have "inputParametersTemplate fs rq (text_entry ''in'' r) = None"
    using r by (auto simp: inputParametersTemplate_def those_concat_None)
  then show ?thesis using assms(3) by (auto simp: render_request_def split: option.splits)
qed

definition null_param :: json where
  "null_param = JObj [(js ''name'', JStr (js ''limit'')), (js ''in'', JStr (js ''query'')), (js ''example'', JNull),
     (js ''schema'', JObj [(js ''type'', JStr (js ''integer''))])]"

theorem some_parameters_break_the_panel_witness:
  "render_request no_functions (sample_request\<lparr>rq_parameters := [null_param]\<rparr>) = None"
proof (rule some_parameters_break_the_panel)
  show "null_param \<in> set (rq_parameters (sample_request\<lparr>rq_parameters := [null_param]\<rparr>))" by simp
qed code_simp+


definition text_field :: "string \<Rightarrow> string \<Rightarrow> string \<Rightarrow> field" where
  "text_field pt name v = \<lparr>fd_tag = ''input'', fd_class = js ''request-param'', fd_input_type = js ''text'', fd_ptype = Some (js pt), fd_pname = js name,
     fd_array = Some (js ''false''), fd_example = None, fd_style = [], fd_explode = [], fd_reserved = js ''false'', fd_value = JStr (js v), fd_files = []\<rparr>"

definition tags_field :: "string \<Rightarrow> string list \<Rightarrow> field" where
  "tags_field name vs = \<lparr>fd_tag = ''tag-input'', fd_class = js ''request-param'', fd_input_type = [], fd_ptype = Some (js ''query''), fd_pname = js name,
     fd_array = Some (js ''true''), fd_example = None, fd_style = js ''form'', fd_explode = js ''true'', fd_reserved = js ''false'',
     fd_value = JArr (map (JStr \<circ> js) vs), fd_files = []\<rparr>"


text \<open>
  C26: whatever is typed into the path parameters, the path of the request has the slashes, question marks, hashes and
  ampersands of the template and no others, so that a value stays in its segment.
\<close>

theorem path_values_stay_in_place:
  assumes "fill_path fs t = Some u" "c \<in> {35, 38, 47, 63}" "list_all (\<lambda>f. c \<notin> set (fd_pname f)) fs"
  shows "count_list u c = count_list t c"
  using assms
proof (induction fs t arbitrary: u rule: fill_path.induct)
  case (2 f fs t)
  then obtain v where v: "encodeURIComponent (value_text f) = Some v" by (auto split: option.splits)
  have "c \<notin> set (js ''{'' @ fd_pname f @ js ''}'')" using "2.prems" by (auto simp: js_def)
  then show ?case using "2.IH" [OF v] "2.prems" v count_replace_first [OF _ encoded_value_safe [OF v "2.prems"(2)]] by simp
qed simp

theorem path_values_stay_in_place_witness:
  "fill_path [text_field ''path'' ''id'' ''../x?y''] (js ''/chats/{id}'') = Some (js ''/chats/..%2Fx%3Fy'') \<and>
    count_list (js ''/chats/..%2Fx%3Fy'') 47 = count_list (js ''/chats/{id}'') 47"
proof -
  have p: "fill_path [text_field ''path'' ''id'' ''../x?y''] (js ''/chats/{id}'') = Some (js ''/chats/..%2Fx%3Fy'')"
    by (simp add: text_field_def value_text_def encodeURIComponent_def Let_def lone_surrogate_def uri_keeps_def alnum_def utf8_def pct_def
        hex_upper_def replace_first_def js_def startsWith_def high_surrogate_def)
  moreover have "list_all (\<lambda>f. 47 \<notin> set (fd_pname f)) [text_field ''path'' ''id'' ''../x?y'']" by code_simp
  ultimately show ?thesis using path_values_stay_in_place [OF p, of 47] by simp
qed

text \<open>
  building the curl command cuts the headers of the request that is then sent: a header whose value is a list of
  two with a space after the comma (a date has that form too) is sent with what stands before the comma only.
\<close>

theorem header_values_are_cut:
  assumes "buildFetchURL rq fs = Some url" "buildFetchHeaders rq selected accept bt fs = Some hs"
    and "(k, a @ js '', '' @ b) \<in> set hs" "44 \<notin> set a" "44 \<notin> set b" "trim a = a"
  shows "\<exists>x. sent_request absolute rq selected accept bt fs = Some x \<and> (k, a) \<in> set (st_headers x)"
proof -
  have "(k, a) \<in> set (curl_headers hs)"
    using assms(3) dedupe_keeps_first [OF assms(4-6)] by (force simp: curl_headers_def)
  then show ?thesis using assms(1,2)
    by (auto simp: sent_request_def generateCURLSyntax_def Let_def split: body.split option.split)
qed

theorem header_values_are_cut_witness:
  "\<exists>x. sent_request id sample_request None [] None [text_field ''header'' ''If-Modified-Since'' ''Wed, 21 Oct 2015 07:28:00 GMT''] = Some x \<and>
     (js ''if-modified-since'', js ''Wed'') \<in> set (st_headers x)"
proof (rule header_values_are_cut)
  let ?fs = "[text_field ''header'' ''If-Modified-Since'' ''Wed, 21 Oct 2015 07:28:00 GMT'']"
  show "buildFetchURL sample_request ?fs = Some (js ''/api/chats/{id}'')" by code_simp
  show "buildFetchHeaders sample_request None [] None ?fs = Some [(js ''if-modified-since'', js ''Wed, 21 Oct 2015 07:28:00 GMT'')]" by code_simp
  show "(js ''if-modified-since'', js ''Wed'' @ js '', '' @ js ''21 Oct 2015 07:28:00 GMT'') \<in>
      set [(js ''if-modified-since'', js ''Wed, 21 Oct 2015 07:28:00 GMT'')]" by (simp add: js_def)
qed code_simp+

text \<open>
  what is typed into the free-form field of a URL-encoded body (a schema without properties) is never sent: the
  body of the request is an empty form, because the field is looked up by a type it does not carry.
\<close>

theorem dynamic_form_never_sent:
  assumes "formDataTemplate gs rq sch mime ex = Some ks" "\<not> truthy_entry ''properties'' sch" "occurs (js ''form-urlencoded'') mime"
  shows "buildFetchBody (Some mime) (map (\<lambda>f. f\<lparr>fd_value := JStr typed\<rparr>) (cleared_fields ks)) = UrlParams []"
proof -
  have "\<not> occurs (js ''form-urlencoded'') (js ''dynamic-form'')" "\<not> occurs (js ''form-urlencoded'') (js ''form-urlencode'')" by code_simp+
  then have "mime \<noteq> js ''dynamic-form''" and "mime \<noteq> js ''form-urlencode''" using assms(3) by blast+
  moreover have "list_all (\<lambda>f. fd_ptype f = Some mime) (cleared_fields ks)"
    using assms(1,2) by (auto simp: formDataTemplate_def show_if_def split: if_splits)
  ultimately have "of_ptype ''dynamic-form'' (map (\<lambda>f. f\<lparr>fd_value := JStr typed\<rparr>) (cleared_fields ks)) = []"
    "of_ptype ''form-urlencode'' (map (\<lambda>f. f\<lparr>fd_value := JStr typed\<rparr>) (cleared_fields ks)) = []"
    by (auto simp: of_ptype_def list_all_iff filter_empty_conv)
  then show ?thesis using assms(3) by (simp add: buildFetchBody_def)
qed

theorem dynamic_form_never_sent_witness:
  "\<exists>ks. formDataTemplate no_functions sample_request (JObj []) (js ''application/x-www-form-urlencoded'') (JStr []) = Some ks \<and>
     buildFetchBody (Some (js ''application/x-www-form-urlencoded'')) (map (\<lambda>f. f\<lparr>fd_value := JStr (js ''{}'')\<rparr>) (cleared_fields ks)) = UrlParams []"
proof -
  obtain ks where ks: "formDataTemplate no_functions sample_request (JObj []) (js ''application/x-www-form-urlencoded'') (JStr []) = Some ks"
    by (simp add: formDataTemplate_def truthy_entry_def)
  moreover have "occurs (js ''form-urlencoded'') (js ''application/x-www-form-urlencoded'')" by code_simp
  ultimately show ?thesis using dynamic_form_never_sent [OF ks, of "js ''{}''"] by (simp add: truthy_entry_def)
qed

text \<open>
  FILL EXAMPLE gives an array parameter the items of its example again, and an object parameter with an example the
  text \<open>[object Object]\<close>, which is not JSON, so that the parameter is not sent at all.
\<close>

theorem fill_example:
  assumes "xs \<noteq> []" "list_all (\<lambda>x. 126 \<notin> set x) xs" "xs \<noteq> [[]]"
  shows "map fd_value (onFillRequestData (cleared_fields (array_param rq loc r se (JArr (map JStr xs))))) = [JArr (map JStr xs)] \<and>
    map query_object_pairs (onFillRequestData (cleared_fields (object_param gs rq loc r se sch (JObj kvs)))) = [[]]"
proof -
  have join: "arr_join ''~|~'' (map JStr xs) = join separator xs"
    by (simp add: arr_join_def separator_def item_text_def comp_def)
  have "join separator xs \<noteq> []" using assms(1,3) by (cases "(separator, xs)" rule: join.cases) auto
  then have "map fd_value (onFillRequestData (cleared_fields (array_param rq loc r se (JArr (map JStr xs))))) = [JArr (map JStr xs)]"
    using split_parts_join [OF assms(1,2)]
    by (simp add: array_param_def onFillRequestData_def joined_example_def join truthy_def Let_def or_empty_def del: split_on.simps)
  moreover have "json_parse (replace_runs is_space (js '' '') (js ''[object Object]'')) = None" by code_simp
  then have "map query_object_pairs (onFillRequestData (cleared_fields (object_param gs rq loc r se sch (JObj kvs)))) = [[]]"
    by (simp add: object_param_def onFillRequestData_def tab_button_def truthy_def Let_def or_empty_def shown_def
        query_object_pairs_def parsed_object_def value_text_def del: split_on.simps replace_runs.simps)
  ultimately show ?thesis by blast
qed

theorem fill_example_witness:
  "map fd_value (onFillRequestData (cleared_fields (array_param sample_request (js ''query'') (JObj [(js ''name'', JStr (js ''ids''))])
      \<lparr>se_style = js ''form'', se_explode = True, se_reserved = False\<rparr> (JArr [JStr (js ''a''), JStr (js ''b c'')])))) =
    [JArr [JStr (js ''a''), JStr (js ''b c'')]]"
  using fill_example [of "[js ''a'', js ''b c'']" sample_request "js ''query''" "JObj [(js ''name'', JStr (js ''ids''))]"
      "\<lparr>se_style = js ''form'', se_explode = True, se_reserved = False\<rparr>"] by (simp add: js_def)

text \<open>
  C33: the body in the curl command is one shell word. A text that is not JSON is quoted, so that the shell reads the
  text itself; JSON is only put between apostrophes, and the shell reads it back exactly when it has none.
\<close>

theorem curl_body_word:
  assumes "typed_body bt fs = Some v"
  shows "\<exists>command w. fst (generateCURLSyntax absolute rq url hs (TextBody v) bt fs) = command @ js '' -d '' @ w @ continued \<and>
      (case (if occurs (js ''json'') (the bt) then json_parse v else None) of
         None \<Rightarrow> sh_word 0 (w @ continued) = Some (v, continued)
       | Some j \<Rightarrow> sh_word 0 (w @ continued) = Some (compact j, continued) \<longleftrightarrow> 39 \<notin> set (compact j))"
proof -
  obtain c where c: "fst (generateCURLSyntax absolute rq url hs (TextBody v) bt fs) = c @ js '' -d '' @
      (39 # (case (if occurs (js ''json'') (the bt) then json_parse v else None) of Some j \<Rightarrow> compact j | None \<Rightarrow> shell_quoted v) @ [39]) @ continued"
    using assms by (simp add: generateCURLSyntax_def Let_def)
  show ?thesis
  proof (cases "if occurs (js ''json'') (the bt) then json_parse v else None")
    case None
    have "sh_word 0 ((39 # shell_quoted v @ [39]) @ continued) = Some (v, continued)"
      using sh_word_quoted [of v "[92, 10]"] by (simp add: continued_def)
    then show ?thesis using c unfolding None option.case by blast
  next
    case (Some j)
    have "sh_word 0 ((39 # compact j @ [39]) @ continued) = Some (compact j, continued) \<longleftrightarrow> 39 \<notin> set (compact j)"
      using sh_word_plain [of "compact j" "[92, 10]"] sh_word_broken [of "compact j" continued] by (auto simp: continued_def)
    then show ?thesis using c unfolding Some option.case by blast
  qed
qed

definition body_field :: "string \<Rightarrow> field" where
  "body_field v = (text_field ''text/plain'' [] v)\<lparr>fd_tag := ''textarea'', fd_class := js ''textarea request-body-param-user-input''\<rparr>"

theorem curl_body_word_witness:
  "\<exists>command w. fst (generateCURLSyntax id sample_request [] [] (TextBody (js [CHR ''a'', CHR 0x27, CHR ''b''])) (Some (js ''text/plain''))
        [body_field [CHR ''a'', CHR 0x27, CHR ''b'']]) = command @ js '' -d '' @ w @ continued \<and>
     sh_word 0 (w @ continued) = Some (js [CHR ''a'', CHR 0x27, CHR ''b''], continued)"
proof -
  have "typed_body (Some (js ''text/plain'')) [body_field [CHR ''a'', CHR 0x27, CHR ''b'']] = Some (js [CHR ''a'', CHR 0x27, CHR ''b''])"
    and "\<not> occurs (js ''json'') (the (Some (js ''text/plain'')))" by code_simp+
  then show ?thesis
    using curl_body_word [of "Some (js ''text/plain'')" "[body_field [CHR ''a'', CHR 0x27, CHR ''b'']]" "js [CHR ''a'', CHR 0x27, CHR ''b'']"
        id sample_request "[]" "[]"] by simp
qed

end
