(* ===== verification/Json_Text.thy ===== *)
theory Json_Text
  imports Try_It
begin

text \<open>
  \<open>JSON.parse\<close> and \<open>JSON.stringify\<close> as the API reference uses them (\<open>docs/ui/assets/rapidoc-min.js\<close>): the fuel of the
  reader is enough for every text, and a text that \<open>JSON.stringify\<close> writes is read back as the value it was
  written from. The request panel writes examples with the one and sends what the other reads.
\<close>

section \<open>The fuel of the reader\<close>

lemma length_skip_space: "length (skip_space s) \<le> length s"
  by (simp add: skip_space_def length_dropWhile_le)

lemma parse_chars_less: "parse_chars s = Some (x, r) \<Longrightarrow> length r < length s"
  by (induction s arbitrary: x r rule: parse_chars.induct) (fastforce split: if_splits list.splits option.splits)+

lemma take_digits_less: "take_digits s = Some (d, r) \<Longrightarrow> length r < length s"
  by (cases s) (auto simp: take_digits_def Let_def split: if_splits)

lemma int_part_less: "int_part s = Some (d, r) \<Longrightarrow> length r < length s"
  by (cases s) (auto simp: int_part_def dest: take_digits_less split: if_splits)

lemma frac_part_le: "frac_part s = Some (d, r) \<Longrightarrow> length r \<le> length s"
  by (cases s) (auto simp: frac_part_def dest: take_digits_less split: if_splits)

lemma exp_part_le: "exp_part s = Some (d, r) \<Longrightarrow> length r \<le> length s"
  by (cases s; cases "tl s") (auto simp: exp_part_def dest!: take_digits_less split: if_splits)

lemma parse_number_less: "parse_number s = Some (v, r) \<Longrightarrow> length r < length s"
proof -
  assume p: "parse_number s = Some (v, r)"
  define s0 where "s0 = (if startsWith s (js ''-'') then tl s else s)"
  obtain i s1 f s2 x where "int_part s0 = Some (i, s1)" "frac_part s1 = Some (f, s2)" "exp_part s2 = Some (x, r)"
    using p by (auto simp: parse_number_def Let_def s0_def split: option.splits prod.splits)
  then have "length r < length s0" using int_part_less frac_part_le exp_part_le by fastforce
  then show ?thesis by (auto simp: s0_def split: if_splits)
qed

lemma startsWith_less: "startsWith s p \<Longrightarrow> p \<noteq> [] \<Longrightarrow> 0 < k \<Longrightarrow> length (drop k s) < length s"
  by (cases s) (auto simp: startsWith_def)

lemma readers_shrink:
  "(parse_value n s = Some (v, r) \<longrightarrow> length r < length s) \<and>
   (parse_items n vs s = Some (v, r) \<longrightarrow> length r < length s) \<and>
   (parse_members n kvs s = Some (v, r) \<longrightarrow> length r < length s)"
proof (induction n arbitrary: s v r vs kvs)
  case (Suc n)
  have V: "length r < length s" if "parse_value n s = Some (v, r)" for s v r using Suc that by blast
  have I: "length r < length s" if "parse_items n vs s = Some (v, r)" for s v r vs using Suc that by blast
  have M: "length r < length s" if "parse_members n kvs s = Some (v, r)" for s v r kvs using Suc that by blast
  note sp = length_skip_space
  have "length r < length s" if p: "parse_value (Suc n) s = Some (v, r)"
  proof -
    let ?s = "skip_space s"
    consider "startsWith ?s (js ''null'')" | "startsWith ?s (js ''true'')" | "startsWith ?s (js ''false'')"
      | c t where "?s = c # t" "\<not> startsWith ?s (js ''null'')" "\<not> startsWith ?s (js ''true'')" "\<not> startsWith ?s (js ''false'')"
      using p by (cases ?s) auto
    then have "length r < length ?s"
    proof cases
      case 1
      then have "r = drop 4 ?s" using p by (simp add: Let_def)
      then show ?thesis using startsWith_less [OF 1, of 4] by (simp add: js_def)
    next
      case 2
      moreover from this have "\<not> startsWith ?s (js ''null'')" by (cases ?s) (auto simp: js_def startsWith_Cons)
      ultimately have "r = drop 4 ?s" using p by (simp add: Let_def)
      then show ?thesis using startsWith_less [OF 2, of 4] by (simp add: js_def)
    next
      case 3
      moreover from this have "\<not> startsWith ?s (js ''null'')" "\<not> startsWith ?s (js ''true'')"
        by (cases ?s; auto simp: js_def startsWith_Cons)+
      ultimately have "r = drop 5 ?s" using p by (simp add: Let_def)
      then show ?thesis using startsWith_less [OF 3, of 5] by (simp add: js_def)
    next
      case 4
      have "length (skip_space t) < length ?s" using sp [of t] 4(1) by simp
      moreover have "length x < length ?s" if "length x < length t" for x :: jstr using that 4(1) by simp
      ultimately show ?thesis using p 4
        by (auto simp: Let_def dest!: parse_chars_less I M parse_number_less startsWith_less split: if_splits)
    qed
    then show ?thesis using sp [of s] by simp
  qed
  moreover have "length r < length s" if p: "parse_items (Suc n) vs s = Some (v, r)"
  proof -
    obtain w t c t' where "parse_value n s = Some (w, t)" "skip_space t = c # t'"
      and "r = t' \<or> parse_items n (vs @ [w]) t' = Some (v, r)"
      using p by (auto split: option.splits list.splits if_splits)
    then show ?thesis using V [of s w t] I [of "vs @ [w]" t' v r] sp [of t] by auto
  qed
  moreover have "length r < length s" if p: "parse_members (Suc n) kvs s = Some (v, r)"
  proof -
    obtain c t k t1 d t2 w t3 e t4 where "skip_space s = c # t" "parse_chars t = Some (k, t1)" "skip_space t1 = d # t2"
      "parse_value n t2 = Some (w, t3)" "skip_space t3 = e # t4"
      and "r = t4 \<or> parse_members n (put_entry k w kvs) t4 = Some (v, r)"
      using p by (auto split: option.splits list.splits if_splits)
    then show ?thesis using parse_chars_less [of t k t1] V [of t2 w t3] M [of "put_entry k w kvs" t4 v r] sp [of s] sp [of t1] sp [of t3] by auto
  qed
  ultimately show ?case by blast
qed simp

lemma value_less: "parse_value n s = Some (v, r) \<Longrightarrow> length r < length s"
  using readers_shrink by blast

lemma readers_fuel:
  "(2 * length s + 2 \<le> n \<and> 2 * length s + 2 \<le> m \<longrightarrow> parse_value n s = parse_value m s) \<and>
   (2 * length s + 3 \<le> n \<and> 2 * length s + 3 \<le> m \<longrightarrow> parse_items n vs s = parse_items m vs s) \<and>
   (2 * length s + 3 \<le> n \<and> 2 * length s + 3 \<le> m \<longrightarrow> parse_members n kvs s = parse_members m kvs s)"
proof (induction n arbitrary: m s vs kvs)
  case (Suc n)
  have V: "parse_value n s = parse_value k s" if "2 * length s + 2 \<le> n" "2 * length s + 2 \<le> k" for s k using Suc that by blast
  have I: "parse_items n vs s = parse_items k vs s" if "2 * length s + 3 \<le> n" "2 * length s + 3 \<le> k" for s k vs using Suc that by blast
  have M: "parse_members n kvs s = parse_members k kvs s" if "2 * length s + 3 \<le> n" "2 * length s + 3 \<le> k" for s k kvs using Suc that by blast
  note sp = length_skip_space
  have "parse_value (Suc n) s = parse_value m s" if b: "2 * length s + 2 \<le> Suc n" "2 * length s + 2 \<le> m"
  proof -
    obtain k where [simp]: "m = Suc k" using b(2) by (cases m) auto
    have "parse_items n [] t = parse_items k [] t" "parse_members n [] t = parse_members k [] t" if "skip_space s = c # t" for c t
      using sp [of s] that b by (intro I M; simp)+
    then show ?thesis by (auto simp: Let_def split: list.split)
  qed
  moreover have "parse_items (Suc n) vs s = parse_items m vs s" if b: "2 * length s + 3 \<le> Suc n" "2 * length s + 3 \<le> m"
  proof -
    obtain k where [simp]: "m = Suc k" using b(2) by (cases m) auto
    have v: "parse_value n s = parse_value k s" using b by (intro V) simp_all
    have "parse_items n (vs @ [w]) t' = parse_items k (vs @ [w]) t'" if "parse_value k s = Some (w, t)" "skip_space t = c # t'" for w t c t'
      using value_less [OF that(1)] sp [of t] that(2) b by (intro I) simp_all
    then show ?thesis by (auto simp: v split: option.split list.split)
  qed
  moreover have "parse_members (Suc n) kvs s = parse_members m kvs s" if b: "2 * length s + 3 \<le> Suc n" "2 * length s + 3 \<le> m"
  proof -
    obtain k where [simp]: "m = Suc k" using b(2) by (cases m) auto
    show ?thesis
    proof (cases "skip_space s")
      case (Cons c t)
      then show ?thesis
      proof (cases "parse_chars t")
        case (Some y)
        obtain x t1 where y: "y = (x, t1)" by (cases y)
        show ?thesis
        proof (cases "skip_space t1")
          case (Cons d t2)
          have less: "2 * length t2 + 5 \<le> 2 * length s"
            using sp [of s] sp [of t1] \<open>skip_space s = c # t\<close> Cons parse_chars_less [OF Some [unfolded y]] by simp
          then have v: "parse_value n t2 = parse_value k t2" using b by (intro V) simp_all
          have "parse_members n l t4 = parse_members k l t4" if "parse_value k t2 = Some (w, t3)" "skip_space t3 = e # t4" for w t3 e t4 l
            using value_less [OF that(1)] sp [of t3] that(2) less b by (intro M) simp_all
          then show ?thesis using \<open>skip_space s = c # t\<close> Some y Cons by (auto simp: v split: option.split list.split)
        qed (use \<open>skip_space s = c # t\<close> Some y in simp)
      qed simp
    qed simp
  qed
  ultimately show ?case by blast
qed simp

lemma parse_enough: "2 * length s + 2 \<le> n \<Longrightarrow> parse_value n s = parse_value (2 * length s + 2) s"
  using readers_fuel by blast

section \<open>Texts that are read back\<close>

subsection \<open>Strings\<close>

lemma hex_digit_value: "k < 16 \<Longrightarrow> hex_value (hex_digit k) = Some k"
proof -
  have "list_all (\<lambda>k. hex_value (hex_digit k) = Some k) [0..<16]" by code_simp
  then show "k < 16 \<Longrightarrow> hex_value (hex_digit k) = Some k" by (simp add: list_all_iff)
qed

lemma four_hex_digits:
  assumes "(c :: nat) < 65536"
  shows "((c div 4096 mod 16 * 16 + c div 256 mod 16) * 16 + c div 16 mod 16) * 16 + c mod 16 = c"
proof -
  have d: "c div 256 = c div 16 div 16" "c div 4096 = c div 16 div 16 div 16" by (simp_all flip: div_mult2_eq)
  moreover have "c div 16 div 16 div 16 < 16" using assms by (simp flip: div_mult2_eq)
  ultimately show ?thesis
    using div_mult_mod_eq [of c 16] div_mult_mod_eq [of "c div 16" 16] div_mult_mod_eq [of "c div 16 div 16" 16] by simp
qed

lemma parse_unicode_escape:
  "parse_chars (unicode_escape c @ s) = map_option (\<lambda>(x, r). (c # x, r)) (parse_chars s)"
proof -
  let ?n = "((unat c div 4096 mod 16 * 16 + unat c div 256 mod 16) * 16 + unat c div 16 mod 16) * 16 + unat c mod 16"
  have "?n = unat c" by (rule four_hex_digits) (use unat_jchar [of c] in simp)
  then have "(of_nat ?n :: jchar) = c" by (simp only: of_nat_unat ucast_id)
  then show ?thesis by (simp add: unicode_escape_def js_def hex_digit_value)
qed

lemma low_surrogate_plain: "low_surrogate c \<Longrightarrow> c \<noteq> 34 \<and> c \<noteq> 92 \<and> \<not> c < 32"
  by (auto simp: low_surrogate_def word_less_nat_alt word_le_nat_alt)

lemma high_surrogate_plain: "high_surrogate c \<Longrightarrow> c \<noteq> 34 \<and> c \<noteq> 92 \<and> \<not> c < 32"
  by (auto simp: high_surrogate_def word_less_nat_alt word_le_nat_alt)

lemma parse_escape_char: "parse_chars (escape_char c @ s) = map_option (\<lambda>(x, r). (c # x, r)) (parse_chars s)"
  by (simp add: escape_char_def parse_unicode_escape simple_escape_def)

lemma parse_escape_text: "parse_chars (escape_text x @ 34 # r) = Some (x, r)"
proof (induction x rule: escape_text.induct)
  case (2 c s)
  then show ?case using high_surrogate_plain [of c] low_surrogate_plain
    by (auto simp: parse_unicode_escape parse_escape_char split: list.split)
qed simp

subsection \<open>Numbers\<close>

definition ends_value :: "jstr \<Rightarrow> bool" where
  \<comment> \<open>what may follow a value: nothing, a comma, a bracket or a line break\<close>
  "ends_value s \<longleftrightarrow> s = [] \<or> hd s \<in> {44, 93, 125, 10}"

lemma ends_value_Cons [simp]: "ends_value (c # s) \<longleftrightarrow> c \<in> {44, 93, 125, 10}"
  by (simp add: ends_value_def)

lemma ends_value_Nil [simp]: "ends_value []"
  by (simp add: ends_value_def)

definition number_text :: "jstr \<Rightarrow> bool" where
  "number_text x \<longleftrightarrow> parse_number x = Some (JNum x, [])"

lemma ends_no_digit: "ends_value t \<Longrightarrow> takeWhile digit_char t = []"
  by (cases t) (auto simp: digit_char_def)

lemma take_digits_append:
  assumes "take_digits s = Some (d, r)" "ends_value t"
  shows "take_digits (s @ t) = Some (d, r @ t)"
proof -
  have w: "takeWhile digit_char (s @ t) = takeWhile digit_char s"
    using ends_no_digit [OF assms(2)] by (metis takeWhile_append takeWhile_eq_all_conv append_Nil2)
  have "length (takeWhile digit_char s) \<le> length s" by (rule length_takeWhile_le)
  then show ?thesis using assms(1) unfolding take_digits_def w by (auto simp: Let_def split: if_splits)
qed

lemma int_part_append: "int_part s = Some (d, r) \<Longrightarrow> ends_value t \<Longrightarrow> int_part (s @ t) = Some (d, r @ t)"
  using take_digits_append [of s d r t] by (cases s) (auto simp: int_part_def split: if_splits)

lemma frac_part_append: "frac_part s = Some (d, r) \<Longrightarrow> ends_value t \<Longrightarrow> frac_part (s @ t) = Some (d, r @ t)"
  using take_digits_append by (cases s; cases t) (fastforce simp: frac_part_def split: if_splits)+

lemma exp_part_append: "exp_part s = Some (d, r) \<Longrightarrow> ends_value t \<Longrightarrow> exp_part (s @ t) = Some (d, r @ t)"
proof (cases s)
  case Nil
  then show "exp_part s = Some (d, r) \<Longrightarrow> ends_value t \<Longrightarrow> ?thesis" by (cases t) (auto simp: exp_part_def)
next
  case (Cons c u)
  assume e: "exp_part s = Some (d, r)" "ends_value t"
  show ?thesis
  proof (cases "c = 101 \<or> c = 69")
    case True
    then obtain x u' where "u = x # u'" using e(1) Cons by (cases u) (auto simp: exp_part_def)
    then show ?thesis using e True Cons take_digits_append [OF _ e(2), of u'] take_digits_append [OF _ e(2), of u]
      by (auto simp: exp_part_def split: if_splits)
  qed (use e Cons in \<open>auto simp: exp_part_def\<close>)
qed

lemma parse_number_append:
  assumes "number_text x" "ends_value t"
  shows "parse_number (x @ t) = Some (JNum x, t)"
proof -
  have "x \<noteq> []" using assms(1) by (auto simp: number_text_def parse_number_def int_part_def)
  then have neg: "startsWith (x @ t) (js ''-'') = startsWith x (js ''-'')" "tl (x @ t) = tl x @ t"
    by (cases x; simp add: js_def startsWith_Cons)+
  let ?s = "if startsWith x (js ''-'') then tl x else x"
  obtain i s1 f s2 e where p: "int_part ?s = Some (i, s1)" "frac_part s1 = Some (f, s2)" "exp_part s2 = Some (e, [])"
    and x: "x = (if startsWith x (js ''-'') then [45] else []) @ i @ f @ e"
    using assms(1) by (auto simp: number_text_def parse_number_def Let_def split: option.splits prod.splits)
  have "int_part (?s @ t) = Some (i, s1 @ t)" "frac_part (s1 @ t) = Some (f, s2 @ t)" "exp_part (s2 @ t) = Some (e, t)"
    using int_part_append [OF p(1) assms(2)] frac_part_append [OF p(2) assms(2)] exp_part_append [OF p(3) assms(2)] by simp_all
  moreover have "(if startsWith (x @ t) (js ''-'') then tl (x @ t) else x @ t) = ?s @ t" using neg by simp
  ultimately show ?thesis using x neg(1) by (simp add: parse_number_def Let_def)
qed

subsection \<open>Values\<close>

text \<open>
  Both forms of \<open>JSON.stringify\<close> are one printer over what is put at the start of a line and after a colon.
\<close>

fun printed :: "(nat \<Rightarrow> jstr) \<Rightarrow> jstr \<Rightarrow> nat \<Rightarrow> json \<Rightarrow> jstr" where
  "printed nl gap n JNull = js ''null''"
| "printed nl gap n (JBool b) = bool_text b"
| "printed nl gap n (JNum x) = x"
| "printed nl gap n (JStr s) = quoted (escape_text s)"
| "printed nl gap n (JArr vs) =
     (if vs = [] then [91, 93]
      else 91 # nl (n + 1) @ join (44 # nl (n + 1)) (map (printed nl gap (n + 1)) vs) @ nl n @ [93])"
| "printed nl gap n (JObj kvs) =
     (if kvs = [] then [123, 125]
      else 123 # nl (n + 1) @ join (44 # nl (n + 1)) (map (\<lambda>(k, v). quoted (escape_text k) @ 58 # gap @ printed nl gap (n + 1) v) kvs) @ nl n @ [125])"

lemma printed_stringify: "printed indent [32] n v = stringify n v"
  by (induction n v rule: stringify.induct) (auto simp: js_def intro!: arg_cong2 [where f = join] map_cong)

lemma printed_compact: "printed (\<lambda>_. []) [] n v = compact v"
  by (induction v arbitrary: n rule: compact.induct) (auto simp: js_def intro!: arg_cong2 [where f = join] map_cong)

definition own_order :: "(jstr \<times> json) list \<Rightarrow> bool" where
  \<comment> \<open>each field is where a new field would be put\<close>
  "own_order kvs \<longleftrightarrow> list_all (\<lambda>n. put_entry (fst (kvs ! n)) (snd (kvs ! n)) (take n kvs) = take (Suc n) kvs) [0..<length kvs]"

fun written :: "json \<Rightarrow> bool" where
  \<comment> \<open>the values there are: numbers are written as JSON writes them, fields are in the order of the object\<close>
  "written (JNum x) = number_text x"
| "written (JArr vs) = list_all written vs"
| "written (JObj kvs) = (own_order kvs \<and> list_all (\<lambda>(k, v). written v) kvs)"
| "written _ = True"

lemma skip_spaces [simp]: "list_all json_space w \<Longrightarrow> skip_space (w @ s) = skip_space s"
  by (simp add: skip_space_def list_all_iff dropWhile_append2)

lemma skip_space_here [simp]: "\<not> json_space c \<Longrightarrow> skip_space (c # s) = c # s"
  by (simp add: skip_space_def)

lemma json_space_simps [simp]:
  "\<not> json_space 34" "\<not> json_space 44" "\<not> json_space 58" "\<not> json_space 91" "\<not> json_space 93" "\<not> json_space 123" "\<not> json_space 125"
  "\<not> json_space 110" "\<not> json_space 116" "\<not> json_space 102" "\<not> json_space 45"
  by (simp_all add: json_space_def)

definition reads :: "json \<Rightarrow> jstr \<Rightarrow> bool" where
  \<comment> \<open>with enough fuel the text is read as the value, whatever follows\<close>
  "reads v t \<longleftrightarrow> (\<exists>N. \<forall>n w r. N \<le> n \<longrightarrow> list_all json_space w \<longrightarrow> ends_value r \<longrightarrow> parse_value n (w @ t @ r) = Some (v, r))"

lemma readsI: "(\<And>n w r. list_all json_space w \<Longrightarrow> ends_value r \<Longrightarrow> parse_value (Suc n) (w @ t @ r) = Some (v, r)) \<Longrightarrow> reads v t"
  unfolding reads_def by (metis Suc_le_D)

lemma readsE:
  assumes "reads v t"
  obtains N where "\<And>n w r. N \<le> n \<Longrightarrow> list_all json_space w \<Longrightarrow> ends_value r \<Longrightarrow> parse_value n (w @ t @ r) = Some (v, r)"
  using assms unfolding reads_def by blast

lemma reads_simple: "reads JNull (js ''null'')" "reads (JBool b) (bool_text b)" "reads (JStr s) (quoted (escape_text s))"
  by (rule readsI; simp add: Let_def js_def bool_text_def quoted_def startsWith_Cons parse_escape_text)+

lemma number_text_head: "number_text x \<Longrightarrow> \<exists>c t. x = c # t \<and> (c = 45 \<or> digit_char c)"
  by (cases x) (auto simp: number_text_def parse_number_def int_part_def take_digits_def Let_def startsWith_Cons js_def digit_char_def
    split: if_splits option.splits)

lemma reads_number:
  assumes "number_text x"
  shows "reads (JNum x) x"
proof (rule readsI)
  fix n w r assume "list_all json_space w" "ends_value r"
  obtain c t where x: "x = c # t" "c = 45 \<or> digit_char c" using number_text_head [OF assms] by blast
  then have "\<not> json_space c" "c \<notin> {110, 116, 102, 34, 91, 123}" by (auto simp: json_space_def digit_char_def)
  then show "parse_value (Suc n) (w @ x @ r) = Some (JNum x, r)"
    using \<open>list_all json_space w\<close> parse_number_append [OF assms \<open>ends_value r\<close>] x(1)
    by (simp add: Let_def js_def startsWith_Cons)
qed

definition line_start :: "jstr \<Rightarrow> bool" where
  "line_start s \<longleftrightarrow> list_all json_space s \<and> (s = [] \<or> hd s = 10)"

lemma line_start_ends: "line_start s \<Longrightarrow> ends_value (s @ 93 # r) \<and> ends_value (s @ 125 # r) \<and> list_all json_space s"
  by (cases s) (auto simp: line_start_def ends_value_def)

lemma join_Cons: "xs \<noteq> [] \<Longrightarrow> join s (x # xs) = x @ s @ join s xs"
  by (cases xs) simp_all

lemma read_items:
  assumes "vs \<noteq> []" "\<forall>v \<in> set vs. reads v (f v)" "line_start sep" "line_start fin"
  shows "\<exists>N. \<forall>n acc w r. N \<le> n \<longrightarrow> list_all json_space w \<longrightarrow>
    parse_items n acc (w @ join (44 # sep) (map f vs) @ fin @ 93 # r) = Some (JArr (acc @ vs), r)"
  using assms(1,2)
proof (induction vs rule: list_nonempty_induct)
  case (single v)
  have "reads v (f v)" using single by simp
  then obtain N where N: "\<And>n w r. N \<le> n \<Longrightarrow> list_all json_space w \<Longrightarrow> ends_value r \<Longrightarrow> parse_value n (w @ f v @ r) = Some (v, r)"
    by (rule readsE) blast
  have "parse_items n acc (w @ join (44 # sep) (map f [v]) @ fin @ 93 # r) = Some (JArr (acc @ [v]), r)"
    if n: "Suc N \<le> n" and "list_all json_space w" for n acc w r
  proof -
    obtain m where "n = Suc m" "N \<le> m" using n by (metis Suc_le_D Suc_le_mono)
    then show ?thesis using N [OF \<open>N \<le> m\<close> that(2), of "fin @ 93 # r"] line_start_ends [OF assms(4)] by simp
  qed
  then show ?case by blast
next
  case (cons v vs)
  have "reads v (f v)" using cons by simp
  then obtain N where N: "\<And>n w r. N \<le> n \<Longrightarrow> list_all json_space w \<Longrightarrow> ends_value r \<Longrightarrow> parse_value n (w @ f v @ r) = Some (v, r)"
    by (rule readsE) blast
  obtain M where "\<forall>n acc w r. M \<le> n \<longrightarrow> list_all json_space w \<longrightarrow>
      parse_items n acc (w @ join (44 # sep) (map f vs) @ fin @ 93 # r) = Some (JArr (acc @ vs), r)"
    using cons by auto
  note M = this [rule_format]
  have "parse_items n acc (w @ join (44 # sep) (map f (v # vs)) @ fin @ 93 # r) = Some (JArr (acc @ v # vs), r)"
    if n: "Suc (max N M) \<le> n" and "list_all json_space w" for n acc w r
  proof -
    obtain m where m: "n = Suc m" "N \<le> m" "M \<le> m" using n by (metis Suc_le_D Suc_le_mono max.bounded_iff)
    have "list_all json_space sep" using line_start_ends [OF assms(3)] by simp
    from M [OF m(3) this, of "acc @ [v]" r] show ?thesis
      using N [OF m(2) that(2), of "44 # sep @ join (44 # sep) (map f vs) @ fin @ 93 # r"] cons.hyps by (simp add: m(1) join_Cons)
  qed
  then show ?case by blast
qed

lemma read_members:
  assumes "kvs \<noteq> []" "\<forall>(k, v) \<in> set kvs. reads v (f v)" "line_start sep" "line_start fin" "list_all json_space gap"
  shows "\<exists>N. \<forall>n acc w r. N \<le> n \<longrightarrow> list_all json_space w \<longrightarrow>
    parse_members n acc (w @ join (44 # sep) (map (\<lambda>(k, v). quoted (escape_text k) @ 58 # gap @ f v) kvs) @ fin @ 125 # r) =
      Some (JObj (put_entries kvs acc), r)"
  using assms(1,2)
proof (induction kvs rule: list_nonempty_induct)
  case (single x)
  obtain k v where x: "x = (k, v)" by (cases x)
  have "reads v (f v)" using single x by simp
  then obtain N where N: "\<And>n w r. N \<le> n \<Longrightarrow> list_all json_space w \<Longrightarrow> ends_value r \<Longrightarrow> parse_value n (w @ f v @ r) = Some (v, r)"
    by (rule readsE) blast
  have "parse_members n acc (w @ join (44 # sep) (map (\<lambda>(k, v). quoted (escape_text k) @ 58 # gap @ f v) [x]) @ fin @ 125 # r) =
      Some (JObj (put_entries [x] acc), r)" if n: "Suc N \<le> n" and "list_all json_space w" for n acc w r
  proof -
    obtain m where "n = Suc m" "N \<le> m" using n by (metis Suc_le_D Suc_le_mono)
    then show ?thesis using N [OF \<open>N \<le> m\<close> assms(5), of "fin @ 125 # r"] line_start_ends [OF assms(4)] that(2)
      by (simp add: x quoted_def js_def parse_escape_text put_entries_def)
  qed
  then show ?case by blast
next
  case (cons x kvs)
  obtain k v where x: "x = (k, v)" by (cases x)
  have "reads v (f v)" using cons x by simp
  then obtain N where N: "\<And>n w r. N \<le> n \<Longrightarrow> list_all json_space w \<Longrightarrow> ends_value r \<Longrightarrow> parse_value n (w @ f v @ r) = Some (v, r)"
    by (rule readsE) blast
  let ?t = "join (44 # sep) (map (\<lambda>(k, v). quoted (escape_text k) @ 58 # gap @ f v) kvs)"
  obtain M where "\<forall>n acc w r. M \<le> n \<longrightarrow> list_all json_space w \<longrightarrow>
      parse_members n acc (w @ ?t @ fin @ 125 # r) = Some (JObj (put_entries kvs acc), r)"
    using cons by auto
  note M = this [rule_format]
  have "parse_members n acc (w @ join (44 # sep) (map (\<lambda>(k, v). quoted (escape_text k) @ 58 # gap @ f v) (x # kvs)) @ fin @ 125 # r) =
      Some (JObj (put_entries (x # kvs) acc), r)" if n: "Suc (max N M) \<le> n" and "list_all json_space w" for n acc w r
  proof -
    obtain m where m: "n = Suc m" "N \<le> m" "M \<le> m" using n by (metis Suc_le_D Suc_le_mono max.bounded_iff)
    have "list_all json_space sep" using line_start_ends [OF assms(3)] by simp
    from M [OF m(3) this, of "put_entry k v acc" r] show ?thesis
      using N [OF m(2) assms(5), of "44 # sep @ ?t @ fin @ 125 # r"] cons.hyps that(2)
      by (simp add: m(1) x join_Cons quoted_def js_def parse_escape_text put_entries_def)
  qed
  then show ?case by blast
qed

lemma own_order_put: "own_order kvs \<Longrightarrow> put_entries kvs [] = kvs"
proof -
  assume o': "own_order kvs"
  have "m \<le> length kvs \<Longrightarrow> put_entries (take m kvs) [] = take m kvs" for m
  proof (induction m)
    case (Suc m)
    then show ?case using o' by (simp add: put_entries_def take_Suc_conv_app_nth own_order_def list_all_iff case_prod_beta)
  qed (simp add: put_entries_def)
  from this [of "length kvs"] show ?thesis by simp
qed

lemma value_not_bracket: "parse_value n s = Some x \<Longrightarrow> \<not> startsWith (skip_space s) (js '']'')"
  by (cases n; cases "skip_space s")
    (auto simp: Let_def js_def startsWith_Cons parse_number_def int_part_def take_digits_def digit_char_def split: if_splits)

lemma value_of_items: "parse_items n [] s = Some x \<Longrightarrow> list_all json_space w \<Longrightarrow> parse_value (Suc n) (w @ 91 # s) = Some x"
proof -
  assume i: "parse_items n [] s = Some x" and w: "list_all json_space w"
  then obtain m y where "parse_value m s = Some y" by (cases n) (auto split: option.splits)
  then have "\<not> startsWith (skip_space s) (js '']'')" by (rule value_not_bracket)
  then show ?thesis using i w by (simp add: Let_def js_def startsWith_Cons)
qed

lemma value_of_members: "parse_members n [] s = Some x \<Longrightarrow> list_all json_space w \<Longrightarrow> parse_value (Suc n) (w @ 123 # s) = Some x"
proof -
  assume i: "parse_members n [] s = Some x" and w: "list_all json_space w"
  then have "\<not> startsWith (skip_space s) (js ''}'')"
    by (cases n; cases "skip_space s") (auto simp: js_def startsWith_Cons split: if_splits)
  then show ?thesis using i w by (simp add: Let_def js_def startsWith_Cons)
qed

lemma reads_printed:
  assumes nl: "\<And>n. line_start (nl n)" and gap: "list_all json_space gap" and "written v"
  shows "reads v (printed nl gap n v)"
  using assms(3)
proof (induction v arbitrary: n rule: written.induct)
  case (2 vs)
  have sp: "list_all json_space (nl k)" for k using nl [of k] by (simp add: line_start_def)
  show ?case
  proof (cases "vs = []")
    case False
    let ?f = "printed nl gap (n + 1)"
    have "\<forall>v \<in> set vs. reads v (?f v)" using 2 by (auto simp: list_all_iff)
    from read_items [OF False this nl nl, of "n + 1" n]
    obtain N where "\<forall>m acc w r. N \<le> m \<longrightarrow> list_all json_space w \<longrightarrow>
        parse_items m acc (w @ join (44 # nl (n + 1)) (map ?f vs) @ nl n @ 93 # r) = Some (JArr (acc @ vs), r)" by blast
    from this [rule_format, OF _ sp, of _ "[]" "n + 1"]
    have items: "parse_items m [] (nl (n + 1) @ join (44 # nl (n + 1)) (map ?f vs) @ nl n @ 93 # r) = Some (JArr vs, r)" if "N \<le> m" for m r
      using that by (simp del: parse_items.simps)
    have "parse_value m (w @ printed nl gap n (JArr vs) @ r) = Some (JArr vs, r)" if m: "Suc N \<le> m" and w: "list_all json_space w" for m w r
    proof -
      obtain m' where "m = Suc m'" "N \<le> m'" using m by (cases m) auto
      then show ?thesis using value_of_items [OF items w, of m' r] False by (simp del: parse_value.simps)
    qed
    then show ?thesis unfolding reads_def by blast
  qed (rule readsI, simp add: Let_def js_def startsWith_Cons)
next
  case (3 kvs)
  have sp: "list_all json_space (nl k)" for k using nl [of k] by (simp add: line_start_def)
  show ?case
  proof (cases "kvs = []")
    case False
    let ?f = "printed nl gap (n + 1)"
    have "\<forall>(k, v) \<in> set kvs. reads v (?f v)" using 3 by (fastforce simp: list_all_iff)
    from read_members [OF False this nl nl gap, of "n + 1" n]
    obtain N where "\<forall>m acc w r. N \<le> m \<longrightarrow> list_all json_space w \<longrightarrow>
        parse_members m acc (w @ join (44 # nl (n + 1)) (map (\<lambda>(k, v). quoted (escape_text k) @ 58 # gap @ ?f v) kvs) @ nl n @ 125 # r) =
          Some (JObj (put_entries kvs acc), r)" by blast
    from this [rule_format, OF _ sp, of _ "[]" "n + 1"]
    have members: "parse_members m [] (nl (n + 1) @ join (44 # nl (n + 1)) (map (\<lambda>(k, v). quoted (escape_text k) @ 58 # gap @ ?f v) kvs) @ nl n @ 125 # r) =
        Some (JObj kvs, r)" if "N \<le> m" for m r
      using that 3 own_order_put [of kvs] by (simp del: parse_members.simps)
    have "parse_value m (w @ printed nl gap n (JObj kvs) @ r) = Some (JObj kvs, r)" if m: "Suc N \<le> m" and w: "list_all json_space w" for m w r
    proof -
      obtain m' where "m = Suc m'" "N \<le> m'" using m by (cases m) auto
      then show ?thesis using value_of_members [OF members w, of m' r] False by (simp del: parse_value.simps)
    qed
    then show ?thesis unfolding reads_def by blast
  qed (rule readsI, simp add: Let_def js_def startsWith_Cons)
qed (simp_all add: reads_simple reads_number)

lemma json_parse_reads: "reads v t \<Longrightarrow> json_parse t = Some v"
proof -
  assume "reads v t"
  then obtain N where N: "\<And>n w r. N \<le> n \<Longrightarrow> list_all json_space w \<Longrightarrow> ends_value r \<Longrightarrow> parse_value n (w @ t @ r) = Some (v, r)"
    by (rule readsE) blast
  have "parse_value (max N (2 * length t + 2)) t = Some (v, [])" using N [of "max N (2 * length t + 2)" "[]" "[]"] by simp
  then have "parse_value (2 * length t + 2) t = Some (v, [])" using parse_enough [of t "max N (2 * length t + 2)"] by simp
  then show ?thesis by (simp add: json_parse_def skip_space_def)
qed

lemma json_roundtrip:
  assumes "written v"
  shows "json_parse (stringify 0 v) = Some v" "json_parse (compact v) = Some v"
proof -
  have "line_start (indent n)" for n by (simp add: line_start_def indent_def json_space_def list_all_iff)
  then have "reads v (printed indent [32] 0 v)" using assms by (intro reads_printed) (simp_all add: json_space_def)
  moreover have "reads v (printed (\<lambda>_. []) [] 0 v)" using assms by (intro reads_printed) (simp_all add: line_start_def)
  ultimately show "json_parse (stringify 0 v) = Some v" "json_parse (compact v) = Some v"
    using json_parse_reads by (simp_all add: printed_stringify printed_compact)
qed

section \<open>Properties\<close>

text \<open>
  C7: An example the panel writes into the body's text area arrives: the text that is sent is read by a server as the
  example's value, whatever its texts hold, and so is the text between the apostrophes of the curl command. Numbers
  have to be written as JSON writes them, and fields to be in the order of the object.
\<close>

theorem example_body_arrives:
  assumes area: "with_class ''request-body-param-user-input'' fs = Some f" "fd_value f = JStr (gen_text g)"
    and example: "exampleFormat g = js ''json''" "written (exampleValue g)"
    and mime: "occurs (js ''json'') bt" "\<not> is_form_type bt" "\<not> is_binary_type bt"
  shows "\<exists>t command w. buildFetchBody (Some bt) fs = TextBody t \<and> json_parse t = Some (exampleValue g) \<and>
      fst (generateCURLSyntax absolute rq url hs (TextBody t) (Some bt) fs) = command @ js '' -d '' @ [39] @ w @ [39] @ continued \<and>
      json_parse w = Some (exampleValue g)"
proof -
  have g: "gen_text g = stringify 0 (exampleValue g)" using example js_inj by (simp add: gen_text_def)
  then have p: "json_parse (gen_text g) = Some (exampleValue g)" using json_roundtrip(1) [OF example(2)] by simp
  have ne: "gen_text g \<noteq> []"
  proof
    assume "gen_text g = []"
    with p show False by (simp add: json_parse_def skip_space_def numeral_2_eq_2)
  qed
  then have v: "is_truthy (Some (fd_value f))" "value_text f = gen_text g" using area(2) by (simp_all add: value_text_def)
  have "bt \<noteq> []" using mime(1) by (auto simp: js_def occurs_def)
  then have t: "typed_body (Some bt) fs = Some (gen_text g)" using area v by (simp add: typed_body_def truthy_def)
  have b: "buildFetchBody (Some bt) fs = TextBody (gen_text g)" using area v mime by (simp add: buildFetchBody_def is_form_type_def)
  obtain c where "fst (generateCURLSyntax absolute rq url hs (TextBody (gen_text g)) (Some bt) fs) =
      c @ js '' -d '' @ [39] @ compact (exampleValue g) @ [39] @ continued"
    using t mime(1) p by (simp add: generateCURLSyntax_def Let_def)
  then show ?thesis using b p json_roundtrip(2) [OF example(2)] by blast
qed

definition sample_example :: gen_example where
  "sample_example = \<lparr>exampleId = js ''Example'', exampleSummary = [], exampleDescription = [],
     exampleValue = JObj [(js ''to'', JStr [39, 34, 92, 10, 955]), (js ''tags'', JArr [JNum (js ''-1.5''), JNull, JObj []])],
     exampleFormat = js ''json''\<rparr>"

definition sample_area :: field where
  "sample_area = (body_field [])\<lparr>fd_value := JStr (gen_text sample_example)\<rparr>"

theorem example_body_arrives_witness:
  "\<exists>t command w. buildFetchBody (Some (js ''application/json'')) [sample_area] = TextBody t \<and>
     json_parse t = Some (exampleValue sample_example) \<and>
     fst (generateCURLSyntax id sample_request [] [] (TextBody t) (Some (js ''application/json'')) [sample_area]) =
       command @ js '' -d '' @ [39] @ w @ [39] @ continued \<and> json_parse w = Some (exampleValue sample_example)"
proof (rule example_body_arrives)
  show "with_class ''request-body-param-user-input'' [sample_area] = Some sample_area" by code_simp
  show "fd_value sample_area = JStr (gen_text sample_example)" by (simp add: sample_area_def)
  show "exampleFormat sample_example = js ''json''" by (simp add: sample_example_def)
  show "written (exampleValue sample_example)" by code_simp
  show "occurs (js ''json'') (js ''application/json'')" by code_simp
  show "\<not> is_form_type (js ''application/json'')" by code_simp
  show "\<not> is_binary_type (js ''application/json'')" by code_simp
qed

end
