(* ===== verification/Spec_Groups.thy ===== *)
theory Spec_Groups
  imports Schema_Info "HOL-Library.Sorting_Algorithms" "HOL-Library.Monad_Syntax"
begin

text \<open>
  What the API reference makes of the paths of an OpenAPI document (\<open>docs/ui/assets/rapidoc-min.js\<close>, two of the
  functions inside \<open>hR\<close>): the filter of paths by the element's attributes, and the groups of operations by tag.

  The document is a JSON value; a function whose result is \<open>None\<close> throws for it. A list of the document that is
  no array has no result either: most uses of it throw. The tokens of a Markdown text are a parameter
  (\<open>lexer\<close>), and so is the order of \<open>localeCompare\<close> (\<open>lc\<close>, a comparator: linear and reflexive) and the search with a pattern
  (\<open>re\<close>, \<open>None\<close> for a pattern that is not well-formed).
\<close>

section \<open>Throwing functions over lists\<close>

fun map_opt :: "('b \<Rightarrow> 'c option) \<Rightarrow> 'b list \<Rightarrow> 'c list option" where
  "map_opt f [] = Some []"
| "map_opt f (x # xs) = do { y \<leftarrow> f x; ys \<leftarrow> map_opt f xs; Some (y # ys) }"

fun filter_opt :: "('b \<Rightarrow> bool option) \<Rightarrow> 'b list \<Rightarrow> 'b list option" where
  "filter_opt p [] = Some []"
| "filter_opt p (x # xs) = do { b \<leftarrow> p x; ys \<leftarrow> filter_opt p xs; Some (if b then x # ys else ys) }"

fun some_opt :: "('b \<Rightarrow> bool option) \<Rightarrow> 'b list \<Rightarrow> bool option" where
  \<comment> \<open>\<open>some\<close> stops at the first element it finds\<close>
  "some_opt p [] = Some False"
| "some_opt p (x # xs) = do { b \<leftarrow> p x; if b then Some True else some_opt p xs }"

fun find_opt :: "('b \<Rightarrow> bool option) \<Rightarrow> 'b list \<Rightarrow> 'b option option" where
  "find_opt p [] = Some None"
| "find_opt p (x # xs) = do { b \<leftarrow> p x; if b then Some (Some x) else find_opt p xs }"

fun fold_opt :: "('b \<Rightarrow> 'c \<Rightarrow> 'c option) \<Rightarrow> 'b list \<Rightarrow> 'c \<Rightarrow> 'c option" where
  "fold_opt f [] s = Some s"
| "fold_opt f (x # xs) s = do { t \<leftarrow> f x s; fold_opt f xs t }"

lemma fold_opt_append: "fold_opt f (xs @ ys) s = Option.bind (fold_opt f xs s) (fold_opt f ys)"
proof (induction xs arbitrary: s)
  case (Cons x xs)
  then show ?case by (cases "f x s") simp_all
qed simp

lemma fold_opt_invariant:
  assumes "fold_opt f xs s = Some t" "I s" "\<And>x s t. x \<in> set xs \<Longrightarrow> f x s = Some t \<Longrightarrow> I s \<Longrightarrow> I t"
  shows "I t"
  using assms by (induction xs arbitrary: s) (auto simp: bind_eq_Some_conv)

section \<open>Reading the document\<close>

definition read_prop :: "string \<Rightarrow> json \<Rightarrow> json option option" where
  \<comment> \<open>a field of a value; \<open>null\<close> has no fields\<close>
  "read_prop k v = (if v = JNull then None else Some (entry k v))"

definition own_entries :: "json option \<Rightarrow> (jstr \<times> json) list option" where
  \<comment> \<open>\<open>Object.entries\<close>\<close>
  "own_entries e = (case e of None \<Rightarrow> None | Some v \<Rightarrow> if v = JNull then None else Some (object_fields v))"

definition text_prop :: "string \<Rightarrow> json \<Rightarrow> jstr option" where
  \<comment> \<open>a field on which a method of texts is called\<close>
  "text_prop k v = (case entry k v of Some (JStr s) \<Rightarrow> Some s | _ \<Rightarrow> None)"

fun strict_eq :: "json option \<Rightarrow> json option \<Rightarrow> bool" where
  \<comment> \<open>\<open>===\<close>; two objects are different objects\<close>
  "strict_eq None None = True"
| "strict_eq (Some JNull) (Some JNull) = True"
| "strict_eq (Some (JBool a)) (Some (JBool b)) = (a = b)"
| "strict_eq (Some (JNum a)) (Some (JNum b)) = (a = b)"
| "strict_eq (Some (JStr a)) (Some (JStr b)) = (a = b)"
| "strict_eq _ _ = False"

definition id_text :: "jstr \<Rightarrow> jstr" where
  \<comment> \<open>\<open>replace(/[\s#:?&={}]/g, "-")\<close>\<close>
  "id_text = map (\<lambda>c. if is_space c \<or> c \<in> set (js ''#:?&={}'') then hyphen else c)"

record load_settings =
  ls_generateMissingTags :: bool
  ls_sortTags :: bool
  ls_sortSchemas :: bool
  ls_sortEndpointsBy :: jstr
  ls_keyName :: jstr
  ls_keyLocation :: jstr
  ls_keyValue :: jstr
  ls_serverUrl :: jstr
  ls_matchPaths :: jstr
  ls_matchType :: jstr
  ls_removeBadges :: jstr
  ls_origin :: jstr                 \<comment> \<open>\<open>window.location.origin\<close>\<close>

section \<open>The filter of paths\<close>

definition removed_labels :: "jstr \<Rightarrow> jstr list" where
  "removed_labels s = filter (\<lambda>e. e \<noteq> []) (map (\<lambda>e. toLowerCase (trim e)) (split_on 44 s))"

definition removed_badge :: "jstr list \<Rightarrow> json \<Rightarrow> bool option" where
  "removed_badge labels e = (if e = JNull then Some False else map_option (\<lambda>l. toLowerCase l \<in> set labels) (text_prop ''label'' e))"

definition path_matches :: "(jstr \<Rightarrow> jstr \<Rightarrow> bool option) \<Rightarrow> load_settings \<Rightarrow> jstr \<Rightarrow> jstr \<Rightarrow> bool option" where
  "path_matches re ls path k =
     (if ls_matchPaths ls = [] then Some True
      else if ls_matchType ls = js ''regex'' then re (ls_matchPaths ls) (toLowerCase (ls_matchPaths ls))
      else Some (occurs (toLowerCase (ls_matchPaths ls)) (toLowerCase (k @ js '' '' @ path))))"

definition keeps_entry :: "(jstr \<Rightarrow> jstr \<Rightarrow> bool option) \<Rightarrow> load_settings \<Rightarrow> jstr \<Rightarrow> jstr \<times> json \<Rightarrow> bool option" where
  "keeps_entry re ls path kv = do {
     badges \<leftarrow> read_prop ''x-badges'' (snd kv);
     m \<leftarrow> path_matches re ls path (fst kv);
     if m then (case badges of
         Some (JArr bs) \<Rightarrow> map_option Not (some_opt (removed_badge (removed_labels (ls_removeBadges ls))) bs)
       | _ \<Rightarrow> Some True)
     else Some False }"

definition kept_path :: "(jstr \<Rightarrow> jstr \<Rightarrow> bool option) \<Rightarrow> load_settings \<Rightarrow> jstr \<times> json \<Rightarrow> (jstr \<times> json) option" where
  "kept_path re ls pv = do {
     kvs \<leftarrow> own_entries (Some (snd pv));
     kept \<leftarrow> filter_opt (keeps_entry re ls (fst pv)) kvs;
     Some (fst pv, JObj kept) }"

definition filterPaths :: "(jstr \<Rightarrow> jstr \<Rightarrow> bool option) \<Rightarrow> load_settings \<Rightarrow> (jstr \<times> json) list \<Rightarrow> (jstr \<times> json) list option" where
  \<comment> \<open>the fields of the document with its paths filtered\<close>
  "filterPaths re ls doc = do {
     paths \<leftarrow> own_entries (map_of doc (js ''paths''));
     kept \<leftarrow> map_opt (kept_path re ls) paths;
     Some (put_entry (js ''paths'') (JObj (filter (\<lambda>(p, v). v \<noteq> JObj []) kept)) doc) }"

section \<open>Groups of operations\<close>

record md_token =
  mt_type :: jstr
  mt_depth :: nat
  mt_text :: jstr

definition headings_of :: "(jstr \<Rightarrow> md_token list) \<Rightarrow> jstr \<Rightarrow> md_token list" where
  "headings_of lexer s = filter (\<lambda>t. mt_type t = js ''heading'' \<and> mt_depth t \<le> 2) (lexer s)"

record path_entry =
  pe_expanded :: bool
  pe_isWebhook :: bool
  pe_summary :: jstr
  pe_description :: json
  pe_externalDocs :: "json option"
  pe_shortSummary :: jstr
  pe_method :: jstr
  pe_path :: jstr
  pe_operationId :: "json option"
  pe_elementId :: jstr
  pe_servers :: "json list"
  pe_parameters :: "json list"
  pe_requestBody :: "json option"
  pe_responses :: "json option"
  pe_callbacks :: "json option"
  pe_deprecated :: "json option"
  pe_security :: "json option"
  pe_xBadges :: "json option"
  pe_xCodeSamples :: "json option"

record tag_group =
  tg_elementId :: jstr
  tg_name :: jstr
  tg_displayName :: "json option"
  tg_description :: jstr
  tg_headers :: "md_token list"
  tg_paths :: "path_entry list"
  tg_expanded :: bool
  tg_firstPathId :: jstr

definition methods :: "jstr list" where
  "methods = map js [''get'', ''put'', ''post'', ''delete'', ''patch'', ''head'', ''options'']"

definition description_of :: "json \<Rightarrow> jstr option" where
  \<comment> \<open>\<open>e.description || ""\<close>, which the Markdown reader takes as a text\<close>
  "description_of e = (if truthy_entry ''description'' e then text_prop ''description'' e else Some [])"

definition not_collapsed :: "json \<Rightarrow> bool" where
  "not_collapsed e \<longleftrightarrow> entry ''x-tag-expanded'' e \<noteq> Some (JBool False)"

definition new_group :: "(jstr \<Rightarrow> md_token list) \<Rightarrow> jstr \<Rightarrow> json option \<Rightarrow> jstr \<Rightarrow> bool \<Rightarrow> tag_group" where
  "new_group lexer name shown_name descr expanded =
     \<lparr>tg_elementId = js ''tag--'' @ id_text name, tg_name = name, tg_displayName = shown_name, tg_description = descr,
      tg_headers = (if descr \<noteq> [] then headings_of lexer descr else []), tg_paths = [], tg_expanded = expanded, tg_firstPathId = []\<rparr>"

definition declared_group :: "(jstr \<Rightarrow> md_token list) \<Rightarrow> json \<Rightarrow> tag_group option" where
  "declared_group lexer e = do {
     name \<leftarrow> text_prop ''name'' e;
     descr \<leftarrow> description_of e;
     Some (new_group lexer name (or_else (entry ''x-displayName'' e) (Some (JStr name))) descr (not_collapsed e)) }"

definition declared_groups :: "(jstr \<Rightarrow> md_token list) \<Rightarrow> json option \<Rightarrow> tag_group list option" where
  "declared_groups lexer tags = (case tags of Some (JArr es) \<Rightarrow> map_opt (declared_group lexer) es | _ \<Rightarrow> Some [])"

definition strip_slashes :: "jstr \<Rightarrow> jstr" where
  \<comment> \<open>\<open>replace(/^\/+|\/+$/g, "")\<close>\<close>
  "strip_slashes s = rev (dropWhile (\<lambda>c. c = slash) (rev (dropWhile (\<lambda>c. c = slash) s)))"

definition general_name :: jstr where "general_name = js ''General '' @ [0x2982]"

definition missing_tag :: "load_settings \<Rightarrow> jstr \<Rightarrow> jstr" where
  "missing_tag ls path =
     (if ls_generateMissingTags ls
      then (let e = strip_slashes path in case find_sub e (js ''/'') of None \<Rightarrow> e | Some n \<Rightarrow> take n e)
      else general_name)"

definition tags_of :: "load_settings \<Rightarrow> jstr \<Rightarrow> json \<Rightarrow> json list option" where
  "tags_of ls path op =
     (if \<not> truthy_entry ''tags'' op then Some [JStr (missing_tag ls path)]
      else case entry ''tags'' op of
          Some (JArr ts) \<Rightarrow> Some (if ts = [] then [JStr (missing_tag ls path)] else ts)
        | _ \<Rightarrow> None)"

fun first_sentence :: "jstr \<Rightarrow> jstr" where
  \<comment> \<open>the first part of \<open>split(/[.|!|?]\s|[\r?\n]/)\<close>\<close>
  "first_sentence [] = []"
| "first_sentence (c # s) =
     (if c \<in> set (js ''.|!?'') \<and> s \<noteq> [] \<and> is_space (hd s) \<or> c \<in> {13, 63, 10} then [] else c # first_sentence s)"

definition summary_of :: "jstr \<Rightarrow> jstr \<Rightarrow> json \<Rightarrow> jstr option" where
  "summary_of method path op =
     map_option (\<lambda>s. let h = trim s in if length h > 100 then first_sentence h else h)
       (if truthy_entry ''summary'' op then text_prop ''summary'' op
        else if truthy_entry ''description'' op then text_prop ''description'' op
        else Some (map upper_char method @ js '' '' @ path))"

definition same_parameter :: "json \<Rightarrow> json \<Rightarrow> bool option" where
  "same_parameter e t = do {
     a \<leftarrow> read_prop ''name'' e; b \<leftarrow> read_prop ''name'' t;
     Some (strict_eq a b \<and> strict_eq (entry ''in'' e) (entry ''in'' t)) }"

definition keeps_shared :: "json list \<Rightarrow> json \<Rightarrow> bool option" where
  "keeps_shared own e = map_option (\<lambda>b. \<not> b \<and> is_truthy (Some e)) (some_opt (same_parameter e) own)"

definition merged_parameters :: "json option \<Rightarrow> json option \<Rightarrow> json list option" where
  \<comment> \<open>an operation's own parameter hides the one of its path with the same name and place\<close>
  "merged_parameters shared own =
     (case (is_truthy shared, shared, is_truthy own, own) of
        (True, Some (JArr ss), True, Some (JArr os)) \<Rightarrow> map_option (\<lambda>ss'. ss' @ os) (filter_opt (keeps_shared os) ss)
      | (True, Some (JArr ss), False, _) \<Rightarrow> Some ss
      | (False, _, True, Some (JArr os)) \<Rightarrow> Some os
      | (False, _, False, _) \<Rightarrow> Some []
      | _ \<Rightarrow> None)"

fun typeof_object :: "json \<Rightarrow> bool" where
  "typeof_object JNull = True"
| "typeof_object (JArr vs) = True"
| "typeof_object (JObj kvs) = True"
| "typeof_object _ = False"

definition clean_callback :: "json \<Rightarrow> json option" where
  "clean_callback t = map_option (\<lambda>kvs. JObj (filter (\<lambda>(k, v). typeof_object v) kvs)) (own_entries (Some t))"

definition clean_callbacks :: "json option \<Rightarrow> json option option" where
  "clean_callbacks cb =
     (if \<not> is_truthy cb then Some cb
      else case cb of
          Some (JObj kvs) \<Rightarrow> map_option (\<lambda>kvs'. Some (JObj kvs')) (map_opt (\<lambda>(k, t). map_option (Pair k) (clean_callback t)) kvs)
        | Some (JArr vs) \<Rightarrow> map_option (\<lambda>vs'. Some (JArr vs')) (map_opt clean_callback vs)
        | Some (JStr s) \<Rightarrow> None
        | _ \<Rightarrow> Some cb)"

definition list_of :: "json option \<Rightarrow> json list option" where
  "list_of e = (if is_truthy e then (case e of Some (JArr vs) \<Rightarrow> Some vs | _ \<Rightarrow> None) else Some [])"

definition path_servers :: "json \<Rightarrow> json \<Rightarrow> json list option" where
  "path_servers item op = do {
     shared \<leftarrow> list_of (entry ''servers'' item); own \<leftarrow> list_of (entry ''servers'' op); Some (shared @ own) }"

definition new_entry :: "jstr \<Rightarrow> jstr \<Rightarrow> json \<Rightarrow> json \<Rightarrow> jstr \<Rightarrow> json list \<Rightarrow> json option \<Rightarrow> json list \<Rightarrow> path_entry" where
  "new_entry path method item op summary parameters callbacks servers =
     \<lparr>pe_expanded = False, pe_isWebhook = (entry ''_type'' item = Some (JStr (js ''webhook''))),
      pe_summary = or_text (entry ''summary'' op), pe_description = the (or_else (entry ''description'' op) (Some (JStr []))),
      pe_externalDocs = entry ''externalDocs'' op, pe_shortSummary = summary, pe_method = method, pe_path = path,
      pe_operationId = entry ''operationId'' op, pe_elementId = method @ js ''-'' @ id_text path, pe_servers = servers,
      pe_parameters = parameters, pe_requestBody = entry ''requestBody'' op, pe_responses = entry ''responses'' op,
      pe_callbacks = callbacks, pe_deprecated = entry ''deprecated'' op, pe_security = entry ''security'' op,
      pe_xBadges = (if truthy_entry ''x-badges'' op then entry ''x-badges'' op else None),
      pe_xCodeSamples = or_else (entry ''x-codeSamples'' op) (or_else (entry ''x-code-samples'' op) (Some (JStr [])))\<rparr>"

definition path_entry_of :: "jstr \<Rightarrow> jstr \<Rightarrow> json \<Rightarrow> json \<Rightarrow> path_entry option" where
  "path_entry_of path method item op = do {
     summary \<leftarrow> summary_of method path op;
     parameters \<leftarrow> merged_parameters (entry ''parameters'' item) (entry ''parameters'' op);
     callbacks \<leftarrow> clean_callbacks (entry ''callbacks'' op);
     servers \<leftarrow> path_servers item op;
     Some (new_entry path method item op summary parameters callbacks servers) }"

fun put_in_group :: "jstr \<Rightarrow> path_entry \<Rightarrow> tag_group list \<Rightarrow> tag_group list option" where
  \<comment> \<open>into the first group of that name, if there is one\<close>
  "put_in_group name pe [] = None"
| "put_in_group name pe (g # gs) =
     (if tg_name g = name then Some (g\<lparr>tg_paths := tg_paths g @ [pe]\<rparr> # gs) else map_option (Cons g) (put_in_group name pe gs))"

definition same_tag :: "jstr \<Rightarrow> json \<Rightarrow> bool option" where
  "same_tag name e = map_option (\<lambda>n. toLowerCase n = toLowerCase name) (text_prop ''name'' e)"

definition find_declared :: "json option \<Rightarrow> jstr \<Rightarrow> json option option" where
  "find_declared tags name =
     (if is_truthy tags then (case tags of Some (JArr es) \<Rightarrow> find_opt (same_tag name) es | _ \<Rightarrow> None) else Some None)"

definition found_group :: "(jstr \<Rightarrow> md_token list) \<Rightarrow> jstr \<Rightarrow> json option \<Rightarrow> tag_group option" where
  "found_group lexer name declared =
     (case declared of
        None \<Rightarrow> Some (new_group lexer name None [] True)
      | Some p \<Rightarrow> map_option (\<lambda>d. new_group lexer name None d (not_collapsed p)) (description_of p))"

definition add_to_group :: "(jstr \<Rightarrow> md_token list) \<Rightarrow> json option \<Rightarrow> path_entry \<Rightarrow> json \<Rightarrow> tag_group list \<Rightarrow> tag_group list option" where
  "add_to_group lexer tags pe t gs =
     (case t of
        JStr name \<Rightarrow> do {
          declared \<leftarrow> find_declared tags name;
          case put_in_group name pe gs of
            Some gs' \<Rightarrow> Some gs'
          | None \<Rightarrow> do { g \<leftarrow> found_group lexer name declared; Some (gs @ [g\<lparr>tg_paths := [pe]\<rparr>]) } }
      | _ \<Rightarrow> None)"

definition add_operation :: "(jstr \<Rightarrow> md_token list) \<Rightarrow> load_settings \<Rightarrow> json option \<Rightarrow> jstr \<times> json \<Rightarrow> jstr \<Rightarrow> tag_group list \<Rightarrow> tag_group list option" where
  "add_operation lexer ls tags pv method gs =
     (case map_of (object_fields (snd pv)) method of
        None \<Rightarrow> Some gs
      | Some op \<Rightarrow>
          if \<not> is_truthy (Some op) then Some gs
          else do {
            ts \<leftarrow> tags_of ls (fst pv) op;
            pe \<leftarrow> path_entry_of (fst pv) method (snd pv) op;
            fold_opt (add_to_group lexer tags pe) ts gs })"

definition webhook_item :: "jstr \<times> json \<Rightarrow> (jstr \<times> json) option" where
  "webhook_item kr = 
     (case snd kr of
        JObj kvs \<Rightarrow> Some (fst kr, JObj (put_entry (js ''_type'') (JStr (js ''webhook'')) kvs))
      | JArr vs \<Rightarrow> Some kr
      | _ \<Rightarrow> None)"

definition all_paths :: "(jstr \<times> json) list \<Rightarrow> (jstr \<times> json) list option" where
  \<comment> \<open>the paths and the webhooks, which replace paths of the same name\<close>
  "all_paths doc =
     (let paths = object_fields (the (or_else (map_of doc (js ''paths'')) (Some (JObj [])))) in
      if is_truthy (map_of doc (js ''webhooks'')) then do {
        hooks \<leftarrow> own_entries (map_of doc (js ''webhooks''));
        items \<leftarrow> map_opt webhook_item hooks;
        Some (put_entries items paths) }
      else Some paths)"

definition collectGroups :: "(jstr \<Rightarrow> md_token list) \<Rightarrow> load_settings \<Rightarrow> (jstr \<times> json) list \<Rightarrow> tag_group list option" where
  "collectGroups lexer ls doc = do {
     declared \<leftarrow> declared_groups lexer (map_of doc (js ''tags''));
     paths \<leftarrow> all_paths doc;
     fold_opt (\<lambda>pv. fold_opt (add_operation lexer ls (map_of doc (js ''tags'')) pv) methods) paths declared }"

definition method_index :: "jstr \<Rightarrow> jstr" where
  "method_index m = nat_text (length (takeWhile (\<lambda>x. x \<noteq> m) methods))"

definition sort_paths :: "jstr comparator \<Rightarrow> load_settings \<Rightarrow> path_entry list \<Rightarrow> path_entry list" where
  "sort_paths lc ls ps =
     (if ls_sortEndpointsBy ls = js ''method'' then Sorting_Algorithms.sort (key (\<lambda>p. method_index (pe_method p)) lc) ps
      else if ls_sortEndpointsBy ls = js ''summary'' then Sorting_Algorithms.sort (key pe_shortSummary lc) ps
      else if ls_sortEndpointsBy ls = js ''path'' then Sorting_Algorithms.sort (key pe_path lc) ps
      else ps)"

definition settled_group :: "jstr comparator \<Rightarrow> load_settings \<Rightarrow> tag_group \<Rightarrow> tag_group" where
  "settled_group lc ls g =
     (let ps = sort_paths lc ls (tg_paths g) in g\<lparr>tg_paths := ps, tg_firstPathId := (case ps of [] \<Rightarrow> [] | p # _ \<Rightarrow> pe_elementId p)\<rparr>)"

definition groupByTags :: "jstr comparator \<Rightarrow> (jstr \<Rightarrow> md_token list) \<Rightarrow> load_settings \<Rightarrow> (jstr \<times> json) list \<Rightarrow> tag_group list option" where
  "groupByTags lc lexer ls doc = do {
     gs \<leftarrow> collectGroups lexer ls doc;
     let settled = map (settled_group lc ls) (filter (\<lambda>g. tg_paths g \<noteq> []) gs);
     Some (if ls_sortTags ls then Sorting_Algorithms.sort (key tg_name lc) settled else settled) }"

section \<open>Lemmas\<close>

lemma fold_opt_union:
  assumes "\<And>x s t. x \<in> set xs \<Longrightarrow> f x s = Some t \<Longrightarrow> F t = F s \<union> G x" "fold_opt f xs s = Some t"
  shows "F t = F s \<union> (\<Union>x \<in> set xs. G x)"
  using assms by (induction xs arbitrary: s) (fastforce split: Option.bind_splits)+

lemma map_opt_length: "map_opt f xs = Some ys \<Longrightarrow> length ys = length xs"
  by (induction xs arbitrary: ys) (auto split: Option.bind_splits)

lemma map_opt_cong [fundef_cong]: "xs = ys \<Longrightarrow> (\<And>x. x \<in> set ys \<Longrightarrow> f x = g x) \<Longrightarrow> map_opt f xs = map_opt g ys"
  by (induction ys arbitrary: xs) auto

lemma filter_opt_cong [fundef_cong]: "xs = ys \<Longrightarrow> (\<And>x. x \<in> set ys \<Longrightarrow> p x = q x) \<Longrightarrow> filter_opt p xs = filter_opt q ys"
  by (induction ys arbitrary: xs) auto

lemma filter_opt_Some: "(\<And>x. x \<in> set xs \<Longrightarrow> p x = Some (q x)) \<Longrightarrow> filter_opt p xs = Some (filter q xs)"
  by (induction xs) auto

lemma some_opt_Some: "(\<And>x. x \<in> set xs \<Longrightarrow> p x = Some (q x)) \<Longrightarrow> some_opt p xs = Some (list_ex q xs)"
  by (induction xs) auto

lemma in_filter_opt: "filter_opt p xs = Some ys \<Longrightarrow> x \<in> set ys \<longleftrightarrow> x \<in> set xs \<and> p x = Some True"
  by (induction xs arbitrary: ys) (auto simp: bind_eq_Some_conv split: if_splits)

subsection \<open>The groups hold the operations\<close>

definition shown_operations :: "tag_group list \<Rightarrow> (jstr \<times> jstr \<times> jstr) set" where
  "shown_operations gs = {(tg_name g, pe_path p, pe_method p) | g p. g \<in> set gs \<and> p \<in> set (tg_paths g)}"

definition tagged_operations :: "load_settings \<Rightarrow> (jstr \<times> json) list \<Rightarrow> (jstr \<times> jstr \<times> jstr) set" where
  "tagged_operations ls paths =
     {(name, path, method) | name path method. \<exists>item op ts. (path, item) \<in> set paths \<and> method \<in> set methods \<and>
        map_of (object_fields item) method = Some op \<and> is_truthy (Some op) \<and> tags_of ls path op = Some ts \<and> JStr name \<in> set ts}"

lemma shown_simps [simp]:
  "shown_operations [] = {}"
  "shown_operations (g # gs) = {(tg_name g, pe_path p, pe_method p) | p. p \<in> set (tg_paths g)} \<union> shown_operations gs"
  "shown_operations (gs @ hs) = shown_operations gs \<union> shown_operations hs"
  by (auto simp: shown_operations_def)

lemma shown_set: "set gs = set hs \<Longrightarrow> shown_operations gs = shown_operations hs"
  by (simp add: shown_operations_def)

lemma shown_put: "put_in_group name pe gs = Some gs' \<Longrightarrow> shown_operations gs' = insert (name, pe_path pe, pe_method pe) (shown_operations gs)"
  by (induction gs arbitrary: gs') (auto split: if_splits)

lemma found_group_simps: "found_group lexer name d = Some g \<Longrightarrow> tg_name g = name \<and> tg_paths g = []"
  by (auto simp: found_group_def new_group_def split: option.splits)

lemma shown_add:
  assumes "add_to_group lexer tags pe t gs = Some gs'"
  shows "shown_operations gs' = shown_operations gs \<union> {(name, pe_path pe, pe_method pe) | name. JStr name = t}"
  using assms by (auto simp: add_to_group_def shown_put dest!: found_group_simps split: json.splits Option.bind_splits option.splits)

lemma new_entry_fields [simp]:
  "pe_path (new_entry path method item op summary parameters callbacks servers) = path"
  "pe_method (new_entry path method item op summary parameters callbacks servers) = method"
  "pe_elementId (new_entry path method item op summary parameters callbacks servers) = method @ js ''-'' @ id_text path"
  "pe_parameters (new_entry path method item op summary parameters callbacks servers) = parameters"
  by (simp_all add: new_entry_def)

lemma path_entry_of_fields: "path_entry_of path method item op = Some pe \<Longrightarrow> pe_path pe = path \<and> pe_method pe = method \<and> pe_elementId pe = method @ js ''-'' @ id_text path"
  unfolding path_entry_of_def bind_eq_Some_conv option.inject by (elim exE conjE) (hypsubst, simp)

definition operations_of :: "load_settings \<Rightarrow> jstr \<times> json \<Rightarrow> jstr \<Rightarrow> (jstr \<times> jstr \<times> jstr) set" where
  "operations_of ls pv method =
     {(name, fst pv, method) | name. \<exists>op ts. map_of (object_fields (snd pv)) method = Some op \<and> is_truthy (Some op) \<and>
        tags_of ls (fst pv) op = Some ts \<and> JStr name \<in> set ts}"

lemma shown_operation:
  assumes "add_operation lexer ls tags pv method gs = Some gs'"
  shows "shown_operations gs' = shown_operations gs \<union> operations_of ls pv method"
proof (cases "is_truthy (map_of (object_fields (snd pv)) method)")
  case False
  then show ?thesis using assms by (auto simp: add_operation_def operations_of_def split: option.splits)
next
  case True
  then obtain op where op: "map_of (object_fields (snd pv)) method = Some op" "is_truthy (Some op)"
    by (cases "map_of (object_fields (snd pv)) method") auto
  then obtain ts pe where ts: "tags_of ls (fst pv) op = Some ts" and pe: "path_entry_of (fst pv) method (snd pv) op = Some pe"
    and gs': "fold_opt (add_to_group lexer tags pe) ts gs = Some gs'"
    using assms by (auto simp: add_operation_def split: Option.bind_splits)
  have "shown_operations gs' = shown_operations gs \<union> (\<Union>t \<in> set ts. {(name, pe_path pe, pe_method pe) | name. JStr name = t})"
    by (rule fold_opt_union [OF shown_add gs'])
  then show ?thesis using op ts path_entry_of_fields [OF pe] by (auto simp: operations_of_def)
qed

lemma shown_declared: "declared_groups lexer tags = Some gs \<Longrightarrow> shown_operations gs = {}"
proof -
  have "map_opt (declared_group lexer) es = Some gs \<Longrightarrow> shown_operations gs = {}" for es
    by (induction es arbitrary: gs) (auto simp: declared_group_def new_group_def split: Option.bind_splits)
  then show "declared_groups lexer tags = Some gs \<Longrightarrow> shown_operations gs = {}"
    by (auto simp: declared_groups_def split: option.splits json.splits)
qed

lemma shown_collected:
  assumes "collectGroups lexer ls doc = Some gs" "all_paths doc = Some paths"
  shows "shown_operations gs = tagged_operations ls paths"
proof -
  let ?tags = "map_of doc (js ''tags'')"
  obtain ds where ds: "declared_groups lexer ?tags = Some ds"
    and gs: "fold_opt (\<lambda>pv. fold_opt (add_operation lexer ls ?tags pv) methods) paths ds = Some gs"
    using assms by (auto simp: collectGroups_def split: Option.bind_splits)
  have "shown_operations gs = shown_operations ds \<union> (\<Union>pv \<in> set paths. \<Union>m \<in> set methods. operations_of ls pv m)"
    by (rule fold_opt_union [OF fold_opt_union [OF shown_operation] gs])
  then show ?thesis using shown_declared [OF ds] 
    by (simp add: tagged_operations_def operations_of_def) (fastforce split: prod.splits)
qed

lemma set_sort_paths [simp]: "set (sort_paths lc ls ps) = set ps" "sort_paths lc ls ps = [] \<longleftrightarrow> ps = []"
proof -
  show s: "set (sort_paths lc ls ps) = set ps" by (simp add: sort_paths_def)
  show "sort_paths lc ls ps = [] \<longleftrightarrow> ps = []" unfolding set_empty [symmetric] s ..
qed

lemma settled_group_simps [simp]:
  "tg_name (settled_group lc ls g) = tg_name g" "set (tg_paths (settled_group lc ls g)) = set (tg_paths g)"
  by (simp_all add: settled_group_def Let_def)

subsection \<open>The filter\<close>

lemma occurs_before: "occurs (m @ c) (k @ c) \<Longrightarrow> occurs m k"
proof -
  assume "occurs (m @ c) (k @ c)"
  then obtain u v where e: "k @ c = u @ (m @ c) @ v" by (auto simp: occurs_iff)
  have "length (k @ c) = length (u @ (m @ c) @ v)" by (simp only: e)
  then have "length k = length (u @ m) + length v" unfolding length_append by linarith
  moreover have "take (length (u @ m)) (k @ c) = u @ m" unfolding e by simp
  ultimately have "take (length (u @ m)) k = u @ m" by simp
  then have "k = u @ m @ drop (length (u @ m)) k" by (metis append_assoc append_take_drop_id)
  then show ?thesis by (auto simp: occurs_iff)
qed

lemma no_removed_labels [simp]: "removed_labels [] = []"
  by (simp add: removed_labels_def trim_def toLowerCase_Nil)

lemma no_badge_removed: "some_opt (removed_badge []) bs = Some b \<Longrightarrow> \<not> b"
  by (induction bs) (auto simp: removed_badge_def bind_eq_Some_conv split: if_splits)

lemma keeps_entry_match:
  assumes "keeps_entry re ls p (k, v) = Some b" "ls_removeBadges ls = []"
  shows "path_matches re ls p k = Some b"
  using assms by (auto simp: keeps_entry_def bind_eq_Some_conv dest!: no_badge_removed split: if_splits option.splits json.splits)

lemma map_of_filter_opt:
  assumes "filter_opt q kvs = Some kept" "\<And>k v b. q (k, v) = Some b \<Longrightarrow> b = f k"
  shows "map_of kept k = (if f k then map_of kvs k else None)"
  using assms(1)
proof (induction kvs arbitrary: kept)
  case (Cons x kvs)
  then obtain b ys where b: "q x = Some b" "filter_opt q kvs = Some ys" "kept = (if b then x # ys else ys)"
    by (auto simp: bind_eq_Some_conv)
  then have "b = f (fst x)" using assms(2) [of "fst x" "snd x"] by simp
  then show ?case using Cons.IH [OF b(2)] b(3) by (cases x) auto
qed simp

lemma map_opt_constant: "map_opt f xs = Some ys \<Longrightarrow> (\<And>x y. f x = Some y \<Longrightarrow> \<not> P y) \<Longrightarrow> filter P ys = []"
  by (induction xs arbitrary: ys) (auto simp: bind_eq_Some_conv)

lemma filter_opt_none: "filter_opt q xs = Some ys \<Longrightarrow> (\<And>x b. q x = Some b \<Longrightarrow> \<not> b) \<Longrightarrow> ys = []"
  by (induction xs arbitrary: ys) (auto simp: bind_eq_Some_conv split: if_splits)

subsection \<open>Parameters\<close>

definition param_key :: "json \<Rightarrow> jstr option \<times> jstr option" where
  "param_key e = (text_prop ''name'' e, text_prop ''in'' e)"

definition named_param :: "json \<Rightarrow> bool" where
  "named_param e \<longleftrightarrow> text_prop ''name'' e \<noteq> None \<and> text_prop ''in'' e \<noteq> None"

lemma same_parameter_key: "named_param e \<Longrightarrow> named_param t \<Longrightarrow> same_parameter e t = Some (param_key e = param_key t)"
  by (cases e; cases t) (auto simp: same_parameter_def read_prop_def param_key_def named_param_def text_prop_def split: option.splits json.splits)

lemma named_param_truthy: "named_param e \<Longrightarrow> is_truthy (Some e)"
  by (cases e) (auto simp: named_param_def text_prop_def)

lemma merged_parameters_named:
  assumes "list_all named_param ss" "list_all named_param os"
  shows "merged_parameters (Some (JArr ss)) (Some (JArr os)) = Some (filter (\<lambda>e. param_key e \<notin> param_key ` set os) ss @ os)"
proof -
  have "keeps_shared os e = Some (param_key e \<notin> param_key ` set os)" if "e \<in> set ss" for e
  proof -
    have "some_opt (same_parameter e) os = Some (list_ex (\<lambda>t. param_key e = param_key t) os)"
      using assms that by (intro some_opt_Some same_parameter_key) (auto simp: list_all_iff)
    then show ?thesis using assms(1) that named_param_truthy by (auto simp: keeps_shared_def list_ex_iff list_all_iff)
  qed
  then show ?thesis by (simp add: merged_parameters_def filter_opt_Some)
qed

section \<open>Properties\<close>

text \<open>
  C12: The groups hold every operation of the document's paths and webhooks under each of its tags, and nothing else; no
  group is empty, and the first path of a group is the one its link leads to.
\<close>

theorem groups_hold_operations:
  assumes "groupByTags lc lexer ls doc = Some gs" "all_paths doc = Some paths"
  shows "shown_operations gs = tagged_operations ls paths \<and>
      list_all (\<lambda>g. tg_paths g \<noteq> [] \<and> tg_firstPathId g = pe_elementId (hd (tg_paths g))) gs"
proof -
  obtain cs where cs: "collectGroups lexer ls doc = Some cs"
    and gs: "set gs = settled_group lc ls ` {g \<in> set cs. tg_paths g \<noteq> []}"
    using assms by (auto simp: groupByTags_def Let_def split: Option.bind_splits if_splits)
  have "shown_operations gs = shown_operations cs"
  proof (intro set_eqI iffI)
    fix x assume "x \<in> shown_operations gs"
    then obtain g p where "x = (tg_name g, pe_path p, pe_method p)" "g \<in> set cs" "p \<in> set (tg_paths g)"
      unfolding shown_operations_def gs by fastforce
    then show "x \<in> shown_operations cs" unfolding shown_operations_def by blast
  next
    fix x assume "x \<in> shown_operations cs"
    then obtain g p where "x = (tg_name g, pe_path p, pe_method p)" "g \<in> set cs" "p \<in> set (tg_paths g)"
      unfolding shown_operations_def by blast
    moreover from this have "settled_group lc ls g \<in> set gs" unfolding gs by (intro imageI) auto
    ultimately show "x \<in> shown_operations gs" unfolding shown_operations_def by (intro CollectI exI [of _ "settled_group lc ls g"] exI [of _ p]) simp
  qed
  moreover have "tg_paths (settled_group lc ls g) \<noteq> [] \<and> tg_firstPathId (settled_group lc ls g) = pe_elementId (hd (tg_paths (settled_group lc ls g)))"
    if "tg_paths g \<noteq> []" for g
    using that by (auto simp: settled_group_def Let_def split: list.splits)
  ultimately show ?thesis using shown_collected [OF cs assms(2)] gs by (auto simp: list_all_iff)
qed

text \<open>
  When an operation and its path give parameters under distinct names and places, the merged list has each name and
  place of either once, and the operation's own parameter where both have one.
\<close>

theorem own_parameters_override:
  assumes "list_all named_param ss" "list_all named_param os" "distinct (map param_key ss)" "distinct (map param_key os)"
  shows "\<exists>ps. merged_parameters (Some (JArr ss)) (Some (JArr os)) = Some ps \<and> distinct (map param_key ps) \<and>
      param_key ` set ps = param_key ` set ss \<union> param_key ` set os \<and> set os \<subseteq> set ps"
proof (intro exI conjI)
  let ?ps = "filter (\<lambda>e. param_key e \<notin> param_key ` set os) ss @ os"
  show "merged_parameters (Some (JArr ss)) (Some (JArr os)) = Some ?ps" by (rule merged_parameters_named) (fact assms)+
  show "distinct (map param_key ?ps)" 
    using assms(4) by (simp add: distinct_map_filter [OF assms(3)]) blast
  show "param_key ` set ?ps = param_key ` set ss \<union> param_key ` set os" by simp blast
qed simp


text \<open>
  A filter by a regular expression does not look at the paths: the pattern is tried on its own text. When it
  matches itself nothing is filtered, else the document is left without paths.
\<close>

theorem regex_ignores_paths:
  assumes "ls_matchType ls = js ''regex''" "ls_matchPaths ls \<noteq> []" "re (ls_matchPaths ls) (toLowerCase (ls_matchPaths ls)) = Some b"
    and "filterPaths re ls doc = Some doc'"
  shows "if b then filterPaths re (ls\<lparr>ls_matchPaths := []\<rparr>) doc = Some doc' else doc' = put_entry (js ''paths'') (JObj []) doc"
proof -
  have m: "path_matches re ls p k = Some b" for p k using assms(1-3) by (simp add: path_matches_def)
  show ?thesis
  proof (cases b)
    case True
    have "path_matches re (ls\<lparr>ls_matchPaths := []\<rparr>) p k = Some b" "ls_removeBadges (ls\<lparr>ls_matchPaths := []\<rparr>) = ls_removeBadges ls" for p k
      using True by (simp_all add: path_matches_def)
    then have "keeps_entry re ls p = keeps_entry re (ls\<lparr>ls_matchPaths := []\<rparr>) p" for p
      by (intro ext) (simp only: keeps_entry_def m)
    then have "kept_path re ls = kept_path re (ls\<lparr>ls_matchPaths := []\<rparr>)" by (intro ext) (simp only: kept_path_def)
    then show ?thesis using True assms(4) by (simp add: filterPaths_def)
  next
    case False
    have "kept = []" if "filter_opt (keeps_entry re ls p) kvs = Some kept" for p kvs kept
      using that False by (rule_tac filter_opt_none) (auto simp: keeps_entry_def m bind_eq_Some_conv)
    then have "snd y = JObj []" if "kept_path re ls x = Some y" for x y
      using that by (fastforce simp: kept_path_def bind_eq_Some_conv)
    then show ?thesis using False assms(4)
      by (auto simp: filterPaths_def bind_eq_Some_conv dest!: map_opt_constant [where P = "\<lambda>(p, v). v \<noteq> JObj []"])
  qed
qed

definition sample_settings :: load_settings where
  "sample_settings = \<lparr>ls_generateMissingTags = False, ls_sortTags = False, ls_sortSchemas = False, ls_sortEndpointsBy = [],
     ls_keyName = [], ls_keyLocation = [], ls_keyValue = [], ls_serverUrl = [], ls_matchPaths = [], ls_matchType = js ''includes'',
     ls_removeBadges = [], ls_origin = js ''http://localhost''\<rparr>"

definition json_param :: "string \<Rightarrow> string \<Rightarrow> json" where
  "json_param n loc = JObj [(js ''name'', JStr (js n)), (js ''in'', JStr (js loc))]"

definition sample_item :: "(jstr \<times> json) list" where
  "sample_item = [(js ''parameters'', JArr [json_param ''id'' ''path'']), (js ''get'', JObj [(js ''tags'', JArr [JStr (js ''chats''), JStr (js ''all'')])]),
     (js ''post'', JObj [(js ''summary'', JStr (js ''Send. Text''))])]"

definition sample_doc :: "(jstr \<times> json) list" where
  "sample_doc = [(js ''tags'', JArr [JObj [(js ''name'', JStr (js ''all''))]]), (js ''paths'', JObj [(js ''/chats/{id}'', JObj sample_item)])]"

abbreviation by_length :: "jstr comparator" where
  "by_length \<equiv> key length default"

lemma sample_groups:
  obtains gs g p where "groupByTags by_length (\<lambda>_. []) sample_settings sample_doc = Some gs" "g \<in> set gs" "p \<in> set (tg_paths g)"
    "pe_elementId p = js ''get-/chats/-id-''" "pe_path p = js ''/chats/{id}''"
proof -
  have "case groupByTags by_length (\<lambda>_. []) sample_settings sample_doc of None \<Rightarrow> False
    | Some gs \<Rightarrow> list_ex (\<lambda>g. list_ex (\<lambda>p. pe_elementId p = js ''get-/chats/-id-'' \<and> pe_path p = js ''/chats/{id}'') (tg_paths g)) gs"
    by code_simp
  then show thesis using that by (auto simp: list_ex_iff split: option.splits)
qed

theorem groups_hold_operations_witness:
  "\<exists>gs. groupByTags by_length (\<lambda>_. []) sample_settings sample_doc = Some gs \<and>
     shown_operations gs = tagged_operations sample_settings [(js ''/chats/{id}'', JObj sample_item)] \<and>
     list_all (\<lambda>g. tg_paths g \<noteq> [] \<and> tg_firstPathId g = pe_elementId (hd (tg_paths g))) gs"
proof -
  obtain gs where "groupByTags by_length (\<lambda>_. []) sample_settings sample_doc = Some gs" by (rule sample_groups)
  moreover have "all_paths sample_doc = Some [(js ''/chats/{id}'', JObj sample_item)]" by code_simp
  ultimately show ?thesis using groups_hold_operations by blast
qed

theorem own_parameters_override_witness:
  "\<exists>ps. merged_parameters (Some (JArr [json_param ''id'' ''path'', json_param ''q'' ''query''])) (Some (JArr [json_param ''id'' ''path''])) = Some ps \<and>
     distinct (map param_key ps) \<and>
     param_key ` set ps = param_key ` set [json_param ''id'' ''path'', json_param ''q'' ''query''] \<union> param_key ` set [json_param ''id'' ''path''] \<and>
     set [json_param ''id'' ''path''] \<subseteq> set ps"
  by (rule own_parameters_override) code_simp+


theorem regex_ignores_paths_witness:
  "filterPaths (\<lambda>p t. Some (occurs p t)) (sample_settings\<lparr>ls_matchType := js ''regex'', ls_matchPaths := js ''/none''\<rparr>) sample_doc =
     Some (put_entry (js ''paths'') (JObj [(js ''/chats/{id}'', JObj sample_item)]) sample_doc) \<and>
   filterPaths (\<lambda>p t. Some (occurs p t)) (sample_settings\<lparr>ls_matchType := js ''regex'', ls_matchPaths := []\<rparr>) sample_doc =
     Some (put_entry (js ''paths'') (JObj [(js ''/chats/{id}'', JObj sample_item)]) sample_doc)"
proof -
  let ?ls = "sample_settings\<lparr>ls_matchType := js ''regex'', ls_matchPaths := js ''/none''\<rparr>"
  have f: "filterPaths (\<lambda>p t. Some (occurs p t)) ?ls sample_doc = Some (put_entry (js ''paths'') (JObj [(js ''/chats/{id}'', JObj sample_item)]) sample_doc)"
    by code_simp
  have "ls_matchType ?ls = js ''regex''" "ls_matchPaths ?ls \<noteq> []" "Some (occurs (ls_matchPaths ?ls) (toLowerCase (ls_matchPaths ?ls))) = Some True"
    by code_simp+
  from regex_ignores_paths [of ?ls "\<lambda>p t. Some (occurs p t)", OF this f] show ?thesis using f by simp
qed

end
