(* ===== verification/Spec_Load.thy ===== *)
theory Spec_Load
  imports Spec_Groups Api_Auth
begin

text \<open>
  What the API reference makes of an OpenAPI document (\<open>hR\<close> in \<open>docs/ui/assets/rapidoc-min.js\<close>), beside the groups of
  operations: its components, its security schemes with the key the element's attributes give, and its servers with
  the default values of their variables. The document as it was fetched and dereferenced is the argument.
\<close>

section \<open>Variables in a text\<close>

text \<open>
  \<open>t.replace(new RegExp(`{${name}}`, "g"), value)\<close>. A name of letters, digits, underscores and hyphens stands for itself
  in the pattern, unless it is a number: braces around a number are a quantifier with nothing to repeat. For the
  other names the replacement is a parameter (\<open>rx\<close>). The value may contain the signs \<open>replace\<close> expands.
\<close>

fun expand_value :: "jstr \<Rightarrow> jstr \<Rightarrow> jstr \<Rightarrow> jstr \<Rightarrow> jstr" where
  "expand_value before match after (c # d # s) =
     (if c = 36 \<and> d = 36 then 36 # expand_value before match after s
      else if c = 36 \<and> d = 38 then match @ expand_value before match after s
      else if c = 36 \<and> d = 96 then before @ expand_value before match after s
      else if c = 36 \<and> d = 39 then after @ expand_value before match after s
      else c # expand_value before match after (d # s))"
| "expand_value before match after s = s"

function replace_from :: "jstr \<Rightarrow> jstr \<Rightarrow> jstr \<Rightarrow> jstr \<Rightarrow> jstr" where
  "replace_from before n v s =
     (if n \<noteq> [] \<and> startsWith s n
      then expand_value before n (drop (length n) s) v @ replace_from (before @ n) n v (drop (length n) s)
      else case s of [] \<Rightarrow> [] | c # t \<Rightarrow> c # replace_from (before @ [c]) n v t)"
  by pat_completeness auto
termination
  by (relation "measure (\<lambda>(before, n, v, s). length s)") (auto simp: startsWith_def intro!: diff_less)

declare replace_from.simps [simp del]

definition braced :: "jstr \<Rightarrow> jstr" where
  "braced k = js ''{'' @ k @ js ''}''"

definition replace_variable :: "(jstr \<Rightarrow> jstr \<Rightarrow> jstr \<Rightarrow> jstr option) \<Rightarrow> jstr \<times> jstr \<Rightarrow> jstr \<Rightarrow> jstr option" where
  "replace_variable rx kv t =
     (if list_all (\<lambda>c. is_word c \<or> c = hyphen) (fst kv)
      then if fst kv \<noteq> [] \<and> list_all (\<lambda>c. 48 \<le> c \<and> c \<le> 57) (fst kv) then None
           else Some (replace_from [] (braced (fst kv)) (snd kv) t)
      else rx (braced (fst kv)) (snd kv) t)"

definition fill_variables :: "(jstr \<Rightarrow> jstr \<Rightarrow> jstr \<Rightarrow> jstr option) \<Rightarrow> (jstr \<times> jstr) list \<Rightarrow> jstr \<Rightarrow> jstr option" where
  "fill_variables rx = fold_opt (replace_variable rx)"

section \<open>Servers\<close>

record server =
  sv_url :: jstr
  sv_computedUrl :: jstr
  sv_description :: "json option"
  sv_variables :: "(jstr \<times> json) list option"

definition plain_server :: "jstr \<Rightarrow> server" where
  "plain_server u = \<lparr>sv_url = u, sv_computedUrl = u, sv_description = None, sv_variables = None\<rparr>"

definition default_value :: "json \<Rightarrow> json" where
  "default_value v = the (or_else (entry ''default'' v) (Some (JStr [])))"

definition with_default :: "jstr \<times> json \<Rightarrow> (jstr \<times> json) option" where
  \<comment> \<open>\<open>v.value = v.default || ""\<close>\<close>
  "with_default kv =
     (case snd kv of
        JObj kvs \<Rightarrow> Some (fst kv, JObj (put_entry (js ''value'') (default_value (snd kv)) kvs))
      | JArr vs \<Rightarrow> Some kv
      | _ \<Rightarrow> None)"

definition relative_url :: "jstr \<Rightarrow> bool" where
  "relative_url t \<longleftrightarrow> \<not> startsWith t (js ''http'') \<and> \<not> startsWith t (js ''//'') \<and> \<not> startsWith t (js ''{'')"

definition server_of :: "(jstr \<Rightarrow> jstr \<Rightarrow> jstr \<Rightarrow> jstr option) \<Rightarrow> jstr \<Rightarrow> json \<Rightarrow> server option" where
  "server_of rx origin e = do {
     u \<leftarrow> text_prop ''url'' e;
     let completed = relative_url (trim u) \<and> startsWith origin (js ''http'');
     vs \<leftarrow> (if truthy_entry ''variables'' e then map_option Some (own_entries (entry ''variables'' e)) else Some None);
     settled \<leftarrow> (case vs of None \<Rightarrow> Some None | Some kvs \<Rightarrow> map_option Some (map_opt with_default kvs));
     computed \<leftarrow> fill_variables rx (map (\<lambda>(k, v). (k, to_text (default_value v))) (case vs of None \<Rightarrow> [] | Some kvs \<Rightarrow> kvs))
       (if completed then origin @ u else trim u);
     Some \<lparr>sv_url = (if completed then origin @ u else u), sv_computedUrl = computed,
       sv_description = entry ''description'' e, sv_variables = settled\<rparr> }"

definition servers_of :: "(jstr \<Rightarrow> jstr \<Rightarrow> jstr \<Rightarrow> jstr option) \<Rightarrow> load_settings \<Rightarrow> (jstr \<times> json) list \<Rightarrow> server list option" where
  "servers_of rx ls doc =
     (case map_of doc (js ''servers'') of
        Some (JArr (e # es)) \<Rightarrow>
          map_option (\<lambda>ss. ss @ (if ls_serverUrl ls \<noteq> [] then [plain_server (ls_serverUrl ls)] else [])) (map_opt (server_of rx (ls_origin ls)) (e # es))
      | _ \<Rightarrow> Some [plain_server (if ls_serverUrl ls \<noteq> [] then ls_serverUrl ls
            else if startsWith (ls_origin ls) (js ''http'') then ls_origin ls else js ''http://localhost'')])"

section \<open>Components\<close>

record sub_component =
  sb_id :: jstr
  sb_name :: jstr
  sb_component :: json
  sb_expanded :: "bool option"      \<comment> \<open>undefined until the first search\<close>

record component_group =
  cg_name :: jstr
  cg_description :: jstr
  cg_subs :: "sub_component list"

definition component_texts :: "(string \<times> string \<times> string) list" where
  "component_texts =
     [(''schemas'', ''Schemas'', ''Schemas allows the definition of input and output data types. These types can be objects, but also primitives and arrays.''),
      (''responses'', ''Responses'', ''Describes responses from an API Operation, including design-time, static links to operations based on the response.''),
      (''parameters'', ''Parameters'', ''Describes operation parameters. A unique parameter is defined by a combination of a name and location.''),
      (''examples'', ''Examples'', ''List of Examples for operations, can be requests, responses and objects examples.''),
      (''requestBodies'', ''Request Bodies'', ''Describes common request bodies that are used across the API operations.''),
      (''headers'', ''Headers'', ''Headers follows the structure of the Parameters but they are explicitly in \"header\"''),
      (''securitySchemes'', ''Security Schemes'', ''Defines a security scheme that can be used by the operations. Supported schemes are HTTP authentication, an API key (either as a header, a cookie parameter or as a query parameter), OAuth2's common flows(implicit, password, client credentials and authorization code) as defined in RFC6749, and OpenID Connect Discovery.''),
      (''links'', ''Links'', ''Links represent a possible design-time link for a response. The presence of a link does not guarantee the caller's ability to successfully invoke it, rather it provides a known relationship and traversal mechanism between responses and other operations.''),
      (''callbacks'', ''Callbacks'', ''A map of possible out-of band callbacks related to the parent operation. Each value in the map is a Path Item Object that describes a set of requests that may be initiated by the API provider and the expected responses. The key value used to identify the path item object is an expression, evaluated at runtime, that identifies a URL to use for the callback operation.'')]"

definition component_id :: "jstr \<Rightarrow> jstr \<Rightarrow> jstr" where
  "component_id s t = id_text (toLowerCase s @ js ''-'' @ toLowerCase t)"

definition component_group_of :: "jstr comparator \<Rightarrow> load_settings \<Rightarrow> jstr \<times> json \<Rightarrow> component_group" where
  "component_group_of lc ls sv =
     (let subs = map (\<lambda>(t, v). \<lparr>sb_id = component_id (fst sv) t, sb_name = t, sb_component = v, sb_expanded = None\<rparr>) (object_fields (snd sv));
          texts = map_of (map (\<lambda>(k, n, d). (js k, js n, js d)) component_texts) (fst sv)
      in \<lparr>cg_name = (case texts of None \<Rightarrow> fst sv | Some (n, d) \<Rightarrow> n),
          cg_description = (case texts of None \<Rightarrow> fst sv | Some (n, d) \<Rightarrow> d),
          cg_subs = (if fst sv = js ''schemas'' \<and> ls_sortSchemas ls then Sorting_Algorithms.sort (key sb_name lc) subs else subs)\<rparr>)"

definition components_of :: "jstr comparator \<Rightarrow> load_settings \<Rightarrow> (jstr \<times> json) list \<Rightarrow> component_group list" where
  "components_of lc ls doc =
     (if is_truthy (map_of doc (js ''components'')) then map (component_group_of lc ls) (object_fields (the (map_of doc (js ''components'')))) else [])"

section \<open>Security schemes\<close>

text \<open>The fields of a scheme and of its flows that the reference reads, an absent or empty one as \<open>None\<close>.\<close>

definition text_opt :: "string \<Rightarrow> json \<Rightarrow> jstr option" where
  "text_opt k v = (if truthy_entry k v then map_option to_text (entry k v) else None)"

definition texts_opt :: "string \<Rightarrow> json \<Rightarrow> jstr list option" where
  "texts_opt k v = (if truthy_entry k v then Some (map to_text (array_items (entry k v))) else None)"

definition flow_of :: "json \<Rightarrow> flow" where
  "flow_of v =
     \<lparr>authorizationUrl = text_entry ''authorizationUrl'' v, tokenUrl = text_entry ''tokenUrl'' v, refreshUrl = text_entry ''refreshUrl'' v,
      scopes = (if truthy_entry ''scopes'' v then Some (map (\<lambda>(k, d). (k, to_text d)) (object_fields (the (entry ''scopes'' v)))) else None),
      fl_pkce_only = truthy_entry ''x-pkce-only'' v, fl_client_id = text_opt ''x-client-id'' v,
      fl_client_secret = text_opt ''x-client-secret'' v, fl_default_scopes = texts_opt ''x-default-scopes'' v,
      fl_receive_in = text_opt ''x-receive-token-in'' v, fl_receive_options = texts_opt ''x-receive-token-in-options'' v\<rparr>"

definition raw_scheme_of :: "json \<Rightarrow> raw_scheme" where
  "raw_scheme_of v =
     \<lparr>rw_type = or_text (entry ''type'' v), rw_scheme = text_opt ''scheme'' v, rw_name = text_opt ''name'' v, rw_in = text_opt ''in'' v,
      rw_description = or_text (entry ''description'' v),
      rw_flows = map (\<lambda>(k, w). (k, flow_of w)) (case entry ''flows'' v of None \<Rightarrow> [] | Some w \<Rightarrow> object_fields w),
      rw_client_id = text_opt ''x-client-id'' v, rw_client_secret = text_opt ''x-client-secret'' v,
      rw_default_scopes = texts_opt ''x-default-scopes'' v, rw_receive_in = text_opt ''x-receive-token-in'' v,
      rw_receive_options = texts_opt ''x-receive-token-in-options'' v\<rparr>"

definition default_key_id :: jstr where
  "default_key_id = js ''_rapidoc_api_key''"

definition key_scheme :: "jstr \<Rightarrow> jstr \<Rightarrow> jstr \<Rightarrow> jstr \<Rightarrow> scheme" where
  \<comment> \<open>the scheme the attributes of the element make; only \<open>hR\<close> gives it a text to show\<close>
  "key_scheme name place value shown_type =
     \<lparr>rw_type = js ''apiKey'', rw_scheme = None, rw_name = Some name, rw_in = Some place,
      rw_description = js ''api-key provided in rapidoc element attributes'', rw_flows = [], rw_client_id = None, rw_client_secret = None,
      rw_default_scopes = None, rw_receive_in = None, rw_receive_options = None, securitySchemeId = default_key_id, sc_name = name,
      sc_in = place, sc_user = [], sc_password = [], sc_value = value, finalKeyValue = value, typeDisplay = shown_type\<rparr>"

definition securitySchemes_of :: "load_settings \<Rightarrow> (jstr \<times> json) list \<Rightarrow> scheme list option" where
  "securitySchemes_of ls doc =
     (let given = Option.bind (map_of doc (js ''components'')) (entry ''securitySchemes'') in
      if list_ex (\<lambda>(k, v). v = JNull) (if is_truthy given then object_fields (the given) else []) then None
      else Some (resolve_schemes (map (\<lambda>(k, v). (k, raw_scheme_of v)) (if is_truthy given then object_fields (the given) else [])) @
        (if ls_keyName ls \<noteq> [] \<and> ls_keyLocation ls \<noteq> [] \<and> ls_keyValue ls \<noteq> []
         then [key_scheme (ls_keyName ls) (ls_keyLocation ls) (ls_keyValue ls) (js ''API Key ('' @ ls_keyName ls @ js '')'')] else [])))"

section \<open>The whole document\<close>

text \<open>What the fetching of the document gives, a third-party function; and what \<open>hR\<close> returns.\<close>

record fetched =
  ft_spec :: "json option"
  ft_resolved :: "json option"
  ft_url :: jstr
  ft_status :: jstr
  ft_statusText :: jstr

record resolved =
  rs_specLoadError :: bool
  rs_isSpecLoading :: bool
  rs_info :: "json option"
  rs_infoHeaders :: "md_token list"
  rs_tags :: "tag_group list"
  rs_components :: "component_group list"
  rs_externalDocs :: "json option"
  rs_schemes :: "scheme list"
  rs_servers :: "server list"

datatype loaded = Document resolved | SchemaExamples "json option" "json list"

definition no_document :: resolved where
  "no_document = \<lparr>rs_specLoadError = False, rs_isSpecLoading = False, rs_info = None, rs_infoHeaders = [], rs_tags = [], rs_components = [],
     rs_externalDocs = None, rs_schemes = [], rs_servers = []\<rparr>"

definition error_document :: "fetched \<Rightarrow> resolved" where
  "error_document z = no_document
     \<lparr>rs_specLoadError := True,
      rs_info := Some (JObj [(js ''title'', JStr (js ''Error loading the spec'')),
        (js ''description'', JStr (if ft_url z \<noteq> [] then ft_url z @ js '' '' @ [0x2503] @ js '' '' @ ft_status z @ js ''  '' @ ft_statusText z
           else js ''Unable to load the Spec'')),
        (js ''version'', JStr (js '' ''))])\<rparr>"

definition schema_example :: "jstr \<times> json \<Rightarrow> json" where
  "schema_example kv = JObj (put_entries (object_fields (snd kv))
     [(js ''show'', JBool True), (js ''expanded'', JBool True), (js ''selectedExample'', JNull), (js ''name'', JStr (fst kv)),
      (js ''elementId'', JStr (id_text (fst kv)))])"

definition no_spec :: "json option \<Rightarrow> bool" where
  "no_spec s \<longleftrightarrow> \<not> is_truthy s \<or>
     \<not> list_ex (\<lambda>k. truthy_entry k (the s)) [''components'', ''info'', ''servers'', ''tags'', ''paths'']"

definition prepared :: "jstr comparator \<Rightarrow> (jstr \<Rightarrow> md_token list) \<Rightarrow> (jstr \<Rightarrow> jstr \<Rightarrow> jstr \<Rightarrow> jstr option) \<Rightarrow> load_settings \<Rightarrow> (jstr \<times> json) list \<Rightarrow> resolved option" where
  "prepared lc lexer rx ls doc = do {
     tags \<leftarrow> groupByTags lc lexer ls doc;
     descr \<leftarrow> (case map_of doc (js ''info'') of None \<Rightarrow> Some [] | Some i \<Rightarrow> description_of i);
     schemes \<leftarrow> securitySchemes_of ls doc;
     servers \<leftarrow> servers_of rx ls doc;
     Some \<lparr>rs_specLoadError = False, rs_isSpecLoading = False, rs_info = map_of doc (js ''info''),
       rs_infoHeaders = (if descr \<noteq> [] then headings_of lexer descr else []), rs_tags = tags, rs_components = components_of lc ls doc,
       rs_externalDocs = map_of doc (js ''externalDocs''), rs_schemes = schemes, rs_servers = servers\<rparr> }"

definition processSpec :: "jstr comparator \<Rightarrow> (jstr \<Rightarrow> md_token list) \<Rightarrow> (jstr \<Rightarrow> jstr \<Rightarrow> jstr \<Rightarrow> jstr option) \<Rightarrow>
    (jstr \<Rightarrow> jstr \<Rightarrow> bool option) \<Rightarrow> load_settings \<Rightarrow> fetched \<Rightarrow> loaded option" where
  "processSpec lc lexer rx re ls z =
     (if is_truthy (ft_resolved z) \<and> truthy_entry ''jsonSchemaViewer'' (the (ft_resolved z)) \<and> truthy_entry ''schemaAndExamples'' (the (ft_resolved z))
      then Some (SchemaExamples (entry ''info'' (the (ft_resolved z))) (map schema_example (object_fields (the (entry ''schemaAndExamples'' (the (ft_resolved z)))))))
      else if no_spec (ft_spec z) then Some (Document (error_document z))
      else case ft_spec z of
          Some (JObj doc) \<Rightarrow> map_option Document (Option.bind (filterPaths re ls doc) (prepared lc lexer rx ls))
        | _ \<Rightarrow> None)"

section \<open>Lemmas\<close>

lemma braced_eq: "braced k = 123 # k @ [125]"
  by (simp add: braced_def js_def)

lemma expand_plain [simp]: "36 \<notin> set v \<Longrightarrow> expand_value b m a v = v"
  by (induction b m a v rule: expand_value.induct) auto

lemma replace_from_pass: "123 \<notin> set s \<Longrightarrow> replace_from b (123 # n) v (s @ r) = s @ replace_from (b @ s) (123 # n) v r"
proof (induction s arbitrary: b)
  case (Cons c s)
  then show ?case by (subst replace_from.simps) (simp add: startsWith_def)
qed simp

lemma braced_prefix:
  assumes "125 \<notin> set k" "125 \<notin> set l" "startsWith (braced l @ r) (braced k)"
  shows "k = l"
proof -
  obtain t where "l @ 125 # r = k @ 125 # t" using assms(3) by (auto simp: braced_eq startsWith_iff)
  then have "takeWhile (\<lambda>c. c \<noteq> 125) (l @ 125 # r) = takeWhile (\<lambda>c. c \<noteq> 125) (k @ 125 # t)" by simp
  then show ?thesis using assms(1,2) by simp
qed

lemma replace_from_hit: "36 \<notin> set v \<Longrightarrow> replace_from b (braced k) v (braced k @ r) = v @ replace_from (b @ braced k) (braced k) v r"
  using startsWith_append [of "braced k" r] by (subst replace_from.simps) (simp add: braced_eq)

lemma replace_from_other:
  assumes "125 \<notin> set k" "125 \<notin> set l" "123 \<notin> set l" "k \<noteq> l"
  shows "replace_from b (braced k) v (braced l @ r) = braced l @ replace_from (b @ braced l) (braced k) v r"
proof -
  have "\<not> startsWith (braced l @ r) (braced k)" using braced_prefix [of k l r] assms by blast
  then have "replace_from b (braced k) v (braced l @ r) = 123 # replace_from (b @ [123]) (braced k) v ((l @ [125]) @ r)"
    by (subst replace_from.simps) (simp add: braced_eq)
  also have "\<dots> = braced l @ replace_from (b @ braced l) (braced k) v r"
    using assms(3) by (simp add: braced_eq replace_from_pass del: append_assoc) simp
  finally show ?thesis .
qed

subsection \<open>A URL as its parts\<close>

datatype url_part = Fixed jstr | Variable jstr

fun part_text :: "url_part \<Rightarrow> jstr" where
  "part_text (Fixed s) = s"
| "part_text (Variable k) = braced k"

definition no_braces :: "jstr \<Rightarrow> bool" where
  "no_braces s \<longleftrightarrow> 123 \<notin> set s \<and> 125 \<notin> set s"

definition simple_name :: "jstr \<Rightarrow> bool" where
  "simple_name k \<longleftrightarrow> k \<noteq> [] \<and> list_all (\<lambda>c. is_word c \<or> c = hyphen) k \<and> \<not> list_all (\<lambda>c. 48 \<le> c \<and> c \<le> 57) k"

fun part_ok :: "url_part \<Rightarrow> bool" where
  "part_ok (Fixed s) = no_braces s"
| "part_ok (Variable k) = simple_name k"

definition simple_value :: "jstr \<Rightarrow> bool" where
  "simple_value v \<longleftrightarrow> no_braces v \<and> 36 \<notin> set v"

fun filled_part :: "(jstr \<times> jstr) list \<Rightarrow> url_part \<Rightarrow> jstr" where
  "filled_part kvs (Fixed s) = s"
| "filled_part kvs (Variable k) = (case map_of kvs k of None \<Rightarrow> braced k | Some v \<Rightarrow> v)"

fun put_part :: "jstr \<Rightarrow> jstr \<Rightarrow> url_part \<Rightarrow> url_part" where
  "put_part k v (Fixed s) = Fixed s"
| "put_part k v (Variable l) = (if l = k then Fixed v else Variable l)"

lemma simple_name_no_braces: "simple_name k \<Longrightarrow> no_braces k"
  by (auto simp: simple_name_def no_braces_def list_all_iff is_word_def)

lemma replace_in_parts:
  assumes "list_all part_ok ps" "simple_name k" "simple_value v"
  shows "replace_from b (braced k) v (concat (map part_text ps)) = concat (map part_text (map (put_part k v) ps))"
  using assms(1)
proof (induction ps arbitrary: b)
  case Nil
  then show ?case by (subst replace_from.simps) (simp add: braced_eq startsWith_def)
next
  case (Cons p ps)
  have k: "no_braces k" using assms(2) by (rule simple_name_no_braces)
  show ?case
  proof (cases p)
    case (Fixed s)
    then show ?thesis using Cons by (simp add: braced_eq replace_from_pass no_braces_def)
  next
    case (Variable l)
    have "no_braces l" using Cons.prems Variable simple_name_no_braces by simp
    then show ?thesis
      using Cons k assms(3) Variable by (cases "l = k") (simp_all add: no_braces_def replace_from_hit replace_from_other simple_value_def)
  qed
qed

section \<open>Properties\<close>



text \<open>
  Every document that is shown has a server to send requests to.
\<close>

theorem documents_have_servers:
  assumes "processSpec lc lexer rx re ls z = Some (Document r)" "\<not> rs_specLoadError r"
  shows "rs_servers r \<noteq> []"
proof -
  obtain doc where "prepared lc lexer rx ls doc = Some r"
    using assms by (auto simp: processSpec_def error_document_def bind_eq_Some_conv split: if_splits option.splits json.splits)
  then obtain ss where "servers_of rx ls doc = Some ss" "rs_servers r = ss"
    unfolding prepared_def bind_eq_Some_conv option.inject by (elim exE conjE) (hypsubst, simp)
  then show ?thesis by (auto simp: servers_of_def bind_eq_Some_conv split: option.splits json.splits list.splits)
qed

definition sample_fetched :: fetched where
  "sample_fetched = \<lparr>ft_spec = Some (JObj sample_doc), ft_resolved = None, ft_url = [], ft_status = [], ft_statusText = []\<rparr>"

lemma sample_loads:
  obtains r where "processSpec by_length (\<lambda>_. []) (\<lambda>p v t. None) (\<lambda>p t. None) sample_settings sample_fetched = Some (Document r)"
    "\<not> rs_isSpecLoading r" "\<not> rs_specLoadError r"
proof -
  have "case processSpec by_length (\<lambda>_. []) (\<lambda>p v t. None) (\<lambda>p t. None) sample_settings sample_fetched of
      Some (Document r) \<Rightarrow> \<not> rs_isSpecLoading r \<and> \<not> rs_specLoadError r | _ \<Rightarrow> False" by code_simp
  then show thesis using that by (auto split: option.splits loaded.splits)
qed

theorem documents_have_servers_witness:
  "\<exists>r. processSpec by_length (\<lambda>_. []) (\<lambda>p v t. None) (\<lambda>p t. None) sample_settings sample_fetched = Some (Document r) \<and> rs_servers r \<noteq> []"
proof -
  obtain r where "processSpec by_length (\<lambda>_. []) (\<lambda>p v t. None) (\<lambda>p t. None) sample_settings sample_fetched = Some (Document r)" "\<not> rs_specLoadError r"
    by (rule sample_loads)
  then show ?thesis using documents_have_servers by blast
qed

text \<open>
  A document without paths does not load, though it may have webhooks: the filter of the paths throws, and with it the
  rest.
\<close>

theorem paths_are_required:
  assumes "ft_spec z = Some (JObj doc)" "map_of doc (js ''paths'') = None" "\<not> truthy_entry ''jsonSchemaViewer'' (the (ft_resolved z))"
    and "\<not> no_spec (ft_spec z)"
  shows "processSpec lc lexer rx re ls z = None"
  using assms by (simp add: processSpec_def filterPaths_def own_entries_def)

theorem paths_are_required_witness:
  "processSpec by_length (\<lambda>_. []) (\<lambda>p v t. None) (\<lambda>p t. None) sample_settings
     \<lparr>ft_spec = Some (JObj [(js ''info'', JObj []), (js ''webhooks'', JObj [(js ''message'', JObj sample_item)])]), ft_resolved = Some (JObj []),
      ft_url = [], ft_status = [], ft_statusText = []\<rparr> = None"
  by (rule paths_are_required [where doc = "[(js ''info'', JObj []), (js ''webhooks'', JObj [(js ''message'', JObj sample_item)])]"])
    (simp_all add: truthy_entry_def no_spec_def)

end
