(* ===== verification/Operation.thy ===== *)
theory Operation
  imports Try_It Spec_Load
begin

text \<open>
  An operation on the page of the API reference (\<open>docs/ui/assets/rapidoc-min.js\<close>): its body with the request and
  response components and the keys they are given, its callbacks, its code samples with their tabs, and the input
  for lists of tags. A structured value that a template binds to a property of a component is written out as text.
\<close>

section \<open>State\<close>

record page_settings =
  pg_renderStyle :: jstr
  pg_schemaStyle :: jstr
  pg_defaultSchemaTab :: jstr
  pg_expandLevel :: jstr
  pg_descrExpanded :: jstr
  pg_descrToggle :: jstr
  pg_hideReadOnly :: jstr
  pg_hideWriteOnly :: jstr
  pg_allowTry :: jstr
  pg_fill :: jstr
  pg_showCurl :: jstr
  pg_fetchCredentials :: jstr
  pg_schemes :: "scheme list"
  pg_serverUrl :: jstr            \<comment> \<open>the computed URL of the selected server\<close>
  pg_linked :: bool

record code_sample =
  cs_lang :: jstr
  cs_label :: jstr
  cs_source :: jstr

record operation =
  op_method :: jstr
  op_path :: jstr
  op_elementId :: jstr
  op_deprecated :: bool
  op_shortSummary :: jstr
  op_description :: jstr
  op_webhook :: bool
  op_security :: "requirement list option"
  op_parameters :: "json list"
  op_body :: "json option"
  op_responses :: "json option"
  op_servers :: "json option"
  op_callbacks :: "json option"
  op_samples :: "code_sample list"
  op_badges :: "(jstr \<times> jstr) list"     \<comment> \<open>colour and label\<close>
  op_docs_url :: jstr
  op_docs_description :: jstr

datatype op_act = AuthAct auth_act | CopySource jstr | SampleTab | ToggleTag

section \<open>Code samples\<close>

definition sample_tab :: "nat \<times> code_sample \<Rightarrow> jstr" where
  "sample_tab ns = cs_lang (snd ns) @ nat_text (fst ns)"

definition codeSamplesTemplate :: "code_sample list \<Rightarrow> op_act html list" where
  "codeSamplesTemplate ss =
     (let ns = zip [0..<length ss] ss in
      [el ''section'' [cls ''table-title''] [lit ''CODE SAMPLES''],
       El ''div'' [cls ''tab-panel col''] [(''click'', SampleTab)]
         (el ''div'' [cls ''tab-buttons row'']
            (map (\<lambda>n. el ''button'' [cls (if fst n = 0 then ''tab-btn active'' else ''tab-btn ''), (''data-tab'', sample_tab n)]
               [Txt (if cs_label (snd n) \<noteq> [] then cs_label (snd n) else cs_lang (snd n))]) ns)
          # map (\<lambda>n. el ''div'' [cls ''tab-content m-markdown'', display (fst n = 0), (''data-tab'', sample_tab n)]
               [El ''button'' [cls ''toolbar-btn''] [(''click'', CopySource (cs_source (snd n)))] [lit '' Copy ''],
                el ''pre'' [] [el ''code'' [cls ''language''] [Txt (cs_source (snd n))]]]) ns)])"

text \<open>The tabs on the page: the \<open>data-tab\<close> of each, whether its button is active and whether its content is shown.\<close>

type_synonym tabs = "(jstr \<times> bool \<times> bool) list"

definition initial_tabs :: "code_sample list \<Rightarrow> tabs" where
  "initial_tabs ss = map (\<lambda>n. (sample_tab n, fst n = 0, fst n = 0)) (zip [0..<length ss] ss)"

definition click_tab :: "jstr \<Rightarrow> tabs \<Rightarrow> tabs" where
  "click_tab t = map (\<lambda>(k, a, v). (k, k = t, k = t))"

section \<open>Callbacks\<close>

definition direction :: "jstr \<Rightarrow> bool \<Rightarrow> jstr" where
  "direction setting hide = bool_text (setting \<noteq> js ''never'' \<and> hide)"

definition common_attrs :: "page_settings \<Rightarrow> jstr \<Rightarrow> jstr \<Rightarrow> (string \<times> jstr) list" where
  "common_attrs pg ro wo =
     [(''render-style'', pg_renderStyle pg), (''schema-style'', pg_schemaStyle pg), (''active-schema-tab'', pg_defaultSchemaTab pg),
      (''schema-expand-level'', pg_expandLevel pg), (''schema-description-expanded'', pg_descrExpanded pg),
      (''allow-schema-description-expand-toggle'', pg_descrToggle pg), (''schema-hide-read-only'', ro), (''schema-hide-write-only'', wo)]"

definition callback_operation :: "page_settings \<Rightarrow> jstr \<Rightarrow> jstr \<times> json \<Rightarrow> op_act html" where
  "callback_operation pg path mo =
     (case mo of (method, o') \<Rightarrow>
        el ''div'' []
          [el ''div'' []
             [el ''div'' [(''class'', js ''method method-fg '' @ method)] [el ''span'' [] [Txt [0x2944]], Txt method],
              el ''span'' [] [Txt path]],
           el ''div'' [cls ''expanded-req-resp-container'']
             [el ''api-request''
                ([(''class'', pg_renderStyle pg @ js ''-mode callback''), (''callback'', js ''true''), (''method'', method), (''path'', path),
                  (''.parameters'', data_text (or_else (entry ''parameters'' o') (Some (JStr [])))),
                  (''.request_body'', data_text (or_else (entry ''requestBody'' o') (Some (JStr [])))),
                  (''fill-request-fields-with-example'', pg_fill pg), (''allow-try'', js ''false'')] @
                 common_attrs pg (js ''false'') (direction (pg_hideWriteOnly pg) True) @ [(''fetch-credentials'', pg_fetchCredentials pg)]) [],
              el ''api-response''
                ([(''class'', pg_renderStyle pg @ js ''-mode''), (''callback'', js ''true''), (''.responses'', data_text (entry ''responses'' o'))] @
                 common_attrs pg (direction (pg_hideReadOnly pg) True) (js ''false'')) []]])"

definition callbackTemplate :: "page_settings \<Rightarrow> json \<Rightarrow> op_act html list" where
  "callbackTemplate pg callbacks =
     el ''div'' [cls ''req-res-title''] [lit ''CALLBACKS''] #
     map (\<lambda>(name, paths).
       el ''div'' [cls ''tiny-title'']
         (Txt name # map (\<lambda>(path, ops).
            el ''div'' [cls ''mono-font small-font-size''] [el ''div'' [] (map (callback_operation pg path) (object_fields ops))])
            (object_fields paths))) (object_fields callbacks)"

section \<open>The body of an operation\<close>

definition accepted_types :: "operation \<Rightarrow> jstr list" where
  \<comment> \<open>the media types of all responses, each once\<close>
  "accepted_types o' =
     rev (remdups (rev (concat (map (\<lambda>(st, r). map (trim \<circ> fst) (obj_fields (entry ''content'' r)))
       (case op_responses o' of None \<Rightarrow> [] | Some v \<Rightarrow> object_fields v)))))"

definition requires :: "operation \<Rightarrow> scheme \<Rightarrow> bool" where
  "requires o' s \<longleftrightarrow> (case op_security o' of None \<Rightarrow> False | Some reqs \<Rightarrow> list_ex (\<lambda>req. securitySchemeId s \<in> set (map fst req)) reqs)"

definition operation_keys :: "scheme list \<Rightarrow> operation \<Rightarrow> scheme list" where
  "operation_keys ss o' =
     filter (\<lambda>s. finalKeyValue s \<noteq> [] \<and> requires o' s) ss @
     (case List.find (\<lambda>s. securitySchemeId s = default_key_id \<and> sc_value s \<noteq> js ''-'') ss of None \<Rightarrow> [] | Some g \<Rightarrow> [g])"

definition server_url :: "page_settings \<Rightarrow> operation \<Rightarrow> jstr" where
  "server_url pg o' =
     (let own = (case op_servers o' of Some (JArr (v # vs)) \<Rightarrow> text_entry ''url'' v | _ \<Rightarrow> []) in if own \<noteq> [] then own else pg_serverUrl pg)"

definition security_json :: "requirement list \<Rightarrow> json" where
  "security_json reqs =
     JArr (map (\<lambda>req. JObj (map (\<lambda>(k, sc). (k, JArr (map JStr (case sc of None \<Rightarrow> [] | Some xs \<Rightarrow> xs)))) req)) reqs)"

definition tag_box :: "page_settings \<Rightarrow> jstr \<Rightarrow> jstr \<Rightarrow> op_act html list" where
  "tag_box pg tag tag_descr =
     show_if (pg_renderStyle pg = js ''focused'' \<and> tag \<noteq> js ''General '' @ [0x2982])
       [el ''div'' [cls ''tag-container'']
          (el ''span'' [cls ''upper''] [Txt tag] #
           show_if (tag_descr \<noteq> [])
             [El ''svg'' [cls ''tag-icon collapsed''] [(''click'', ToggleTag)] [],
              el ''div'' [cls ''tag-description collapsed''] [el ''div'' [cls ''m-markdown''] [Md tag_descr]]])]"

definition heading_box :: "operation \<Rightarrow> op_act html list" where
  "heading_box o' =
     show_if (op_deprecated o') [el ''div'' [cls ''bold-text red-text''] [lit '' DEPRECATED '']] @
     show_if (op_badges o' \<noteq> [])
       [el ''div'' [] (concat (map (\<lambda>(colour, label). show_if (colour \<noteq> js ''none'') [el ''span'' [] [Txt label]]) (op_badges o')))] @
     [el ''h2'' [] [Txt (if op_shortSummary o' \<noteq> [] then op_shortSummary o' else map upper_char (op_method o') @ js '' '' @ op_path o')]] @
     (if op_webhook o' then [el ''span'' [] [lit '' WEBHOOK '']]
      else [el ''div'' [cls ''mono-font regular-font-size'']
              [el ''span'' [(''class'', js ''regular-font upper method-fg bold-text '' @ op_method o')] [Txt (op_method o')],
               el ''span'' [] [Txt (op_path o')]]]) @
     [el ''slot'' [(''name'', op_elementId o')] []] @
     show_if (op_description o' \<noteq> []) [el ''div'' [cls ''m-markdown''] [Md (op_description o')]]"

definition docs_box :: "operation \<Rightarrow> op_act html list" where
  "docs_box o' =
     show_if (op_docs_url o' \<noteq> [] \<or> op_docs_description o' \<noteq> [])
       [el ''div'' []
          (el ''div'' [cls ''m-markdown''] [Md (op_docs_description o')] #
           show_if (op_docs_url o' \<noteq> [])
             [el ''a'' [(''href'', op_docs_url o'), (''target'', js ''_blank'')] [Txt (op_docs_url o'), el ''div'' [] [Txt [0x21F2]]]])]"

definition request_element :: "page_settings \<Rightarrow> operation \<Rightarrow> op_act html" where
  "request_element pg o' =
     el ''api-request''
       ([(''class'', pg_renderStyle pg @ js ''-mode''), (''webhook'', bool_text (op_webhook o')), (''method'', op_method o'), (''path'', op_path o'),
         (''.security'', data_text (map_option security_json (op_security o'))),
         (''.parameters'', stringify 0 (JArr (op_parameters o'))), (''.request_body'', data_text (op_body o')),
         (''.api_keys'', join (js '','') (map securitySchemeId (operation_keys (pg_schemes pg) o'))),
         (''.servers'', data_text (op_servers o')), (''server-url'', server_url pg o'),
         (''fill-request-fields-with-example'', pg_fill pg), (''allow-try'', pg_allowTry pg), (''show-curl-before-try'', pg_showCurl pg),
         (''accept'', join (js '', '') (accepted_types o'))] @
        common_attrs pg (direction (pg_hideReadOnly pg) (\<not> op_webhook o')) (direction (pg_hideWriteOnly pg) (op_webhook o')) @
        [(''fetch-credentials'', pg_fetchCredentials pg)]) []"

definition response_element :: "page_settings \<Rightarrow> operation \<Rightarrow> op_act html" where
  "response_element pg o' =
     el ''api-response''
       ([(''class'', pg_renderStyle pg @ js ''-mode''), (''webhook'', bool_text (op_webhook o')), (''.responses'', data_text (op_responses o'))] @
        common_attrs pg (direction (pg_hideReadOnly pg) (op_webhook o')) (direction (pg_hideWriteOnly pg) (\<not> op_webhook o')) @
        [(''selected-status'', case op_responses o' of Some (JObj ((k, v) # kvs)) \<Rightarrow> k | _ \<Rightarrow> [])]) []"

definition expandedEndpointBodyTemplate :: "page_settings \<Rightarrow> operation \<Rightarrow> jstr \<Rightarrow> jstr \<Rightarrow> op_act html list" where
  "expandedEndpointBodyTemplate pg o' tag tag_descr =
     show_if (pg_renderStyle pg = js ''read'') [el ''div'' [cls ''divider''] []] @
     [el ''div'' [(''class'', js ''expanded-endpoint-body observe-me '' @ op_method o' @ js '' '' @ js (if op_deprecated o' then ''deprecated'' else [])),
          (''id'', op_elementId o')]
        (tag_box pg tag tag_descr @ heading_box o' @
         map (map_html AuthAct) (pathSecurityTemplate nat_text (pg_linked pg) (pg_schemes pg) (op_security o')) @
         docs_box o' @
         show_if (op_samples o' \<noteq> []) (codeSamplesTemplate (op_samples o')) @
         [el ''div'' [cls ''expanded-req-resp-container'']
            ([request_element pg o'] @
             (case op_callbacks o' of None \<Rightarrow> [] | Some cb \<Rightarrow> callbackTemplate pg cb) @
             [response_element pg o'])])]"

section \<open>The request component of an operation\<close>

definition new_request :: request where
  \<comment> \<open>what the constructor sets\<close>
  "new_request =
     \<lparr>rq_method = [], rq_path = [], rq_serverUrl = [], rq_parameters = [], rq_request_body = None, rq_security = 0, rq_api_keys = [],
      rq_callback = False, rq_webhook = False, rq_allowTry = [], rq_fill = False, rq_renderStyle = [], rq_schemaStyle = [],
      rq_expandLevel = [], rq_descrExpanded = [], rq_descrToggle = [], rq_hideReadOnly = [], rq_hideWriteOnly = [], rq_showCurl = False,
      rq_paramTabs = [], rq_schemaTab = [], rq_responseTab = js ''response'', rq_bodyType = [], rq_bodyExample = [],
      rq_responseMessage = [], rq_responseStatus = js ''success'', rq_responseText = [], rq_responseHeaders = [],
      rq_responseIsBlob = False, rq_responseBlobType = [], rq_responseBlobUrl = [], rq_respContentDisposition = [],
      rq_responseUrl = [], rq_curlSyntax = []\<rparr>"

definition request_of :: "page_settings \<Rightarrow> operation \<Rightarrow> request" where
  \<comment> \<open>the component that the template makes, with the trying of a webhook turned off after its first rendering\<close>
  "request_of pg o' = new_request
     \<lparr>rq_method := op_method o', rq_path := op_path o', rq_serverUrl := server_url pg o', rq_parameters := op_parameters o',
      rq_request_body := op_body o', rq_security := (case op_security o' of None \<Rightarrow> 0 | Some reqs \<Rightarrow> length reqs),
      rq_api_keys := operation_keys (pg_schemes pg) o', rq_webhook := op_webhook o',
      rq_allowTry := (if op_webhook o' then js ''false'' else pg_allowTry pg), rq_fill := (pg_fill pg = js ''true''),
      rq_renderStyle := pg_renderStyle pg, rq_schemaStyle := pg_schemaStyle pg, rq_expandLevel := pg_expandLevel pg,
      rq_descrExpanded := pg_descrExpanded pg, rq_descrToggle := pg_descrToggle pg,
      rq_hideReadOnly := direction (pg_hideReadOnly pg) (\<not> op_webhook o'), rq_hideWriteOnly := direction (pg_hideWriteOnly pg) (op_webhook o'),
      rq_showCurl := (pg_showCurl pg = js ''true''), rq_schemaTab := pg_defaultSchemaTab pg\<rparr>"

section \<open>The input for tags\<close>

record tag_input =
  ti_value :: "jstr list option"     \<comment> \<open>\<open>None\<close>: not an array\<close>
  ti_editor :: jstr

datatype tag_event = Paste jstr | Key nat | Blur | Typed jstr | Set_attribute jstr

definition not_blank :: "jstr \<Rightarrow> bool" where
  "not_blank s \<longleftrightarrow> trim s \<noteq> []"

definition add_tags :: "jstr list \<Rightarrow> tag_input \<Rightarrow> tag_input" where
  "add_tags ts i = i\<lparr>ti_value := Some (case ti_value i of None \<Rightarrow> ts | Some vs \<Rightarrow> vs @ ts)\<rparr>"

definition take_editor :: "tag_input \<Rightarrow> tag_input" where
  "take_editor i = (if ti_editor i \<noteq> [] then (add_tags [ti_editor i] i)\<lparr>ti_editor := []\<rparr> else i)"

fun tag_step :: "tag_event \<Rightarrow> tag_input \<Rightarrow> tag_input" where
  "tag_step (Paste s) i = (if s \<noteq> [] then add_tags (filter not_blank (split_on 44 s)) i else i)"
| "tag_step (Key k) i =
     (if k = 13 then take_editor i
      else if k = 8 \<and> ti_editor i = [] \<and> ti_value i \<noteq> None \<and> ti_value i \<noteq> Some [] then i\<lparr>ti_value := map_option butlast (ti_value i)\<rparr>
      else i)"
| "tag_step Blur i = take_editor i"
| "tag_step (Typed s) i = i\<lparr>ti_editor := s\<rparr>"
| "tag_step (Set_attribute s) i = (if s \<noteq> [] then i\<lparr>ti_value := Some (filter not_blank (split_on 44 s))\<rparr> else i)"

definition shown_tags :: "tag_input \<Rightarrow> jstr list" where
  "shown_tags i = (case ti_value i of None \<Rightarrow> [] | Some vs \<Rightarrow> filter not_blank vs)"

definition render_tags :: "jstr \<Rightarrow> tag_input \<Rightarrow> op_act html" where
  "render_tags placeholder i =
     el ''div'' [cls ''tags'']
       (map (\<lambda>t. el ''span'' [cls ''tag''] [Txt t]) (shown_tags i) @
        [el ''input'' [(''type'', js ''text''), cls ''editor'', (''placeholder'', placeholder)] []])"

section \<open>Properties\<close>

lemma server_url_schemes [simp]: "server_url (pg\<lparr>pg_schemes := ss\<rparr>) o' = server_url pg o'"
  by (simp add: server_url_def Let_def)

lemma find_filter: "List.find P (filter Q xs) = List.find (\<lambda>x. Q x \<and> P x) xs"
  by (induction xs) auto

text \<open>
  C6: the request an operation sends depends on the applied keys of the schemes it requires only (and the default key
  of the page): any two states of the authentication that agree on those send the same URL, headers and body.
\<close>

theorem keys_of_other_schemes_are_not_sent:
  assumes "filter (\<lambda>s. requires o' s \<or> securitySchemeId s = default_key_id) ss = filter (\<lambda>s. requires o' s \<or> securitySchemeId s = default_key_id) ss'"
  shows "sent_request absolute (request_of (pg\<lparr>pg_schemes := ss\<rparr>) o') selected accept bt fs =
    sent_request absolute (request_of (pg\<lparr>pg_schemes := ss'\<rparr>) o') selected accept bt fs"
proof -
  let ?Q = "\<lambda>s. requires o' s \<or> securitySchemeId s = default_key_id"
  have keys: "operation_keys xs o' =
      filter (\<lambda>s. finalKeyValue s \<noteq> [] \<and> requires o' s) (filter ?Q xs) @
      (case List.find (\<lambda>s. securitySchemeId s = default_key_id \<and> sc_value s \<noteq> js ''-'') (filter ?Q xs) of None \<Rightarrow> [] | Some g \<Rightarrow> [g])" for xs
  proof -
    have "filter (\<lambda>s. finalKeyValue s \<noteq> [] \<and> requires o' s) (filter ?Q xs) = filter (\<lambda>s. finalKeyValue s \<noteq> [] \<and> requires o' s) xs"
      by (auto intro!: filter_cong simp: filter_filter)
    moreover have "List.find (\<lambda>s. securitySchemeId s = default_key_id \<and> sc_value s \<noteq> js ''-'') (filter ?Q xs) =
        List.find (\<lambda>s. securitySchemeId s = default_key_id \<and> sc_value s \<noteq> js ''-'') xs"
      unfolding find_filter by (rule arg_cong [where f = "\<lambda>P. List.find P xs"]) auto
    ultimately show ?thesis by (simp only: operation_keys_def)
  qed
  have "operation_keys ss o' = operation_keys ss' o'" unfolding keys [of ss] keys [of ss'] assms ..
  then show ?thesis by (simp add: request_of_def server_url_schemes)
qed

text \<open>
  a page setting that hides read-only or write-only fields has no effect on the schema of an object parameter: the
  request component is given \<open>true\<close> or \<open>false\<close>, and the parameter's template looks for the method in that text.
\<close>

theorem parameter_schemas_hide_nothing:
  assumes "op_method o' \<in> set (map js [''get'', ''put'', ''post'', ''delete'', ''options'', ''head'', ''patch'', ''trace''])"
  shows "map (\<lambda>n. (attr_of ''schema-hide-read-only'' n, attr_of ''schema-hide-write-only'' n))
      (filter (\<lambda>n. tag_of n = ''schema-tree'') (all_nodes (object_param fs (request_of pg o') loc r se sch v))) =
    [(Some (js ''false''), Some (js ''false''))]"
proof -
  have "list_all (\<lambda>m. \<not> occurs m (bool_text True) \<and> \<not> occurs m (bool_text False))
      (map js [''get'', ''put'', ''post'', ''delete'', ''options'', ''head'', ''patch'', ''trace''])" by code_simp
  then have "\<not> occurs (op_method o') (bool_text b)" for b using assms by (cases b) (auto simp: list_all_iff)
  then show ?thesis by (simp add: object_param_def request_of_def direction_def schema_attrs_def tab_button_def Let_def bool_text_def)
qed

definition sample_page :: page_settings where
  "sample_page = \<lparr>pg_renderStyle = js ''read'', pg_schemaStyle = js ''tree'', pg_defaultSchemaTab = js ''schema'', pg_expandLevel = js ''1'',
     pg_descrExpanded = js ''false'', pg_descrToggle = js ''true'', pg_hideReadOnly = js ''default'', pg_hideWriteOnly = js ''default'',
     pg_allowTry = js ''true'', pg_fill = js ''true'', pg_showCurl = js ''false'', pg_fetchCredentials = [], pg_schemes = [],
     pg_serverUrl = js ''/api'', pg_linked = True\<rparr>"

definition sample_operation :: operation where
  "sample_operation = \<lparr>op_method = js ''get'', op_path = js ''/chats'', op_elementId = js ''get-/chats'', op_deprecated = False, op_shortSummary = [],
     op_description = [], op_webhook = False, op_security = Some [[(js ''jwt'', None)]], op_parameters = [], op_body = None, op_responses = None,
     op_servers = None, op_callbacks = None, op_samples = [], op_badges = [], op_docs_url = [], op_docs_description = []\<rparr>"

definition applied_scheme :: "string \<Rightarrow> string \<Rightarrow> scheme" where
  "applied_scheme i k = \<lparr>rw_type = js ''http'', rw_scheme = Some (js ''bearer''), rw_name = None, rw_in = None, rw_description = [], rw_flows = [],
     rw_client_id = None, rw_client_secret = None, rw_default_scopes = None, rw_receive_in = None, rw_receive_options = None,
     securitySchemeId = js i, sc_name = js ''Authorization'', sc_in = js ''header'', sc_user = [], sc_password = [], sc_value = js k,
     finalKeyValue = js ''Bearer '' @ js k, typeDisplay = js ''HTTP Bearer''\<rparr>"

theorem keys_of_other_schemes_are_not_sent_witness:
  "sent_request id (request_of (sample_page\<lparr>pg_schemes := [applied_scheme ''jwt'' ''t1'', applied_scheme ''admin'' ''secret'']\<rparr>) sample_operation) None [] None [] =
   sent_request id (request_of (sample_page\<lparr>pg_schemes := [applied_scheme ''jwt'' ''t1'']\<rparr>) sample_operation) None [] None []"
  by (rule keys_of_other_schemes_are_not_sent)
    (simp add: requires_def sample_operation_def applied_scheme_def default_key_id_def)

theorem parameter_schemas_hide_nothing_witness:
  "map (\<lambda>n. (attr_of ''schema-hide-read-only'' n, attr_of ''schema-hide-write-only'' n))
      (filter (\<lambda>n. tag_of n = ''schema-tree'') (all_nodes (object_param no_functions (request_of sample_page sample_operation) (js ''query'')
         (JObj []) \<lparr>se_style = js ''form'', se_explode = True, se_reserved = False\<rparr> None (JObj [])))) = [(Some (js ''false''), Some (js ''false''))]"
  by (rule parameter_schemas_hide_nothing) code_simp

definition one_open :: "tabs \<Rightarrow> bool" where
  "one_open ts \<longleftrightarrow> length (filter (\<lambda>(k, a, v). a) ts) = 1 \<and> list_all (\<lambda>(k, a, v). a = v) ts"

lemma click_tab_keys [simp]: "map fst (click_tab t ts) = map fst ts"
  by (simp add: click_tab_def split_def)

lemma length_filter_key: "distinct ks \<Longrightarrow> k \<in> set ks \<Longrightarrow> length (filter (\<lambda>x. x = k) ks) = 1"
  by (induction ks) (auto simp: filter_empty_conv)

lemma one_open_click:
  assumes "distinct (map fst ts)" "t \<in> set (map fst ts)"
  shows "one_open (click_tab t ts)"
proof -
  have "filter (\<lambda>(k, a, v). a) (click_tab t ts) = map (\<lambda>k. (k, True, True)) (filter (\<lambda>k. k = t) (map fst ts))"
    by (induction ts) (auto simp: click_tab_def)
  then show ?thesis using length_filter_key [OF assms] by (simp add: one_open_def) (auto simp: click_tab_def list_all_iff)
qed

lemma one_open_initial: "ss \<noteq> [] \<Longrightarrow> one_open (initial_tabs ss)"
proof -
  have later: "filter (\<lambda>(k, a, v). a) (map (\<lambda>n. (sample_tab n, fst n = 0, fst n = 0)) (zip [Suc m..<Suc m + length xs] xs)) = []" for m xs
    by (auto simp: filter_empty_conv dest!: set_zip_leftD)
  assume "ss \<noteq> []"
  then obtain s xs where ss: "ss = s # xs" by (cases ss) auto
  have "[0..<length ss] = 0 # [Suc 0..<Suc 0 + length xs]" by (simp add: ss upt_conv_Cons del: upt_Suc)
  then have "initial_tabs ss = (sample_tab (0, s), True, True) #
      map (\<lambda>n. (sample_tab n, fst n = 0, fst n = 0)) (zip [Suc 0..<Suc 0 + length xs] xs)"
    by (simp add: initial_tabs_def ss)
  then show ?thesis using later [of 0 xs] by (simp add: one_open_def list_all_iff split_def)
qed

text \<open>
  exactly one code sample is shown, under the one active button, when the samples are first rendered and after
  any clicks on their buttons, when no two of them have the same tab name.
\<close>

theorem one_sample_shown:
  assumes "ss \<noteq> []" "distinct (map fst (initial_tabs ss))" "list_all (\<lambda>t. t \<in> set (map fst (initial_tabs ss))) clicks"
  shows "one_open (fold click_tab clicks (initial_tabs ss))"
proof -
  have "one_open ts \<Longrightarrow> distinct (map fst ts) \<Longrightarrow> list_all (\<lambda>t. t \<in> set (map fst ts)) clicks \<Longrightarrow> one_open (fold click_tab clicks ts)" for ts
  proof (induction clicks arbitrary: ts)
    case (Cons t clicks)
    then show ?case using one_open_click [of ts t] Cons.IH [of "click_tab t ts"] by (simp del: set_map)
  qed simp
  then show ?thesis using one_open_initial [OF assms(1)] assms(2,3) by blast
qed

theorem one_sample_shown_witness:
  "one_open (fold click_tab [js ''go1''] (initial_tabs [\<lparr>cs_lang = js ''sh'', cs_label = [], cs_source = []\<rparr>, \<lparr>cs_lang = js ''go'', cs_label = [], cs_source = []\<rparr>]))"
  by (rule one_sample_shown) code_simp+

fun blank_event :: "tag_event \<Rightarrow> bool" where
  "blank_event (Typed s) = (s \<noteq> [] \<and> \<not> not_blank s)"
| "blank_event _ = False"

definition tags_ok :: "tag_input \<Rightarrow> bool" where
  "tags_ok i \<longleftrightarrow> list_all not_blank (case ti_value i of None \<Rightarrow> [] | Some vs \<Rightarrow> vs) \<and> (ti_editor i = [] \<or> not_blank (ti_editor i))"

lemma tags_ok_step: "tags_ok i \<Longrightarrow> \<not> blank_event e \<Longrightarrow> tags_ok (tag_step e i)"
  by (cases e)
    (auto simp: tags_ok_def take_editor_def add_tags_def list_all_iff split: option.splits dest: in_set_butlastD)

text \<open>
  the tags that are shown are the values that are sent, after any typing, pasting and deleting in which no blank text
  is entered.
\<close>

theorem tags_shown_are_sent:
  assumes "list_all (\<lambda>e. \<not> blank_event e) es" "tags_ok i" "ti_value (fold tag_step es i) = Some vs"
  shows "shown_tags (fold tag_step es i) = vs"
proof -
  have "tags_ok (fold tag_step es i)" using assms(1,2) by (induction es arbitrary: i) (auto simp: tags_ok_step)
  then show ?thesis using assms(3) by (simp add: tags_ok_def shown_tags_def list_all_iff)
qed

theorem tags_shown_are_sent_witness:
  "shown_tags (fold tag_step [Typed (js ''a''), Key 13, Paste (js ''b, ,c'')] \<lparr>ti_value = None, ti_editor = []\<rparr>) = [js ''a'', js ''b'', js ''c'']"
  by (rule tags_shown_are_sent) code_simp+

end
