(* ===== verification/Reference_Page.thy ===== *)
theory Reference_Page
  imports Operation
begin

text \<open>
  The page of the API reference (\<open>docs/ui/assets/rapidoc-min.js\<close>): the state of the \<open>rapi-doc\<close> element and the templates
  of its main part. They show the overview, the servers with their variables, the operations in the three styles of
  rendering (\<open>read\<close>, \<open>focused\<close> and \<open>view\<close>), the components, the header, and the whole page.

  A heading inside a Markdown text gets an id from the renderer the template passes to the Markdown library; the
  library is not modelled, so those ids are not part of the tree.
\<close>

section \<open>State\<close>

record ref_options = page_settings +
  ro_layout :: jstr
  ro_showInfo :: jstr
  ro_showHeader :: jstr
  ro_showSideNav :: jstr
  ro_showComponents :: jstr
  ro_allowAuthentication :: jstr
  ro_allowServerSelection :: jstr
  ro_allowSearch :: jstr
  ro_allowAdvancedSearch :: jstr
  ro_allowSpecUrlLoad :: jstr
  ro_allowSpecFileLoad :: jstr
  ro_allowSpecFileDownload :: jstr
  ro_headingText :: jstr
  ro_specUrl :: jstr
  ro_specFile :: jstr
  ro_headingsInNavBar :: jstr
  ro_navActiveItemMarker :: jstr
  ro_onNavTagClick :: jstr
  ro_usePathInNavBar :: jstr
  ro_showMethodInNavBar :: jstr
  ro_updateRoute :: jstr
  ro_routePrefix :: jstr
  ro_gotoPath :: jstr
  ro_persistAuth :: jstr
  ro_showSummaryWhenCollapsed :: bool
  ro_defaultApiServerUrl :: jstr
  ro_ownServerUrl :: jstr
  ro_cssClasses :: jstr
  ro_pageDirection :: jstr

record search_match =
  sm_elementId :: jstr
  sm_method :: jstr
  sm_path :: jstr
  sm_summary :: jstr
  sm_deprecated :: bool

record reference =
  rf_options :: ref_options
  rf_spec :: "resolved option"
  rf_selectedServer :: "server option"
  rf_focused :: jstr
  rf_searchVal :: jstr
  rf_loading :: bool
  rf_loadFailed :: bool
  rf_showDialog :: bool
  rf_matches :: "search_match list"

datatype page_act =
    OfOperation op_act
  | OfAuth auth_act
  | DownloadSpec jstr
  | ViewSpec jstr
  | SetServer jstr
  | ServerInput
  | ToggleOperation nat nat      \<comment> \<open>the group and the path in it\<close>
  | ToggleGroup nat
  | ExpandSections
  | CollapseSections
  | SpecUrlChange
  | SpecFileChange
  | FileLoadClick
  | SearchChange
  | ClearSearch
  | ShowSearchDialog
  | HandleHref
  | NavClick
  | NavKey
  | AdvancedSearch nat           \<comment> \<open>after so many milliseconds\<close>
  | OpenMatch jstr

definition spec_of :: "reference \<Rightarrow> resolved" where
  "spec_of st = (case rf_spec st of None \<Rightarrow> no_document | Some r \<Rightarrow> r)"

definition opt :: "(ref_options \<Rightarrow> jstr) \<Rightarrow> reference \<Rightarrow> jstr" where
  "opt f st = f (rf_options st)"

definition opt_is :: "(ref_options \<Rightarrow> jstr) \<Rightarrow> string \<Rightarrow> reference \<Rightarrow> bool" where
  "opt_is f v st \<longleftrightarrow> f (rf_options st) = js v"

definition style_in :: "string \<Rightarrow> reference \<Rightarrow> bool" where
  \<comment> \<open>\<open>"read focused".includes(this.renderStyle)\<close>\<close>
  "style_in s st \<longleftrightarrow> occurs (pg_renderStyle (rf_options st)) (js s)"

definition settings_of :: "reference \<Rightarrow> page_settings" where
  "settings_of st = page_settings.truncate (rf_options st)
     \<lparr>pg_schemes := rs_schemes (spec_of st), pg_serverUrl := (case rf_selectedServer st of None \<Rightarrow> [] | Some s \<Rightarrow> sv_computedUrl s)\<rparr>"

section \<open>The operations of the document\<close>

text \<open>What the templates of an operation read of its entry.\<close>

definition requirements_of :: "json \<Rightarrow> requirement list" where
  "requirements_of v = map (\<lambda>r. map (\<lambda>(k, sc). (k, case sc of JArr xs \<Rightarrow> Some (map to_text xs) | _ \<Rightarrow> None)) (object_fields r)) (array_items (Some v))"

definition samples_of :: "json option \<Rightarrow> code_sample list" where
  "samples_of v = map (\<lambda>s. \<lparr>cs_lang = shown (entry ''lang'' s), cs_label = or_text (entry ''label'' s), cs_source = shown (entry ''source'' s)\<rparr>) (array_items v)"

definition badges_of :: "json option \<Rightarrow> (jstr \<times> jstr) list" where
  "badges_of v = map (\<lambda>b. (shown (entry ''color'' b), shown (entry ''label'' b))) (array_items v)"

definition docs_entry :: "string \<Rightarrow> path_entry \<Rightarrow> jstr" where
  "docs_entry k p = (case pe_externalDocs p of None \<Rightarrow> [] | Some d \<Rightarrow> or_text (entry k d))"

definition operation_of :: "path_entry \<Rightarrow> operation" where
  "operation_of p =
     \<lparr>op_method = pe_method p, op_path = pe_path p, op_elementId = pe_elementId p, op_deprecated = is_truthy (pe_deprecated p),
      op_shortSummary = pe_shortSummary p, op_description = or_text (Some (pe_description p)), op_webhook = pe_isWebhook p,
      op_security = map_option requirements_of (pe_security p), op_parameters = pe_parameters p, op_body = pe_requestBody p,
      op_responses = pe_responses p, op_servers = Some (JArr (pe_servers p)), op_callbacks = pe_callbacks p,
      op_samples = samples_of (pe_xCodeSamples p), op_badges = badges_of (pe_xBadges p),
      op_docs_url = docs_entry ''url'' p, op_docs_description = docs_entry ''description'' p\<rparr>"

definition expanded_body :: "reference \<Rightarrow> path_entry \<Rightarrow> jstr \<Rightarrow> jstr \<Rightarrow> page_act html list" where
  "expanded_body st p tag tag_descr = map (map_html OfOperation) (expandedEndpointBodyTemplate (settings_of st) (operation_of p) tag tag_descr)"

section \<open>Servers\<close>

definition setApiServer :: "jstr \<Rightarrow> reference \<Rightarrow> reference \<times> bool" where
  "setApiServer u st =
     (case List.find (\<lambda>s. sv_url s = u) (rs_servers (spec_of st)) of
        None \<Rightarrow> (st, False)
      | Some s \<Rightarrow> (st\<lparr>rf_selectedServer := Some s\<rparr>, True))"

definition put_server :: "server \<Rightarrow> server \<Rightarrow> resolved \<Rightarrow> resolved" where
  \<comment> \<open>the selected server is one of the document's, found by its position\<close>
  "put_server old new r =
     (case List.find (\<lambda>n. rs_servers r ! n = old) [0..<length (rs_servers r)] of
        None \<Rightarrow> r
      | Some n \<Rightarrow> r\<lparr>rs_servers := (rs_servers r)[n := new]\<rparr>)"

definition onServerVariable :: "(jstr \<Rightarrow> jstr \<Rightarrow> jstr \<Rightarrow> jstr option) \<Rightarrow> (jstr \<times> jstr) list \<Rightarrow> reference \<Rightarrow> reference option" where
  \<comment> \<open>with the variables and values of the table's inputs\<close>
  "onServerVariable rx values st =
     (case rf_selectedServer st of
        None \<Rightarrow> None
      | Some s \<Rightarrow> map_option (\<lambda>u. st\<lparr>rf_selectedServer := Some (s\<lparr>sv_computedUrl := u\<rparr>),
            rf_spec := map_option (put_server s (s\<lparr>sv_computedUrl := u\<rparr>)) (rf_spec st)\<rparr>) (fill_variables rx values (sv_url s)))"

definition variable_input :: "jstr \<times> json \<Rightarrow> page_act html" where
  "variable_input kv =
     (if truthy_entry ''enum'' (snd kv)
      then El ''select'' [(''data-var'', fst kv)] [(''input'', ServerInput)]
        (map (\<lambda>(i, t). el ''option'' (show_if (strict_eq (entry ''default'' (snd kv)) (Some t)) [(''selected'', [])] @ [(''label'', to_text t), (''value'', to_text t)]) [])
          (object_fields (the (entry ''enum'' (snd kv)))))
      else El ''input'' [(''type'', js ''text''), (''data-var'', fst kv), (''value'', shown (entry ''default'' (snd kv)))] [(''input'', ServerInput)] [])"

definition serverVarsTemplate :: "reference \<Rightarrow> page_act html list" where
  "serverVarsTemplate st =
     (case Option.bind (rf_selectedServer st) sv_variables of
        None \<Rightarrow> []
      | Some vs \<Rightarrow>
          [el ''div'' [cls ''table-title''] [lit ''SERVER VARIABLES''],
           el ''table'' [cls ''m-table'']
             (concat (map (\<lambda>kv.
                el ''tr'' [] [el ''td'' [] [Txt (fst kv)], el ''td'' [] [variable_input kv]] #
                show_if (truthy_entry ''description'' (snd kv))
                  [el ''tr'' [] [el ''td'' [(''colspan'', js ''2'')] [el ''span'' [cls ''m-markdown-small''] [Md (shown (entry ''description'' (snd kv)))]]]]) vs))])"

definition server_option :: "reference \<Rightarrow> nat \<times> server \<Rightarrow> page_act html list" where
  "server_option st ns =
     [El ''input''
        ([(''type'', js ''radio''), (''name'', js ''api_server''), (''id'', js ''srvr-opt-'' @ nat_text (fst ns)), (''value'', sv_url (snd ns))] @
         show_if (map_option sv_url (rf_selectedServer st) = Some (sv_url (snd ns))) [(''.checked'', [])])
        [(''change'', SetServer (sv_url (snd ns)))] [],
      el ''label'' [(''for'', js ''srvr-opt-'' @ nat_text (fst ns))]
        (Txt (sv_url (snd ns)) # show_if (is_truthy (sv_description (snd ns))) [lit ''- '', el ''span'' [cls ''regular-font''] [Txt (shown (sv_description (snd ns)))]]),
      el ''br'' [] []]"

definition apiServerTemplate :: "reference \<Rightarrow> page_act html list" where
  "apiServerTemplate st =
     (if rf_spec st = None \<or> rs_specLoadError (spec_of st) then []
      else
        [el ''section'' [(''id'', js ''servers''),
             (''class'', js ''regular-font observe-me '' @ js (if style_in ''read focused'' st then ''section-gap--read-mode'' else ''section-gap''))]
           ([el ''div'' [cls ''sub-title''] [lit ''API SERVER''],
             el ''div'' [cls ''mono-font'']
               (concat (map (server_option st) (zip [0..<length (rs_servers (spec_of st))] (rs_servers (spec_of st)))) @
                [el ''div'' [cls ''table-title primary-text'']
                   [lit '' SELECTED: '', Txt (case rf_selectedServer st of None \<Rightarrow> js ''none''
                      | Some s \<Rightarrow> if sv_computedUrl s \<noteq> [] then sv_computedUrl s else js ''none'')]]),
             el ''slot'' [(''name'', js ''servers'')] []] @
            serverVarsTemplate st)])"

section \<open>Overview\<close>

definition anchor_line :: "string \<Rightarrow> jstr \<Rightarrow> jstr \<Rightarrow> page_act html" where
  "anchor_line label href s = el ''span'' [] [lit label, el ''a'' [(''href'', href)] [Txt s]]"

definition contact_lines :: "json \<Rightarrow> page_act html list" where
  "contact_lines info =
     (case entry ''contact'' info of
        None \<Rightarrow> []
      | Some c \<Rightarrow>
          show_if (truthy_entry ''email'' c)
            [el ''span'' [] [Txt (shown (or_else (entry ''name'' c) (Some (JStr (js ''Email''))))), lit '': '',
               el ''a'' [(''href'', js ''mailto:'' @ shown (entry ''email'' c))] [Txt (shown (entry ''email'' c))]]] @
          show_if (truthy_entry ''url'' c) [anchor_line ''URL: '' (shown (entry ''url'' c)) (shown (entry ''url'' c))])"

definition license_line :: "json \<Rightarrow> page_act html list" where
  "license_line info =
     show_if (truthy_entry ''license'' info)
       (let l = the (entry ''license'' info) in
        [if truthy_entry ''url'' l then anchor_line ''License: '' (shown (entry ''url'' l)) (shown (entry ''name'' l))
         else el ''span'' [] [lit ''License: '', Txt (shown (entry ''name'' l))]])"

definition spec_buttons :: "reference \<Rightarrow> page_act html list" where
  "spec_buttons st =
     show_if (opt ro_specUrl st \<noteq> [] \<and> opt_is ro_allowSpecFileDownload ''true'' st)
       [el ''div'' []
          (El ''button'' [cls ''m-btn thin-border''] [(''click'', DownloadSpec (opt ro_specUrl st))] [lit ''Download OpenAPI spec''] #
           show_if (endsWith (toLowerCase (trim (opt ro_specUrl st))) (js ''json''))
             [El ''button'' [cls ''m-btn thin-border''] [(''click'', ViewSpec (opt ro_specUrl st))] [lit ''View OpenAPI spec (New Tab)'']])]"

definition overviewTemplate :: "reference \<Rightarrow> page_act html list" where
  "overviewTemplate st =
     [el ''section'' [(''id'', js ''overview''),
          (''class'', js ''observe-me '' @ js (if pg_renderStyle (rf_options st) = js ''view'' then ''section-gap'' else ''section-gap--read-mode''))]
        (case rs_info (spec_of st) of
           None \<Rightarrow> []
         | Some info \<Rightarrow>
             if \<not> is_truthy (Some info) then []
             else
               [el ''div'' [(''id'', js ''api-title'')]
                  (Txt (shown (entry ''title'' info)) # show_if (truthy_entry ''version'' info) [el ''span'' [] [Txt (shown (entry ''version'' info))]]),
                el ''div'' [(''id'', js ''api-info'')]
                  (contact_lines info @ license_line info @
                   show_if (truthy_entry ''termsOfService'' info)
                     [el ''span'' [] [el ''a'' [(''href'', shown (entry ''termsOfService'' info))] [lit ''Terms of Service'']]] @
                   spec_buttons st),
                el ''slot'' [(''name'', js ''overview'')] [],
                el ''div'' [(''id'', js ''api-description'')]
                  (show_if (truthy_entry ''description'' info)
                     [el ''div'' [cls ''m-markdown regular-font''] [Md (shown (entry ''description'' info))]])])]"

section \<open>The operations in one page\<close>

definition readModeTemplate :: "reference \<Rightarrow> page_act html list" where
  "readModeTemplate st =
     concat (map (\<lambda>g.
       [el ''section'' [(''id'', tg_elementId g), cls ''regular-font section-gap--read-mode observe-me'']
          [el ''div'' [cls ''title tag''] [Txt (shown (or_else (tg_displayName g) (Some (JStr (tg_name g)))))],
           el ''slot'' [(''name'', tg_elementId g)] [],
           el ''div'' [cls ''regular-font-size''] [el ''div'' [cls ''m-markdown regular-font''] [Md (tg_description g)]]],
        el ''section'' [cls ''regular-font section-gap--read-mode''] (concat (map (\<lambda>p. expanded_body st p [] []) (tg_paths g)))])
      (rs_tags (spec_of st)))"

section \<open>Components\<close>

definition schema_element :: "reference \<Rightarrow> (json option \<Rightarrow> json option) \<Rightarrow> json \<Rightarrow> page_act html" where
  \<comment> \<open>\<open>notation\<close>: the conversion into object notation\<close>
  "schema_element st notation v =
     el (if pg_schemaStyle (rf_options st) = js ''table'' then ''schema-table'' else ''schema-tree'')
       [(''.data'', data_text (notation (Some v))), (''schema-expand-level'', pg_expandLevel (rf_options st)),
        (''schema-description-expanded'', pg_descrExpanded (rf_options st)),
        (''allow-schema-description-expand-toggle'', pg_descrToggle (rf_options st)), (''schema-hide-read-only'', js ''false''),
        (''schema-hide-write-only'', pg_hideWriteOnly (rf_options st))] []"

definition componentBodyTemplate :: "reference \<Rightarrow> (json option \<Rightarrow> json option) \<Rightarrow> sub_component \<Rightarrow> jstr \<Rightarrow> page_act html list" where
  "componentBodyTemplate st notation b kind =
     [el ''div'' [cls ''divider''] [],
      el ''div'' [(''class'', js ''expanded-endpoint-body observe-me '' @ sb_name b), (''id'', js ''cmp--'' @ sb_id b)]
        (if occurs (js ''schemas-'') (sb_id b)
         then [el ''div'' [] [Txt (sb_name b), el ''span'' [] [lit '' Schema '']], schema_element st notation (sb_component b)]
         else el ''div'' [] [Txt (sb_name b), el ''span'' [] [Txt kind]] #
           show_if (is_truthy (Some (sb_component b)))
             [el ''div'' [cls ''mono-font regular-font-size'']
                [el ''json-tree'' [cls ''border tree'', (''render-style'', pg_renderStyle (rf_options st)), (''.data'', stringify 0 (sb_component b))] []]])]"

definition visible_subs :: "component_group \<Rightarrow> sub_component list" where
  "visible_subs c = filter (\<lambda>b. sb_expanded b \<noteq> Some False) (cg_subs c)"

definition componentsTemplate :: "reference \<Rightarrow> (json option \<Rightarrow> json option) \<Rightarrow> page_act html list" where
  "componentsTemplate st notation =
     concat (map (\<lambda>c.
       [el ''div'' [(''id'', js ''cmp--'' @ toLowerCase (cg_name c)), cls ''regular-font section-gap--read-mode observe-me'']
          [el ''div'' [cls ''title tag''] [Txt (cg_name c)],
           el ''div'' [cls ''regular-font-size''] [el ''div'' [cls ''m-markdown regular-font''] [Md (cg_description c)]]],
        el ''div'' [cls ''regular-font section-gap--read-mode'']
          (concat (map (\<lambda>b. componentBodyTemplate st notation b (cg_name c)) (visible_subs c)))])
      (rs_components (spec_of st)))"

section \<open>The focused operation\<close>

definition wrapFocused :: "page_act html list \<Rightarrow> page_act html list" where
  "wrapFocused ks = [el ''div'' [cls ''regular-font section-gap--focused-mode''] ks]"

definition defaultContent :: "reference \<Rightarrow> page_act html list" where
  "defaultContent st =
     wrapFocused
       (if opt_is ro_showInfo ''true'' st then overviewTemplate st
        else case rs_tags (spec_of st) of
            g # _ \<Rightarrow> (case tg_paths g of p # _ \<Rightarrow> expanded_body st p (tg_name g) [] | [] \<Rightarrow> [])
          | [] \<Rightarrow> [])"

definition tagBody :: "reference \<Rightarrow> tag_group \<Rightarrow> page_act html list" where
  "tagBody st g =
     el ''h1'' [(''id'', tg_elementId g)] [Txt (shown (or_else (tg_displayName g) (Some (JStr (tg_name g)))))] #
     show_if (opt_is ro_onNavTagClick ''show-description'' st \<and> tg_description g \<noteq> [])
       [el ''div'' [cls ''m-markdown''] [el ''div'' [cls ''m-markdown regular-font''] [Md (tg_description g)]]]"

definition tag_id_of :: "jstr \<Rightarrow> jstr" where
  \<comment> \<open>the tag's part of the id of a heading in its description\<close>
  "tag_id_of e =
     (case indexOf e (js ''--'') 4 of
        Some n \<Rightarrow> if n > 0 then take (case indexOf e (js ''--'') 5 of None \<Rightarrow> 0 | Some m \<Rightarrow> m) e else e
      | None \<Rightarrow> e)"

fun find_path :: "jstr \<Rightarrow> tag_group list \<Rightarrow> (tag_group \<times> path_entry) option" where
  "find_path e [] = None"
| "find_path e (g # gs) =
     (case List.find (\<lambda>p. pe_elementId p = e) (tg_paths g) of None \<Rightarrow> find_path e gs | Some p \<Rightarrow> Some (g, p))"

datatype focus = Overview | Authentication | Servers | OperationsTop | Components | TagFocus tag_group | PathFocus tag_group path_entry | DefaultFocus

definition focus_of :: "reference \<Rightarrow> focus" where
  "focus_of st =
     (let e = rf_focused st; gs = rs_tags (spec_of st) in
      if startsWith e (js ''overview'') \<and> opt_is ro_showInfo ''true'' st then Overview
      else if e = js ''auth'' \<and> opt_is ro_allowAuthentication ''true'' st then Authentication
      else if e = js ''servers'' \<and> opt_is ro_allowServerSelection ''true'' st then Servers
      else if e = js ''operations-top'' then OperationsTop
      else if startsWith e (js ''cmp--'') \<and> opt_is ro_showComponents ''true'' st then Components
      else if startsWith e (js ''tag--'')
      then (case List.find (\<lambda>g. tg_elementId g = tag_id_of e) gs of None \<Rightarrow> DefaultFocus | Some g \<Rightarrow> TagFocus g)
      else (case find_path e gs of None \<Rightarrow> DefaultFocus | Some (g, p) \<Rightarrow> PathFocus g p))"

definition authSection :: "reference \<Rightarrow> jstr \<Rightarrow> page_act html list" where
  \<comment> \<open>\<open>origin\<close>: of the selected server's URL\<close>
  "authSection st origin = [map_html OfAuth (securitySchemeTemplate nat_text origin (pg_renderStyle (rf_options st)) (rs_schemes (spec_of st)))]"

definition operations_top :: "page_act html" where
  "operations_top = el ''div'' [(''id'', js ''operations-top''), cls ''observe-me''] [el ''slot'' [(''name'', js ''operations-top'')] []]"

definition focusedTemplate :: "reference \<Rightarrow> (json option \<Rightarrow> json option) \<Rightarrow> jstr \<Rightarrow> page_act html list" where
  "focusedTemplate st notation origin =
     (if rf_focused st = [] \<or> rf_spec st = None then []
      else case focus_of st of
          Overview \<Rightarrow> overviewTemplate st
        | Authentication \<Rightarrow> authSection st origin
        | Servers \<Rightarrow> apiServerTemplate st
        | OperationsTop \<Rightarrow> [operations_top]
        | Components \<Rightarrow> componentsTemplate st notation
        | TagFocus g \<Rightarrow> wrapFocused (tagBody st g)
        | PathFocus g p \<Rightarrow> wrapFocused (expanded_body st p (tg_name g) (tg_description g))
        | DefaultFocus \<Rightarrow> defaultContent st)"

section \<open>The operations as a list\<close>

definition searched_text :: "path_entry \<Rightarrow> jstr \<Rightarrow> jstr" where
  "searched_text p tag = pe_method p @ js '' '' @ pe_path p @ js '' '' @ pe_summary p @ js '' '' @ or_text (Some (pe_description p)) @ js '' '' @
     or_text (pe_operationId p) @ js '' '' @ tag"

definition pathIsInSearch :: "jstr \<Rightarrow> path_entry \<Rightarrow> jstr \<Rightarrow> bool" where
  "pathIsInSearch s p tag \<longleftrightarrow> occurs (toLowerCase s) (toLowerCase (searched_text p tag))"

definition open_class :: "bool \<Rightarrow> jstr" where
  "open_class b = js (if b then ''expanded'' else ''collapsed'')"

definition is_deprecated :: "path_entry \<Rightarrow> bool" where
  "is_deprecated p = is_truthy (pe_deprecated p)"

definition endpointHeadTemplate :: "reference \<Rightarrow> nat \<Rightarrow> nat \<Rightarrow> path_entry \<Rightarrow> bool \<Rightarrow> page_act html" where
  "endpointHeadTemplate st i j p all_open =
     (let d = js (if is_deprecated p then ''deprecated'' else []) in
      El ''summary'' [(''class'', js ''endpoint-head '' @ pe_method p @ js '' '' @ d @ js '' '' @ open_class (all_open \<or> pe_expanded p))]
        [(''click'', ToggleOperation i j)]
        ([el ''div'' [(''class'', js ''method '' @ pe_method p @ js '' '' @ d)] [Txt (pe_method p)],
          el ''div'' [(''class'', js ''path '' @ d)] (Txt (pe_path p) # show_if (pe_isWebhook p) [el ''span'' [] [lit '' Webhook'']])] @
         show_if (is_deprecated p) [el ''span'' [] [lit '' deprecated '']] @
         show_if (ro_showSummaryWhenCollapsed (rf_options st))
           [el ''div'' [cls ''only-large-screen''] [],
            el ''div'' [cls ''descr''] [Txt (if pe_summary p \<noteq> [] then pe_summary p else pe_shortSummary p)]]))"

fun put_attr :: "string \<Rightarrow> jstr \<Rightarrow> 'a html \<Rightarrow> 'a html" where
  "put_attr n v (El t as hs ks) = El t (map (\<lambda>(k, w). (k, if k = n then v else w)) as) hs ks"
| "put_attr n v k = k"

definition list_server_url :: "reference \<Rightarrow> path_entry \<Rightarrow> jstr" where
  \<comment> \<open>an operation's own server is used whatever its URL is\<close>
  "list_server_url st p = (case pe_servers p of v # _ \<Rightarrow> shown (entry ''url'' v) | [] \<Rightarrow> pg_serverUrl (settings_of st))"

definition endpoint_title :: "path_entry \<Rightarrow> page_act html list" where
  "endpoint_title p =
     (if pe_summary p \<noteq> [] then [el ''div'' [cls ''title''] [Txt (pe_summary p)]]
      else show_if (pe_description p \<noteq> JStr (pe_shortSummary p)) [el ''div'' [cls ''title''] [Txt (pe_shortSummary p)]])"

definition endpoint_badges :: "operation \<Rightarrow> page_act html list" where
  "endpoint_badges o' =
     show_if (op_badges o' \<noteq> [])
       [el ''div'' [] (concat (map (\<lambda>(colour, label). show_if (colour \<noteq> js ''none'') [el ''span'' [] [Txt label]]) (op_badges o')))]"

definition endpointBodyTemplate :: "reference \<Rightarrow> path_entry \<Rightarrow> page_act html" where
  "endpointBodyTemplate st p =
     (let o' = operation_of p; pg = settings_of st; layout = opt ro_layout st in
      el ''div'' [(''class'', js ''endpoint-body '' @ pe_method p @ js '' '' @ js (if is_deprecated p then ''deprecated'' else []))]
        [el ''div'' [cls ''summary'']
           (endpoint_title p @ endpoint_badges o' @
            show_if (op_description o' \<noteq> []) [el ''div'' [cls ''m-markdown''] [Md (op_description o')]] @
            map (map_html OfOperation) (docs_box o') @
            [el ''slot'' [(''name'', pe_elementId p)] []] @
            map (map_html OfAuth) (pathSecurityTemplate nat_text (pg_linked pg) (pg_schemes pg) (op_security o')) @
            show_if (op_samples o' \<noteq> []) (map (map_html OfOperation) (codeSamplesTemplate (op_samples o')))),
         el ''div'' [cls ''req-resp-container'']
           [el ''div'' [(''class'', js ''view-mode-request '' @ layout @ js ''-layout'')]
              (map_html OfOperation (put_attr ''server-url'' (list_server_url st p)
                 (put_attr ''class'' (pg_renderStyle pg @ js ''-mode '' @ layout @ js ''-layout'') (request_element pg o'))) #
               map (map_html OfOperation) (case op_callbacks o' of None \<Rightarrow> [] | Some cb \<Rightarrow> show_if (is_truthy (Some cb)) (callbackTemplate pg cb))),
            map_html OfOperation (response_element pg o')]])"

definition endpoint_sections :: "reference \<Rightarrow> bool \<Rightarrow> nat \<Rightarrow> tag_group \<Rightarrow> page_act html list" where
  "endpoint_sections st all_open i g =
     map (\<lambda>(j, p).
       el ''section'' [(''id'', pe_elementId p), (''class'', js ''m-endpoint regular-font '' @ pe_method p @ js '' '' @ open_class (all_open \<or> pe_expanded p))]
         (endpointHeadTemplate st i j p all_open # show_if (all_open \<or> pe_expanded p) [endpointBodyTemplate st p]))
      (filter (\<lambda>(j, p). rf_searchVal st = [] \<or> pathIsInSearch (rf_searchVal st) p (tg_name g)) (zip [0..<length (tg_paths g)] (tg_paths g)))"

definition endpointsGroupTemplate :: "reference \<Rightarrow> bool \<Rightarrow> bool \<Rightarrow> page_act html list" where
  \<comment> \<open>\<open>mini\<close>: the element without groups\<close>
  "endpointsGroupTemplate st mini all_open =
     show_if (rf_spec st \<noteq> None)
       (show_if (\<not> mini)
          [el ''div'' []
             [El ''span'' [] [(''click'', ExpandSections)] [lit '' Expand all ''], lit ''|'',
              El ''span'' [] [(''click'', CollapseSections)] [lit '' Collapse all ''], lit '' sections'']] @
        map (\<lambda>(i, g).
          if mini then el ''div'' [cls ''section-tag-body''] (endpoint_sections st all_open i g)
          else
            el ''div'' [(''class'', js ''regular-font section-gap section-tag '' @ open_class (tg_expanded g))]
              [El ''div'' [cls ''section-tag-header''] [(''click'', ToggleGroup i)]
                 [el ''div'' [(''id'', tg_elementId g), cls ''sub-title tag''] [Txt (shown (or_else (tg_displayName g) (Some (JStr (tg_name g)))))]],
               el ''div'' [cls ''section-tag-body'']
                 (el ''slot'' [(''name'', tg_elementId g)] [] #
                  el ''div'' [cls ''regular-font regular-font-size m-markdown''] [Md (tg_description g)] #
                  endpoint_sections st all_open i g)])
         (zip [0..<length (rs_tags (spec_of st))] (rs_tags (spec_of st))))"

text \<open>
  The sections of the groups on the page: whether the group is expanded, and whether its element has the class that
  shows it. A click on a header changes the first, and the second with it when the page is rendered; the two
  links change the elements only.
\<close>

type_synonym sections = "(bool \<times> bool) list"

definition initial_sections :: "reference \<Rightarrow> sections" where
  "initial_sections st = map (\<lambda>g. (tg_expanded g, tg_expanded g)) (rs_tags (spec_of st))"

fun section_step :: "page_act \<Rightarrow> sections \<Rightarrow> sections" where
  "section_step (ToggleGroup i) ss = (if i < length ss then ss[i := (\<not> fst (ss ! i), \<not> fst (ss ! i))] else ss)"
| "section_step ExpandSections ss = map (\<lambda>(g, d). (g, True)) ss"
| "section_step CollapseSections ss = map (\<lambda>(g, d). (g, False)) ss"
| "section_step _ ss = ss"

section \<open>Header\<close>

definition headerTemplate :: "reference \<Rightarrow> page_act html" where
  "headerTemplate st =
     el ''header'' [cls ''row main-header regular-font'']
       [el ''div'' [cls ''only-large-screen-flex'']
          [el ''slot'' [(''name'', js ''logo''), cls ''logo''] [el ''div'' [] [el ''svg'' [] []]],
           el ''div'' [cls ''header-title''] [Txt (opt ro_headingText st)]],
        el ''div'' []
          (show_if (\<not> opt_is ro_allowSpecUrlLoad ''false'' st)
             [El ''input'' [(''id'', js ''spec-url''), (''type'', js ''text''), cls ''header-input mono-font'', (''placeholder'', js ''Spec URL''),
                (''value'', opt ro_specUrl st)] [(''change'', SpecUrlChange)] [], el ''div'' [] [Txt [0x21A9]]] @
           show_if (\<not> opt_is ro_allowSpecFileLoad ''false'' st)
             [El ''input'' [(''id'', js ''spec-file''), (''type'', js ''file''), (''value'', opt ro_specFile st)] [(''change'', SpecFileChange)] [],
              El ''button'' [cls ''m-btn primary only-large-screen''] [(''click'', FileLoadClick)] [lit '' LOCAL JSON FILE '']] @
           [el ''slot'' [(''name'', js ''header'')] []] @
           show_if (\<not> opt_is ro_allowSearch ''false'' st \<and> \<not> style_in ''read focused'' st)
             [El ''input'' [(''id'', js ''search''), cls ''header-input'', (''type'', js ''text''), (''placeholder'', js ''Filter'')]
                [(''change'', SearchChange)] [], el ''div'' [] [Txt [0x21A9]]] @
           show_if (\<not> opt_is ro_allowAdvancedSearch ''false'' st \<and> \<not> style_in ''read focused'' st)
             [El ''button'' [cls ''m-btn primary only-large-screen''] [(''click'', ShowSearchDialog)] [lit '' Search '']])]"

section \<open>Lemmas\<close>

definition well_named :: "tag_group \<Rightarrow> bool" where
  "well_named g \<longleftrightarrow> tg_elementId g = js ''tag--'' @ id_text (tg_name g) \<and>
     list_all (\<lambda>p. pe_method p \<in> set methods \<and> pe_elementId p = pe_method p @ js ''-'' @ id_text (pe_path p)) (tg_paths g)"

lemma well_named_new [simp]: "well_named (new_group lexer name d descr e)"
  by (simp add: well_named_def new_group_def)

lemma well_named_put:
  "put_in_group name pe gs = Some gs' \<Longrightarrow> list_all well_named gs \<Longrightarrow> pe_method pe \<in> set methods \<Longrightarrow>
   pe_elementId pe = pe_method pe @ js ''-'' @ id_text (pe_path pe) \<Longrightarrow> list_all well_named gs'"
  by (induction gs arbitrary: gs') (auto simp: well_named_def split: if_splits)

lemma well_named_add:
  assumes "add_to_group lexer tags pe t gs = Some gs'" "list_all well_named gs" "pe_method pe \<in> set methods"
    "pe_elementId pe = pe_method pe @ js ''-'' @ id_text (pe_path pe)"
  shows "list_all well_named gs'"
proof -
  obtain name d where t: "t = JStr name" and d: "find_declared tags name = Some d"
    using assms(1) by (auto simp: add_to_group_def bind_eq_Some_conv split: json.splits)
  show ?thesis
  proof (cases "put_in_group name pe gs")
    case None
    then obtain g where g: "found_group lexer name d = Some g" "gs' = gs @ [g\<lparr>tg_paths := [pe]\<rparr>]"
      using assms(1) t d by (auto simp: add_to_group_def bind_eq_Some_conv)
    then have "well_named g" by (auto simp: found_group_def split: option.splits)
    then show ?thesis using assms g by (simp add: well_named_def)
  next
    case (Some gs'')
    then show ?thesis using assms t d well_named_put [OF Some] by (simp add: add_to_group_def)
  qed
qed

lemma well_named_operation:
  assumes "add_operation lexer ls tags pv m gs = Some gs'" "list_all well_named gs" "m \<in> set methods"
  shows "list_all well_named gs'"
proof (cases "is_truthy (map_of (object_fields (snd pv)) m)")
  case False
  then show ?thesis using assms by (auto simp: add_operation_def split: option.splits)
next
  case True
  then obtain op where op: "map_of (object_fields (snd pv)) m = Some op" "is_truthy (Some op)"
    by (cases "map_of (object_fields (snd pv)) m") auto
  then obtain ts pe where pe: "path_entry_of (fst pv) m (snd pv) op = Some pe" and f: "fold_opt (add_to_group lexer tags pe) ts gs = Some gs'"
    using assms by (auto simp: add_operation_def bind_eq_Some_conv)
  show ?thesis
    by (rule fold_opt_invariant [OF f]) (use assms path_entry_of_fields [OF pe] in \<open>auto intro: well_named_add\<close>)
qed

lemma well_named_groups:
  assumes "groupByTags lc lexer ls doc = Some gs"
  shows "list_all well_named gs"
proof -
  let ?tags = "map_of doc (js ''tags'')"
  obtain cs where cs: "collectGroups lexer ls doc = Some cs"
    and gs: "set gs = settled_group lc ls ` {g \<in> set cs. tg_paths g \<noteq> []}"
    using assms by (auto simp: groupByTags_def Let_def bind_eq_Some_conv)
  then obtain ds paths where ds: "declared_groups lexer ?tags = Some ds"
    and f: "fold_opt (\<lambda>pv. fold_opt (add_operation lexer ls ?tags pv) methods) paths ds = Some cs"
    by (auto simp: collectGroups_def bind_eq_Some_conv)
  have "map_opt (declared_group lexer) es = Some ds \<Longrightarrow> list_all well_named ds" for es
    by (induction es arbitrary: ds) (auto simp: declared_group_def bind_eq_Some_conv)
  then have "list_all well_named ds" using ds by (auto simp: declared_groups_def split: option.splits json.splits)
  then have "list_all well_named cs"
    by (rule fold_opt_invariant [OF f]) (erule fold_opt_invariant, auto intro: well_named_operation)
  moreover have "well_named g \<Longrightarrow> well_named (settled_group lc ls g)" for g
    by (simp add: well_named_def list_all_iff) (simp add: settled_group_def Let_def)
  ultimately show ?thesis using gs by (auto simp: list_all_iff)
qed

lemma find_path_Some: "g \<in> set gs \<Longrightarrow> p \<in> set (tg_paths g) \<Longrightarrow> pe_elementId p = e \<Longrightarrow>
    \<exists>h q. find_path e gs = Some (h, q) \<and> h \<in> set gs \<and> q \<in> set (tg_paths h) \<and> pe_elementId q = e"
proof (induction gs)
  case (Cons h gs)
  show ?case
  proof (cases "List.find (\<lambda>p. pe_elementId p = e) (tg_paths h)")
    case None
    then have "g \<in> set gs" using Cons.prems by (auto simp: find_None_iff)
    then show ?thesis using Cons None by auto
  next
    case (Some q)
    then have "q \<in> set (tg_paths h)" "pe_elementId q = e" by (auto simp: find_Some_iff)
    then show ?thesis using Some by simp
  qed
qed simp

lemma method_starts:
  assumes "m \<in> set methods"
  shows "\<not> startsWith (m @ js ''-'' @ s) (js ''overview'')" "m @ js ''-'' @ s \<noteq> js ''auth''" "m @ js ''-'' @ s \<noteq> js ''servers''"
    "m @ js ''-'' @ s \<noteq> js ''operations-top''" "\<not> startsWith (m @ js ''-'' @ s) (js ''cmp--'')" "\<not> startsWith (m @ js ''-'' @ s) (js ''tag--'')"
    "m @ js ''-'' @ s \<noteq> []"
  using assms by (auto simp: methods_def js_def startsWith_Cons)

lemma method_id_inject:
  assumes "m \<in> set methods" "n \<in> set methods" "m @ js ''-'' @ s = n @ js ''-'' @ t"
  shows "m = n \<and> s = t"
proof -
  have "hyphen \<notin> set k" if "k \<in> set methods" for k using that by (auto simp: methods_def js_def)
  moreover have "m @ hyphen # s = n @ hyphen # t" using assms(3) by (simp add: js_def)
  ultimately show ?thesis using assms(1,2)
    by (metis append_same_eq dropWhile_neg_append list.inject takeWhile_neg_append same_append_eq)
qed

lemma tag_id_of_iff: "tag_id_of (js ''tag--'' @ x) = js ''tag--'' @ x \<longleftrightarrow> \<not> occurs (js ''--'') (js ''-'' @ x)"
proof -
  have e: "js ''tag--'' @ x = js ''tag-'' @ js ''-'' @ x" by (simp add: js_def)
  have "indexOf (js ''tag--'' @ x) (js ''--'') 4 = map_option ((+) 4) (find_sub (js ''-'' @ x) (js ''--''))"
    unfolding e by (simp add: indexOf_def js_def eval_nat_numeral)
  moreover have "find_sub (js ''-'' @ x) (js ''--'') = None \<longleftrightarrow> \<not> occurs (js ''--'') (js ''-'' @ x)"
    by (simp add: find_sub_None_iff occurs_iff)
  moreover have "length (take m (js ''tag--'' @ x)) < length (js ''tag--'' @ x)" if "indexOf (js ''tag--'' @ x) (js ''--'') 5 = Some m" for m
    using indexOf_SomeD [OF that] by (simp add: js_def)
  then have "take m (js ''tag--'' @ x) \<noteq> js ''tag--'' @ x" if "indexOf (js ''tag--'' @ x) (js ''--'') 5 = Some m" for m
    using that by fastforce
  ultimately show ?thesis by (auto simp: tag_id_of_def split: option.splits)
qed

lemma operation_focus:
  assumes "groupByTags lc lexer ls doc = Some (rs_tags (spec_of st))"
    and "g \<in> set (rs_tags (spec_of st))" "p \<in> set (tg_paths g)" "rf_focused st = pe_elementId p"
  shows "\<exists>h q. focus_of st = PathFocus h q \<and> h \<in> set (rs_tags (spec_of st)) \<and> q \<in> set (tg_paths h) \<and> pe_elementId q = pe_elementId p \<and>
      pe_method q = pe_method p \<and> id_text (pe_path q) = id_text (pe_path p)"
proof -
  have ids: "pe_method r \<in> set methods \<and> pe_elementId r = pe_method r @ js ''-'' @ id_text (pe_path r)"
    if "h \<in> set (rs_tags (spec_of st))" "r \<in> set (tg_paths h)" for h r
    using well_named_groups [OF assms(1)] that by (auto simp: list_all_iff well_named_def)
  obtain h q where q: "find_path (pe_elementId p) (rs_tags (spec_of st)) = Some (h, q)" "h \<in> set (rs_tags (spec_of st))"
    "q \<in> set (tg_paths h)" "pe_elementId q = pe_elementId p"
    using find_path_Some [OF assms(2,3) refl] by blast
  have "focus_of st = PathFocus h q"
    using q(1) ids [OF assms(2,3)] method_starts [of "pe_method p" "id_text (pe_path p)"] by (simp add: focus_of_def Let_def assms(4))
  moreover have "pe_method q = pe_method p \<and> id_text (pe_path q) = id_text (pe_path p)"
    using ids [OF assms(2,3)] ids [OF q(2,3)] q(4) by (intro method_id_inject) simp_all
  ultimately show ?thesis using q by blast
qed

section \<open>Properties\<close>


text \<open>
  In the focused style the link of a tag shows the tag exactly when the id of its name neither begins with a hyphen nor has two
  hyphens in a row. A name such as "Chats: groups", whose colon and space both become hyphens, is taken for a heading of
  another tag, and the page shows its default content or that other tag.
\<close>

theorem focused_tags:
  assumes "groupByTags lc lexer ls doc = Some (rs_tags (spec_of st))"
    and "g \<in> set (rs_tags (spec_of st))" "rf_focused st = tg_elementId g"
  shows "(\<exists>h. focus_of st = TagFocus h \<and> tg_elementId h = tg_elementId g) \<longleftrightarrow> \<not> occurs (js ''--'') (js ''-'' @ id_text (tg_name g))"
proof -
  have e: "tg_elementId g = js ''tag--'' @ id_text (tg_name g)"
    using well_named_groups [OF assms(1)] assms(2) by (auto simp: list_all_iff well_named_def)
  let ?find = "\<lambda>x. List.find (\<lambda>h. tg_elementId h = x) (rs_tags (spec_of st))"
  have focus: "focus_of st = (case ?find (tag_id_of (tg_elementId g)) of None \<Rightarrow> DefaultFocus | Some h \<Rightarrow> TagFocus h)"
    by (simp add: focus_of_def Let_def assms(3) e startsWith_Cons js_def)
  have found: "tg_elementId h = x" if "?find x = Some h" for h x
    using that by (auto simp: find_Some_iff)
  show ?thesis
  proof (cases "occurs (js ''--'') (js ''-'' @ id_text (tg_name g))")
    case True
    then have "tag_id_of (tg_elementId g) \<noteq> tg_elementId g" unfolding e tag_id_of_iff by simp
    moreover have "?find (tag_id_of (tg_elementId g)) = Some h" if "focus_of st = TagFocus h" for h
      using that focus by (cases "?find (tag_id_of (tg_elementId g))") simp_all
    then have "tg_elementId h = tag_id_of (tg_elementId g)" if "focus_of st = TagFocus h" for h using that found by blast
    ultimately have "tg_elementId h \<noteq> tg_elementId g" if "focus_of st = TagFocus h" for h using that by metis
    then show ?thesis using True by blast
  next
    case False
    then have "tag_id_of (tg_elementId g) = tg_elementId g" unfolding e tag_id_of_iff by simp
    moreover obtain h where "?find (tg_elementId g) = Some h" using assms(2) by (cases "?find (tg_elementId g)") (auto simp: find_None_iff)
    ultimately have "focus_of st = TagFocus h \<and> tg_elementId h = tg_elementId g" using focus found [of "tg_elementId g" h] by simp
    then show ?thesis using False by blast
  qed
qed

text \<open>
  After \<open>Expand all\<close> the first click on the header of a group that was collapsed has no effect on the page: the group
  is expanded only now, and its section was already open.
\<close>

theorem click_after_expand_all_is_lost:
  assumes "i < length ss" "\<not> fst (ss ! i)"
  shows "map snd (section_step (ToggleGroup i) (section_step ExpandSections ss)) = map snd (section_step ExpandSections ss)"
  using assms by (auto simp: list_eq_iff_nth_eq nth_list_update split_beta)

definition sample_options :: ref_options where
  "sample_options = page_settings.extend sample_page
     \<lparr>ro_layout = js ''row'', ro_showInfo = js ''true'', ro_showHeader = js ''false'', ro_showSideNav = js ''true'', ro_showComponents = js ''false'',
      ro_allowAuthentication = js ''true'', ro_allowServerSelection = js ''true'', ro_allowSearch = js ''true'', ro_allowAdvancedSearch = js ''true'',
      ro_allowSpecUrlLoad = js ''true'', ro_allowSpecFileLoad = js ''true'', ro_allowSpecFileDownload = [], ro_headingText = [],
      ro_specUrl = js ''/docs/yaml'', ro_specFile = [], ro_headingsInNavBar = js ''false'', ro_navActiveItemMarker = js ''left-bar'',
      ro_onNavTagClick = js ''expand-collapse'', ro_usePathInNavBar = js ''true'', ro_showMethodInNavBar = js ''as-colored-block'',
      ro_updateRoute = js ''true'', ro_routePrefix = js ''#'', ro_gotoPath = [], ro_persistAuth = js ''false'',
      ro_showSummaryWhenCollapsed = True, ro_defaultApiServerUrl = [], ro_ownServerUrl = [], ro_cssClasses = [], ro_pageDirection = []\<rparr>"

definition shown_document :: "(jstr \<times> json) list \<Rightarrow> resolved" where
  "shown_document doc = no_document\<lparr>rs_tags := (case groupByTags by_length (\<lambda>_. []) sample_settings doc of None \<Rightarrow> [] | Some gs \<Rightarrow> gs)\<rparr>"

definition sample_reference :: "(jstr \<times> json) list \<Rightarrow> reference" where
  "sample_reference doc = \<lparr>rf_options = sample_options, rf_spec = Some (shown_document doc), rf_selectedServer = None, rf_focused = [], rf_searchVal = [],
     rf_loading = False, rf_loadFailed = False, rf_showDialog = False, rf_matches = []\<rparr>"

lemma sample_tags:
  "groupByTags by_length (\<lambda>_. []) sample_settings doc \<noteq> None \<Longrightarrow>
   groupByTags by_length (\<lambda>_. []) sample_settings doc = Some (rs_tags (spec_of (sample_reference doc\<lparr>rf_focused := e\<rparr>)))"
  by (auto simp: sample_reference_def spec_of_def shown_document_def)

definition colon_doc :: "(jstr \<times> json) list" where
  "colon_doc = [(js ''paths'', JObj [(js ''/groups'', JObj [(js ''get'', JObj [(js ''tags'', JArr [JStr (js ''Chats: groups'')])])])])]"


theorem focused_tags_witness:
  "let st = sample_reference colon_doc\<lparr>rf_focused := js ''tag--Chats--groups''\<rparr> in \<not> (\<exists>h. focus_of st = TagFocus h \<and> tg_elementId h = js ''tag--Chats--groups'')"
proof -
  let ?st = "sample_reference colon_doc\<lparr>rf_focused := js ''tag--Chats--groups''\<rparr>"
  have "case groupByTags by_length (\<lambda>_. []) sample_settings colon_doc of None \<Rightarrow> False
    | Some gs \<Rightarrow> list_ex (\<lambda>g. tg_elementId g = js ''tag--Chats--groups'' \<and> occurs (js ''--'') (js ''-'' @ id_text (tg_name g))) gs"
    by code_simp
  then obtain gs g where gs: "groupByTags by_length (\<lambda>_. []) sample_settings colon_doc = Some gs" "g \<in> set gs"
      "tg_elementId g = js ''tag--Chats--groups''" "occurs (js ''--'') (js ''-'' @ id_text (tg_name g))"
    by (auto simp: list_ex_iff split: option.splits)
  have t: "groupByTags by_length (\<lambda>_. []) sample_settings colon_doc = Some (rs_tags (spec_of ?st))"
    by (rule sample_tags) (simp only: gs(1) option.simps not_False_eq_True)
  then have "rs_tags (spec_of ?st) = gs" unfolding gs(1) by (simp only: option.inject)
  then have "g \<in> set (rs_tags (spec_of ?st))" "rf_focused ?st = tg_elementId g" "tg_elementId g = js ''tag--Chats--groups''"
    "occurs (js ''--'') (js ''-'' @ id_text (tg_name g))"
    using gs(2-4) by simp_all
  then show ?thesis unfolding Let_def using focused_tags [OF t, of g] by simp
qed

theorem click_after_expand_all_is_lost_witness:
  "map snd (section_step (ToggleGroup 1) (section_step ExpandSections [(True, True), (False, False)])) =
   map snd (section_step ExpandSections [(True, True), (False, False)])"
  by (rule click_after_expand_all_is_lost) simp_all

end
