(* ===== verification/Nav_Bar.thy ===== *)
theory Nav_Bar
  imports Reference_Page
begin

text \<open>
  The navigation bar of the API reference (\<open>CF\<close>, \<open>PF\<close> and \<open>TF\<close> in \<open>docs/ui/assets/rapidoc-min.js\<close>): its template, with
  the filter by the search text, and the opening and closing of its sections. The slug of a heading is a function of
  the Markdown library and a parameter here (\<open>slug\<close>, each time of a new slugger).
\<close>

section \<open>The template\<close>

definition nav_item :: "jstr \<Rightarrow> jstr \<Rightarrow> jstr \<Rightarrow> jstr \<Rightarrow> page_act html list \<Rightarrow> page_act html" where
  "nav_item c i action content ks =
     el ''div'' [(''class'', c), (''id'', js ''link-'' @ i), (''data-action'', action), (''data-content-id'', content)] ks"

definition marked_class :: "string \<Rightarrow> reference \<Rightarrow> jstr" where
  "marked_class c st = js c @ js '' '' @ opt ro_navActiveItemMarker st"

definition navigate :: jstr where "navigate = js ''navigate''"

definition nav_info :: "reference \<Rightarrow> string \<Rightarrow> jstr \<Rightarrow> page_act html" where
  "nav_info st i s = nav_item (marked_class ''nav-bar-info'' st) (js i) navigate (js i) [Txt s]"

definition nav_filter :: "reference \<Rightarrow> page_act html list" where
  "nav_filter st =
     show_if (\<not> (opt_is ro_allowSearch ''false'' st \<and> opt_is ro_allowAdvancedSearch ''false'' st))
       [el ''div'' []
          (show_if (\<not> opt_is ro_allowSearch ''false'' st)
             (el ''div'' []
                [El ''input'' [(''id'', js ''nav-bar-search''), (''type'', js ''text''), (''placeholder'', js ''Filter'')] [(''change'', SearchChange)] [],
                 el ''div'' [] [Txt [0x21A9]]] #
              show_if (rf_searchVal st \<noteq> []) [El ''button'' [cls ''m-btn thin-border''] [(''click'', ClearSearch)] [lit '' CLEAR '']]) @
           show_if (\<not> opt_is ro_allowAdvancedSearch ''false'' st \<and> rf_searchVal st = [])
             [El ''button'' [cls ''m-btn primary''] [(''click'', ShowSearchDialog)] [lit '' SEARCH '']])]"

definition info_title :: "reference \<Rightarrow> jstr" where
  "info_title st =
     (let t = (case rs_info (spec_of st) of None \<Rightarrow> [] | Some i \<Rightarrow> trim (shown (entry ''title'' i))) in if t \<noteq> [] then t else js ''Overview'')"

definition heading_link :: "(jstr \<Rightarrow> jstr) \<Rightarrow> reference \<Rightarrow> jstr \<Rightarrow> md_token \<Rightarrow> page_act html" where
  "heading_link slug st i t =
     nav_item (js ''nav-bar-h'' @ nat_text (mt_depth t) @ js '' '' @ opt ro_navActiveItemMarker st) (i @ js ''--'' @ slug (mt_text t)) navigate
       (i @ js ''--'' @ slug (mt_text t)) [Txt (mt_text t)]"

definition nav_overview :: "(jstr \<Rightarrow> jstr) \<Rightarrow> reference \<Rightarrow> page_act html list" where
  "nav_overview slug st =
     show_if (\<not> opt_is ro_showInfo ''false'' st \<and> is_truthy (rs_info (spec_of st)))
       (if opt_is ro_headingsInNavBar ''true'' st
        then show_if (rs_infoHeaders (spec_of st) \<noteq> []) [nav_info st ''overview'' (info_title st)] @
             [el ''div'' [cls ''overview-headers''] (map (heading_link slug st (js ''overview'')) (rs_infoHeaders (spec_of st)))] @
             show_if (rs_infoHeaders (spec_of st) \<noteq> []) [el ''hr'' [] []]
        else [nav_info st ''overview'' (info_title st)])"

definition nav_operations_top :: "reference \<Rightarrow> page_act html" where
  "nav_operations_top st =
     nav_item (js ''nav-bar-section operations'') (js ''operations-top'') navigate
       (if pg_renderStyle (rf_options st) = js ''focused'' then [] else js ''operations-top'')
       [el ''div'' []
          (show_if (pg_renderStyle (rf_options st) = js ''focused'')
             [el ''div'' [cls ''nav-bar-expand-all'', (''data-action'', js ''expand-all'')] [Txt [0x25B8]],
              el ''div'' [cls ''nav-bar-collapse-all'', (''data-action'', js ''collapse-all'')] [Txt [0x25B8]]]),
        el ''div'' [cls ''nav-bar-section-title''] [lit '' OPERATIONS '']]"

definition path_class :: "reference \<Rightarrow> jstr" where
  "path_class st = marked_class ''nav-bar-path'' st @ js '' '' @ js (if opt_is ro_usePathInNavBar ''true'' st then ''small-font'' else [])"

definition path_link :: "reference \<Rightarrow> path_entry \<Rightarrow> page_act html" where
  "path_link st p =
     nav_item (path_class st) (pe_elementId p) navigate (pe_elementId p)
       [el ''span'' []
          ([el ''span'' [(''class'', js ''nav-method '' @ opt ro_showMethodInNavBar st @ js '' '' @ pe_method p)]
              [Txt (map upper_char (if opt_is ro_showMethodInNavBar ''as-colored-block'' st then take 3 (pe_method p) else pe_method p))]] @
           show_if (pe_isWebhook p) [el ''span'' [] [lit ''WEBHOOK'']] @
           [if opt_is ro_usePathInNavBar ''true'' st then el ''span'' [cls ''mono-font''] [Txt (pe_path p)]
            else Txt (if pe_summary p \<noteq> [] then pe_summary p else pe_shortSummary p)])]"

definition matched_paths :: "reference \<Rightarrow> tag_group \<Rightarrow> path_entry list" where
  "matched_paths st g = filter (\<lambda>p. rf_searchVal st = [] \<or> pathIsInSearch (rf_searchVal st) p (tg_name g)) (tg_paths g)"

definition tag_link :: "reference \<Rightarrow> tag_group \<Rightarrow> page_act html" where
  "tag_link st g =
     (let rd = (pg_renderStyle (rf_options st) = js ''read''); descr = opt_is ro_onNavTagClick ''show-description'' st in
      el ''div''
        [(''class'', marked_class ''nav-bar-tag'' st), (''id'', js ''link-'' @ tg_elementId g),
         (''data-action'', if rd \<or> descr then navigate else js ''expand-collapse-tag''),
         (''data-content-id'', if rd \<or> descr then tg_elementId g else []), (''data-first-path-id'', tg_firstPathId g)]
        [el ''div'' [] [Txt (shown (or_else (tg_displayName g) (Some (JStr (tg_name g)))))],
         el ''div'' [cls ''nav-bar-tag-icon'', (''data-action'', js ''expand-collapse-tag'')] []])"

definition in_read_mode :: "reference \<Rightarrow> bool" where
  "in_read_mode st \<longleftrightarrow> pg_renderStyle (rf_options st) = js ''read''"

definition tag_section :: "(jstr \<Rightarrow> jstr) \<Rightarrow> reference \<Rightarrow> tag_group \<Rightarrow> page_act html" where
  "tag_section slug st g =
     el ''div'' [(''class'', js ''nav-bar-tag-and-paths '' @ open_class (in_read_mode st \<or> tg_expanded g))]
       ([if tg_name g = general_name then el ''hr'' [] [] else tag_link st g] @
        show_if (opt_is ro_headingsInNavBar ''true'' st \<and>
            \<not> (pg_renderStyle (rf_options st) = js ''focused'' \<and> opt_is ro_onNavTagClick ''expand-collapse'' st))
          [el ''div'' [cls ''tag-headers''] (map (heading_link slug st (tg_elementId g)) (tg_headers g))] @
        [el ''div'' [cls ''nav-bar-paths-under-tag'',
             (''max-height'', nat_text (if tg_expanded g \<or> in_read_mode st then 50 * max 1 (length (tg_paths g)) else 0))]
           (map (path_link st) (matched_paths st g))])"

definition shown_groups :: "reference \<Rightarrow> tag_group list" where
  "shown_groups st = filter (\<lambda>g. filter (\<lambda>p. pathIsInSearch (rf_searchVal st) p (tg_name g)) (tg_paths g) \<noteq> []) (rs_tags (spec_of st))"

definition nav_components :: "reference \<Rightarrow> page_act html list" where
  "nav_components st =
     show_if (opt_is ro_showComponents ''true'' st \<and> pg_renderStyle (rf_options st) = js ''focused'')
       (el ''div'' [(''id'', js ''link-components''), cls ''nav-bar-section components'']
          [el ''div'' [] [], el ''div'' [cls ''nav-bar-section-title''] [lit ''COMPONENTS'']] #
        concat (map (\<lambda>c. show_if (cg_subs c \<noteq> [])
          (nav_item (js ''nav-bar-tag'') (js ''cmp--'' @ toLowerCase (cg_name c)) navigate (js ''cmp--'' @ toLowerCase (cg_name c)) [Txt (cg_name c)] #
           map (\<lambda>b. nav_item (js ''nav-bar-path'') (js ''cmp--'' @ sb_id b) navigate (js ''cmp--'' @ sb_id b) [el ''span'' [] [Txt (sb_name b)]])
             (visible_subs c))) (rs_components (spec_of st))))"

definition navBarTemplate :: "(jstr \<Rightarrow> jstr) \<Rightarrow> reference \<Rightarrow> page_act html" where
  "navBarTemplate slug st =
     (if rf_spec st = None \<or> rs_specLoadError (spec_of st)
      then el ''nav'' [cls ''nav-bar''] [el ''slot'' [(''name'', js ''nav-logo''), cls ''logo''] []]
      else
        el ''nav'' [(''class'', js ''nav-bar '' @ pg_renderStyle (rf_options st))]
          ([el ''slot'' [(''name'', js ''nav-logo''), cls ''logo''] []] @ nav_filter st @
           [El ''nav'' [cls ''nav-scroll''] [(''click'', NavClick), (''keyup'', NavKey)]
              (nav_overview slug st @
               show_if (\<not> opt_is ro_allowServerSelection ''false'' st) [nav_info st ''servers'' (js '' API Servers '')] @
               show_if (\<not> opt_is ro_allowAuthentication ''false'' st) [nav_info st ''auth'' (js '' Authentication '')] @
               [nav_operations_top st] @ map (tag_section slug st) (shown_groups st) @ nav_components st)]))"

section \<open>Opening and closing sections\<close>

text \<open>
  A section of the bar: what its template last wrote, whether it has the class \<open>expanded\<close> (it has \<open>collapsed\<close> otherwise),
  and whether the height of its paths is not zero.
\<close>

record bar_section =
  ns_rendered :: bool
  ns_expanded :: bool
  ns_open :: bool

datatype nav_mode = Toggle | Expand | Collapse

definition expandCollapseNavBarTag :: "nav_mode \<Rightarrow> bar_section \<Rightarrow> bar_section" where
  "expandCollapseNavBarTag m s =
     (if ns_expanded s \<and> m \<noteq> Expand then s\<lparr>ns_open := False, ns_expanded := False\<rparr>
      else if \<not> ns_expanded s \<and> m \<noteq> Collapse then s\<lparr>ns_expanded := True, ns_open := True\<rparr>
      else s)"

datatype nav_event =
    NavTarget jstr "nat option" bool   \<comment> \<open>the target's action, the section it is in, and whether it is a click or the enter key\<close>
  | OpenForPath nat                    \<comment> \<open>the focused template opens the section of its operation\<close>
  | Rendered "bool list"               \<comment> \<open>what the template writes for each section\<close>

definition render_section :: "bool \<Rightarrow> bar_section \<Rightarrow> bar_section" where
  \<comment> \<open>an attribute is written when its value is not the one written last\<close>
  "render_section b s = (if b = ns_rendered s then s else s\<lparr>ns_rendered := b, ns_expanded := b, ns_open := b\<rparr>)"

definition upd_nth :: "nat \<Rightarrow> ('a \<Rightarrow> 'a) \<Rightarrow> 'a list \<Rightarrow> 'a list" where
  "upd_nth i f xs = (if i < length xs then xs[i := f (xs ! i)] else xs)"

fun nav_step :: "nav_event \<Rightarrow> bar_section list \<Rightarrow> bar_section list" where
  "nav_step (NavTarget action sec trigger) ss =
     (if \<not> trigger then ss
      else if action = js ''expand-all'' then map (\<lambda>s. s\<lparr>ns_expanded := True, ns_open := True\<rparr>) ss
      else if action = js ''collapse-all'' then map (\<lambda>s. s\<lparr>ns_expanded := False, ns_open := False\<rparr>) ss
      else if action = js ''expand-collapse-tag''
      then (case sec of None \<Rightarrow> ss | Some i \<Rightarrow> upd_nth i (expandCollapseNavBarTag Toggle) ss)
      else ss)"
| "nav_step (OpenForPath i) ss = upd_nth i (expandCollapseNavBarTag Expand) ss"
| "nav_step (Rendered bs) ss = map (\<lambda>(b, s). render_section b s) (zip bs ss) @ drop (length bs) ss"

definition first_rendered :: "reference \<Rightarrow> bar_section list" where
  "first_rendered st = map (\<lambda>g. let b = in_read_mode st \<or> tg_expanded g in \<lparr>ns_rendered = b, ns_expanded = b, ns_open = b\<rparr>) (shown_groups st)"

section \<open>Lemmas\<close>

lemma nav_item_class [simp]:
  "with_attr ''class'' c (nav_item d i a co ks # ls) =
     (if d = c then [nav_item d i a co ks] else []) @ with_attr ''class'' c ks @ with_attr ''class'' c ls"
  by (simp add: nav_item_def)

lemma with_attr_map: "(\<And>x. x \<in> set xs \<Longrightarrow> with_attr n v [f x] = g x) \<Longrightarrow> with_attr n v (map f xs) = concat (map g xs)"
proof (induction xs)
  case (Cons x xs)
  have "with_attr n v (map f (x # xs)) = with_attr n v [f x] @ with_attr n v (map f xs)"
    by (simp only: with_attr_simps(2) [symmetric] append_Cons append_Nil list.map)
  then show ?case using Cons by simp
qed simp

lemma path_class_eq: "\<exists>t. path_class st = 110 # 97 # 118 # 45 # 98 # 97 # 114 # 45 # 112 # 97 # 116 # 104 # 32 # t"
  by (simp add: path_class_def marked_class_def js_def)

lemma no_path_links:
  "with_attr ''class'' (path_class st) (nav_filter st) = []"
  "with_attr ''class'' (path_class st) (nav_overview slug st) = []"
  "with_attr ''class'' (path_class st) (nav_info st i t # ks) = with_attr ''class'' (path_class st) ks"
  "with_attr ''class'' (path_class st) (nav_operations_top st # ks) = with_attr ''class'' (path_class st) ks"
  "with_attr ''class'' (path_class st) (nav_components st) = []"
  "with_attr ''class'' (path_class st) (tag_link st g # ks) = with_attr ''class'' (path_class st) ks"
  "with_attr ''class'' (path_class st) (map (heading_link slug st j) ts) = []"
proof -
  obtain t' where c: "path_class st = 110 # 97 # 118 # 45 # 98 # 97 # 114 # 45 # 112 # 97 # 116 # 104 # 32 # t'" using path_class_eq by blast
  have h: "with_attr ''class'' (path_class st) (map (heading_link slug st j) ts) = []" for j ts
    by (induction ts) (simp_all add: heading_link_def c js_def)
  have i: "with_attr ''class'' (path_class st) (nav_info st i t # ks) = with_attr ''class'' (path_class st) ks" for i t ks
    by (simp add: nav_info_def marked_class_def c js_def)
  show "with_attr ''class'' (path_class st) (map (heading_link slug st j) ts) = []" by (rule h)
  show "with_attr ''class'' (path_class st) (nav_info st i t # ks) = with_attr ''class'' (path_class st) ks" for i t by (rule i)
  show "with_attr ''class'' (path_class st) (nav_filter st) = []" by (simp add: nav_filter_def c js_def)
  have n: "js ''overview-headers'' \<noteq> path_class st" by (simp add: c js_def)
  show "with_attr ''class'' (path_class st) (nav_overview slug st) = []"
    using h [of "js ''overview''" "rs_infoHeaders (spec_of st)"] i [of "''overview''" "info_title st"] n
    by (simp add: nav_overview_def)
  show "with_attr ''class'' (path_class st) (nav_operations_top st # ks) = with_attr ''class'' (path_class st) ks"
    by (simp add: nav_operations_top_def) (simp add: c js_def)
  show "with_attr ''class'' (path_class st) (tag_link st g # ks) = with_attr ''class'' (path_class st) ks"
    by (simp add: tag_link_def marked_class_def c js_def Let_def)
  have sub: "with_attr ''class'' (path_class st) (map (\<lambda>b. nav_item (js ''nav-bar-path'') (js ''cmp--'' @ sb_id b) navigate (js ''cmp--'' @ sb_id b)
      [el ''span'' [] [Txt (sb_name b)]]) bs) = []" for bs
    by (induction bs) (simp_all add: c js_def)
  have "with_attr ''class'' (path_class st) (concat (map (\<lambda>c. show_if (cg_subs c \<noteq> [])
          (nav_item (js ''nav-bar-tag'') (js ''cmp--'' @ toLowerCase (cg_name c)) navigate (js ''cmp--'' @ toLowerCase (cg_name c)) [Txt (cg_name c)] #
           map (\<lambda>b. nav_item (js ''nav-bar-path'') (js ''cmp--'' @ sb_id b) navigate (js ''cmp--'' @ sb_id b) [el ''span'' [] [Txt (sb_name b)]])
             (visible_subs c))) cs)) = []" for cs
    by (induction cs) (simp_all add: sub, simp add: c js_def)
  then show "with_attr ''class'' (path_class st) (nav_components st) = []" by (simp add: nav_components_def) (simp add: c js_def)
qed

lemma path_link_only: "with_attr ''class'' (path_class st) [path_link st p] = [path_link st p]"
proof -
  obtain t' where c: "path_class st = 110 # 97 # 118 # 45 # 98 # 97 # 114 # 45 # 112 # 97 # 116 # 104 # 32 # t'" using path_class_eq by blast
  show ?thesis by (simp add: path_link_def) (simp add: c js_def)
qed

lemma path_links: "with_attr ''class'' (path_class st) (map (path_link st) ps) = map (path_link st) ps"
  using with_attr_map [of ps "''class''" "path_class st" "path_link st" "\<lambda>p. [path_link st p]"] path_link_only by simp

lemma tag_section_links: "with_attr ''class'' (path_class st) [tag_section slug st g] = map (path_link st) (matched_paths st g)"
proof -
  obtain t' where c: "path_class st = 110 # 97 # 118 # 45 # 98 # 97 # 114 # 45 # 112 # 97 # 116 # 104 # 32 # t'" using path_class_eq by blast
  have n: "js ''nav-bar-tag-and-paths '' @ u \<noteq> path_class st" "js ''tag-headers'' \<noteq> path_class st" "js ''nav-bar-paths-under-tag'' \<noteq> path_class st" for u
    by (simp_all add: c js_def)
  show ?thesis using no_path_links(6,7) path_links n by (simp add: tag_section_def)
qed

section \<open>Properties\<close>

text \<open>
  C20: The links of the navigation bar to operations are those to the operations of the document in which the search text
  occurs, group by group in the order of the document, and each leads to its operation's element.
\<close>

theorem nav_links_are_matches:
  assumes "rf_spec st = Some r" "\<not> rs_specLoadError r"
  shows "with_attr ''class'' (path_class st) [navBarTemplate slug st] =
      concat (map (\<lambda>g. map (path_link st) (filter (\<lambda>p. pathIsInSearch (rf_searchVal st) p (tg_name g)) (tg_paths g))) (rs_tags r)) \<and>
    (\<forall>p. attr_of ''data-content-id'' (path_link st p) = Some (pe_elementId p) \<and> attr_of ''data-action'' (path_link st p) = Some navigate)"
proof -
  obtain t' where c: "path_class st = 110 # 97 # 118 # 45 # 98 # 97 # 114 # 45 # 112 # 97 # 116 # 104 # 32 # t'" using path_class_eq by blast
  have n: "js ''nav-bar '' @ u \<noteq> path_class st" "js ''logo'' \<noteq> path_class st" "js ''nav-scroll'' \<noteq> path_class st" for u
    by (simp_all add: c js_def)
  have "pathIsInSearch [] p t" for p t by (auto simp: pathIsInSearch_def occurs_iff toLowerCase_Nil intro: exI [of _ "[]"])
  then have m: "matched_paths st g = filter (\<lambda>p. pathIsInSearch (rf_searchVal st) p (tg_name g)) (tg_paths g)" for g
    by (auto simp: matched_paths_def intro!: filter_cong)
  have "concat (map (\<lambda>g. map (path_link st) (matched_paths st g)) (filter (\<lambda>g. matched_paths st g \<noteq> []) gs)) =
      concat (map (\<lambda>g. map (path_link st) (matched_paths st g)) gs)" for gs
    by (induction gs) auto
  then have "with_attr ''class'' (path_class st) (map (tag_section slug st) (shown_groups st)) =
      concat (map (\<lambda>g. map (path_link st) (matched_paths st g)) (rs_tags r))"
    using with_attr_map [of "shown_groups st" "''class''" "path_class st" "tag_section slug st" "\<lambda>g. map (path_link st) (matched_paths st g)"] tag_section_links
    by (simp add: shown_groups_def m [symmetric] spec_of_def assms(1))
  moreover have "with_attr ''class'' (path_class st) [navBarTemplate slug st] = with_attr ''class'' (path_class st) (map (tag_section slug st) (shown_groups st))"
    using no_path_links n assms by (simp add: navBarTemplate_def spec_of_def)
  ultimately show ?thesis by (simp add: m path_link_def nav_item_def)
qed


theorem nav_links_are_matches_witness:
  "let st = sample_reference sample_doc\<lparr>rf_searchVal := js ''send''\<rparr> in
   with_attr ''class'' (path_class st) [navBarTemplate id st] =
     concat (map (\<lambda>g. map (path_link st) (filter (\<lambda>p. pathIsInSearch (rf_searchVal st) p (tg_name g)) (tg_paths g))) (rs_tags (shown_document sample_doc))) \<and>
   (\<forall>p. attr_of ''data-content-id'' (path_link st p) = Some (pe_elementId p) \<and> attr_of ''data-action'' (path_link st p) = Some navigate)"
  unfolding Let_def by (rule nav_links_are_matches) (simp_all add: sample_reference_def shown_document_def no_document_def)

end
