(* ===== verification/Reference_Search.thy ===== *)
theory Reference_Search
  imports Reference_Page
begin

text \<open>
  Searching in the API reference (\<open>docs/ui/assets/rapidoc-min.js\<close>): the filter of the navigation bar and the header
  (\<open>onSearchChange\<close>, \<open>onClearSearch\<close>), the dialog for the advanced search (\<open>VF\<close> and the \<open>dialog-box\<close> element), and
  the advanced search itself (\<open>onAdvancedSearch\<close>, \<open>ft\<close>) with its timer.
\<close>

section \<open>The filter\<close>

definition search_group :: "jstr \<Rightarrow> tag_group \<Rightarrow> tag_group" where
  "search_group s g = g\<lparr>tg_expanded := tg_expanded g \<or> s \<noteq> [] \<and> list_ex (\<lambda>p. pathIsInSearch s p (tg_name g)) (tg_paths g)\<rparr>"

definition search_sub :: "jstr \<Rightarrow> sub_component \<Rightarrow> sub_component" where
  "search_sub s b = b\<lparr>sb_expanded := Some (occurs (toLowerCase s) (toLowerCase (sb_name b)))\<rparr>"

definition upd_subs :: "(sub_component \<Rightarrow> sub_component) \<Rightarrow> resolved \<Rightarrow> resolved" where
  "upd_subs f r = r\<lparr>rs_components := map (\<lambda>c. c\<lparr>cg_subs := map f (cg_subs c)\<rparr>) (rs_components r)\<rparr>"

definition onSearchChange :: "jstr \<Rightarrow> reference \<Rightarrow> reference" where
  "onSearchChange s st =
     st\<lparr>rf_searchVal := s,
       rf_spec := map_option (\<lambda>r. upd_subs (search_sub s) (r\<lparr>rs_tags := map (search_group s) (rs_tags r)\<rparr>)) (rf_spec st)\<rparr>"

definition onClearSearch :: "reference \<Rightarrow> reference" where
  "onClearSearch st = st\<lparr>rf_searchVal := [], rf_spec := map_option (upd_subs (\<lambda>b. b\<lparr>sb_expanded := Some True\<rparr>)) (rf_spec st)\<rparr>"

section \<open>The advanced search\<close>

lemma fold_opt_cong [fundef_cong]:
  "xs = ys \<Longrightarrow> s = t \<Longrightarrow> (\<And>x s. x \<in> set ys \<Longrightarrow> f x s = g x s) \<Longrightarrow> fold_opt f xs s = fold_opt g ys t"
  by (induction ys arbitrary: xs s t) (auto intro!: Option.bind_cong)

definition add_name :: "jstr \<Rightarrow> jstr list \<Rightarrow> jstr list" where
  "add_name k ns = (if k \<in> set ns then ns else ns @ [k])"

lemma size_map_of: "map_of kvs k = Some v \<Longrightarrow> size v < size (JObj kvs)"
  by (induction kvs) (auto split: if_splits)

lemma entry_size: "entry k v = Some w \<Longrightarrow> size w < size v"
  by (cases v) (auto dest: size_map_of)

lemma size_field: "(k, v) \<in> set (object_fields e) \<Longrightarrow> entry n v = Some w \<Longrightarrow> size w < size e"
proof -
  assume f: "(k, v) \<in> set (object_fields e)" and w: "entry n v = Some w"
  have "size v \<le> size e"
  proof (cases e)
    case (JArr vs)
    then have "v \<in> set vs" using f by (auto simp: object_fields_def dest: set_zip_rightD)
    then show ?thesis using JArr size_list_estimation' [of v vs "size v" size] by simp
  next
    case (JObj kvs)
    then show ?thesis using f size_list_estimation' [of "(k, v)" kvs "size v" "size_prod (\<lambda>x. 0) size"] by (simp add: object_fields_def)
  next
    case (JStr s)
    then have "v \<in> set (map (\<lambda>c. JStr [c]) s)" using f by (auto simp: object_fields_def dest: set_zip_rightD)
    then show ?thesis using w by auto
  qed (use f in \<open>auto simp: object_fields_def\<close>)
  then show "size w < size e" using entry_size [OF w] by simp
qed

function schemaKeys :: "json \<Rightarrow> jstr list \<Rightarrow> jstr list option" where
  \<comment> \<open>the names of properties at all depths, each once\<close>
  "schemaKeys e ns =
     fold_opt (\<lambda>kv s.
       if snd kv = JNull then None
       else if truthy_entry ''properties'' (snd kv) then schemaKeys (the (entry ''properties'' (snd kv))) (add_name (fst kv) s)
       else case entry ''items'' (snd kv) of
           Some it \<Rightarrow> if truthy_entry ''properties'' it then schemaKeys (the (entry ''properties'' it)) (add_name (fst kv) s) else Some (add_name (fst kv) s)
         | None \<Rightarrow> Some (add_name (fst kv) s))
       (object_fields e) ns"
  by pat_completeness auto
termination
proof (relation "measure (\<lambda>(e, ns). size e)")
  fix e ns kv s
  assume kv: "kv \<in> set (object_fields e)" and p: "truthy_entry ''properties'' (snd kv)"
  obtain w where "entry ''properties'' (snd kv) = Some w" using p by (cases "entry ''properties'' (snd kv)") (auto simp: truthy_entry_def)
  then show "((the (entry ''properties'' (snd kv)), add_name (fst kv) s), e, ns) \<in> measure (\<lambda>(e, ns). size e)"
    using size_field [of "fst kv" "snd kv" e] kv by simp
next
  fix e ns kv s it
  assume kv: "kv \<in> set (object_fields e)" and i: "entry ''items'' (snd kv) = Some it" and p: "truthy_entry ''properties'' it"
  obtain w where "entry ''properties'' it = Some w" using p by (cases "entry ''properties'' it") (auto simp: truthy_entry_def)
  then show "((the (entry ''properties'' it), add_name (fst kv) s), e, ns) \<in> measure (\<lambda>(e, ns). size e)"
    using size_field [of "fst kv" "snd kv" e] kv i entry_size [of "''properties''" it w] by fastforce
qed simp

declare schemaKeys.simps [simp del]

definition words_text :: "jstr list \<Rightarrow> jstr" where
  "words_text = join (js '' '')"

definition body_step :: "jstr \<times> json \<Rightarrow> jstr list \<times> jstr \<Rightarrow> (jstr list \<times> jstr) option" where
  \<comment> \<open>the names found last are written again for a content without properties\<close>
  "body_step kv s = do {
     ns \<leftarrow> (if snd kv = JNull then None
            else case entry ''schema'' (snd kv) of
                Some sch \<Rightarrow> if truthy_entry ''properties'' sch then schemaKeys (the (entry ''properties'' sch)) [] else Some (fst s)
              | None \<Rightarrow> Some (fst s));
     Some (ns, snd s @ js '' '' @ words_text ns) }"

definition response_texts :: "json option \<Rightarrow> jstr list option" where
  "response_texts rs = do {
     kvs \<leftarrow> own_entries rs;
     map_opt (\<lambda>(k, v). if v = JNull then None else Some (or_text (entry ''description'' v))) kvs }"

definition advanced_text :: "jstr list \<Rightarrow> path_entry \<Rightarrow> jstr option" where
  "advanced_text os p = do {
     let n1 = (if js ''search-api-path'' \<in> set os then pe_path p else []);
     let n2 = (if js ''search-api-descr'' \<in> set os then n1 @ js '' '' @ pe_summary p @ or_text (Some (pe_description p)) else n1);
     n3 \<leftarrow> (if js ''search-api-params'' \<in> set os
            then if JNull \<in> set (pe_parameters p) then None
              else Some (n2 @ js '' '' @ words_text (map (\<lambda>e. shown (entry ''name'' e)) (pe_parameters p)))
            else Some n2);
     n4 \<leftarrow> (if js ''search-api-request-body'' \<in> set os \<and> is_truthy (pe_requestBody p)
            then map_option snd (fold_opt body_step (case entry ''content'' (the (pe_requestBody p)) of None \<Rightarrow> [] | Some c \<Rightarrow> object_fields c) ([], n3))
            else Some n3);
     if js ''search-api-resp-descr'' \<in> set os then map_option (\<lambda>ts. n4 @ js '' '' @ words_text ts) (response_texts (pe_responses p)) else Some n4 }"

definition match_of :: "path_entry \<Rightarrow> search_match" where
  "match_of p = \<lparr>sm_elementId = pe_elementId p, sm_method = pe_method p, sm_path = pe_path p,
     sm_summary = (if pe_summary p \<noteq> [] then pe_summary p else or_text (Some (pe_description p))), sm_deprecated = is_deprecated p\<rparr>"

definition matches_path :: "jstr \<Rightarrow> jstr list \<Rightarrow> path_entry \<Rightarrow> bool option" where
  "matches_path s os p = map_option (\<lambda>t. occurs (toLowerCase (trim s)) (toLowerCase t)) (advanced_text os p)"

definition advancedSearch :: "jstr \<Rightarrow> tag_group list \<Rightarrow> jstr list \<Rightarrow> search_match list option" where
  \<comment> \<open>nothing to search for, or nowhere, gives no matches\<close>
  "advancedSearch s gs os =
     (if trim s = [] \<or> os = [] then Some []
      else map_option (map match_of) (filter_opt (matches_path s os) (concat (map tg_paths gs))))"

section \<open>The dialog\<close>

definition checkbox :: "string \<Rightarrow> bool \<Rightarrow> string \<Rightarrow> page_act html" where
  "checkbox i on label =
     el ''div'' []
       [El ''input'' ([(''type'', js ''checkbox''), (''id'', js i)] @ show_if on [(''checked'', [])]) [(''change'', AdvancedSearch 0)] [],
        el ''label'' [(''for'', js i)] [lit label]]"

definition match_line :: "search_match \<Rightarrow> page_act html" where
  "match_line m =
     El ''div'' [cls ''mono-font small-font-size hover-bg'', (''data-content-id'', sm_elementId m)] [(''click'', OpenMatch (sm_elementId m))]
       [el ''span'' [(''class'', js ''upper bold-text method-fg '' @ sm_method m)] [Txt (sm_method m)],
        el ''span'' [] [Txt (sm_path m)],
        el ''span'' [cls ''regular-font gray-text''] [Txt (sm_summary m)]]"

definition searchDialogTemplate :: "reference \<Rightarrow> page_act html" where
  "searchDialogTemplate st =
     el ''dialog-box'' [(''heading'', js ''Search''), (''show'', bool_text (rf_showDialog st))]
       (el ''span'' [cls ''advanced-search-options'']
          [El ''input'' [(''id'', js ''input-advanced-search-dialog''), (''type'', js ''text''), (''placeholder'', js ''search text...'')]
             [(''keyup'', AdvancedSearch 400)] [],
           el ''div'' []
             [checkbox ''search-api-path'' True '' API Path '', checkbox ''search-api-descr'' True '' API Description '',
              checkbox ''search-api-params'' False '' API Parameters '', checkbox ''search-api-request-body'' False '' Request Body Parameters '',
              checkbox ''search-api-resp-descr'' False '' Response Description '']] #
        map match_line (rf_matches st))"

text \<open>The \<open>dialog-box\<close> element: what it shows, and the events that it sends to the document when it is closed or opened.\<close>

datatype dialog_act = CloseDialog

definition dialogTemplate :: "jstr \<Rightarrow> jstr \<Rightarrow> dialog_act html list" where
  "dialogTemplate heading show_it =
     show_if (show_it = js ''true'')
       [el ''div'' [cls ''dialog-box-overlay'']
          [el ''div'' [cls ''dialog-box'']
             [el ''header'' [cls ''dialog-box-header'']
                [el ''span'' [cls ''dialog-box-title''] [Txt heading],
                 El ''button'' [(''type'', js ''button'')] [(''click'', CloseDialog)] [Txt [0xD7]]],
              el ''div'' [cls ''dialog-box-content''] [el ''slot'' [] []]]]]"

record dialog =
  dg_st :: reference
  dg_timer :: "(nat \<times> jstr \<times> jstr list) option"     \<comment> \<open>when it fires, with the text and the checked options\<close>
  dg_now :: nat
  dg_focusedInput :: bool

datatype dialog_event =
    ShowDialog
  | DialogClosed                      \<comment> \<open>its button, or the escape key\<close>
  | SearchInput nat jstr "jstr list"  \<comment> \<open>the delay, the text and the options when the timer fires\<close>
  | TimePasses nat
  | OpenHit

definition fire :: "dialog \<Rightarrow> dialog" where
  \<comment> \<open>an exception in the timer leaves the matches as they were\<close>
  "fire d =
     (case dg_timer d of
        Some (t, s, os) \<Rightarrow>
          if t \<le> dg_now d
          then (case advancedSearch s (rs_tags (spec_of (dg_st d))) os of
                  None \<Rightarrow> d\<lparr>dg_timer := None\<rparr>
                | Some ms \<Rightarrow> d\<lparr>dg_timer := None, dg_st := (dg_st d)\<lparr>rf_matches := ms\<rparr>\<rparr>)
          else d
      | None \<Rightarrow> d)"

fun dialog_step :: "dialog_event \<Rightarrow> dialog \<Rightarrow> dialog" where
  "dialog_step ShowDialog d = d\<lparr>dg_st := (dg_st d)\<lparr>rf_showDialog := True\<rparr>, dg_focusedInput := True\<rparr>"
| "dialog_step DialogClosed d = d\<lparr>dg_st := (dg_st d)\<lparr>rf_showDialog := False\<rparr>\<rparr>"
| "dialog_step (SearchInput delay s os) d = fire (d\<lparr>dg_timer := Some (dg_now d + delay, s, os)\<rparr>)"
| "dialog_step (TimePasses n) d = fire (d\<lparr>dg_now := dg_now d + n\<rparr>)"
| "dialog_step OpenHit d = d\<lparr>dg_st := (dg_st d)\<lparr>rf_searchVal := [], rf_showDialog := False\<rparr>\<rparr>"

section \<open>The names of properties, as a relation\<close>

inductive property_name :: "json \<Rightarrow> jstr \<Rightarrow> bool" where
  own: "(k, v) \<in> set (object_fields e) \<Longrightarrow> property_name e k"
| below: "(k, v) \<in> set (object_fields e) \<Longrightarrow> entry ''properties'' v = Some w \<Longrightarrow> is_truthy (Some w) \<Longrightarrow> property_name w n \<Longrightarrow> property_name e n"
| in_items: "(k, v) \<in> set (object_fields e) \<Longrightarrow> \<not> truthy_entry ''properties'' v \<Longrightarrow> entry ''items'' v = Some it \<Longrightarrow>
    entry ''properties'' it = Some w \<Longrightarrow> is_truthy (Some w) \<Longrightarrow> property_name w n \<Longrightarrow> property_name e n"

definition names_under :: "json \<Rightarrow> jstr set" where
  \<comment> \<open>the names that a property brings with it\<close>
  "names_under v =
     (if truthy_entry ''properties'' v then {n. property_name (the (entry ''properties'' v)) n}
      else case entry ''items'' v of
          Some it \<Rightarrow> if truthy_entry ''properties'' it then {n. property_name (the (entry ''properties'' it)) n} else {}
        | None \<Rightarrow> {})"

lemma truthy_entryE: "truthy_entry k v \<Longrightarrow> \<exists>w. entry k v = Some w \<and> is_truthy (Some w)"
  by (cases "entry k v") (auto simp: truthy_entry_def)

lemma property_names: "{n. property_name e n} = (\<Union>kv \<in> set (object_fields e). insert (fst kv) (names_under (snd kv)))"
proof (intro set_eqI iffI)
  fix n assume "n \<in> {n. property_name e n}"
  then have "property_name e n" by simp
  then show "n \<in> (\<Union>kv \<in> set (object_fields e). insert (fst kv) (names_under (snd kv)))"
    by (cases rule: property_name.cases) (force simp: names_under_def truthy_entry_def)+
next
  fix n assume "n \<in> (\<Union>kv \<in> set (object_fields e). insert (fst kv) (names_under (snd kv)))"
  then obtain k v where kv: "(k, v) \<in> set (object_fields e)" and n: "n = k \<or> n \<in> names_under v" by force
  show "n \<in> {n. property_name e n}"
  proof (cases "n = k")
    case True
    then show ?thesis using property_name.own [OF kv] by simp
  next
    case False
    then have n': "n \<in> names_under v" using n by simp
    show ?thesis
    proof (cases "truthy_entry ''properties'' v")
      case True
      then obtain w where "entry ''properties'' v = Some w" "is_truthy (Some w)" using truthy_entryE by blast
      then show ?thesis using property_name.below [OF kv] n' True by (simp add: names_under_def)
    next
      case np: False
      then obtain it where it: "entry ''items'' v = Some it" "truthy_entry ''properties'' it" "property_name (the (entry ''properties'' it)) n"
        using n' by (auto simp: names_under_def split: option.splits if_splits)
      then obtain w where "entry ''properties'' it = Some w" "is_truthy (Some w)" using truthy_entryE by blast
      then show ?thesis using property_name.in_items [OF kv np] it by simp
    qed
  qed
qed

lemma schemaKeys_names:
  "schemaKeys e ns = Some ms \<Longrightarrow> set ms = set ns \<union> {n. property_name e n} \<and> (distinct ns \<longrightarrow> distinct ms)"
proof (induction e ns arbitrary: ms rule: schemaKeys.induct)
  case (1 e ns)
  let ?f = "\<lambda>kv s. if snd kv = JNull then None
       else if truthy_entry ''properties'' (snd kv) then schemaKeys (the (entry ''properties'' (snd kv))) (add_name (fst kv) s)
       else case entry ''items'' (snd kv) of
           Some it \<Rightarrow> if truthy_entry ''properties'' it then schemaKeys (the (entry ''properties'' it)) (add_name (fst kv) s) else Some (add_name (fst kv) s)
         | None \<Rightarrow> Some (add_name (fst kv) s)"
  have f: "fold_opt ?f (object_fields e) ns = Some ms" using "1.prems" by (simp add: schemaKeys.simps)
  have step: "set t = set s \<union> insert (fst kv) (names_under (snd kv)) \<and> (distinct s \<longrightarrow> distinct t)"
    if kv: "kv \<in> set (object_fields e)" and t: "?f kv s = Some t" for kv s t
  proof -
    have n: "snd kv \<noteq> JNull" using t by auto
    have a: "set (add_name (fst kv) s) = insert (fst kv) (set s)" "distinct s \<Longrightarrow> distinct (add_name (fst kv) s)"
      by (auto simp: add_name_def)
    show ?thesis
    proof (cases "truthy_entry ''properties'' (snd kv)")
      case True
      then show ?thesis using "1.IH"(1) [OF kv n True] t n a by (auto simp: names_under_def)
    next
      case False
      show ?thesis
      proof (cases "\<exists>it. entry ''items'' (snd kv) = Some it \<and> truthy_entry ''properties'' it")
        case True
        then obtain it where it: "entry ''items'' (snd kv) = Some it" "truthy_entry ''properties'' it" by blast
        then show ?thesis using "1.IH"(2) [OF kv n False it] t n a False by (auto simp: names_under_def)
      next
        case no: False
        then show ?thesis using t n a False by (auto simp: names_under_def split: option.splits if_splits)
      qed
    qed
  qed
  have "set ms = set ns \<union> (\<Union>kv \<in> set (object_fields e). insert (fst kv) (names_under (snd kv)))"
    using step by (intro fold_opt_union [OF _ f]) blast
  moreover have "distinct ns \<Longrightarrow> distinct ms"
    by (rule fold_opt_invariant [OF f, of distinct]) (use step in blast)+
  ultimately show ?case by (simp add: property_names [of e])
qed

lemma filter_opt_throws: "x \<in> set xs \<Longrightarrow> q x = None \<Longrightarrow> filter_opt q xs = None"
  by (induction xs) (auto split: Option.bind_splits)

section \<open>Properties\<close>

text \<open>
  C38: The search in the properties of request bodies looks at the names of all properties, at every depth of objects and
  of arrays of objects, each once.
\<close>

theorem schema_keys_are_the_names:
  assumes "schemaKeys e [] = Some ns"
  shows "set ns = {n. property_name e n} \<and> distinct ns"
  using schemaKeys_names [OF assms] by simp

theorem schema_keys_are_the_names_witness:
  "set (map js [''to'', ''id'', ''tags'', ''n'']) =
     {n. property_name (JObj [(js ''to'', JObj [(js ''properties'', JObj [(js ''id'', JObj [])])]),
        (js ''tags'', JObj [(js ''items'', JObj [(js ''properties'', JObj [(js ''n'', JObj []), (js ''id'', JObj [])])])])]) n} \<and>
   distinct (map js [''to'', ''id'', ''tags'', ''n''])"
  by (rule schema_keys_are_the_names) (simp add: schemaKeys.simps object_fields_def truthy_entry_def add_name_def)

text \<open>
  When the search includes the descriptions of responses, one operation without responses makes it fail for all: it throws,
  and the dialog goes on showing the matches of the search before.
\<close>

theorem missing_responses_stop_the_search:
  assumes "g \<in> set (rs_tags (spec_of (dg_st d)))" "p \<in> set (tg_paths g)" "pe_responses p = None"
    and "js ''search-api-resp-descr'' \<in> set os" "trim s \<noteq> []"
  shows "rf_matches (dg_st (dialog_step (SearchInput 0 s os) d)) = rf_matches (dg_st d)"
proof -
  have "matches_path s os p = None"
    using assms(3,4) by (simp add: matches_path_def advanced_text_def response_texts_def own_entries_def Option.bind_eq_None_conv Let_def)
  moreover have "p \<in> set (concat (map tg_paths (rs_tags (spec_of (dg_st d)))))" using assms(1,2) by auto
  ultimately have "filter_opt (matches_path s os) (concat (map tg_paths (rs_tags (spec_of (dg_st d))))) = None" by (rule filter_opt_throws [rotated])
  moreover have "os \<noteq> []" using assms(4) by auto
  ultimately have "advancedSearch s (rs_tags (spec_of (dg_st d))) os = None" using assms(5) by (simp add: advancedSearch_def)
  then show ?thesis by (simp add: fire_def)
qed

text \<open>
  After the filter is entered, every group in which an operation matches is expanded, and no group is closed.
\<close>

theorem filter_opens_groups:
  assumes "rf_spec st = Some r" "s \<noteq> []"
  shows "list_all2 (\<lambda>g h. tg_paths h = tg_paths g \<and> tg_name h = tg_name g \<and>
      (tg_expanded h \<longleftrightarrow> tg_expanded g \<or> list_ex (\<lambda>p. pathIsInSearch s p (tg_name g)) (tg_paths g))) (rs_tags r) (rs_tags (spec_of (onSearchChange s st)))"
  using assms by (simp add: onSearchChange_def spec_of_def upd_subs_def search_group_def list_all2_map2 list_all2_same)

definition bare_entry :: "string \<Rightarrow> string \<Rightarrow> path_entry" where
  "bare_entry m p = new_entry (js p) (js m) (JObj []) (JObj []) [] [] None []"

definition bare_group :: "string \<Rightarrow> path_entry list \<Rightarrow> tag_group" where
  "bare_group n ps = (new_group (\<lambda>_. []) (js n) None [] False)\<lparr>tg_paths := ps\<rparr>"

definition two_groups :: resolved where
  "two_groups = no_document\<lparr>rs_tags := [bare_group ''chats'' [bare_entry ''get'' ''/chats'', bare_entry ''post'' ''/chats''], bare_group ''keys'' [bare_entry ''get'' ''/keys'']]\<rparr>"

definition two_groups_reference :: reference where
  "two_groups_reference = (sample_reference [])\<lparr>rf_spec := Some two_groups, rf_matches := [match_of (bare_entry ''get'' ''/keys'')]\<rparr>"

lemma two_groups_tags: "rs_tags (spec_of two_groups_reference) = rs_tags two_groups"
  by (simp add: two_groups_reference_def spec_of_def)

theorem missing_responses_stop_the_search_witness:
  "rf_matches (dg_st (dialog_step (SearchInput 0 (js ''chats'') [js ''search-api-path'', js ''search-api-resp-descr''])
     \<lparr>dg_st = two_groups_reference, dg_timer = None, dg_now = 7, dg_focusedInput = True\<rparr>)) = [match_of (bare_entry ''get'' ''/keys'')]"
proof -
  let ?d = "\<lparr>dg_st = two_groups_reference, dg_timer = None, dg_now = 7, dg_focusedInput = True\<rparr>"
  have "rf_matches (dg_st (dialog_step (SearchInput 0 (js ''chats'') [js ''search-api-path'', js ''search-api-resp-descr'']) ?d)) = rf_matches (dg_st ?d)"
  proof (rule missing_responses_stop_the_search)
    show "bare_group ''keys'' [bare_entry ''get'' ''/keys''] \<in> set (rs_tags (spec_of (dg_st ?d)))" by (simp add: two_groups_tags) (simp add: two_groups_def)
    show "bare_entry ''get'' ''/keys'' \<in> set (tg_paths (bare_group ''keys'' [bare_entry ''get'' ''/keys'']))" by (simp add: bare_group_def)
    show "pe_responses (bare_entry ''get'' ''/keys'') = None" by (simp add: bare_entry_def new_entry_def)
    show "js ''search-api-resp-descr'' \<in> set [js ''search-api-path'', js ''search-api-resp-descr'']" by simp
    show "trim (js ''chats'') \<noteq> []" by code_simp
  qed
  then show ?thesis by (simp add: two_groups_reference_def)
qed

theorem filter_opens_groups_witness:
  "list_all2 (\<lambda>g h. tg_paths h = tg_paths g \<and> tg_name h = tg_name g \<and>
      (tg_expanded h \<longleftrightarrow> tg_expanded g \<or> list_ex (\<lambda>p. pathIsInSearch (js ''key'') p (tg_name g)) (tg_paths g)))
     (rs_tags two_groups) (rs_tags (spec_of (onSearchChange (js ''key'') two_groups_reference)))"
  by (rule filter_opens_groups) (simp_all add: two_groups_reference_def)

end
