(* ===== verification/Api_Response.thy ===== *)
theory Api_Response
  imports Operation Schema_Notation
begin

text \<open>
  The \<open>api-response\<close> component of the API reference (\<open>docs/ui/assets/rapidoc-min.js\<close>): the panel beside an operation
  that shows its documented responses, each with its headers and, for the selected media type, its examples or its
  schema. A render fills in what is not selected yet, so it is also a step of the state. Schemas are converted by
  \<open>Schema_Notation\<close>; the generator of examples (\<open>dF\<close>) is an argument. A media type that is \<open>undefined\<close> is the empty one:
  a render replaces both.
\<close>

section \<open>State\<close>

record response_panel =
  rp_responses :: "json option"
  rp_callback :: jstr
  rp_webhook :: jstr
  rp_renderStyle :: jstr
  rp_schemaStyle :: jstr
  rp_expandLevel :: jstr
  rp_descrExpanded :: jstr
  rp_descrToggle :: jstr
  rp_hideReadOnly :: jstr
  rp_hideWriteOnly :: jstr
  rp_status :: jstr                 \<comment> \<open>\<open>selectedStatus\<close>\<close>
  rp_mime :: jstr                   \<comment> \<open>\<open>selectedMimeType\<close>\<close>
  rp_schemaTab :: jstr              \<comment> \<open>\<open>activeSchemaTab\<close>\<close>

datatype resp_act = ChooseStatus jstr | SchemaTabs | ChooseMime | ChooseExample

record mime_response =
  mr_mime :: jstr
  mr_examples :: "gen_example list"
  mr_selected :: jstr               \<comment> \<open>\<open>selectedExample\<close>\<close>
  mr_schema :: "json option"        \<comment> \<open>\<open>schemaTree\<close>\<close>

definition fields_of :: "json option \<Rightarrow> (jstr \<times> json) list" where
  \<comment> \<open>\<open>for (k in e)\<close>, and \<open>Object.keys\<close>\<close>
  "fields_of e = (case e of None \<Rightarrow> [] | Some v \<Rightarrow> object_fields v)"

definition contents :: "json \<Rightarrow> (jstr \<times> json) list" where
  "contents resp = fields_of (entry ''content'' resp)"

section \<open>What is selected\<close>

definition first_or :: "jstr list \<Rightarrow> jstr \<Rightarrow> jstr" where
  \<comment> \<open>\<open>s || (s = k)\<close> for all keys\<close>
  "first_or ks s = fold (\<lambda>k s. if s = [] then k else s) ks s"

definition settle :: "response_panel \<Rightarrow> response_panel" where
  "settle p =
     p\<lparr>rp_status := first_or (map fst (fields_of (rp_responses p))) (rp_status p),
       rp_mime := first_or (map fst (concat (map (contents \<circ> snd) (fields_of (rp_responses p))))) (rp_mime p)\<rparr>"

definition resetSelection :: "response_panel \<Rightarrow> response_panel" where
  "resetSelection p = p\<lparr>rp_status := [], rp_mime := []\<rparr>"

definition response_of :: "response_panel \<Rightarrow> jstr \<Rightarrow> json" where
  "response_of p s = (case map_of (fields_of (rp_responses p)) s of None \<Rightarrow> JNull | Some r \<Rightarrow> r)"

definition choose_status :: "jstr \<Rightarrow> response_panel \<Rightarrow> response_panel option" where
  \<comment> \<open>throws for a response that is \<open>null\<close>\<close>
  "choose_status s p =
     (if response_of p s = JNull then None
      else Some (p\<lparr>rp_status := s,
        rp_mime := (case entry ''content'' (response_of p s) of
            Some c \<Rightarrow> (case object_fields c of (k, v) # _ \<Rightarrow> k | [] \<Rightarrow> [])
          | None \<Rightarrow> [])\<rparr>))"

section \<open>Media types and headers of a response\<close>

definition mime_response :: "(gen_args \<Rightarrow> gen_example list option) \<Rightarrow> response_panel \<Rightarrow> jstr \<times> json \<Rightarrow> mime_response option" where
  "mime_response gen p rc =
     (case rc of (r, c) \<Rightarrow>
        if c = JNull then None
        else do {
          tree \<leftarrow> notation_of (entry ''schema'' c);
          exs \<leftarrow> standardizeExample (entry ''examples'' c);
          ex \<leftarrow> standardizeExample (entry ''example'' c);
          gs \<leftarrow> gen \<lparr>ga_schema = entry ''schema'' c, ga_mime = r, ga_examples = exs, ga_example = ex,
              ga_readOnly = (rp_callback p \<noteq> js ''true'' \<and> rp_webhook p \<noteq> js ''true''),
              ga_writeOnly = (rp_callback p = js ''true'' \<or> rp_webhook p = js ''true''), ga_text = (\<not> occurs (js ''json'') r)\<rparr>;
          Some \<lparr>mr_mime = r, mr_examples = gs, mr_selected = (case gs of [] \<Rightarrow> [] | g # _ \<Rightarrow> exampleId g), mr_schema = tree\<rparr> })"

definition response_header :: "jstr \<times> json \<Rightarrow> json" where
  "response_header nh = (case nh of (n, h) \<Rightarrow> JObj (put_entries (object_fields h) [(js ''name'', JStr n)]))"

definition response_headers :: "json \<Rightarrow> json list" where
  "response_headers resp = map response_header (fields_of (entry ''headers'' resp))"

section \<open>Templates\<close>

definition header_row :: "json \<Rightarrow> resp_act html" where
  "header_row h =
     (let sch = (case entry ''schema'' h of None \<Rightarrow> JNull | Some s \<Rightarrow> s) in
      el ''tr'' []
        [el ''td'' [] [Txt (or_text (entry ''name'' h))],
         el ''td'' [] [Txt (or_text (entry ''type'' sch))],
         el ''td'' [] [el ''div'' [cls ''m-markdown-small regular-font''] [Md (or_text (entry ''description'' h))]],
         el ''td'' [] [Txt (or_text (entry ''example'' sch))]])"

definition responseHeaderListTemplate :: "json list \<Rightarrow> resp_act html list" where
  "responseHeaderListTemplate hs =
     [el ''div'' [cls ''resp-headers small-font-size bold-text''] [lit ''RESPONSE HEADERS''],
      el ''table'' [cls ''small-font-size mono-font''] (map header_row hs)]"

definition mimeTypeDropdownTemplate :: "response_panel \<Rightarrow> jstr list \<Rightarrow> resp_act html" where
  "mimeTypeDropdownTemplate p ms =
     El ''select'' [(''aria-label'', js ''mime types'')] [(''change'', ChooseMime)]
       (map (\<lambda>m. el ''option'' ((''value'', m) # show_if (m = rp_mime p) [(''?selected'', [])]) [Txt m]) ms)"

definition panel_class :: "response_panel \<Rightarrow> string \<Rightarrow> string \<Rightarrow> string \<times> jstr" where
  "panel_class p a b = cls (if rp_renderStyle p = js ''read'' then a else b)"

definition example_texts :: "gen_example \<Rightarrow> resp_act html list" where
  "example_texts g =
     show_if (length (exampleSummary g) > 80) [el ''div'' [] [Txt (exampleSummary g)]] @
     show_if (exampleDescription g \<noteq> []) [el ''div'' [cls ''m-markdown-small''] [Md (exampleDescription g)]]"

definition example_view :: "response_panel \<Rightarrow> (string \<times> jstr) list \<Rightarrow> gen_example \<Rightarrow> resp_act html" where
  "example_view p c g =
     (if exampleFormat g = js ''json'' then el ''json-tree'' ([(''render-style'', rp_renderStyle p), (''.data'', data_text (Some (exampleValue g)))] @ c) []
      else el ''pre'' c [Txt (shown (Some (exampleValue g)))])"

definition mimeExampleTemplate :: "response_panel \<Rightarrow> mime_response option \<Rightarrow> resp_act html list" where
  "mimeExampleTemplate p m =
     (case m of
        None \<Rightarrow> [el ''pre'' [panel_class p ''read example-panel border pad-8-16'' ''example-panel border-top''] [lit '' No example provided '']]
      | Some e \<Rightarrow>
          (let panel = panel_class p ''example-panel border pad-8-16'' ''example-panel border-top pad-top-8'' in
           case mr_examples e of
             [g] \<Rightarrow> example_texts g @ [example_view p [panel] g]
           | gs \<Rightarrow>
               [el ''span'' [panel]
                  (El ''select'' [(''aria-label'', js ''response examples'')] [(''change'', ChooseExample)]
                     (map (\<lambda>g. el ''option'' ((''value'', exampleId g) # show_if (exampleId g = mr_selected e) [(''?selected'', [])])
                        [Txt (if length (exampleSummary g) > 80 then exampleId g else exampleSummary g)]) gs) #
                   map (\<lambda>g. el ''div'' [cls ''example'', (''data-example'', exampleId g), display (exampleId g = mr_selected e)]
                     (example_texts g @ [example_view p [] g])) gs)]))"

definition show_example :: "jstr \<Rightarrow> resp_act html \<Rightarrow> resp_act html" where
  "show_example v k =
     (case k of
        El t as hs ks \<Rightarrow>
          if map_of as ''class'' = Some (js ''example'')
          then El t (map (\<lambda>(a, w). if a = ''display'' then display (map_of as ''data-example'' = Some v) else (a, w)) as) hs ks
          else k
      | _ \<Rightarrow> k)"

definition onSelectExample :: "jstr \<Rightarrow> resp_act html \<Rightarrow> resp_act html" where
  \<comment> \<open>in the panel of the examples: it changes the page, not the state\<close>
  "onSelectExample v panel = (case panel of El t as hs ks \<Rightarrow> El t as hs (map (show_example v) ks) | _ \<Rightarrow> panel)"

definition mimeSchemaTemplate :: "response_panel \<Rightarrow> mime_response option \<Rightarrow> resp_act html list" where
  "mimeSchemaTemplate p m =
     (case m of
        None \<Rightarrow> [el ''pre'' [panel_class p ''border pad-8-16'' ''border-top''] [lit '' Schema not found'']]
      | Some e \<Rightarrow>
          [el (if rp_schemaStyle p = js ''table'' then ''schema-table'' else ''schema-tree'')
             [(''.data'', data_text (mr_schema e)), (''schema-expand-level'', rp_expandLevel p), (''schema-description-expanded'', rp_descrExpanded p),
              (''allow-schema-description-expand-toggle'', rp_descrToggle p), (''schema-hide-read-only'', rp_hideReadOnly p),
              (''schema-hide-write-only'', rp_hideWriteOnly p)] []])"

definition find_mime :: "jstr \<Rightarrow> mime_response list \<Rightarrow> mime_response option" where
  "find_mime m ms = find (\<lambda>e. mr_mime e = m) ms"

definition mime_tabs :: "response_panel \<Rightarrow> mime_response list \<Rightarrow> resp_act html list" where
  "mime_tabs p ms =
     show_if (ms \<noteq> [])
       [el ''div'' [cls ''tab-panel col'']
          [El ''div'' [cls ''tab-buttons row''] [(''click'', SchemaTabs)]
             [el ''button'' [(''class'', js ''tab-btn '' @ js (if rp_schemaTab p = js ''example'' then ''active'' else [])), (''data-tab'', js ''example'')] [lit ''EXAMPLE ''],
              el ''button'' [(''class'', js ''tab-btn '' @ js (if rp_schemaTab p \<noteq> js ''example'' then ''active'' else [])), (''data-tab'', js ''schema'')] [lit ''SCHEMA''],
              el ''div'' [] [],
              (case ms of [m] \<Rightarrow> el ''span'' [cls ''small-font-size gray-text''] [Txt (mr_mime m)]
               | _ \<Rightarrow> mimeTypeDropdownTemplate p (map mr_mime ms))],
           el ''div'' [cls ''tab-content col'']
             (if rp_schemaTab p = js ''example'' then mimeExampleTemplate p (find_mime (rp_mime p) ms)
              else mimeSchemaTemplate p (find_mime (rp_mime p) ms))]]"

definition status_block :: "response_panel \<Rightarrow> jstr \<times> json \<Rightarrow> mime_response list \<Rightarrow> resp_act html" where
  "status_block p sr ms =
     (case sr of (s, resp) \<Rightarrow>
        el ''div'' [display (s = rp_status p)]
          (el ''div'' [cls ''top-gap'']
             (el ''span'' [cls ''resp-descr m-markdown ''] [Md (or_text (entry ''description'' resp))] #
              show_if (response_headers resp \<noteq> []) (responseHeaderListTemplate (response_headers resp))) #
           mime_tabs p ms))"

definition status_button :: "response_panel \<Rightarrow> jstr \<Rightarrow> resp_act html list" where
  "status_button p s =
     show_if (s \<noteq> js ''$$ref'')
       [El ''button'' [(''class'', js ''m-btn small '' @ js (if rp_status p = s then ''primary'' else []))] [(''click'', ChooseStatus s)] [Txt s]]"

definition all_mimes :: "(gen_args \<Rightarrow> gen_example list option) \<Rightarrow> response_panel \<Rightarrow> mime_response list list option" where
  "all_mimes gen p = map_opt (\<lambda>(s, resp). map_opt (mime_response gen p) (contents resp)) (fields_of (rp_responses p))"

definition responseTemplate :: "(gen_args \<Rightarrow> gen_example list option) \<Rightarrow> response_panel \<Rightarrow> resp_act html list option" where
  \<comment> \<open>of a settled state\<close>
  "responseTemplate gen p =
     (if \<not> is_truthy (rp_responses p) then Some []
      else map_option (\<lambda>mss.
        (let rs = fields_of (rp_responses p) in
         (if length rs > 1 then el ''div'' [cls ''row''] (concat (map (status_button p \<circ> fst) rs))
          else el ''span'' [] (map (Txt \<circ> fst) rs)) #
         map (\<lambda>(sr, ms). status_block p sr ms) (zip rs mss))) (all_mimes gen p))"

definition render_response :: "(gen_args \<Rightarrow> gen_example list option) \<Rightarrow> response_panel \<Rightarrow> (response_panel \<times> resp_act html) option" where
  "render_response gen p =
     map_option (\<lambda>ks.
       (settle p,
        el ''div'' [(''class'', js ''col regular-font response-panel '' @ rp_renderStyle p @ js ''-mode'')]
          [el ''div'' [cls (if rp_callback p = js ''true'' then ''tiny-title'' else ''req-res-title'')]
             [lit (if rp_callback p = js ''true'' then ''CALLBACK RESPONSE'' else ''RESPONSE'')],
           el ''div'' [] ks]))
     (responseTemplate gen (settle p))"


section \<open>Events\<close>

text \<open>
  What the reader can choose, and what navigating does in the focused style: the component is given the responses of
  another operation, and then its selection is reset (\<open>scrollToPath\<close>). A render follows every event. An event that the
  page does not offer, or a handler that throws, has no next state.
\<close>

datatype response_event =
    StatusClicked jstr
  | MimeChosen jstr
  | TabClicked jstr
  | Navigated "json option"

fun response_step :: "response_event \<Rightarrow> response_panel \<Rightarrow> response_panel option" where
  "response_step (StatusClicked s) p =
     (if s \<in> fst ` set (fields_of (rp_responses p)) then map_option settle (choose_status s p) else None)"
| "response_step (MimeChosen m) p =
     (if m \<in> fst ` set (contents (response_of p (rp_status p))) then Some (settle (p\<lparr>rp_mime := m\<rparr>)) else None)"
| "response_step (TabClicked t) p = Some (settle (p\<lparr>rp_schemaTab := t\<rparr>))"
| "response_step (Navigated rs) p = Some (settle (resetSelection (p\<lparr>rp_responses := rs\<rparr>)))"

definition unselected :: "response_panel \<Rightarrow> bool" where
  \<comment> \<open>as the templates create the component: \<open>selected-status\<close> is the first response\<close>
  "unselected p \<longleftrightarrow> rp_mime p = [] \<and>
     (rp_status p = [] \<or> (case fields_of (rp_responses p) of [] \<Rightarrow> False | (s, r) # _ \<Rightarrow> rp_status p = s))"

fun given_responses :: "response_event \<Rightarrow> json option" where
  "given_responses (Navigated rs) = rs"
| "given_responses _ = None"

definition named_keys :: "json option \<Rightarrow> bool" where
  \<comment> \<open>no response and no media type has an empty name\<close>
  "named_keys rs \<longleftrightarrow> list_all (\<lambda>(s, r). s \<noteq> [] \<and> list_all (\<lambda>(m, c). m \<noteq> []) (contents r)) (fields_of rs)"

definition offers_selected :: "response_panel \<Rightarrow> bool" where
  "offers_selected p \<longleftrightarrow>
     (contents (response_of p (rp_status p)) = [] \<or> rp_mime p \<in> fst ` set (contents (response_of p (rp_status p))))"

section \<open>The selected media type\<close>

lemma fst_image_contents: "fst ` set (contents r) = set (map fst (contents r))"
  by simp

lemma first_or_kept [simp]: "s \<noteq> [] \<Longrightarrow> first_or ks s = s"
  unfolding first_or_def by (induction ks) auto

lemma first_or_Nil [simp]: "first_or [] s = s"
  by (simp add: first_or_def)

lemma first_or_Cons [simp]: "k \<noteq> [] \<Longrightarrow> first_or (k # ks) [] = k"
  using first_or_kept [of k ks] by (simp add: first_or_def)

lemma settle_fields [simp]:
  "rp_responses (settle p) = rp_responses p" "response_of (settle p) s = response_of p s"
  by (simp_all add: settle_def response_of_def)

lemma contents_JNull [simp]: "contents JNull = []"
  by (simp add: contents_def fields_of_def)

lemma settle_offers:
  assumes "named_keys (rp_responses p)"
    and "rp_status p \<noteq> [] \<and> rp_mime p \<noteq> [] \<and> offers_selected p \<or> unselected p \<or>
         (rp_status p \<noteq> [] \<and> rp_mime p = [] \<and> contents (response_of p (rp_status p)) = [])"
  shows "offers_selected (settle p)"
proof (cases "fields_of (rp_responses p)")
  case Nil
  then show ?thesis by (simp add: offers_selected_def response_of_def)
next
  case (Cons sr rest)
  obtain s r where sr: "sr = (s, r)" by force
  have ne: "s \<noteq> []" using assms(1) Cons sr by (simp add: named_keys_def)
  have open_ok: ?thesis if o': "unselected p"
  proof -
    have st: "rp_status (settle p) = s" using o' Cons sr ne by (auto simp: unselected_def settle_def)
    have r: "response_of p s = r" using Cons sr by (simp add: response_of_def)
    show ?thesis
    proof (cases "contents r")
      case Nil
      then show ?thesis by (simp add: offers_selected_def st r)
    next
      case (Cons mc ms)
      have "fst mc \<noteq> []" using assms(1) \<open>fields_of (rp_responses p) = sr # rest\<close> sr Cons by (simp add: named_keys_def case_prod_beta)
      then have "rp_mime (settle p) = fst mc"
        using o' \<open>fields_of (rp_responses p) = sr # rest\<close> sr Cons by (simp add: settle_def unselected_def)
      then show ?thesis by (simp add: offers_selected_def st r Cons)
    qed
  qed
  have "rp_status (settle p) = rp_status p" if "rp_status p \<noteq> []" using that by (simp add: settle_def)
  moreover have "rp_mime (settle p) = rp_mime p" if "rp_mime p \<noteq> []" using that by (simp add: settle_def)
  moreover have "offers_selected (settle p)" if "contents (response_of p (rp_status p)) = []" "rp_status p \<noteq> []"
    using calculation that by (simp add: offers_selected_def)
  ultimately show ?thesis using assms(2) open_ok unfolding offers_selected_def settle_fields by metis
qed

lemma settle_status: "named_keys (rp_responses p) \<Longrightarrow> fields_of (rp_responses p) \<noteq> [] \<Longrightarrow> rp_status (settle p) \<noteq> []"
  by (cases "fields_of (rp_responses p)"; cases "rp_status p = []") (auto simp: settle_def named_keys_def)

lemma response_of_key: "s \<in> fst ` set (fields_of (rp_responses p)) \<longleftrightarrow> (\<exists>r. (s, r) \<in> set (fields_of (rp_responses p)) \<and> response_of p s = r)"
proof (cases "map_of (fields_of (rp_responses p)) s")
  case None
  then show ?thesis unfolding map_of_eq_None_iff by force
next
  case (Some r)
  then have "(s, r) \<in> set (fields_of (rp_responses p))" by (rule map_of_SomeD)
  then show ?thesis using Some by (force simp: response_of_def)
qed

lemma contents_key: "m \<in> fst ` set (contents (response_of p s)) \<Longrightarrow> s \<in> fst ` set (fields_of (rp_responses p))"
  unfolding response_of_def by (auto split: option.splits dest!: map_of_SomeD intro: rev_image_eqI)

lemma named_contents:
  assumes "named_keys (rp_responses p)" "m \<in> fst ` set (contents (response_of p s))"
  shows "m \<noteq> []" "s \<noteq> []"
proof -
  obtain r where r: "(s, r) \<in> set (fields_of (rp_responses p))" "response_of p s = r"
    using contents_key [OF assms(2)] unfolding response_of_key by blast
  then have "s \<noteq> [] \<and> list_all (\<lambda>(m, c). m \<noteq> []) (contents r)" using assms(1) by (auto simp: named_keys_def list_all_iff)
  then show "m \<noteq> []" "s \<noteq> []" using assms(2) r(2) by (auto simp: list_all_iff)
qed

definition panel_ok :: "response_panel \<Rightarrow> bool" where
  "panel_ok p \<longleftrightarrow> named_keys (rp_responses p) \<and> offers_selected p \<and> (fields_of (rp_responses p) = [] \<or> rp_status p \<noteq> [])"

lemma panel_ok_settle:
  assumes "named_keys (rp_responses p)" "panel_ok p \<or> unselected p \<or> rp_status p \<noteq> [] \<and> offers_selected p"
  shows "panel_ok (settle p)"
proof -
  have "offers_selected (settle p)"
  proof (cases "unselected p \<or> fields_of (rp_responses p) = []")
    case True
    then show ?thesis using settle_offers [OF assms(1)] by (auto simp: offers_selected_def response_of_def)
  next
    case False
    then have st: "rp_status p \<noteq> []" and off: "offers_selected p" using assms(2) by (auto simp: panel_ok_def)
    have "contents (response_of p (rp_status p)) = []" if "rp_mime p = []"
      using off named_contents(1) [OF assms(1)] that by (auto simp: offers_selected_def)
    then show ?thesis using settle_offers [OF assms(1)] st off by blast
  qed
  then show ?thesis using assms(1) settle_status [of p] by (auto simp: panel_ok_def)
qed

lemma response_step_ok:
  assumes "response_step e p = Some q" "panel_ok p" "named_keys (given_responses e)"
  shows "panel_ok q"
proof (cases e)
  case (StatusClicked s)
  then obtain r' where r': "s \<in> fst ` set (fields_of (rp_responses p))" "choose_status s p = Some r'" "q = settle r'"
    using assms(1) by (auto split: if_splits)
  then have rs: "rp_responses r' = rp_responses p" "rp_status r' = s" "response_of r' s = response_of p s"
    by (auto simp: choose_status_def response_of_def split: if_splits)
  have "offers_selected r'"
    using r'(2) by (auto simp: offers_selected_def choose_status_def response_of_def contents_def fields_of_def
        split: if_splits option.splits list.splits)
  moreover have "s \<noteq> []" using assms(2) r'(1) by (auto simp: panel_ok_def named_keys_def list_all_iff)
  ultimately show ?thesis using panel_ok_settle [of r'] assms(2) r'(3) by (simp add: rs panel_ok_def)
next
  case (MimeChosen m)
  then have m: "m \<in> fst ` set (contents (response_of p (rp_status p)))" "q = settle (p\<lparr>rp_mime := m\<rparr>)"
    using assms(1) by (auto split: if_splits)
  have n: "named_keys (rp_responses p)" using assms(2) by (simp add: panel_ok_def)
  have "response_of (p\<lparr>rp_mime := m\<rparr>) s = response_of p s" for s by (simp add: response_of_def)
  then have "offers_selected (p\<lparr>rp_mime := m\<rparr>)" using m(1) by (simp add: offers_selected_def)
  then show ?thesis using panel_ok_settle [of "p\<lparr>rp_mime := m\<rparr>"] n named_contents(2) [OF n m(1)] m(2) by simp
next
  case (TabClicked t)
  have "response_of (p\<lparr>rp_schemaTab := t\<rparr>) s = response_of p s" for s by (simp add: response_of_def)
  then have "panel_ok (p\<lparr>rp_schemaTab := t\<rparr>)" using assms(2) by (simp add: panel_ok_def offers_selected_def)
  then show ?thesis using panel_ok_settle [of "p\<lparr>rp_schemaTab := t\<rparr>"] assms(1,2) TabClicked by (auto simp: panel_ok_def)
next
  case (Navigated rs)
  then show ?thesis using panel_ok_settle [of "resetSelection (p\<lparr>rp_responses := rs\<rparr>)"] assms(1,3)
    by (auto simp: unselected_def resetSelection_def)
qed

lemma response_run_ok:
  "fold_opt response_step es p = Some q \<Longrightarrow> panel_ok p \<Longrightarrow> list_all (named_keys \<circ> given_responses) es \<Longrightarrow> panel_ok q"
  by (induction es arbitrary: p) (auto simp: bind_eq_Some_conv dest: response_step_ok)

lemma map_opt_find:
  assumes "map_opt f xs = Some ys" "x \<in> set xs"
  shows "\<exists>y. f x = Some y \<and> y \<in> set ys"
  using assms by (induction xs arbitrary: ys) (auto simp: bind_eq_Some_conv)

lemma find_mime_found:
  assumes "map_opt (mime_response gen p) cs = Some ms" "m \<in> fst ` set cs"
  shows "\<exists>c e. (m, c) \<in> set cs \<and> mime_response gen p (m, c) = Some e \<and> find_mime m ms = Some e"
  using assms
proof (induction cs arbitrary: ms)
  case (Cons rc cs)
  obtain r c where rc: "rc = (r, c)" by force
  obtain e es where e: "mime_response gen p (r, c) = Some e" "map_opt (mime_response gen p) cs = Some es" "ms = e # es"
    using Cons.prems(1) rc by (auto simp: bind_eq_Some_conv)
  have r: "mr_mime e = r" using e(1) by (auto simp: mime_response_def bind_eq_Some_conv Let_def split: if_splits)
  show ?case
  proof (cases "m = r")
    case True
    then show ?thesis using e r rc by (auto simp: find_mime_def)
  next
    case False
    then have "m \<in> fst ` set cs" using Cons.prems(2) rc by auto
    then show ?thesis using Cons.IH [OF e(2)] e(3) r rc False by (force simp: find_mime_def)
  qed
qed simp

section \<open>Properties\<close>

lemma unselected_ok: "unselected p \<Longrightarrow> named_keys (rp_responses p) \<Longrightarrow> panel_ok (settle p)"
  using panel_ok_settle by blast


text \<open>
  A panel that is given the responses of another operation without being reset (the \<open>view\<close> style, when the filter takes an
  operation above it away) keeps its media type, and where the other operation does not have it, there is no schema and
  no example to be seen.
\<close>

theorem kept_type_is_not_found:
  assumes "rp_mime p \<noteq> []" "rp_mime p \<notin> fst ` set (contents r)"
    and "q = settle (p\<lparr>rp_responses := rs\<rparr>)" "map_opt (mime_response gen q) (contents r) = Some ms"
  shows "mimeSchemaTemplate q (find_mime (rp_mime q) ms) = [el ''pre'' [panel_class p ''border pad-8-16'' ''border-top''] [lit '' Schema not found'']]"
proof -
  have q: "rp_mime q = rp_mime p" "rp_renderStyle q = rp_renderStyle p" using assms(1,3) by (simp_all add: settle_def)
  have "map_opt (mime_response gen q) cs = Some es \<Longrightarrow> e \<in> set es \<Longrightarrow> mr_mime e \<in> fst ` set cs" for cs es e
    by (induction cs arbitrary: es) (auto simp: bind_eq_Some_conv mime_response_def Let_def split: if_splits)
  from this [OF assms(4)] have "\<forall>e \<in> set ms. mr_mime e \<noteq> rp_mime q" using assms(2) q(1) by metis
  then have "find_mime (rp_mime q) ms = None" by (auto simp: find_mime_def find_None_iff)
  then show ?thesis by (simp add: mimeSchemaTemplate_def panel_class_def q)
qed

definition json_responses :: "(string \<times> string) list \<Rightarrow> json" where
  \<comment> \<open>responses with one media type each\<close>
  "json_responses ss = JObj (map (\<lambda>(s, m). (js s, JObj [(js ''content'', JObj [(js m, JObj [])])])) ss)"

definition sample_panel :: "(string \<times> string) list \<Rightarrow> response_panel" where
  "sample_panel ss =
     \<lparr>rp_responses = Some (json_responses ss), rp_callback = [], rp_webhook = js ''false'', rp_renderStyle = js ''focused'', rp_schemaStyle = js ''table'',
      rp_expandLevel = js ''1'', rp_descrExpanded = js ''false'', rp_descrToggle = js ''true'', rp_hideReadOnly = js ''false'', rp_hideWriteOnly = js ''true'',
      rp_status = [], rp_mime = [], rp_schemaTab = js ''schema''\<rparr>"

definition one_example :: gen_example where
  "one_example = \<lparr>exampleId = js ''Example'', exampleSummary = [], exampleDescription = [], exampleValue = JStr [], exampleFormat = js ''text''\<rparr>"

definition sample_mime :: "string \<Rightarrow> mime_response" where
  "sample_mime m = \<lparr>mr_mime = js m, mr_examples = [one_example], mr_selected = js ''Example'', mr_schema = None\<rparr>"

lemma sample_mime_response: "mime_response (\<lambda>_. Some [one_example]) p (js m, JObj []) = Some (sample_mime m)"
  by (simp add: mime_response_def notation_of_def standardizeExample_def sample_mime_def one_example_def)


theorem kept_type_is_not_found_witness:
  "mimeSchemaTemplate (settle ((sample_panel [])\<lparr>rp_mime := js ''image/png'', rp_responses := Some (json_responses [(''200'', ''text/plain'')])\<rparr>))
     (find_mime (js ''image/png'') [sample_mime ''text/plain'']) = [el ''pre'' [cls ''border-top''] [lit '' Schema not found'']]"
proof -
  let ?p = "(sample_panel [])\<lparr>rp_mime := js ''image/png''\<rparr>"
  let ?q = "settle (?p\<lparr>rp_responses := Some (json_responses [(''200'', ''text/plain'')])\<rparr>)"
  have "contents (JObj [(js ''content'', JObj [(js ''text/plain'', JObj [])])]) = [(js ''text/plain'', JObj [])]"
    by (simp add: contents_def fields_of_def object_fields_def)
  then show ?thesis
    using kept_type_is_not_found [of ?p "JObj [(js ''content'', JObj [(js ''text/plain'', JObj [])])]" ?q
        "Some (json_responses [(''200'', ''text/plain'')])" "\<lambda>_. Some [one_example]" "[sample_mime ''text/plain'']"]
    by (simp add: sample_mime_response settle_def panel_class_def sample_panel_def js_inj)
qed

end
