(* ===== verification/Theme.thy ===== *)
theory Theme
  imports Complex_Main Web_Text Spec_Groups
begin

text \<open>
  The colours of the API reference (\<open>docs/ui/assets/rapidoc-min.js\<close>): the colour functions (\<open>WF.color\<close>), the test of a given
  colour (\<open>GF\<close>), and the theme (\<open>JF\<close>) that turns the colours of the attributes into the variables of the style sheet. The two
  themes are tables: a row has the name of a result, the given colours it is taken from, and what it is otherwise, in terms of
  the rows before. \<open>None\<close> stands for a colour function that throws, and for the digits that \<open>parseInt\<close> reads in part or not at
  all. Floating-point operations are rounded by the parameter \<open>rnd\<close>.
\<close>

section \<open>Colours\<close>

record rgb =
  red :: nat
  green :: nat
  blue :: nat

fun channels :: "jstr \<Rightarrow> rgb option" where
  "channels [a, b, c, d, e, f] = do {
     a' \<leftarrow> hex_value a; b' \<leftarrow> hex_value b; c' \<leftarrow> hex_value c; d' \<leftarrow> hex_value d; e' \<leftarrow> hex_value e; f' \<leftarrow> hex_value f;
     Some \<lparr>red = 16 * a' + b', green = 16 * c' + d', blue = 16 * e' + f'\<rparr> }"
| "channels _ = None"

fun doubled :: "jstr \<Rightarrow> jstr" where
  "doubled [a, b, c] = [a, a, b, b, c, c]"
| "doubled [a, b, c, d] = [a, a, b, b, c, c]"
| "doubled s = s"

definition getRgb :: "jstr \<Rightarrow> rgb option" where
  "getRgb e = channels (doubled (if startsWith e (js ''#'') then slice e 1 7 else e))"

definition luminance :: "(rat \<Rightarrow> rat) \<Rightarrow> jstr \<Rightarrow> rat option" where
  "luminance rnd e =
     map_option (\<lambda>t. rnd (rnd (rnd (rnd (299 / 1000) * of_nat (red t)) + rnd (rnd (587 / 1000) * of_nat (green t))) +
       rnd (rnd (114 / 1000) * of_nat (blue t)))) (getRgb e)"

definition invert_color :: "(rat \<Rightarrow> rat) \<Rightarrow> jstr \<Rightarrow> jstr option" where
  "invert_color rnd e = map_option (\<lambda>l. js (if l > 135 then ''#000'' else ''#fff'')) (luminance rnd e)"

definition opacity :: "jstr \<Rightarrow> string \<Rightarrow> jstr option" where
  "opacity e t =
     map_option (\<lambda>r. js ''rgba('' @ nat_text (red r) @ js '', '' @ nat_text (green r) @ js '', '' @ nat_text (blue r) @ js '', '' @ js t @ js '')'')
       (getRgb e)"

definition clamp :: "int \<Rightarrow> nat" where
  "clamp n = (if n > 255 then 255 else if n < 0 then 0 else nat n)"

definition two_digits :: "nat \<Rightarrow> jstr" where
  \<comment> \<open>\<open>toString(16).padStart(2, "0")\<close> of a channel\<close>
  "two_digits n = [hex_digit (n div 16), hex_digit (n mod 16)]"

definition brightness :: "jstr \<Rightarrow> int \<Rightarrow> jstr option" where
  "brightness e t =
     map_option (\<lambda>r. js ''#'' @ two_digits (clamp (int (red r) + t)) @ two_digits (clamp (int (green r) + t)) @ two_digits (clamp (int (blue r) + t)))
       (getRgb e)"

definition isValidHexColor :: "jstr \<Rightarrow> bool" where
  "isValidHexColor s = (case s of [] \<Rightarrow> False
     | h # ds \<Rightarrow> h = 35 \<and> length ds \<in> {3, 4, 6, 8} \<and> list_all (\<lambda>c. hex_value c \<noteq> None) ds)"

section \<open>The two themes\<close>

datatype fallback =
    Constant string
  | Same string
  | Brighter string int
  | Inverted string
  | Faded string string
  | FadedInverted string string
  | FadedBrighter string int string

type_synonym colour_row = "string \<times> (string \<times> string) option \<times> fallback"
type_synonym colours = "(string \<times> jstr) list"

abbreviation given :: "string \<Rightarrow> fallback \<Rightarrow> colour_row" where
  "given n a \<equiv> (n, Some (n, n), a)"

abbreviation given_by :: "string \<Rightarrow> string \<Rightarrow> fallback \<Rightarrow> colour_row" where
  "given_by n k a \<equiv> (n, Some (k, k), a)"

abbreviation computed :: "string \<Rightarrow> fallback \<Rightarrow> colour_row" where
  "computed n a \<equiv> (n, None, a)"

definition colour :: "string \<Rightarrow> colours \<Rightarrow> jstr" where
  \<comment> \<open>a missing one is \<open>undefined\<close>, which is written as nothing\<close>
  "colour k cs = (case map_of cs k of None \<Rightarrow> [] | Some v \<Rightarrow> v)"

fun fallback_value :: "(rat \<Rightarrow> rat) \<Rightarrow> colours \<Rightarrow> fallback \<Rightarrow> jstr option" where
  "fallback_value rnd r (Constant c) = Some (js c)"
| "fallback_value rnd r (Same k) = Some (colour k r)"
| "fallback_value rnd r (Brighter k n) = brightness (colour k r) n"
| "fallback_value rnd r (Inverted k) = invert_color rnd (colour k r)"
| "fallback_value rnd r (Faded k a) = opacity (colour k r) a"
| "fallback_value rnd r (FadedInverted k a) = Option.bind (invert_color rnd (colour k r)) (\<lambda>c. opacity c a)"
| "fallback_value rnd r (FadedBrighter k n a) = Option.bind (brightness (colour k r) n) (\<lambda>c. opacity c a)"

fun row_value :: "(rat \<Rightarrow> rat) \<Rightarrow> colours \<Rightarrow> colour_row \<Rightarrow> colours \<Rightarrow> colours option" where
  "row_value rnd t (n, g, a) r =
     (case g of
        Some (k, v) \<Rightarrow> if colour k t \<noteq> [] then Some (r @ [(n, colour v t)]) else map_option (\<lambda>c. r @ [(n, c)]) (fallback_value rnd r a)
      | None \<Rightarrow> map_option (\<lambda>c. r @ [(n, c)]) (fallback_value rnd r a))"

definition primary_rows :: "bool \<Rightarrow> colour_row list" where
  "primary_rows dark =
     [given ''primaryColor'' (Constant (if dark then ''#f76b39'' else ''#ff591e'')), computed ''primaryColorInvert'' (Inverted ''primaryColor''),
      computed ''primaryColorTrans'' (Faded ''primaryColor'' ''0.4'')]"

definition dark_rows :: "colour_row list" where
  "dark_rows =
    [given ''bg1'' (Constant ''#2a2b2c''), given ''fg1'' (Constant ''#bbb''), given ''bg2'' (Brighter ''bg1'' 5),
     given ''bg3'' (Brighter ''bg1'' 17), given_by ''lightBg'' ''bg3'' (Brighter ''bg1'' 35), given ''fg2'' (Brighter ''fg1'' (-15)),
     given ''fg3'' (Brighter ''fg1'' (-20)), given_by ''lightFg'' ''fg3'' (Brighter ''fg1'' (-65)),
     given ''inlineCodeFg'' (Constant ''#aaa''), given ''headerColor'' (Brighter ''bg1'' 10), given ''navBgColor'' (Brighter ''bg1'' 10),
     given ''navTextColor'' (FadedInverted ''navBgColor'' ''0.50''), given ''navHoverBgColor'' (Brighter ''navBgColor'' (-15)),
     given ''navHoverTextColor'' (Inverted ''navBgColor''), given ''navAccentColor'' (Brighter ''primaryColor'' 25),
     computed ''selectionBg'' (Same ''fg2''), computed ''selectionFg'' (Same ''bg2''),
     computed ''overlayBg'' (Constant ''rgba(80, 80, 80, 0.4)''),
     (''navAccentTextColor'', Some (''navAccentTextColor'', ''navAccenttextColor''), Inverted ''navAccentColor''),
     computed ''headerColorInvert'' (Inverted ''headerColor''), computed ''headerColorDarker'' (Brighter ''headerColor'' (-20)),
     computed ''headerColorBorder'' (Brighter ''headerColor'' 10), given ''borderColor'' (Brighter ''bg1'' 20),
     given ''lightBorderColor'' (Brighter ''bg1'' 15), given ''codeBorderColor'' (Brighter ''bg1'' 30),
     given ''inputBg'' (Brighter ''bg1'' (-5)), given ''placeHolder'' (Faded ''fg1'' ''0.3''),
     given ''hoverColor'' (Brighter ''bg1'' (-10)), given ''red'' (Constant ''#F06560''), given ''lightRed'' (Brighter ''bg1'' (-10)),
     given ''pink'' (Constant ''#ffb2b2''), given ''lightPink'' (Brighter ''bg1'' (-10)), given ''green'' (Constant ''#7ec699''),
     given ''lightGreen'' (Brighter ''bg1'' (-10)), given ''blue'' (Constant ''#71b7ff''), given ''lightBlue'' (Brighter ''bg1'' (-10)),
     given ''orange'' (Constant ''#f08d49''), given ''lightOrange'' (Brighter ''bg1'' (-10)), given ''yellow'' (Constant ''#827717''),
     given ''lightYellow'' (Brighter ''bg1'' (-10)), given ''purple'' (Constant ''#786FF1''), given ''brown'' (Constant ''#D4AC0D''),
     given ''codeBg'' (FadedBrighter ''bg1'' (-15) ''0.7''), given ''codeFg'' (Constant ''#aaa''),
     given ''codePropertyColor'' (Constant ''#f8c555''), given ''codeKeywordColor'' (Constant ''#cc99cd''),
     given ''codeOperatorColor'' (Constant ''#67cdcc'')]"

definition light_rows :: "colour_row list" where
  "light_rows =
    [given ''bg1'' (Constant ''#fafbfc''), given ''fg1'' (Constant ''#444444''), given ''bg2'' (Brighter ''bg1'' (-5)),
     given ''bg3'' (Brighter ''bg1'' (-15)), given_by ''lightBg'' ''bg3'' (Brighter ''bg1'' (-45)), given ''fg2'' (Brighter ''fg1'' 17),
     given ''fg3'' (Brighter ''fg1'' 30), given_by ''lightFg'' ''fg3'' (Brighter ''fg1'' 70), given ''inlineCodeFg'' (Constant ''brown''),
     given ''headerColor'' (Brighter ''bg1'' (-180)), given ''navBgColor'' (Brighter ''bg1'' (-200)),
     given ''navTextColor'' (FadedInverted ''navBgColor'' ''0.65''), given ''navHoverBgColor'' (Brighter ''navBgColor'' (-15)),
     given ''navHoverTextColor'' (Inverted ''navBgColor''), given ''navAccentColor'' (Brighter ''primaryColor'' 25),
     computed ''selectionBg'' (Same ''fg2''), computed ''selectionFg'' (Same ''bg2''),
     computed ''overlayBg'' (Constant ''rgba(0, 0, 0, 0.4)''),
     (''navAccentTextColor'', Some (''navAccentTextColor'', ''navAccenttextColor''), Inverted ''navAccentColor''),
     computed ''headerColorInvert'' (Inverted ''headerColor''), computed ''headerColorDarker'' (Brighter ''headerColor'' (-20)),
     computed ''headerColorBorder'' (Brighter ''headerColor'' 10), given ''borderColor'' (Brighter ''bg1'' (-38)),
     given ''lightBorderColor'' (Brighter ''bg1'' (-23)), given ''codeBorderColor'' (Constant ''transparent''),
     given ''inputBg'' (Brighter ''bg1'' 10), given ''placeHolder'' (Brighter ''lightFg'' 20), given ''hoverColor'' (Brighter ''bg1'' (-5)),
     given ''red'' (Constant ''#F06560''), given ''lightRed'' (Constant ''#fff0f0''), given ''pink'' (Constant ''#990055''),
     given ''lightPink'' (Constant ''#ffb2b2''), given ''green'' (Constant ''#690''), given ''lightGreen'' (Constant ''#fbfff0''),
     given ''blue'' (Constant ''#47AFE8''), given ''lightBlue'' (Constant ''#eff8fd''), given ''orange'' (Constant ''#FF9900''),
     given ''lightOrange'' (Constant ''#fff5e6''), given ''yellow'' (Constant ''#827717''), given ''lightYellow'' (Constant ''#fff5cc''),
     given ''purple'' (Constant ''#786FF1''), given ''brown'' (Constant ''#D4AC0D''),
     given ''codeBg'' (FadedBrighter ''bg1'' (-15) ''0.7''), given ''codeFg'' (Constant ''#666''),
     given ''codePropertyColor'' (Constant ''#905''), given ''codeKeywordColor'' (Constant ''#07a''),
     given ''codeOperatorColor'' (Constant ''#9a6e3a'')]"

definition theme_colours :: "(rat \<Rightarrow> rat) \<Rightarrow> bool \<Rightarrow> colours \<Rightarrow> colours option" where
  "theme_colours rnd dark t = fold_opt (row_value rnd t) (primary_rows dark @ (if dark then dark_rows else light_rows)) []"

section \<open>The style sheet\<close>

definition style_colours :: "(string \<times> string) list" where
  \<comment> \<open>the variables of the theme and the colours they are set to\<close>
  "style_colours =
    [(''--bg'', ''bg1''), (''--bg2'', ''bg2''), (''--bg3'', ''bg3''), (''--light-bg'', ''lightBg''), (''--fg'', ''fg1''),
     (''--fg2'', ''fg2''), (''--fg3'', ''fg3''), (''--light-fg'', ''lightFg''), (''--selection-bg'', ''selectionBg''),
     (''--selection-fg'', ''selectionFg''), (''--overlay-bg'', ''overlayBg''), (''--border-color'', ''borderColor''),
     (''--light-border-color'', ''lightBorderColor''), (''--code-border-color'', ''codeBorderColor''), (''--input-bg'', ''inputBg''),
     (''--placeholder-color'', ''placeHolder''), (''--hover-color'', ''hoverColor''), (''--red'', ''red''),
     (''--light-red'', ''lightRed''), (''--pink'', ''pink''), (''--light-pink'', ''lightPink''), (''--green'', ''green''),
     (''--light-green'', ''lightGreen''), (''--blue'', ''blue''), (''--light-blue'', ''lightBlue''), (''--orange'', ''orange''),
     (''--light-orange'', ''lightOrange''), (''--yellow'', ''yellow''), (''--light-yellow'', ''lightYellow''), (''--purple'', ''purple''),
     (''--brown'', ''brown''), (''--header-bg'', ''headerColor''), (''--header-fg'', ''headerColorInvert''),
     (''--header-color-darker'', ''headerColorDarker''), (''--header-color-border'', ''headerColorBorder''),
     (''--nav-bg-color'', ''navBgColor''), (''--nav-text-color'', ''navTextColor''), (''--nav-hover-bg-color'', ''navHoverBgColor''),
     (''--nav-hover-text-color'', ''navHoverTextColor''), (''--nav-accent-color'', ''navAccentColor''),
     (''--nav-accent-text-color'', ''navAccentTextColor''), (''--nav-get-color'', ''blue''), (''--nav-put-color'', ''orange''),
     (''--nav-post-color'', ''green''), (''--nav-delete-color'', ''red''), (''--nav-head-color'', ''yellow''),
     (''--primary-color'', ''primaryColor''), (''--primary-color-invert'', ''primaryColorInvert''),
     (''--primary-color-trans'', ''primaryColorTrans''), (''--code-bg'', ''codeBg''), (''--code-fg'', ''codeFg''),
     (''--inline-code-fg'', ''inlineCodeFg''), (''--code-property-color'', ''codePropertyColor''),
     (''--code-keyword-color'', ''codeKeywordColor''), (''--code-operator-color'', ''codeOperatorColor'')]"

record style_options =
  so_layout :: jstr
  so_monoFont :: jstr
  so_regularFont :: jstr
  so_navItemSpacing :: jstr
  so_responseAreaHeight :: jstr
  so_fontSize :: jstr

definition by_size :: "style_options \<Rightarrow> string \<Rightarrow> string \<Rightarrow> string \<Rightarrow> jstr" where
  "by_size so a b c = js (if so_fontSize so = js ''default'' then a else if so_fontSize so = js ''large'' then b else c)"

definition common_variables :: "style_options \<Rightarrow> colours \<Rightarrow> colours" where
  "common_variables so r =
     [(''--border-radius'', js ''2px''), (''--layout'', if so_layout so \<noteq> [] then so_layout so else js ''row''),
      (''--font-mono'', if so_monoFont so \<noteq> [] then so_monoFont so else js ''Monaco, \"Andale Mono\", \"Roboto Mono\", Consolas, monospace''),
      (''--font-regular'', if so_regularFont so \<noteq> [] then so_regularFont so else js ''\"Open Sans\", Avenir, \"Segoe UI\", Arial, sans-serif''),
      (''--scroll-bar-width'', js ''8px''),
      (''--nav-item-padding'', js (if so_navItemSpacing so = js ''relaxed'' then ''10px 16px 10px 10px''
         else if so_navItemSpacing so = js ''compact'' then ''5px 16px 5px 10px'' else ''7px 16px 7px 10px'')),
      (''--resp-area-height'', so_responseAreaHeight so), (''--font-size-small'', by_size so ''12px'' ''13px'' ''14px''),
      (''--font-size-mono'', by_size so ''13px'' ''14px'' ''15px''), (''--font-size-regular'', by_size so ''14px'' ''15px'' ''16px''),
      (''--dialog-z-index'', js ''1000''),
      (''--focus-shadow'', js ''0 0 0 1px transparent, 0 0 0 3px '' @ colour ''primaryColorTrans'' r)]"

definition setTheme :: "(rat \<Rightarrow> rat) \<Rightarrow> style_options \<Rightarrow> bool \<Rightarrow> colours \<Rightarrow> colours option" where
  \<comment> \<open>the variables the style element declares\<close>
  "setTheme rnd so dark t =
     map_option (\<lambda>r. common_variables so r @ map (\<lambda>(v, k). (v, colour k r)) style_colours) (theme_colours rnd dark t)"


definition given_colours :: "colours \<Rightarrow> colours" where
  \<comment> \<open>the colours of the attributes, by their properties\<close>
  "given_colours o' =
     map (\<lambda>(k, p). (k, if isValidHexColor (colour p o') then colour p o' else []))
       [(''bg1'', ''bgColor''), (''fg1'', ''textColor''), (''headerColor'', ''headerColor''), (''primaryColor'', ''primaryColor''),
        (''navBgColor'', ''navBgColor''), (''navTextColor'', ''navTextColor''), (''navHoverBgColor'', ''navHoverBgColor''),
        (''navHoverTextColor'', ''navHoverTextColor''), (''navAccentColor'', ''navAccentColor''), (''navAccentTextColor'', ''navAccentTextColor'')]"

section \<open>Colour functions\<close>

lemma hex_value_less: "hex_value c = Some n \<Longrightarrow> n < 16"
  by (auto simp: hex_value_def word_le_nat_alt split: if_splits)

lemma hex_value_digit: "d < 16 \<Longrightarrow> hex_value (hex_digit d) = Some d"
proof -
  have "list_all (\<lambda>d. hex_value (hex_digit d) = Some d) [0..<16]" by code_simp
  then show "d < 16 \<Longrightarrow> ?thesis" by (auto simp: list_all_iff)
qed

lemma getRgb_less: "getRgb e = Some r \<Longrightarrow> red r < 256 \<and> green r < 256 \<and> blue r < 256"
proof -
  have "channels s = Some r \<Longrightarrow> ?thesis" for s
    by (induction s rule: channels.induct) (fastforce simp: bind_eq_Some_conv dest!: hex_value_less)+
  then show "getRgb e = Some r \<Longrightarrow> ?thesis" by (simp add: getRgb_def)
qed

lemma clamp_less [simp]: "clamp n < 256"
  by (auto simp: clamp_def nat_less_iff)

lemma getRgb_digits:
  assumes "a < 256" "b < 256" "c < 256"
  shows "getRgb (js ''#'' @ two_digits a @ two_digits b @ two_digits c) = Some \<lparr>red = a, green = b, blue = c\<rparr>"
  using assms by (simp add: getRgb_def two_digits_def startsWith_def slice_def js_def hex_value_digit less_mult_imp_div_less)

lemma getRgb_brightness:
  "brightness e n = Some c \<Longrightarrow> getRgb e = Some r \<Longrightarrow>
    getRgb c = Some \<lparr>red = clamp (int (red r) + n), green = clamp (int (green r) + n), blue = clamp (int (blue r) + n)\<rparr>"
  unfolding brightness_def using getRgb_digits by auto

lemma length_cases: "length ds \<in> {3, 4, 6, 8::nat} \<Longrightarrow>
    (\<exists>a b c. ds = [a, b, c]) \<or> (\<exists>a b c d. ds = [a, b, c, d]) \<or> (\<exists>a b c d e f. ds = [a, b, c, d, e, f]) \<or>
    (\<exists>a b c d e f g h. ds = [a, b, c, d, e, f, g, h])"
  by (auto simp: numeral_eq_Suc length_Suc_conv)

lemma valid_getRgb:
  assumes "isValidHexColor s"
  shows "getRgb s \<noteq> None"
proof -
  obtain ds where ds: "s = 35 # ds" "length ds \<in> {3, 4, 6, 8}" "list_all (\<lambda>c. hex_value c \<noteq> None) ds"
    using assms by (auto simp: isValidHexColor_def split: list.splits)
  show ?thesis using length_cases [OF ds(2)] ds(3)
    by (auto simp: ds(1) getRgb_def startsWith_def slice_def js_def bind_eq_None_conv Option.bind_eq_None_conv)
qed

lemma getRgb_Nil [simp]: "getRgb [] = None"
  by (simp add: getRgb_def startsWith_def js_def)

section \<open>The tables\<close>

text \<open>
  What is known of a table without running it: a row may be computed from the names in \<open>ks\<close>, which have colours with channels, and
  its own name is added where its value has channels.
\<close>

fun names_used :: "fallback \<Rightarrow> string list" where
  "names_used (Constant c) = []"
| "names_used (Same k) = [k]"
| "names_used (Brighter k n) = [k]"
| "names_used (Inverted k) = [k]"
| "names_used (Faded k a) = [k]"
| "names_used (FadedInverted k a) = [k]"
| "names_used (FadedBrighter k n a) = [k]"

fun has_channels :: "fallback \<Rightarrow> bool" where
  "has_channels (Constant c) \<longleftrightarrow> getRgb (js c) \<noteq> None"
| "has_channels (Same k) \<longleftrightarrow> True"
| "has_channels (Brighter k n) \<longleftrightarrow> True"
| "has_channels (Inverted k) \<longleftrightarrow> True"
| "has_channels _ \<longleftrightarrow> False"

fun nonempty_constant :: "fallback \<Rightarrow> bool" where
  "nonempty_constant (Constant c) \<longleftrightarrow> c \<noteq> []"
| "nonempty_constant _ \<longleftrightarrow> True"

definition own_key :: "(string \<times> string) option \<Rightarrow> bool" where
  "own_key g = (case g of None \<Rightarrow> True | Some (k, v) \<Rightarrow> k = v)"

fun rows_ok :: "string list \<Rightarrow> string list \<Rightarrow> colour_row list \<Rightarrow> bool" where
  "rows_ok ns ks [] \<longleftrightarrow> True"
| "rows_ok ns ks ((n, g, a) # rows) \<longleftrightarrow>
     n \<notin> set ns \<and> set (names_used a) \<subseteq> set ks \<and> nonempty_constant a \<and> (own_key g \<or> n = ''navAccentTextColor'') \<and>
     rows_ok (n # ns) (if own_key g \<and> has_channels a then n # ks else ks) rows"

lemma tables_ok: "rows_ok [] [] (primary_rows dark @ (if dark then dark_rows else light_rows))"
  by (cases dark) (simp_all, code_simp+)

definition colours_ok :: "string list \<Rightarrow> string list \<Rightarrow> colours \<Rightarrow> bool" where
  "colours_ok ns ks r \<longleftrightarrow> set ns = fst ` set r \<and> set ks \<subseteq> set ns \<and> (\<forall>k \<in> set ks. getRgb (colour k r) \<noteq> None) \<and>
     (\<forall>k \<in> set ns. colour k r \<noteq> [] \<or> k = ''navAccentTextColor'')"

definition given_ok :: "colours \<Rightarrow> bool" where
  "given_ok t \<longleftrightarrow> (\<forall>k. colour k t = [] \<or> getRgb (colour k t) \<noteq> None)"

lemma given_colours_ok: "given_ok (given_colours o')"
proof -
  have ok: "colour k (map (\<lambda>(k, p). (k, if isValidHexColor (colour p o') then colour p o' else [])) kps) = [] \<or>
      getRgb (colour k (map (\<lambda>(k, p). (k, if isValidHexColor (colour p o') then colour p o' else [])) kps)) \<noteq> None" for k kps
  proof (induction kps)
    case (Cons kp kps)
    obtain l p where kp: "kp = (l, p)" by force
    show ?case
    proof (cases "k = l \<and> isValidHexColor (colour p o')")
      case True
      then show ?thesis using valid_getRgb [of "colour p o'"] by (simp add: colour_def kp)
    next
      case False
      then show ?thesis using Cons.IH by (auto simp: colour_def kp)
    qed
  qed (simp add: colour_def)
  show ?thesis unfolding given_ok_def given_colours_def using ok by blast
qed

lemma colour_append: "k \<in> fst ` set r \<Longrightarrow> colour k (r @ s) = colour k r"
  by (cases "map_of r k") (auto simp: colour_def map_of_eq_None_iff map_add_Some_iff map_add_def)

lemma colour_new: "n \<notin> fst ` set r \<Longrightarrow> colour n (r @ (n, c) # s) = c"
  by (simp add: colour_def map_add_def map_of_eq_None_iff [THEN iffD2])

lemma brightness_Some: "getRgb e \<noteq> None \<Longrightarrow> \<exists>c. brightness e n = Some c \<and> getRgb c \<noteq> None \<and> c \<noteq> []"
proof -
  assume "getRgb e \<noteq> None"
  then obtain r where r: "getRgb e = Some r" by blast
  then obtain c where c: "brightness e n = Some c" by (simp add: brightness_def)
  have "c \<noteq> []" using c r by (auto simp: brightness_def js_def)
  then show ?thesis using c getRgb_brightness [OF c r] by simp
qed

lemma invert_Some: "getRgb e \<noteq> None \<Longrightarrow> \<exists>c. invert_color rnd e = Some c \<and> getRgb c \<noteq> None \<and> c \<noteq> []"
proof -
  have "getRgb (js ''#000'') \<noteq> None" "getRgb (js ''#fff'') \<noteq> None" by code_simp+
  moreover assume "getRgb e \<noteq> None"
  then obtain l where "luminance rnd e = Some l" by (auto simp: luminance_def)
  ultimately show ?thesis by (cases "l > 135") (auto simp: invert_color_def js_def)
qed

lemma opacity_Some: "getRgb e \<noteq> None \<Longrightarrow> \<exists>c. opacity e a = Some c \<and> c \<noteq> []"
  by (auto simp: opacity_def js_def)

lemma alternative_ok:
  assumes "set (names_used a) \<subseteq> set ks" "\<forall>k \<in> set ks. getRgb (colour k r) \<noteq> None" "nonempty_constant a"
  shows "\<exists>c. fallback_value rnd r a = Some c \<and> c \<noteq> [] \<and> (has_channels a \<longrightarrow> getRgb c \<noteq> None)"
proof (cases a)
  case (FadedInverted k x)
  then have "getRgb (colour k r) \<noteq> None" using assms(1,2) by auto
  then show ?thesis using invert_Some opacity_Some FadedInverted by (metis fallback_value.simps(6) bind.bind_lunit has_channels.simps(6))
next
  case (FadedBrighter k n x)
  then have "getRgb (colour k r) \<noteq> None" using assms(1,2) by auto
  then show ?thesis using brightness_Some opacity_Some FadedBrighter by (metis fallback_value.simps(7) bind.bind_lunit has_channels.simps(7))
next
  case (Same k)
  then have "getRgb (colour k r) \<noteq> None" using assms(1,2) by auto
  then show ?thesis using Same by (cases "colour k r") auto
next
  case (Brighter k n)
  then have "getRgb (colour k r) \<noteq> None" using assms(1,2) by auto
  then show ?thesis using brightness_Some [of "colour k r" n] Brighter by auto
next
  case (Inverted k)
  then have "getRgb (colour k r) \<noteq> None" using assms(1,2) by auto
  then show ?thesis using invert_Some [of "colour k r" rnd] Inverted by auto
next
  case (Faded k x)
  then have "getRgb (colour k r) \<noteq> None" using assms(1,2) by auto
  then show ?thesis using opacity_Some [of "colour k r" x] Faded by auto
next
  case (Constant c)
  then show ?thesis using assms(3) by (simp add: js_def)
qed

lemma row_ok:
  assumes "rows_ok ns ks ((n, g, a) # rows)" "colours_ok ns ks r" "given_ok t"
  shows "\<exists>c. row_value rnd t (n, g, a) r = Some (r @ [(n, c)]) \<and>
    colours_ok (n # ns) (if own_key g \<and> has_channels a then n # ks else ks) (r @ [(n, c)])"
proof -
  obtain c where c: "fallback_value rnd r a = Some c" "c \<noteq> []" "has_channels a \<longrightarrow> getRgb c \<noteq> None"
    using alternative_ok [of a ks r rnd] assms(1,2) by (auto simp: colours_ok_def)
  have new: "n \<notin> fst ` set r" using assms(1,2) by (simp add: colours_ok_def)
  have ok: "colours_ok (n # ns) (if own_key g \<and> has_channels a then n # ks else ks) (r @ [(n, d)])"
    if "own_key g \<and> has_channels a \<longrightarrow> getRgb d \<noteq> None" "d \<noteq> [] \<or> n = ''navAccentTextColor''" for d
  proof -
    have "colour k (r @ [(n, d)]) = colour k r" if "k \<in> set ns" for k using colour_append [of k r] assms(2) that by (simp add: colours_ok_def)
    moreover have "set ks \<subseteq> set ns" using assms(2) unfolding colours_ok_def by blast
    ultimately show ?thesis using assms(2) that colour_new [OF new, of d "[]"] by (auto simp: colours_ok_def subset_iff)
  qed
  show ?thesis
  proof (cases g)
    case None
    then show ?thesis using c ok [of c] by auto
  next
    case (Some kv)
    obtain k v where kv: "kv = (k, v)" by force
    have "own_key g \<or> n = ''navAccentTextColor''" using assms(1) by simp
    then show ?thesis
      using c ok [of c] ok [of "colour v t"] assms(3) by (auto simp: Some kv own_key_def given_ok_def)
  qed
qed

lemma rows_run:
  assumes "rows_ok ns ks rows" "colours_ok ns ks r" "given_ok t"
  shows "\<exists>r' ks'. fold_opt (row_value rnd t) rows r = Some r' \<and> colours_ok (rev (map fst rows) @ ns) ks' r' \<and> set ks \<subseteq> set ks'"
  using assms
proof (induction rows arbitrary: ns ks r)
  case (Cons row rows)
  obtain n g a where row: "row = (n, g, a)" by (cases row)
  let ?ks = "if own_key g \<and> has_channels a then n # ks else ks"
  obtain c where c: "row_value rnd t row r = Some (r @ [(n, c)])" "colours_ok (n # ns) ?ks (r @ [(n, c)])"
    using row_ok [of ns ks n g a rows r t rnd] Cons.prems by (auto simp: row)
  have "rows_ok (n # ns) ?ks rows" using Cons.prems(1) by (simp add: row)
  from Cons.IH [OF this c(2) Cons.prems(3)] show ?case using c(1) by (auto simp: row split: if_splits)
qed auto

lemma theme_returns:
  assumes "given_ok t"
  shows "\<exists>r. theme_colours rnd dark t = Some r \<and>
    (\<forall>k \<in> fst ` set (primary_rows dark @ (if dark then dark_rows else light_rows)). colour k r \<noteq> [] \<or> k = ''navAccentTextColor'')"
proof -
  have "colours_ok [] [] []" by (simp add: colours_ok_def)
  from rows_run [OF tables_ok this assms, of rnd dark]
  obtain r ks where "theme_colours rnd dark t = Some r"
      "colours_ok (rev (map fst (primary_rows dark @ (if dark then dark_rows else light_rows)))) ks r"
    unfolding theme_colours_def append_Nil2 by blast
  moreover have "set (rev (map fst rows)) = fst ` set rows" for rows :: "colour_row list" by simp
  ultimately show ?thesis unfolding colours_ok_def by blast
qed

lemma rows_extend: "fold_opt (row_value rnd t) rows r = Some r' \<Longrightarrow> \<exists>s. r' = r @ s \<and> map fst s = map fst rows"
proof (induction rows arbitrary: r)
  case (Cons row rows)
  obtain n g a where row: "row = (n, g, a)" by (cases row)
  obtain q where q: "row_value rnd t row r = Some q" "fold_opt (row_value rnd t) rows q = Some r'"
    using Cons.prems by (auto simp: bind_eq_Some_conv)
  obtain c where "q = r @ [(n, c)]" using q(1) by (auto simp: row split: option.splits if_splits)
  then show ?case using Cons.IH [OF q(2)] by (auto simp: row)
qed simp

lemma computed_row:
  assumes "fold_opt (row_value rnd t) (xs @ (n, None, a) # ys) [] = Some r" "n \<notin> fst ` set xs" "names_used a = [k]" "k \<in> fst ` set xs"
  shows "\<exists>q. fallback_value rnd q a = Some (colour n r) \<and> colour k q = colour k r"
proof -
  obtain q where q: "fold_opt (row_value rnd t) xs [] = Some q" "fold_opt (row_value rnd t) ((n, None, a) # ys) q = Some r"
    using assms(1) by (auto simp: fold_opt_append bind_eq_Some_conv)
  then obtain c where c: "fallback_value rnd q a = Some c" "fold_opt (row_value rnd t) ys (q @ [(n, c)]) = Some r"
    by (auto simp: bind_eq_Some_conv)
  obtain s where s: "r = (q @ [(n, c)]) @ s" using rows_extend [OF c(2)] by auto
  have names: "fst ` set q = fst ` set xs" using rows_extend [OF q(1)] by (metis append_Nil list.set_map)
  have "colour n r = c" using colour_new [of n q c s] names assms(2) by (simp add: s)
  moreover have "colour k r = colour k q" using colour_append [of k q "(n, c) # s"] names assms(4) by (simp add: s)
  ultimately show ?thesis using c(1) by auto
qed

section \<open>Contrast\<close>

definition near :: "(rat \<Rightarrow> rat) \<Rightarrow> bool" where
  "near rnd \<longleftrightarrow> (\<forall>x. \<bar>rnd x - x\<bar> \<le> \<bar>x\<bar> / 1048576)"

lemma near_lower: "near rnd \<Longrightarrow> 0 \<le> l \<Longrightarrow> l \<le> x \<Longrightarrow> l - l / 1048576 \<le> rnd x"
proof -
  assume "near rnd" "0 \<le> l" "l \<le> x"
  then have "\<bar>rnd x - x\<bar> \<le> x / 1048576" unfolding near_def by (metis abs_of_nonneg order_trans)
  then show ?thesis using \<open>l \<le> x\<close> by linarith
qed

lemma taken_row:
  assumes "fold_opt (row_value rnd t) (xs @ (n, Some (k, v), a) # ys) [] = Some r" "n \<notin> fst ` set xs" "colour k t \<noteq> []"
  shows "colour n r = colour v t"
proof -
  obtain q where q: "fold_opt (row_value rnd t) xs [] = Some q" "fold_opt (row_value rnd t) ((n, Some (k, v), a) # ys) q = Some r"
    using assms(1) by (auto simp: fold_opt_append bind_eq_Some_conv)
  then have "fold_opt (row_value rnd t) ys (q @ [(n, colour v t)]) = Some r" using assms(3) by (auto simp: bind_eq_Some_conv)
  from rows_extend [OF this] obtain s where s: "r = (q @ [(n, colour v t)]) @ s" by auto
  have "fst ` set q = fst ` set xs" using rows_extend [OF q(1)] by (metis append_Nil list.set_map)
  then show ?thesis using colour_new [of n q "colour v t" s] assms(2) by (simp add: s)
qed

definition theme_rows :: "bool \<Rightarrow> colour_row list" where
  "theme_rows dark = primary_rows dark @ (if dark then dark_rows else light_rows)"

definition rows_before :: "string \<Rightarrow> bool \<Rightarrow> colour_row list" where
  "rows_before n dark = takeWhile (\<lambda>x. fst x \<noteq> n) (theme_rows dark)"

definition rows_after :: "string \<Rightarrow> bool \<Rightarrow> colour_row list" where
  "rows_after n dark = tl (dropWhile (\<lambda>x. fst x \<noteq> n) (theme_rows dark))"

lemma rows_before_names: "n \<notin> fst ` set (rows_before n dark)"
  unfolding rows_before_def by (auto dest: set_takeWhileD)

lemma inverted_rows:
  "theme_rows dark = rows_before ''headerColorInvert'' dark @ (''headerColorInvert'', None, Inverted ''headerColor'') # rows_after ''headerColorInvert'' dark"
  "theme_rows dark = rows_before ''primaryColorInvert'' dark @ (''primaryColorInvert'', None, Inverted ''primaryColor'') # rows_after ''primaryColorInvert'' dark"
  "''headerColor'' \<in> fst ` set (rows_before ''headerColorInvert'' dark)" "''primaryColor'' \<in> fst ` set (rows_before ''primaryColorInvert'' dark)"
  by (cases dark; simp only:; code_simp)+

lemma accent_row:
  "theme_rows dark = rows_before ''navAccentTextColor'' dark @
     (''navAccentTextColor'', Some (''navAccentTextColor'', ''navAccenttextColor''), Inverted ''navAccentColor'') # rows_after ''navAccentTextColor'' dark"
  by (cases dark; simp only:; code_simp)

lemma inverted_colour:
  assumes "theme_colours rnd dark t = Some r"
  shows "invert_color rnd (colour ''headerColor'' r) = Some (colour ''headerColorInvert'' r)"
    "invert_color rnd (colour ''primaryColor'' r) = Some (colour ''primaryColorInvert'' r)"
proof -
  have r: "fold_opt (row_value rnd t) (theme_rows dark) [] = Some r" using assms by (simp add: theme_colours_def theme_rows_def)
  show "invert_color rnd (colour ''headerColor'' r) = Some (colour ''headerColorInvert'' r)"
    using computed_row [OF r [unfolded inverted_rows(1) [of dark]] rows_before_names names_used.simps(4) inverted_rows(3)] by auto
  show "invert_color rnd (colour ''primaryColor'' r) = Some (colour ''primaryColorInvert'' r)"
    using computed_row [OF r [unfolded inverted_rows(2) [of dark]] rows_before_names names_used.simps(4) inverted_rows(4)] by auto
qed

lemma near_0: "near rnd \<Longrightarrow> rnd 0 = 0"
  unfolding near_def by (drule spec [of _ 0]) simp

lemma luminance_black: "near rnd \<Longrightarrow> luminance rnd (js ''#000'') = Some 0"
proof -
  have "getRgb (js ''#000'') = Some \<lparr>red = 0, green = 0, blue = 0\<rparr>" by code_simp
  then show "near rnd \<Longrightarrow> ?thesis" by (simp add: luminance_def near_0)
qed

lemma luminance_white: "near rnd \<Longrightarrow> \<exists>w. luminance rnd (js ''#fff'') = Some w \<and> 253 \<le> w"
proof -
  assume n: "near rnd"
  note low = near_lower [OF n]
  have "getRgb (js ''#fff'') = Some \<lparr>red = 255, green = 255, blue = 255\<rparr>" by code_simp
  then have l: "luminance rnd (js ''#fff'') = Some (rnd (rnd (rnd (rnd (299 / 1000) * 255) + rnd (rnd (587 / 1000) * 255)) + rnd (rnd (114 / 1000) * 255)))"
    by (simp add: luminance_def)
  have "298999 / 1000000 \<le> rnd (299 / 1000)" "586999 / 1000000 \<le> rnd (587 / 1000)" "113999 / 1000000 \<le> rnd (114 / 1000)"
    using low [of "299 / 1000" "299 / 1000"] low [of "587 / 1000" "587 / 1000"] low [of "114 / 1000" "114 / 1000"] by simp_all
  then have "76 \<le> rnd (rnd (299 / 1000) * 255)" "149 \<le> rnd (rnd (587 / 1000) * 255)" "29 \<le> rnd (rnd (114 / 1000) * 255)"
    using low [of "762 / 10" "rnd (299 / 1000) * 255"] low [of "1496 / 10" "rnd (587 / 1000) * 255"] low [of "2906 / 100" "rnd (114 / 1000) * 255"]
    by simp_all
  moreover from this have "2249 / 10 \<le> rnd (rnd (rnd (299 / 1000) * 255) + rnd (rnd (587 / 1000) * 255))"
    using low [of 225 "rnd (rnd (299 / 1000) * 255) + rnd (rnd (587 / 1000) * 255)"] by simp
  ultimately have "253 \<le> rnd (rnd (rnd (rnd (299 / 1000) * 255) + rnd (rnd (587 / 1000) * 255)) + rnd (rnd (114 / 1000) * 255))"
    using low [of "2539 / 10" "rnd (rnd (rnd (299 / 1000) * 255) + rnd (rnd (587 / 1000) * 255)) + rnd (rnd (114 / 1000) * 255)"] by simp
  then show ?thesis using l by simp
qed

section \<open>Properties\<close>

lemma set_colours:
  assumes "setTheme rnd so dark t = Some vs" "theme_colours rnd dark t = Some r" "(v, k) \<in> set style_colours"
  shows "colour v vs = colour k r"
proof -
  let ?common = "map fst (common_variables so r)"
  have names: "?common = [''--border-radius'', ''--layout'', ''--font-mono'', ''--font-regular'', ''--scroll-bar-width'',
      ''--nav-item-padding'', ''--resp-area-height'', ''--font-size-small'', ''--font-size-mono'', ''--font-size-regular'',
      ''--dialog-z-index'', ''--focus-shadow'']"
    by (simp add: common_variables_def)
  have "distinct (map fst style_colours)" "list_all (\<lambda>x. x \<notin> set (map fst style_colours)) ?common" unfolding names by code_simp+
  then have d: "distinct (map fst style_colours)" "\<forall>x \<in> fst ` set (common_variables so r). x \<notin> fst ` set style_colours"
    by (simp_all only: list_all_iff list.set_map)
  have "v \<in> fst ` set style_colours" using assms(3) by force
  then have "map_of (common_variables so r) v = None" unfolding map_of_eq_None_iff using d(2) by blast
  moreover have "map_of style_colours v = Some k" using d(1) assms(3) by simp
  then have "map_of (map (\<lambda>(v, k). (v, colour k r)) style_colours) v = Some (colour k r)" by (simp add: map_of_map)
  moreover have "vs = common_variables so r @ map (\<lambda>(v, k). (v, colour k r)) style_colours" using assms(1,2) by (simp add: setTheme_def)
  ultimately have "map_of vs v = Some (colour k r)" by (simp add: map_add_Some_iff)
  then show ?thesis by (simp add: colour_def)
qed


text \<open>
  The texts on the header and on a primary colour can be read: their brightness differs from that of the background by
  at least 118 of 255, whatever colour is given.
\<close>

theorem text_contrasts:
  assumes "near rnd" "theme_colours rnd dark (given_colours o') = Some r"
    and "(k, k') \<in> {(''headerColor'', ''headerColorInvert''), (''primaryColor'', ''primaryColorInvert'')}"
  shows "\<exists>a b. luminance rnd (colour k r) = Some a \<and> luminance rnd (colour k' r) = Some b \<and> 118 \<le> \<bar>a - b\<bar>"
proof -
  have i: "invert_color rnd (colour k r) = Some (colour k' r)" using inverted_colour [OF assms(2)] assms(3) by auto
  then obtain a where a: "luminance rnd (colour k r) = Some a" "colour k' r = js (if a > 135 then ''#000'' else ''#fff'')"
    by (auto simp: invert_color_def)
  show ?thesis
  proof (cases "a > 135")
    case True
    then show ?thesis using a luminance_black [OF assms(1)] by simp
  next
    case False
    obtain w where w: "luminance rnd (js ''#fff'') = Some w" "253 \<le> w" using luminance_white [OF assms(1)] by blast
    then have "118 \<le> \<bar>a - w\<bar>" using False by simp
    then show ?thesis using a False w(1) by simp
  qed
qed

text \<open>
  A colour given for the text of the active item is lost: the theme reads a misspelled property instead, and the
  variable of the style sheet is left empty.
\<close>

theorem accent_text_colour_is_lost:
  assumes "isValidHexColor (colour ''navAccentTextColor'' o')"
  shows "\<exists>vs. setTheme rnd so dark (given_colours o') = Some vs \<and> colour ''--nav-accent-text-color'' vs = []"
proof -
  obtain r where r: "theme_colours rnd dark (given_colours o') = Some r" using theme_returns [OF given_colours_ok] by blast
  then obtain vs where vs: "setTheme rnd so dark (given_colours o') = Some vs" by (simp add: setTheme_def)
  have f: "fold_opt (row_value rnd (given_colours o')) (theme_rows dark) [] = Some r" using r by (simp add: theme_colours_def theme_rows_def)
  have "colour ''navAccentTextColor'' o' \<noteq> []" using assms by (auto simp: isValidHexColor_def split: list.splits)
  then have "colour ''navAccentTextColor'' (given_colours o') \<noteq> []" using assms by (simp add: given_colours_def colour_def)
  from taken_row [OF f [unfolded accent_row [of dark]] rows_before_names this]
  have "colour ''navAccentTextColor'' r = []" by (simp add: given_colours_def colour_def)
  moreover have "(''--nav-accent-text-color'', ''navAccentTextColor'') \<in> set style_colours" by (simp add: style_colours_def)
  ultimately show ?thesis using vs set_colours [OF vs r] by auto
qed

definition sample_colours :: colours where
  "sample_colours = [(''bgColor'', js ''#000000''), (''textColor'', js ''#ededed''), (''primaryColor'', js ''#3b82f6''), (''navAccentTextColor'', js ''#fff'')]"

definition sample_style :: style_options where
  "sample_style = \<lparr>so_layout = js ''row'', so_monoFont = [], so_regularFont = [], so_navItemSpacing = [], so_responseAreaHeight = js ''400px'',
     so_fontSize = js ''default''\<rparr>"

theorem text_contrasts_witness:
  "\<exists>r a b. theme_colours id True (given_colours sample_colours) = Some r \<and> luminance id (colour ''headerColor'' r) = Some a \<and>
     luminance id (colour ''headerColorInvert'' r) = Some b \<and> 118 \<le> \<bar>a - b\<bar>"
proof -
  have "near id" by (simp add: near_def)
  moreover obtain r where "theme_colours id True (given_colours sample_colours) = Some r" using theme_returns [OF given_colours_ok] by blast
  ultimately show ?thesis using text_contrasts [of id True sample_colours r "''headerColor''" "''headerColorInvert''"] by auto
qed

theorem accent_text_colour_is_lost_witness:
  "\<exists>vs. setTheme id sample_style True (given_colours sample_colours) = Some vs \<and> colour ''--nav-accent-text-color'' vs = []"
proof -
  have "isValidHexColor (colour ''navAccentTextColor'' sample_colours)" by code_simp
  then show ?thesis by (rule accent_text_colour_is_lost)
qed

end
