(* ===== verification/Reference_Element.thy ===== *)
theory Reference_Element
  imports Nav_Bar Reference_Search Theme Routing
begin

text \<open>
  The \<open>rapi-doc\<close> element as a whole (\<open>docs/ui/assets/rapidoc-min.js\<close>): what it makes of its attributes, the template of the
  page (\<open>KF\<close>), loading a document and choosing a server, and navigating with the fragment of the page's address. The awaits
  of no time in \<open>scrollToPath\<close> let the page be rendered; a navigation is one event here, and for the observer of the page it is over at once. An address is a text, and putting a
  fragment into the history encodes it as the URL standard says.
\<close>

section \<open>Attributes\<close>

datatype accepted = Listed string | Inside string | Anything

fun accepts :: "accepted \<Rightarrow> jstr \<Rightarrow> bool" where
  "accepts (Listed s) v \<longleftrightarrow> occurs (v @ js '','') (js s)"
| "accepts (Inside s) v \<longleftrightarrow> occurs v (js s)"
| "accepts Anything v \<longleftrightarrow> True"

definition option_value :: "accepted \<Rightarrow> string \<Rightarrow> jstr \<Rightarrow> jstr" where
  "option_value a d v = (if v \<noteq> [] \<and> accepts a v then v else js d)"

definition option_rows :: "(string \<times> accepted \<times> string) list" where
  "option_rows =
    [(''layout'', Listed ''row, column,'', ''row''), (''renderStyle'', Listed ''read, view, focused,'', ''focused''),
     (''schemaStyle'', Listed ''tree, table,'', ''tree''), (''schemaDescriptionExpanded'', Listed ''true, false,'', ''false''),
     (''schemaHideReadOnly'', Listed ''default, never,'', ''default''), (''schemaHideWriteOnly'', Listed ''default, never,'', ''default''),
     (''fillRequestFieldsWithExample'', Listed ''true, false,'', ''true''), (''persistAuth'', Listed ''true, false,'', ''false''),
     (''responseAreaHeight'', Anything, ''400px''), (''allowSearch'', Listed ''true, false,'', ''true''),
     (''allowAdvancedSearch'', Listed ''true, false,'', ''true''), (''allowTry'', Listed ''true, false,'', ''true''),
     (''apiKeyValue'', Anything, ''-''), (''apiKeyLocation'', Anything, ''header''), (''apiKeyName'', Anything, ''''),
     (''oauthReceiver'', Anything, ''oauth-receiver.html''), (''updateRoute'', Listed ''true, false,'', ''true''),
     (''routePrefix'', Anything, ''#''), (''sortTags'', Listed ''true, false,'', ''false''),
     (''sortSchemas'', Listed ''true, false,'', ''false''), (''generateMissingTags'', Listed ''true, false,'', ''false''),
     (''sortEndpointsBy'', Listed ''method, path, summary, none,'', ''path''),
     (''onNavTagClick'', Listed ''expand-collapse, show-description,'', ''expand-collapse''),
     (''navItemSpacing'', Listed ''compact, relaxed, default,'', ''default''),
     (''showMethodInNavBar'', Listed ''false, as-plain-text, as-colored-text, as-colored-block,'', ''false''),
     (''usePathInNavBar'', Listed ''true, false,'', ''false''), (''navActiveItemMarker'', Listed ''left-bar, colored-block'', ''left-bar''),
     (''fontSize'', Listed ''default, large, largest,'', ''default''), (''showInfo'', Listed ''true, false,'', ''true''),
     (''allowServerSelection'', Listed ''true, false,'', ''true''), (''allowAuthentication'', Listed ''true, false,'', ''true''),
     (''allowSchemaDescriptionExpandToggle'', Listed ''true, false,'', ''true''), (''showSideNav'', Inside ''true false'', ''true''),
     (''showComponents'', Inside ''true false'', ''false''), (''infoDescriptionHeadingsInNavBar'', Listed ''true, false,'', ''false''),
     (''fetchCredentials'', Listed ''omit, same-origin, include,'', ''''), (''scrollBehavior'', Listed ''smooth, auto,'', ''auto''),
     (''matchType'', Inside ''includes regex'', ''includes''), (''matchPaths'', Anything, ''''),
     (''removeEndpointsWithBadgeLabelAs'', Anything, ''''),
     (''cssClasses'', Anything, '''')]"

definition connected_theme :: "bool \<Rightarrow> jstr \<Rightarrow> jstr" where
  \<comment> \<open>\<open>light\<close>: what the system prefers\<close>
  "connected_theme light v = option_value (Listed ''light, dark,'') (if light then ''light'' else ''dark'') v"

definition connected_schema_tab :: "jstr \<Rightarrow> jstr" where
  "connected_schema_tab v =
     (let t = option_value (Listed ''example, schema, model,'') ''example'' v in if t = js ''model'' then js ''schema'' else t)"

definition connected_expand_level :: "rat option \<Rightarrow> rat" where
  "connected_expand_level l = (case l of None \<Rightarrow> 99999 | Some n \<Rightarrow> if n < 1 then 99999 else n)"

definition connectedCallback :: "(string \<times> jstr) list \<Rightarrow> (string \<times> jstr) list" where
  "connectedCallback as = map (\<lambda>(k, a, d). (k, option_value a d (colour k as))) option_rows"

section \<open>Addresses\<close>

definition lastIndexOf :: "jstr \<Rightarrow> jstr \<Rightarrow> nat option" where
  "lastIndexOf s t = (case filter (\<lambda>i. startsWith (drop i s) t) [0..<Suc (length s)] of [] \<Rightarrow> None | is \<Rightarrow> Some (last is))"

definition getComponentBaseURL :: "jstr \<Rightarrow> jstr \<Rightarrow> jstr" where
  "getComponentBaseURL pre href =
     (let t = (if endsWith pre (js ''#'') \<or> endsWith pre (js ''/'') then butlast pre else pre) in
      if t = [] then takeWhile (\<lambda>c. c \<noteq> 35) href
      else case lastIndexOf href t of None \<Rightarrow> href | Some n \<Rightarrow> take n href)"

definition getElementIDFromURL :: "jstr \<Rightarrow> jstr \<Rightarrow> jstr" where
  "getElementIDFromURL pre href =
     (let b = getComponentBaseURL pre href @ pre in
      case indexOf href b 0 of None \<Rightarrow> href | Some n \<Rightarrow> take n href @ drop (n + length b) href)"

definition fragment_keeps :: "nat \<Rightarrow> bool" where
  "fragment_keeps b \<longleftrightarrow> 33 \<le> b \<and> b \<le> 126 \<and> b \<notin> {34, 60, 62, 96}"

definition fragment_encode :: "jstr \<Rightarrow> jstr" where
  "fragment_encode s = concat (map (\<lambda>b. if fragment_keeps b then [of_nat b] else pct b) (text_bytes (filter (\<lambda>c. c \<notin> {9, 10, 13}) s)))"

definition address :: "jstr \<Rightarrow> jstr" where
  \<comment> \<open>the text \<open>location.href\<close> has after \<open>replaceState\<close> was given this one\<close>
  "address u = (case dropWhile (\<lambda>c. c \<noteq> 35) u of [] \<Rightarrow> u | h # f \<Rightarrow> takeWhile (\<lambda>c. c \<noteq> 35) u @ 35 # fragment_encode f)"

definition replaceHistoryState :: "jstr \<Rightarrow> jstr \<Rightarrow> jstr \<Rightarrow> jstr" where
  "replaceHistoryState pre e href = address (getComponentBaseURL pre href @ (if pre \<noteq> [] then pre else js ''#'') @ e)"

definition location_hash :: "jstr \<Rightarrow> jstr" where
  "location_hash href = (case dropWhile (\<lambda>c. c \<noteq> 35) href of [] \<Rightarrow> [] | h # f \<Rightarrow> if f = [] then [] else h # f)"

section \<open>State\<close>

record page_functions =
  pf_slug :: "jstr \<Rightarrow> jstr"                           \<comment> \<open>the slugs of the Markdown library\<close>
  pf_notation :: "json option \<Rightarrow> json option"        \<comment> \<open>a schema in object notation\<close>
  pf_rnd :: "rat \<Rightarrow> rat"
  pf_base64 :: "jstr \<Rightarrow> jstr"

record element =
  el_ref :: reference
  el_href :: jstr
  el_origin :: jstr                    \<comment> \<open>of the selected server's URL\<close>
  el_active :: "jstr option"           \<comment> \<open>whose link is marked in the navigation bar\<close>
  el_observing :: bool                 \<comment> \<open>\<open>isIntersectionObserverActive\<close>\<close>
  el_stored :: "(jstr \<times> scheme) list"
  el_theme :: jstr
  el_colours :: colours
  el_style :: style_options

abbreviation el_opt :: "(ref_options \<Rightarrow> jstr) \<Rightarrow> element \<Rightarrow> jstr" where
  "el_opt f x \<equiv> opt f (el_ref x)"

definition upd_ref :: "(reference \<Rightarrow> reference) \<Rightarrow> element \<Rightarrow> element" where
  "upd_ref f x = x\<lparr>el_ref := f (el_ref x)\<rparr>"

section \<open>The page\<close>

definition recovered :: "page_functions \<Rightarrow> element \<Rightarrow> reference" where
  \<comment> \<open>\<open>persist-auth\<close>: every render restores the stored keys\<close>
  "recovered pf x =
     (el_ref x)\<lparr>rf_spec := map_option (\<lambda>r. r\<lparr>rs_schemes := schemes (Api_Auth.render (pf_base64 pf)
        \<lparr>schemes = rs_schemes r, stored = el_stored x, persistAuth = opt_is ro_persistAuth ''true'' (el_ref x)\<rparr>)\<rparr>) (rf_spec (el_ref x))\<rparr>"

definition style_element :: "page_functions \<Rightarrow> element \<Rightarrow> page_act html option" where
  \<comment> \<open>the variables it declares are its attributes\<close>
  "style_element pf x = map_option (\<lambda>vs. el ''style'' vs []) (setTheme (pf_rnd pf) (el_style x) (el_theme x = js ''dark'') (given_colours (el_colours x)))"

definition inner_class :: "reference \<Rightarrow> string \<times> jstr" where
  "inner_class st = (''class'', js ''main-content-inner--'' @ pg_renderStyle (rf_options st) @ js ''-mode'')"

definition loader :: "page_act html" where
  "loader = el ''div'' [cls ''loader''] []"

definition operations_root :: "page_functions \<Rightarrow> element \<Rightarrow> reference \<Rightarrow> bool \<Rightarrow> bool \<Rightarrow> page_act html list" where
  "operations_root pf x st mini all_open =
     (if pg_renderStyle (rf_options st) = js ''focused'' then focusedTemplate st (pf_notation pf) (el_origin x)
      else
        show_if (opt_is ro_showInfo ''true'' st) (overviewTemplate st) @
        show_if (opt_is ro_allowServerSelection ''true'' st) (apiServerTemplate st) @
        show_if (opt_is ro_allowAuthentication ''true'' st) (authSection st (el_origin x)) @
        [operations_top] @
        (if pg_renderStyle (rf_options st) = js ''read'' then readModeTemplate st else endpointsGroupTemplate st mini all_open))"

definition main_element :: "page_functions \<Rightarrow> element \<Rightarrow> reference \<Rightarrow> bool \<Rightarrow> bool \<Rightarrow> page_act html" where
  "main_element pf x st mini all_open =
     el ''main'' [cls ''main-content regular-font'']
       [el ''slot'' [] [],
        el ''div'' [inner_class st]
          (if rf_loading st then [loader]
           else if rf_loadFailed st then [el ''div'' [] [lit '' Unable to load the Spec'']]
           else [El ''div'' [cls ''operations-root''] [(''click'', HandleHref)] (operations_root pf x st mini all_open)]),
        el ''slot'' [(''name'', js ''footer'')] []]"

definition shows_side_nav :: "reference \<Rightarrow> bool" where
  "shows_side_nav st \<longleftrightarrow> pg_renderStyle (rf_options st) \<in> {js ''read'', js ''focused''} \<and> opt_is ro_showSideNav ''true'' st"

definition mainBodyTemplate :: "page_functions \<Rightarrow> element \<Rightarrow> bool \<Rightarrow> bool \<Rightarrow> page_act html list option" where
  "mainBodyTemplate pf x mini all_open =
     (case rf_spec (el_ref x) of
        None \<Rightarrow> Some []
      | Some r \<Rightarrow>
          map_option (\<lambda>style.
            (let st = recovered pf x in
             if rs_specLoadError r
             then [style, el ''div'' [(''id'', js ''spec-not-found'')]
                [Txt (case rs_info r of None \<Rightarrow> [] | Some info \<Rightarrow> shown (entry ''description'' info))]]
             else if rs_isSpecLoading r
             then [style, el ''main'' [cls ''main-content regular-font''] [el ''slot'' [] [], el ''div'' [inner_class st] [loader]]]
             else style # show_if (\<not> opt_is ro_showHeader ''false'' st) [headerTemplate st] @
               show_if (\<not> opt_is ro_allowAdvancedSearch ''false'' st) [searchDialogTemplate st] @
               [el ''div'' [(''id'', js ''the-main-body''), (''class'', js ''body '' @ opt ro_cssClasses st), (''dir'', opt ro_pageDirection st)]
                  (show_if (shows_side_nav st) [navBarTemplate (pf_slug pf) st] @ [main_element pf x st mini all_open])]))
          (style_element pf x))"

definition has_id :: "page_functions \<Rightarrow> element \<Rightarrow> jstr \<Rightarrow> bool" where
  \<comment> \<open>\<open>getElementById\<close> finds one\<close>
  "has_id pf x i = (case mainBodyTemplate pf x False False of None \<Rightarrow> False | Some ks \<Rightarrow> with_attr ''id'' i ks \<noteq> [])"

section \<open>Navigating\<close>

definition put_route :: "jstr \<Rightarrow> element \<Rightarrow> element" where
  "put_route e x =
     (if el_opt ro_updateRoute x = js ''true'' then x\<lparr>el_href := replaceHistoryState (el_opt ro_routePrefix x) e (el_href x)\<rparr> else x)"

definition mark_link :: "page_functions \<Rightarrow> jstr \<Rightarrow> element \<Rightarrow> element" where
  "mark_link pf e x = (if has_id pf x (js ''link-'' @ e) then x\<lparr>el_active := Some e\<rparr> else x)"

fun open_first :: "jstr \<Rightarrow> path_entry list \<Rightarrow> path_entry list" where
  "open_first e [] = []"
| "open_first e (p # ps) = (if pe_elementId p = e then p\<lparr>pe_expanded := True\<rparr> # ps else p # open_first e ps)"

definition open_in_group :: "jstr \<Rightarrow> tag_group \<Rightarrow> tag_group" where
  "open_in_group e g =
     (if list_ex (\<lambda>p. pe_elementId p = e) (tg_paths g) then g\<lparr>tg_expanded := True, tg_paths := open_first e (tg_paths g)\<rparr> else g)"

definition isValidTopId :: "jstr \<Rightarrow> bool" where
  "isValidTopId e \<longleftrightarrow> startsWith e (js ''overview'') \<or> e = js ''servers'' \<or> e = js ''auth''"

definition expandAndGotoOperation :: "page_functions \<Rightarrow> jstr \<Rightarrow> element \<Rightarrow> element" where
  "expandAndGotoOperation pf e x =
     (case rf_spec (el_ref x) of
        None \<Rightarrow> x
      | Some r \<Rightarrow>
          let s = (if 35 \<in> set e then drop 1 e else e);
              x' = (if isValidTopId s then x else upd_ref (\<lambda>st. st\<lparr>rf_spec := Some (r\<lparr>rs_tags := map (open_in_group e) (rs_tags r)\<rparr>)\<rparr>) x)
          in if has_id pf x' s then put_route s x' else x')"

definition scrollToPath :: "page_functions \<Rightarrow> jstr \<Rightarrow> element \<Rightarrow> element" where
  "scrollToPath pf e x =
     (let style = el_opt (\<lambda>ro. pg_renderStyle ro) x; x1 = (if style = js ''focused'' then upd_ref (\<lambda>st. st\<lparr>rf_focused := e\<rparr>) x else x) in
      if style = js ''view'' then expandAndGotoOperation pf e x1
      else if has_id pf x1 e then mark_link pf e (put_route e x1) else x1)"

definition onIntersect :: "page_functions \<Rightarrow> jstr \<Rightarrow> element \<Rightarrow> element" where
  \<comment> \<open>an observed element came into view\<close>
  "onIntersect pf i x =
     (if \<not> el_observing x then x
      else if has_id pf x (js ''link-'' @ i) then (put_route i x)\<lparr>el_active := Some i\<rparr> else x\<lparr>el_active := None\<rparr>)"

section \<open>Loading\<close>

definition chosen_server :: "element \<Rightarrow> resolved \<Rightarrow> server option" where
  "chosen_server x r =
     (let d = el_opt ro_defaultApiServerUrl x; own = el_opt ro_ownServerUrl x;
          given = (if d = [] then None else if d = own then Some (plain_server own) else List.find (\<lambda>s. sv_url s = d) (rs_servers r))
      in case given of Some s \<Rightarrow> Some s | None \<Rightarrow> (case rs_servers r of [] \<Rightarrow> None | s # _ \<Rightarrow> Some s))"

definition afterSpecParsedAndValidated :: "page_functions \<Rightarrow> resolved \<Rightarrow> element \<Rightarrow> element" where
  \<comment> \<open>\<open>showInfo\<close> is not empty, so the overview is shown where no path is given\<close>
  "afterSpecParsedAndValidated pf r x =
     (let x' = (upd_ref (\<lambda>st. st\<lparr>rf_spec := Some r, rf_selectedServer := chosen_server x r\<rparr>) x)\<lparr>el_observing := True\<rparr>;
          e = getElementIDFromURL (el_opt ro_routePrefix x) (el_href x)
      in if e \<noteq> [] then if el_opt (\<lambda>ro. pg_renderStyle ro) x = js ''view'' then expandAndGotoOperation pf e x' else scrollToPath pf e x'
         else if el_opt (\<lambda>ro. pg_renderStyle ro) x = js ''focused'' \<and> el_opt ro_gotoPath x = [] then scrollToPath pf (js ''overview'') x'
         else x')"

datatype element_event =
    LoadStarted
  | Loaded resolved
  | LoadFailed
  | NavItem jstr               \<comment> \<open>a click on an item of the navigation bar, with its \<open>data-content-id\<close>\<close>
  | HashChanged jstr           \<comment> \<open>the new address\<close>
  | Intersected jstr
  | ServerChosen jstr
  | SearchChanged jstr

fun element_step :: "page_functions \<Rightarrow> element_event \<Rightarrow> element \<Rightarrow> element" where
  "element_step pf LoadStarted x =
     upd_ref (\<lambda>st. st\<lparr>rf_searchVal := [], rf_spec := Some (no_document\<lparr>rs_isSpecLoading := True\<rparr>), rf_loading := True, rf_loadFailed := False\<rparr>) x"
| "element_step pf (Loaded r) x = afterSpecParsedAndValidated pf r (upd_ref (\<lambda>st. st\<lparr>rf_loading := False\<rparr>) x)"
| "element_step pf LoadFailed x = upd_ref (\<lambda>st. st\<lparr>rf_loading := False, rf_loadFailed := True, rf_spec := None\<rparr>) x"
| "element_step pf (NavItem e) x = (if e = [] then x else scrollToPath pf e x)"
| "element_step pf (HashChanged u) x = scrollToPath pf (getElementIDFromURL (el_opt ro_routePrefix x) u) (x\<lparr>el_href := u\<rparr>)"
| "element_step pf (Intersected i) x = onIntersect pf i x"
| "element_step pf (ServerChosen u) x = upd_ref (\<lambda>st. fst (setApiServer u st)) x"
| "element_step pf (SearchChanged s) x = upd_ref (onSearchChange s) x"

section \<open>Addresses\<close>

definition plain_char :: "jchar \<Rightarrow> bool" where
  "plain_char c \<longleftrightarrow> fragment_keeps (unat c)"

lemma fragment_encode_Nil [simp]: "fragment_encode [] = []"
  by (simp add: fragment_encode_def text_bytes_def)

lemma code_points_ascii: "unat c < 128 \<Longrightarrow> code_points (c # s) = unat c # code_points s"
  by (cases s) (auto simp: high_surrogate_def word_le_nat_alt)

lemma fragment_encode_Cons: "plain_char c \<Longrightarrow> fragment_encode (c # s) = c # fragment_encode s"
proof -
  assume c: "plain_char c"
  then have "c \<notin> {9, 10, 13}" "unat c < 128" by (auto simp: plain_char_def fragment_keeps_def)
  then show ?thesis using c
    by (simp add: fragment_encode_def text_bytes_def code_points_ascii utf8_def scalar_def lone_surrogate_def plain_char_def)
qed

lemma fragment_encode_append: "list_all plain_char p \<Longrightarrow> fragment_encode (p @ s) = p @ fragment_encode s"
  by (induction p) (simp_all add: fragment_encode_Cons)

lemma fragment_encode_plain: "list_all plain_char s \<Longrightarrow> fragment_encode s = s"
  using fragment_encode_append [of s "[]"] by simp

lemma plain_hex: "n < 16 \<Longrightarrow> plain_char (hex_upper n)"
proof -
  have "list_all (\<lambda>n. plain_char (hex_upper n)) [0..<16]" by code_simp
  then show "n < 16 \<Longrightarrow> ?thesis" by (auto simp: list_all_iff)
qed

lemma fragment_encode_chars: "list_all plain_char (fragment_encode s)"
proof -
  have "list_all plain_char (if fragment_keeps b then [of_nat b] else pct b)" if "b \<in> set (text_bytes t)" for b t
  proof (cases "fragment_keeps b")
    case True
    then have "unat (of_nat b :: jchar) = b" using text_bytes_small [OF that] by (simp add: unsigned_of_nat take_bit_nat_eq_self)
    then show ?thesis using True by (simp add: plain_char_def)
  next
    case False
    have "b div 16 < 16" "b mod 16 < 16" using text_bytes_small [OF that] by simp_all
    then have "list_all plain_char (pct b)" using plain_hex by (simp add: pct_def) (simp add: plain_char_def fragment_keeps_def)
    then show ?thesis using False by simp
  qed
  then show ?thesis by (auto simp: fragment_encode_def list_all_iff split: if_splits)
qed

lemma base_of_hash [simp]: "getComponentBaseURL (js ''#'') href = takeWhile (\<lambda>c. c \<noteq> 35) href"
  by (simp add: getComponentBaseURL_def endsWith_iff js_def)

lemma takeWhile_no_hash [simp]: "35 \<notin> set (takeWhile (\<lambda>c. c \<noteq> 35) href)"
  by (metis (mono_tags) set_takeWhileD)

lemma written_address: "replaceHistoryState (js ''#'') e href = takeWhile (\<lambda>c. c \<noteq> 35) href @ 35 # fragment_encode e"
  by (simp only: replaceHistoryState_def base_of_hash) (simp add: address_def js_def)

lemma read_address: "35 \<notin> set u \<Longrightarrow> getElementIDFromURL (js ''#'') (u @ 35 # f) = f"
proof -
  assume u: "35 \<notin> set u"
  then have "getComponentBaseURL (js ''#'') (u @ 35 # f) = u" by simp
  moreover obtain c s where "u @ 35 # f = c # s" by (cases "u @ 35 # f") auto
  then have "find_sub (u @ 35 # f) (u @ [35]) = Some 0" using startsWith_append [of "u @ [35]" f] by simp
  ultimately show ?thesis by (simp add: getElementIDFromURL_def indexOf_0 js_def)
qed

text \<open>
  The fragment written for an element is read back as the element's id exactly when all its characters may stand in a
  fragment: others are percent-encoded by the browser, and the id that is read is not the one of the element.
\<close>

theorem routes_read_back:
  "getElementIDFromURL (js ''#'') (replaceHistoryState (js ''#'') e href) = e \<longleftrightarrow> list_all plain_char e"
proof -
  have "getElementIDFromURL (js ''#'') (replaceHistoryState (js ''#'') e href) = fragment_encode e"
    unfolding written_address by (rule read_address) simp
  then show ?thesis using fragment_encode_plain [of e] fragment_encode_chars [of e] by metis
qed

section \<open>What events leave unchanged\<close>

definition core :: "element \<Rightarrow> (bool \<times> bool \<times> server list) option \<times> server option \<times> ref_options" where
  "core x = (map_option (\<lambda>r. (rs_isSpecLoading r, rs_specLoadError r, rs_servers r)) (rf_spec (el_ref x)), rf_selectedServer (el_ref x), rf_options (el_ref x))"

lemma core_put_route [simp]: "core (put_route e x) = core x"
  by (simp add: core_def put_route_def)

lemma core_mark_link [simp]: "core (mark_link pf e x) = core x"
  by (simp add: core_def mark_link_def)

lemma core_goto [simp]: "core (expandAndGotoOperation pf e x) = core x"
  by (auto simp: expandAndGotoOperation_def Let_def core_def upd_ref_def put_route_def split: option.splits)

lemma core_scroll [simp]: "core (scrollToPath pf e x) = core x"
  by (simp add: scrollToPath_def Let_def) (simp add: core_def upd_ref_def)

lemma core_intersect [simp]: "core (onIntersect pf i x) = core x"
  by (simp add: onIntersect_def core_def put_route_def)

definition server_ok :: "element \<Rightarrow> bool" where
  "server_ok x \<longleftrightarrow>
     (case core x of
        (Some (loading, error, ss), sel, ro) \<Rightarrow> loading \<or> error \<or> (\<exists>s. sel = Some s \<and> (s \<in> set ss \<or> s = plain_server (ro_ownServerUrl ro)))
      | _ \<Rightarrow> True)"

lemma server_ok_core: "core x = core y \<Longrightarrow> server_ok x = server_ok y"
  by (simp add: server_ok_def)

lemma chosen_server_ok:
  "rs_servers r \<noteq> [] \<Longrightarrow> \<exists>s. chosen_server x r = Some s \<and> (s \<in> set (rs_servers r) \<or> s = plain_server (el_opt ro_ownServerUrl x))"
  by (cases "rs_servers r") (auto simp: chosen_server_def Let_def find_Some_iff in_set_conv_nth split: option.split if_splits)

lemma core_loaded:
  "core (afterSpecParsedAndValidated pf r x) =
     (Some (rs_isSpecLoading r, rs_specLoadError r, rs_servers r), chosen_server x r, rf_options (el_ref x))"
proof -
  have "core ((upd_ref (\<lambda>st. st\<lparr>rf_spec := Some r, rf_selectedServer := chosen_server x r\<rparr>) x)\<lparr>el_observing := True\<rparr>) =
      (Some (rs_isSpecLoading r, rs_specLoadError r, rs_servers r), chosen_server x r, rf_options (el_ref x))"
    by (simp add: core_def upd_ref_def)
  then show ?thesis by (simp add: afterSpecParsedAndValidated_def Let_def)
qed

lemma setApiServer_selects: "fst (setApiServer u st) = st \<or> (\<exists>s \<in> set (rs_servers (spec_of st)). fst (setApiServer u st) = st\<lparr>rf_selectedServer := Some s\<rparr>)"
proof (cases "List.find (\<lambda>s. sv_url s = u) (rs_servers (spec_of st))")
  case (Some s)
  then have "s \<in> set (rs_servers (spec_of st))" by (auto simp: find_Some_iff)
  then show ?thesis using Some by (auto simp: setApiServer_def)
qed (simp add: setApiServer_def)

lemma server_ok_step:
  assumes "server_ok x" "\<And>r. e = Loaded r \<Longrightarrow> rs_specLoadError r \<or> rs_servers r \<noteq> []"
  shows "server_ok (element_step pf e x)"
proof (cases e)
  case LoadStarted
  then show ?thesis by (simp add: server_ok_def core_def upd_ref_def)
next
  case (Loaded r)
  let ?x = "upd_ref (\<lambda>st. st\<lparr>rf_loading := False\<rparr>) x"
  show ?thesis
  proof (cases "rs_specLoadError r")
    case True
    then show ?thesis using Loaded by (simp add: server_ok_def core_loaded)
  next
    case False
    then show ?thesis using Loaded chosen_server_ok [of r ?x] assms(2) by (simp add: server_ok_def core_loaded opt_def)
  qed
next
  case LoadFailed
  then show ?thesis by (simp add: server_ok_def core_def upd_ref_def)
next
  case (NavItem i)
  then show ?thesis using assms(1) server_ok_core [OF core_scroll, of pf i x] by simp
next
  case (HashChanged u)
  have c: "core (x\<lparr>el_href := u\<rparr>) = core x" by (simp add: core_def)
  show ?thesis using assms(1) HashChanged server_ok_core [OF c] by (simp add: server_ok_core [OF core_scroll])
next
  case (Intersected i)
  then show ?thesis using assms(1) server_ok_core [OF core_intersect, of pf i x] by simp
next
  case (ServerChosen u)
  have "server_ok (upd_ref (\<lambda>st. st\<lparr>rf_selectedServer := Some s\<rparr>) x)" if "s \<in> set (rs_servers (spec_of (el_ref x)))" for s
    using that by (cases "rf_spec (el_ref x)") (simp_all add: server_ok_def core_def upd_ref_def spec_of_def)
  moreover have "server_ok (upd_ref (\<lambda>st. st) x)" using assms(1) by (simp add: upd_ref_def)
  ultimately show ?thesis using setApiServer_selects [of u "el_ref x"] ServerChosen by (auto simp: upd_ref_def)
next
  case (SearchChanged s)
  have c: "core (upd_ref (onSearchChange s) x) = core x"
    by (cases "rf_spec (el_ref x)") (simp_all add: core_def upd_ref_def onSearchChange_def upd_subs_def)
  show ?thesis using assms(1) SearchChanged server_ok_core [OF c] by simp
qed

lemma server_ok_run:
  "server_ok x \<Longrightarrow> (\<And>r. Loaded r \<in> set es \<Longrightarrow> rs_specLoadError r \<or> rs_servers r \<noteq> []) \<Longrightarrow> server_ok (fold (element_step pf) es x)"
  by (induction es arbitrary: x) (simp_all add: server_ok_step)

section \<open>Focusing after navigation\<close>

lemma focused_scroll: "el_opt (\<lambda>ro. pg_renderStyle ro) x = js ''focused'' \<Longrightarrow> el_ref (scrollToPath pf e x) = (el_ref x)\<lparr>rf_focused := e\<rparr>"
  by (simp add: scrollToPath_def upd_ref_def put_route_def mark_link_def Let_def js_def)

lemma focused_load:
  assumes "el_opt (\<lambda>ro. pg_renderStyle ro) x = js ''focused''" "getElementIDFromURL (el_opt ro_routePrefix x) (el_href x) = e" "e \<noteq> []"
  shows "spec_of (el_ref (element_step pf (Loaded r) x)) = r" "rf_focused (el_ref (element_step pf (Loaded r) x)) = e"
proof -
  let ?x = "upd_ref (\<lambda>st. st\<lparr>rf_loading := False\<rparr>) x"
  let ?y = "(upd_ref (\<lambda>st. st\<lparr>rf_spec := Some r, rf_selectedServer := chosen_server ?x r\<rparr>) ?x)\<lparr>el_observing := True\<rparr>"
  have o': "el_opt f ?x = el_opt f x" "el_opt f ?y = el_opt f x" for f by (simp_all add: opt_def upd_ref_def)
  have "element_step pf (Loaded r) x = scrollToPath pf e ?y"
    using assms by (simp add: afterSpecParsedAndValidated_def Let_def o' js_def) (simp add: upd_ref_def)
  then have "el_ref (element_step pf (Loaded r) x) = (el_ref ?y)\<lparr>rf_focused := e\<rparr>" using focused_scroll [of ?y pf e] assms(1) o'(2) by simp
  then show "spec_of (el_ref (element_step pf (Loaded r) x)) = r" "rf_focused (el_ref (element_step pf (Loaded r) x)) = e"
    by (simp_all add: spec_of_def upd_ref_def)
qed

lemma focus_recovered: "focus_of (recovered pf x) = focus_of (el_ref x)"
proof -
  have s: "rf_focused (recovered pf x) = rf_focused (el_ref x)" "opt_is f b (recovered pf x) = opt_is f b (el_ref x)" for f b
    by (simp_all add: recovered_def opt_is_def)
  have t: "rs_tags (spec_of (recovered pf x)) = rs_tags (spec_of (el_ref x))"
    by (cases "rf_spec (el_ref x)") (simp_all add: recovered_def spec_of_def)
  show ?thesis unfolding focus_of_def s t by (rule refl)
qed

lemma expanded_body_id: "with_attr ''id'' (pe_elementId q) (expanded_body st q t d) \<noteq> []"
  by (simp add: expanded_body_def expandedEndpointBodyTemplate_def operation_of_def show_if_def)

lemma focused_operation_id:
  assumes "focus_of (el_ref x) = PathFocus h q" "rf_spec (el_ref x) = Some r" "\<not> rs_specLoadError r" "\<not> rs_isSpecLoading r"
    and "\<not> rf_loading (el_ref x)" "\<not> rf_loadFailed (el_ref x)" "rf_focused (el_ref x) \<noteq> []"
    and "el_opt (\<lambda>ro. pg_renderStyle ro) x = js ''focused''"
  shows "has_id pf x (pe_elementId q)"
proof -
  let ?st = "recovered pf x"
  obtain cs where "theme_colours (pf_rnd pf) (el_theme x = js ''dark'') (given_colours (el_colours x)) = Some cs"
    using theme_returns [OF given_colours_ok] by blast
  then obtain vs where vs: "style_element pf x = Some (el ''style'' vs [])" by (simp add: style_element_def setTheme_def)
  have st: "pg_renderStyle (rf_options ?st) = js ''focused''" "\<not> rf_loading ?st" "\<not> rf_loadFailed ?st" "rf_focused ?st \<noteq> []"
    using assms(2,5-8) by (simp_all add: recovered_def opt_def)
  obtain r' where r': "rf_spec ?st = Some r'" using assms(2) by (simp add: recovered_def)
  have "focusedTemplate ?st (pf_notation pf) (el_origin x) = wrapFocused (expanded_body ?st q (tg_name h) (tg_description h))"
    using st(4) r' assms(1) by (simp add: focusedTemplate_def focus_recovered)
  then have "with_attr ''id'' (pe_elementId q) (focusedTemplate ?st (pf_notation pf) (el_origin x)) \<noteq> []"
    using expanded_body_id [of q ?st] by (simp add: wrapFocused_def)
  then have "with_attr ''id'' (pe_elementId q) [main_element pf x ?st False False] \<noteq> []"
    using st(1-3) by (simp add: main_element_def operations_root_def)
  then show ?thesis using assms(2-4) vs by (simp add: has_id_def mainBodyTemplate_def Let_def)
qed

lemma operation_ids:
  assumes "groupByTags lc lexer ls doc = Some gs" "g \<in> set gs" "p \<in> set (tg_paths g)"
  shows "\<exists>m \<in> set methods. pe_elementId p = m @ js ''-'' @ id_text (pe_path p)"
  using well_named_groups [OF assms(1)] assms(2,3) by (auto simp: list_all_iff well_named_def)


lemma split_on_head: "x \<noteq> c \<Longrightarrow> \<exists>p ps. split_on c (x # s) = (x # p) # ps"
  by (cases "split_on c s") auto

text \<open>
  C16: The address that navigating in the reference leaves is not one of the viewer's API view: when the page is loaded with it,
  the viewer takes the id of the operation for the name of a document and opens the documents instead.
\<close>

theorem reload_leaves_the_api_view:
  assumes "groupByTags lc lexer ls doc = Some gs" "g \<in> set gs" "p \<in> set (tg_paths g)"
    and "h = parseHash (location_hash (replaceHistoryState (js ''#'') (pe_elementId p) href))"
  shows "hd_view h = js ''docs'' \<and> hd_doc h \<noteq> None"
proof -
  obtain m where m: "m \<in> set methods" "pe_elementId p = m @ js ''-'' @ id_text (pe_path p)" using operation_ids [OF assms(1-3)] by blast
  have "list_all (\<lambda>m. list_all plain_char m) methods" "plain_char hyphen" by code_simp+
  then have "list_all plain_char (m @ js ''-'')" using m(1) by (auto simp: list_all_iff js_def)
  then obtain t where t: "fragment_encode (pe_elementId p) = m @ js ''-'' @ t"
    using fragment_encode_append [of "m @ js ''-''" "id_text (pe_path p)"] m(2) by auto
  then have "location_hash (replaceHistoryState (js ''#'') (pe_elementId p) href) = 35 # m @ js ''-'' @ t"
    unfolding written_address by (simp add: location_hash_def js_def)
  then have h: "h = docs_route (m @ js ''-'' @ t)"
    using m(1) by (auto simp: assms(4) parseHash_def methods_def js_def startsWith_Cons)
  obtain x s where x: "m @ js ''-'' @ t = x # s" "x \<noteq> colon" using m(1) by (auto simp: methods_def js_def)
  obtain q qs where "split_on colon (x # s) = (x # q) # qs" using split_on_head [OF x(2)] by blast
  then show ?thesis by (simp add: h x(1) docs_route_def part_or_null_def or_null_def Let_def nth_opt_def del: split_on.simps)
qed

lemma find_path_None: "(\<And>g p. g \<in> set gs \<Longrightarrow> p \<in> set (tg_paths g) \<Longrightarrow> pe_elementId p \<noteq> e) \<Longrightarrow> find_path e gs = None"
proof (induction gs)
  case (Cons g gs)
  have "List.find (\<lambda>p. pe_elementId p = e) (tg_paths g) = None" using Cons.prems by (auto simp: find_None_iff)
  moreover have "find_path e gs = None" by (rule Cons.IH) (use Cons.prems in auto)
  ultimately show ?case by simp
qed simp

lemma focus_of_api:
  "rf_focused st = js ''api:'' @ t \<Longrightarrow> find_path (js ''api:'' @ t) (rs_tags (spec_of st)) = None \<Longrightarrow> focus_of st = DefaultFocus"
  by (simp add: focus_of_def Let_def startsWith_Cons js_def)

text \<open>
  The other way round, what the viewer writes into the address for its API view means nothing to the reference: in
  the focused style it shows its default content, whatever operation the address names.
\<close>

theorem api_addresses_show_the_default:
  assumes "groupByTags lc lexer ls doc = Some (rs_tags r)" "35 \<notin> set u"
    and "el_opt (\<lambda>ro. pg_renderStyle ro) x = js ''focused''" "el_opt ro_routePrefix x = js ''#''"
    and "el_href x = u @ buildHash (js ''api'') (Some t) None"
  shows "focus_of (el_ref (element_step pf (Loaded r) x)) = DefaultFocus"
proof -
  have "el_href x = u @ 35 # js ''api:'' @ t" using assms(5) by (simp add: buildHash_def template_str_def truthy_def js_def)
  then have "getElementIDFromURL (el_opt ro_routePrefix x) (el_href x) = js ''api:'' @ t" using assms(2,4) read_address by simp
  then have st: "spec_of (el_ref (element_step pf (Loaded r) x)) = r" "rf_focused (el_ref (element_step pf (Loaded r) x)) = js ''api:'' @ t"
    using focused_load [OF assms(3)] by (auto simp: js_def)
  have "pe_elementId p \<noteq> js ''api:'' @ t" if "g \<in> set (rs_tags r)" "p \<in> set (tg_paths g)" for g p
    using operation_ids [OF assms(1) that] by (auto simp: methods_def js_def)
  then have "find_path (js ''api:'' @ t) (rs_tags r) = None" by (rule find_path_None)
  then have "find_path (js ''api:'' @ t) (rs_tags (spec_of (el_ref (element_step pf (Loaded r) x)))) = None" unfolding st(1) .
  then show ?thesis by (rule focus_of_api [OF st(2)])
qed

text \<open>
  A load that fails leaves an empty page: the message that the specification cannot be loaded is in the part of the page
  that is not rendered without a document.
\<close>

theorem failed_loads_show_nothing:
  "mainBodyTemplate pf (element_step pf LoadFailed x) mini all_open = Some []"
  by (simp add: mainBodyTemplate_def upd_ref_def)

text \<open>
  C17: Whenever a document is shown, after any loads and clicks, a server is selected to which its requests are sent: one of the
  document's, or the one of the attributes.
\<close>

theorem a_server_is_selected:
  assumes "rf_spec (el_ref x) = None" "\<And>r. Loaded r \<in> set es \<Longrightarrow> \<exists>ls z. processSpec lc lexer rx re ls z = Some (Document r)"
    and "y = fold (element_step pf) es x" "rf_spec (el_ref y) = Some r" "\<not> rs_isSpecLoading r" "\<not> rs_specLoadError r"
  shows "\<exists>s. rf_selectedServer (el_ref y) = Some s \<and> (s \<in> set (rs_servers r) \<or> s = plain_server (el_opt ro_ownServerUrl y))"
proof -
  have "rs_specLoadError q \<or> rs_servers q \<noteq> []" if "Loaded q \<in> set es" for q
    using assms(2) [OF that] documents_have_servers by blast
  moreover have "server_ok x" using assms(1) by (simp add: server_ok_def core_def)
  ultimately have "server_ok y" unfolding assms(3) using server_ok_run by blast
  then show ?thesis using assms(4-6) by (simp add: server_ok_def core_def opt_def)
qed

text \<open>The marker \<open>colored-block\<close> of the active item is never accepted: the list of the markers lacks its last comma.\<close>

theorem colored_block_is_reset:
  "colour ''navActiveItemMarker'' (connectedCallback as) \<noteq> js ''colored-block''"
proof -
  have "colour ''navActiveItemMarker'' (connectedCallback as) =
      option_value (Listed ''left-bar, colored-block'') ''left-bar'' (colour ''navActiveItemMarker'' as)"
    by (simp add: connectedCallback_def option_rows_def colour_def)
  moreover have "\<not> accepts (Listed ''left-bar, colored-block'') (js ''colored-block'')" by code_simp
  ultimately show ?thesis by (auto simp: option_value_def)
qed

section \<open>Examples\<close>

definition sample_element :: element where
  "sample_element = \<lparr>el_ref = (sample_reference sample_doc)\<lparr>rf_options := sample_options\<lparr>pg_renderStyle := js ''focused''\<rparr>\<rparr>, el_href = js ''http://h/'', el_origin = js ''http://localhost'', el_active = None,
     el_observing = True, el_stored = [], el_theme = js ''dark'', el_colours = sample_colours, el_style = sample_style\<rparr>"

definition sample_functions :: page_functions where
  "sample_functions = \<lparr>pf_slug = id, pf_notation = \<lambda>s. None, pf_rnd = id, pf_base64 = id\<rparr>"

lemma sample_element_options:
  "el_opt (\<lambda>ro. pg_renderStyle ro) sample_element = js ''focused''" "el_opt ro_updateRoute sample_element = js ''true''"
  "el_opt ro_routePrefix sample_element = js ''#''"
  by (simp_all add: sample_element_def opt_def sample_options_def page_settings.defs)

lemma shown_groups_are: "groupByTags by_length (\<lambda>_. []) sample_settings doc = Some gs \<Longrightarrow> rs_tags (shown_document doc) = gs"
  by (simp add: shown_document_def)

lemma sample_tags_shown: "groupByTags by_length (\<lambda>_. []) sample_settings sample_doc = Some (rs_tags (shown_document sample_doc))"
proof -
  obtain gs where "groupByTags by_length (\<lambda>_. []) sample_settings sample_doc = Some gs" by (rule sample_groups)
  then show ?thesis using shown_groups_are by simp
qed

lemma sample_operation:
  obtains g p where "g \<in> set (rs_tags (shown_document sample_doc))" "p \<in> set (tg_paths g)" "pe_elementId p = js ''get-/chats/-id-''"
proof -
  obtain gs g p where "groupByTags by_length (\<lambda>_. []) sample_settings sample_doc = Some gs" "g \<in> set gs" "p \<in> set (tg_paths g)"
    "pe_elementId p = js ''get-/chats/-id-''" by (rule sample_groups)
  then show thesis using that [of g p] shown_groups_are by simp
qed


theorem reload_leaves_the_api_view_witness:
  "let h = parseHash (location_hash (replaceHistoryState (js ''#'') (js ''get-/chats/-id-'') (js ''http://localhost/docs#api''))) in
   hd_view h = js ''docs'' \<and> hd_doc h \<noteq> None"
proof -
  obtain g p where p: "g \<in> set (rs_tags (shown_document sample_doc))" "p \<in> set (tg_paths g)" "pe_elementId p = js ''get-/chats/-id-''"
    by (rule sample_operation)
  then show ?thesis using reload_leaves_the_api_view [OF sample_tags_shown p(1,2) refl] by (simp add: Let_def)
qed

theorem api_addresses_show_the_default_witness:
  "let x = sample_element\<lparr>el_href := js ''http://localhost/docs#api:chats''\<rparr> in
   focus_of (el_ref (element_step sample_functions (Loaded (shown_document sample_doc)) x)) = DefaultFocus"
  unfolding Let_def
proof (rule api_addresses_show_the_default [OF sample_tags_shown, where u = "js ''http://localhost/docs''" and t = "js ''chats''"])
  show "35 \<notin> set (js ''http://localhost/docs'')" by code_simp
  show "el_href (sample_element\<lparr>el_href := js ''http://localhost/docs#api:chats''\<rparr>) = js ''http://localhost/docs'' @ buildHash (js ''api'') (Some (js ''chats'')) None"
    by (simp add: buildHash_def template_str_def truthy_def js_def)
  show "el_opt (\<lambda>ro. pg_renderStyle ro) (sample_element\<lparr>el_href := js ''http://localhost/docs#api:chats''\<rparr>) = js ''focused''"
    "el_opt ro_routePrefix (sample_element\<lparr>el_href := js ''http://localhost/docs#api:chats''\<rparr>) = js ''#''"
    using sample_element_options by (simp_all add: opt_def)
qed

theorem a_server_is_selected_witness:
  "\<exists>r y s. y = fold (element_step sample_functions) [LoadStarted, Loaded r] (upd_ref (\<lambda>st. st\<lparr>rf_spec := None\<rparr>) sample_element) \<and>
     rf_selectedServer (el_ref y) = Some s \<and> (s \<in> set (rs_servers (spec_of (el_ref y))) \<or> s = plain_server (el_opt ro_ownServerUrl y))"
proof -
  let ?p = "processSpec by_length (\<lambda>_. []) (\<lambda>p v t. None) (\<lambda>p t. None) sample_settings sample_fetched"
  let ?x = "upd_ref (\<lambda>st. st\<lparr>rf_spec := None\<rparr>) sample_element"
  obtain r where r: "?p = Some (Document r)" "\<not> rs_isSpecLoading r" "\<not> rs_specLoadError r" by (rule sample_loads)
  let ?es = "[LoadStarted, Loaded r]"
  have "\<exists>ro s. core (fold (element_step sample_functions) ?es ?x) = (Some (False, False, rs_servers r), s, ro)"
    using r(2,3) by (simp add: core_loaded)
  then obtain r' where r': "rf_spec (el_ref (fold (element_step sample_functions) ?es ?x)) = Some r'" "\<not> rs_isSpecLoading r'" "\<not> rs_specLoadError r'"
    by (auto simp: core_def)
  have l: "\<exists>ls z. processSpec by_length (\<lambda>_. []) (\<lambda>p v t. None) (\<lambda>p t. None) ls z = Some (Document q)" if "Loaded q \<in> set ?es" for q
  proof -
    have "q = r" using that by simp
    then show ?thesis using r(1) by blast
  qed
  have n: "rf_spec (el_ref ?x) = None" by (simp add: upd_ref_def)
  let ?y = "fold (element_step sample_functions) ?es ?x"
  obtain s where s: "rf_selectedServer (el_ref ?y) = Some s" "s \<in> set (rs_servers r') \<or> s = plain_server (el_opt ro_ownServerUrl ?y)"
    using a_server_is_selected [OF n l refl r'] by blast
  have "rs_servers (spec_of (el_ref ?y)) = rs_servers r'" using r'(1) by (simp only: spec_of_def option.case)
  then show ?thesis by (intro exI [of _ r] exI [of _ ?y] exI [of _ s] conjI refl s(1)) (use s(2) in \<open>simp only:\<close>)
qed

end
