(* ===== verification/Schema_Example.thy ===== *)
theory Schema_Example
  imports Complex_Main Schema_Notation Api_Request Spec_Groups
begin

text \<open>
  The generated examples of the API reference (\<open>docs/ui/assets/rapidoc-min.js\<close>): \<open>sF\<close>, the value of a simple type; \<open>iF\<close>, \<open>oF\<close>,
  \<open>aF\<close> and \<open>lF\<close>, which mark examples and combine them; \<open>cF\<close>, the examples of a schema; \<open>nF\<close>, an example as XML; and
  \<open>dF\<close>, the examples of a media type. Examples are values, not shared objects: what \<open>cF\<close> writes into an object it has just
  made, and the marks it writes into an example of the document are only the texts that \<open>oF\<close> removes again.
\<close>

section \<open>Values\<close>

text \<open>
  An array of JavaScript can have entries beside its items, and the marks of an example are such entries. \<open>undefined\<close> is a
  value of its own here, as a member of an object can have it.
\<close>

datatype sample =
    SUndef
  | SNull
  | SBool bool
  | SNum jstr
  | SStr jstr
  | SArr "sample list" "(jstr \<times> sample) list"
  | SObj "(jstr \<times> sample) list"

fun of_json :: "json \<Rightarrow> sample" where
  "of_json JNull = SNull"
| "of_json (JBool b) = SBool b"
| "of_json (JNum n) = SNum n"
| "of_json (JStr s) = SStr s"
| "of_json (JArr vs) = SArr (map of_json vs) []"
| "of_json (JObj kvs) = SObj (map (\<lambda>(k, v). (k, of_json v)) kvs)"

fun to_json :: "sample \<Rightarrow> json" where
  \<comment> \<open>what \<open>JSON.stringify\<close> sees\<close>
  "to_json SUndef = JNull"
| "to_json SNull = JNull"
| "to_json (SBool b) = JBool b"
| "to_json (SNum n) = JNum n"
| "to_json (SStr s) = JStr s"
| "to_json (SArr vs ms) = JArr (map to_json vs)"
| "to_json (SObj kvs) = JObj (concat (map (\<lambda>(k, v). if v = SUndef then [] else [(k, to_json v)]) kvs))"

fun own_fields :: "sample \<Rightarrow> (jstr \<times> sample) list" where
  \<comment> \<open>what \<open>for in\<close> runs over\<close>
  "own_fields (SObj kvs) = kvs"
| "own_fields (SArr vs ms) = zip (map nat_text [0..<length vs]) vs @ ms"
| "own_fields (SStr s) = zip (map nat_text [0..<length s]) (map (\<lambda>c. SStr [c]) s)"
| "own_fields _ = []"

fun truthy_sample :: "sample \<Rightarrow> bool" where
  "truthy_sample SUndef = False"
| "truthy_sample SNull = False"
| "truthy_sample (SBool b) = b"
| "truthy_sample (SNum n) = (n \<noteq> js ''0'')"
| "truthy_sample (SStr s) = (s \<noteq> [])"
| "truthy_sample _ = True"

definition index0 :: "json \<Rightarrow> sample" where
  \<comment> \<open>\<open>e[0]\<close>\<close>
  "index0 e = (case object_fields e of kvs \<Rightarrow> case map_of kvs (js ''0'') of None \<Rightarrow> SUndef | Some v \<Rightarrow> of_json v)"

section \<open>The value of a simple type\<close>

record sample_env =
  sv_rnd :: "rat \<Rightarrow> rat"                  \<comment> \<open>the nearest double\<close>
  sv_text :: "rat \<Rightarrow> jstr"                 \<comment> \<open>a number as text\<close>
  sv_pattern :: "jstr \<Rightarrow> jstr option"      \<comment> \<open>a text for a regular expression, from a bundled library\<close>
  sv_random :: jstr                       \<comment> \<open>the clock and a random number, both in hexadecimal\<close>

fun digits_value :: "nat \<Rightarrow> jstr \<Rightarrow> nat" where
  "digits_value n [] = n"
| "digits_value n (c # s) = digits_value (10 * n + (unat c - 48)) s"

definition exponent :: "jstr \<Rightarrow> int" where
  "exponent x =
     (case x of e # d # s \<Rightarrow> if d = 45 then - int (digits_value 0 s) else if d = 43 then int (digits_value 0 s) else int (digits_value 0 (d # s))
      | _ \<Rightarrow> 0)"

definition decimal :: "jstr \<Rightarrow> rat option" where
  \<comment> \<open>\<open>Number\<close> of the text of a decimal number\<close>
  "decimal s =
     (let neg = startsWith s (js ''-'') in
      do {
        (i, s1) \<leftarrow> int_part (if neg then tl s else s);
        (f, s2) \<leftarrow> frac_part s1;
        (x, s3) \<leftarrow> exp_part s2;
        if s3 \<noteq> [] then None
        else
          (let m = (of_nat (digits_value 0 (i @ tl f)) / 10 ^ length (tl f) :: rat); z = exponent x;
               v = (if 0 \<le> z then m * 10 ^ nat z else m / 10 ^ nat (- z)) in Some (if neg then - v else v)) })"

definition to_number :: "json option \<Rightarrow> rat option" where
  \<comment> \<open>\<open>Number(e)\<close>, \<open>None\<close> for \<open>NaN\<close>; arrays, and texts that are not decimal numbers, are none here\<close>
  "to_number e =
     (case e of
        Some JNull \<Rightarrow> Some 0
      | Some (JBool b) \<Rightarrow> Some (if b then 1 else 0)
      | Some (JNum n) \<Rightarrow> decimal n
      | Some (JStr s) \<Rightarrow> if s = [] then Some 0 else decimal s
      | _ \<Rightarrow> None)"

definition number_start :: "sample_env \<Rightarrow> jstr \<Rightarrow> json \<Rightarrow> rat" where
  "number_start env t e =
     (case to_number (entry ''minimum'' e) of
        Some m \<Rightarrow> m
      | None \<Rightarrow>
         (case to_number (entry ''exclusiveMinimum'' e) of
            Some m \<Rightarrow> sv_rnd env (m + (if startsWith t (js ''integer'') then 1 else 1 / 1000))
          | None \<Rightarrow> (case to_number (entry ''maximum'' e) of Some m \<Rightarrow> m | None \<Rightarrow> 0)))"

definition number_example :: "sample_env \<Rightarrow> jstr \<Rightarrow> json \<Rightarrow> rat" where
  "number_example env t e =
     (let n = number_start env t e in
      case to_number (entry ''multipleOf'' e) of
        None \<Rightarrow> n
      | Some m \<Rightarrow>
          if m = 0 then n else if n \<le> m then m
          else if n / m = of_int \<lfloor>n / m\<rfloor> then n
          else sv_rnd env (of_int \<lceil>sv_rnd env (n / m)\<rceil> * m))"

definition number_or_0 :: "json option \<Rightarrow> rat" where
  "number_or_0 e = (case to_number e of None \<Rightarrow> 0 | Some n \<Rightarrow> n)"

definition text_example :: "json \<Rightarrow> jstr option" where
  \<comment> \<open>a negative length throws\<close>
  "text_example e =
     (let lo = number_or_0 (entry ''minLength'' e); hi = number_or_0 (entry ''maxLength'' e);
          s = (if lo \<noteq> 0 then lo else if 6 < hi then 6 else hi) in
      if s = 0 then Some (js ''string'') else if s \<le> - 1 then None else Some (replicate (nat \<lfloor>s\<rfloor>) 65))"

definition random_uuid :: "jstr \<Rightarrow> jstr" where
  "random_uuid r =
     (let t = concat (replicate 16 (r @ js ''0'')) in
      join (js ''-'') [take 8 t, take 4 (drop 8 t), js ''4000-8'' @ take 3 (drop 13 t), take 12 (drop 16 t)])"

definition format_example :: "sample_env \<Rightarrow> jstr \<Rightarrow> jstr" where
  "format_example env f =
     (if f = js ''uuid'' then random_uuid (sv_random env)
      else case List.find (\<lambda>(ks, v). list_ex (\<lambda>k. f = js k) ks)
          [([''url'', ''uri''], ''http://example.com''), ([''date''], ''1970-01-01''), ([''time''], ''00:00:00.000Z''),
           ([''date-time''], ''1970-01-01T00:00:00.000Z''), ([''duration''], ''P3Y6M4DT12H30M5S''),
           ([''email'', ''idn-email''], ''user@example.com''), ([''hostname'', ''idn-hostname''], ''www.example.com''),
           ([''ipv4''], ''198.51.100.42''), ([''ipv6''], ''2001:0db8:5b96:0000:0000:426f:8e17:642a''), ([''byte''], ''ZXhhbXBsZQ=='')] of
        Some (ks, v) \<Rightarrow> js v
      | None \<Rightarrow> [])"

definition string_example :: "sample_env \<Rightarrow> json \<Rightarrow> sample option" where
  "string_example env e =
     (if truthy_entry ''enum'' e then Some (index0 (the (entry ''enum'' e)))
      else if truthy_entry ''pattern'' e
      then Some (case the (entry ''pattern'' e) of
             JStr p \<Rightarrow> SStr (case sv_pattern env p of Some s \<Rightarrow> s | None \<Rightarrow> p)
           | v \<Rightarrow> of_json v)
      else if truthy_entry ''format'' e
      then (case the (entry ''format'' e) of JStr f \<Rightarrow> Some (SStr (format_example env (toLowerCase f))) | _ \<Rightarrow> None)
      else map_option SStr (text_example e))"

definition typed_example :: "sample_env \<Rightarrow> jstr \<Rightarrow> json \<Rightarrow> sample option" where
  "typed_example env t e =
     (if startsWith t (js ''integer'') \<or> startsWith t (js ''number'') then Some (SNum (sv_text env (number_example env t e)))
      else if startsWith t (js ''boolean'') then Some (SBool False)
      else if startsWith t (js ''null'') then Some SNull
      else if startsWith t (js ''string'') then string_example env e
      else Some SNull)"

definition first_example :: "json \<Rightarrow> sample" where
  "first_example e =
     (if truthy_entry ''examples'' e then index0 (the (entry ''examples'' e))
      else if entry ''example'' e = Some JNull then SNull
      else if truthy_entry ''example'' e then of_json (the (entry ''example'' e)) else SUndef)"

definition first_type :: "json \<Rightarrow> json option" where
  "first_type e = (case entry ''type'' e of Some (JArr vs) \<Rightarrow> (case vs of [] \<Rightarrow> None | v # _ \<Rightarrow> Some v) | t \<Rightarrow> t)"

definition getSampleValueByType :: "sample_env \<Rightarrow> json \<Rightarrow> sample option" where
  \<comment> \<open>\<open>None\<close> where it throws; no value of a document is a \<open>Date\<close>\<close>
  "getSampleValueByType env e =
     (if e = JNull then None
      else if first_example e \<noteq> SUndef then Some (first_example e)
      else if no_keys e then Some SNull
      else if truthy_entry ''$ref'' e then Some (SObj [])
      else case entry ''const'' e of
        Some c \<Rightarrow> Some (of_json c)
      | None \<Rightarrow>
          if truthy_entry ''default'' e then Some (of_json (the (entry ''default'' e)))
          else if \<not> is_truthy (first_type e) then Some SNull
          else (case the (first_type e) of JStr t \<Rightarrow> typed_example env t e | _ \<Rightarrow> None))"

section \<open>Marks and combinations\<close>

fun put_member :: "jstr \<Rightarrow> sample \<Rightarrow> sample \<Rightarrow> sample" where
  \<comment> \<open>\<open>x[k] = v\<close>, for a key that is no index\<close>
  "put_member k v (SObj kvs) = SObj (put_entry k v kvs)"
| "put_member k v (SArr vs ms) = SArr vs (put_entry k v ms)"
| "put_member k v x = x"

fun member :: "string \<Rightarrow> sample \<Rightarrow> sample" where
  "member k (SObj kvs) = (case map_of kvs (js k) of None \<Rightarrow> SUndef | Some v \<Rightarrow> v)"
| "member k (SArr vs ms) = (case map_of ms (js k) of None \<Rightarrow> SUndef | Some v \<Rightarrow> v)"
| "member k x = SUndef"

fun is_container :: "sample \<Rightarrow> bool" where
  "is_container (SObj kvs) = True"
| "is_container (SArr vs ms) = True"
| "is_container x = False"

definition xml_entry :: "string \<Rightarrow> json \<Rightarrow> json option" where
  \<comment> \<open>\<open>e.xml?.k\<close>\<close>
  "xml_entry k e = Option.bind (entry ''xml'' e) (entry k)"

definition mark_rows :: "json \<Rightarrow> (string \<times> json) list" where
  "mark_rows e =
     (if truthy_entry ''title'' e then [(''::TITLE'', the (entry ''title'' e))] else []) @
     (if truthy_entry ''description'' e then [(''::DESCRIPTION'', the (entry ''description'' e))] else []) @
     (if is_truthy (xml_entry ''name'' e) then [(''::XML_TAG'', the (xml_entry ''name'' e))] else []) @
     (if is_truthy (xml_entry ''wrapped'' e) then [(''::XML_WRAP'', JStr (to_text (the (xml_entry ''wrapped'' e))))] else [])"

definition addSchemaInfoToExample :: "json \<Rightarrow> sample \<Rightarrow> sample" where
  "addSchemaInfoToExample e x = fold (\<lambda>(k, v). put_member (js k) (of_json v)) (mark_rows e) x"

definition is_mark :: "jstr \<Rightarrow> bool" where
  "is_mark k \<longleftrightarrow> k \<in> js ` {''::TITLE'', ''::DESCRIPTION'', ''::XML_TAG'', ''::XML_WRAP''}"

fun removeTitlesAndDescriptions :: "sample \<Rightarrow> sample" where
  "removeTitlesAndDescriptions (SObj kvs) =
     SObj (map (\<lambda>(k, v). (k, removeTitlesAndDescriptions v)) (filter (\<lambda>x. \<not> is_mark (fst x)) kvs))"
| "removeTitlesAndDescriptions (SArr vs ms) =
     SArr (map removeTitlesAndDescriptions vs) (map (\<lambda>(k, v). (k, removeTitlesAndDescriptions v)) (filter (\<lambda>x. \<not> is_mark (fst x)) ms))"
| "removeTitlesAndDescriptions x = x"

definition example_name :: "nat \<Rightarrow> jstr" where
  "example_name n = js ''example-'' @ nat_text n"

definition numbered :: "sample list \<Rightarrow> (jstr \<times> sample) list" where
  "numbered xs = zip (map example_name [0..<length xs]) xs"

definition addPropertyExampleToObjectExamples :: "sample \<Rightarrow> jstr \<Rightarrow> (jstr \<times> sample) list \<Rightarrow> (jstr \<times> sample) list" where
  "addPropertyExampleToObjectExamples v k r = map (\<lambda>(n, x). (n, put_member k v x)) r"

definition mergePropertyExamples :: "(jstr \<times> sample) list \<Rightarrow> jstr \<Rightarrow> sample \<Rightarrow> (jstr \<times> sample) list" where
  \<comment> \<open>each example with each value of the property, the first ten\<close>
  "mergePropertyExamples r k n =
     numbered (take 10 (concat (map (\<lambda>(i, x). map (\<lambda>(j, y). SObj (put_entry k y (own_fields x))) (own_fields n)) r)))"

section \<open>The examples of a schema\<close>

record gen_cfg =
  includeReadOnly :: bool
  includeWriteOnly :: bool
  includeDeprecated :: bool
  useXmlTagForProp :: bool

text \<open>An object of examples is a \<open>SObj\<close>; a schema can have a value that is none, and the caller runs over its entries all the same.\<close>

type_synonym sampler = "json \<Rightarrow> sample option"

definition sub_sample :: "sampler \<Rightarrow> json option \<Rightarrow> sample option" where
  "sub_sample f e = (if is_truthy e then f (the e) else Some (SObj []))"

definition some_fields :: "json option \<Rightarrow> (jstr \<times> json) list" where
  \<comment> \<open>\<open>for in\<close> over an entry of the schema\<close>
  "some_fields e = (case e of None \<Rightarrow> [] | Some v \<Rightarrow> object_fields v)"

definition left_out :: "gen_cfg \<Rightarrow> json \<Rightarrow> bool" where
  "left_out c p \<longleftrightarrow>
     truthy_entry ''deprecated'' p \<and> \<not> includeDeprecated c \<or> truthy_entry ''readOnly'' p \<and> \<not> includeReadOnly c \<or>
     truthy_entry ''writeOnly'' p \<and> \<not> includeWriteOnly c"

definition add_part :: "sampler \<Rightarrow> sample_env \<Rightarrow> json \<Rightarrow> (jstr \<times> sample) list \<Rightarrow> (jstr \<times> sample) list option" where
  \<comment> \<open>a part of \<open>allOf\<close>\<close>
  "add_part f env v r =
     (if v = JNull then None
      else if structured_schema v then map_option (\<lambda>n. put_entries (own_fields n) r) (sub_sample f (Some v))
      else if array_schema v then map_option (\<lambda>n. put_entry (js ''0'') n r) (sub_sample f (Some v))
      else if \<not> truthy_entry ''type'' v then Some r
      else map_option (\<lambda>n. put_entry (js ''prop'' @ nat_text (length r)) n r) (getSampleValueByType env v))"

definition single_part :: "json list \<Rightarrow> json option" where
  "single_part vs = (case vs of [v] \<Rightarrow> if truthy_entry ''properties'' v \<or> truthy_entry ''items'' v then None else Some v | _ \<Rightarrow> None)"

definition all_of_sample :: "sampler \<Rightarrow> sample_env \<Rightarrow> gen_cfg \<Rightarrow> sampler" where
  "all_of_sample f env c e =
     (case entry ''allOf'' e of
        Some (JArr vs) \<Rightarrow>
          (case single_part vs of
             None \<Rightarrow> map_option SObj (fold_opt (add_part f env) vs [])
           | Some v \<Rightarrow>
               if v = JNull then None
               else if truthy_entry ''$ref'' v then Some (SStr (js ''{  }''))
               else if truthy_entry ''readOnly'' v \<and> includeReadOnly c then getSampleValueByType env v
               else Some SUndef)
      | _ \<Rightarrow> None)"

definition add_base :: "sampler \<Rightarrow> sample_env \<Rightarrow> jstr \<times> json \<Rightarrow> (jstr \<times> sample) list \<Rightarrow> (jstr \<times> sample) list option" where
  \<comment> \<open>a property beside \<open>oneOf\<close>\<close>
  "add_base f env kp s =
     map_option (\<lambda>n. put_entry (fst kp) n s)
       (if truthy_entry ''properties'' (snd kp) \<or> truthy_entry ''items'' (snd kp) then sub_sample f (Some (snd kp))
        else getSampleValueByType env (snd kp))"

fun assign_fields :: "(jstr \<times> sample) list \<Rightarrow> sample \<Rightarrow> sample" where
  "assign_fields s (SObj kvs) = SObj (put_entries s kvs)"
| "assign_fields s (SArr vs ms) = SArr vs (put_entries s ms)"
| "assign_fields s x = x"

definition add_option :: "sampler \<Rightarrow> (jstr \<times> sample) list \<Rightarrow> json \<Rightarrow> sample list \<Rightarrow> sample list option" where
  "add_option f s v r =
     map_option (\<lambda>n. r @ map (\<lambda>y. addSchemaInfoToExample v (assign_fields s y))
         (filter (\<lambda>y. s = [] \<or> is_container y) (map snd (own_fields n))))
       (sub_sample f (Some v))"

definition options_of :: "json \<Rightarrow> json list" where
  \<comment> \<open>an object has no length\<close>
  "options_of e = (case entry ''oneOf'' e of Some (JObj kvs) \<Rightarrow> [] | vs \<Rightarrow> map snd (some_fields vs))"

definition one_of_samples :: "sampler \<Rightarrow> sample_env \<Rightarrow> sampler" where
  "one_of_samples f env e =
     Option.bind (fold_opt (add_base f env) (if truthy_entry ''properties'' e then some_fields (entry ''properties'' e) else []) []) (\<lambda>s.
       map_option (SObj \<circ> numbered)
         (fold_opt (add_option f s) (options_of e) []))"

definition add_common :: "sampler \<Rightarrow> gen_cfg \<Rightarrow> jstr \<times> json \<Rightarrow> (jstr \<times> sample) list \<Rightarrow> (jstr \<times> sample) list option" where
  \<comment> \<open>a property beside \<open>anyOf\<close>\<close>
  "add_common f c kp s =
     (if snd kp = JNull then None
      else if left_out c (snd kp) then Some s
      else map_option (mergePropertyExamples s (fst kp)) (sub_sample f (Some (snd kp))))"

definition common_examples :: "sampler \<Rightarrow> gen_cfg \<Rightarrow> json \<Rightarrow> (jstr \<times> sample) list option option" where
  \<comment> \<open>\<open>Some None\<close>: no object; where the schema has an example, the entries of the schema itself are taken for examples\<close>
  "common_examples f c e =
     (if \<not> object_schema e then Some None
      else let ps = some_fields (entry ''properties'' e) in
        map_option Some
          (if ps \<noteq> [] \<and> truthy_entry ''example'' e then Some (own_fields (of_json e))
           else fold_opt (add_common f c) ps [(example_name 0, SObj [])]))"

definition any_example :: "(jstr \<times> sample) list option \<Rightarrow> sample \<Rightarrow> sample option" where
  \<comment> \<open>the examples of the object are all written under one name, so the last one stays\<close>
  "any_example s y =
     (case s of
        None \<Rightarrow> Some y
      | Some cs \<Rightarrow> if cs = [] then None else Some (SObj (put_entries (own_fields y) (put_entries (own_fields (snd (last cs))) []))))"

definition add_any :: "sampler \<Rightarrow> (jstr \<times> sample) list option \<Rightarrow> json \<Rightarrow> sample option list \<Rightarrow> sample option list option" where
  "add_any f s v r =
     map_option (\<lambda>n. r @ map (\<lambda>y. map_option (addSchemaInfoToExample v) (any_example s y)) (map snd (own_fields n))) (sub_sample f (Some v))"

definition any_of_sample :: "sampler \<Rightarrow> gen_cfg \<Rightarrow> sampler" where
  "any_of_sample f c e =
     Option.bind (common_examples f c e) (\<lambda>s.
       map_option (\<lambda>ys. SObj (concat (map (\<lambda>(n, y). case y of None \<Rightarrow> [] | Some v \<Rightarrow> [(example_name n, v)]) (zip [0..<length ys] ys))))
         (fold_opt (add_any f s) (map snd (some_fields (entry ''anyOf'' e))) []))"

subsection \<open>Objects and arrays\<close>

definition wrapped_sample :: "jstr \<Rightarrow> sample \<Rightarrow> sample option" where
  \<comment> \<open>\<open>JSON.parse\<close> of a text made with the key and the first example; there is none for \<open>undefined\<close>\<close>
  "wrapped_sample t n =
     (case map_of (own_fields n) (example_name 0) of
        None \<Rightarrow> None
      | Some SUndef \<Rightarrow> None
      | Some x \<Rightarrow> map_option of_json
          (json_parse (js ''{ '' @ quoted t @ js '' : { '' @ quoted t @ js '' : '' @ compact (to_json x) @ js '' } }'')))"

definition array_member :: "sampler \<Rightarrow> gen_cfg \<Rightarrow> jstr \<Rightarrow> json \<Rightarrow> (jstr \<times> sample) list \<Rightarrow> (jstr \<times> sample) list option" where
  "array_member f c k p r =
     (if truthy_entry ''example'' p then Some (addPropertyExampleToObjectExamples (of_json (the (entry ''example'' p))) k r)
      else if truthy_entry ''example'' (item_of p)
      then Some (addPropertyExampleToObjectExamples (SArr [of_json (the (entry ''example'' (item_of p)))] []) k r)
      else Option.bind (sub_sample f (entry ''items'' p)) (\<lambda>n.
        if useXmlTagForProp c
        then (let t = (if is_truthy (xml_entry ''name'' p) then to_text (the (xml_entry ''name'' p)) else k) in
              if is_truthy (xml_entry ''wrapped'' p) then map_option (mergePropertyExamples r t) (wrapped_sample t n)
              else Some (mergePropertyExamples r t n))
        else Some (mergePropertyExamples r k (SObj (map (\<lambda>(i, y). (i, SArr [y] [])) (own_fields n))))))"

definition add_member :: "sampler \<Rightarrow> gen_cfg \<Rightarrow> jstr \<times> json \<Rightarrow> (jstr \<times> sample) list \<Rightarrow> (jstr \<times> sample) list option" where
  "add_member f c kp r =
     (if left_out c (snd kp) then Some r
      else if array_schema (snd kp) then array_member f c (fst kp) (snd kp) r
      else map_option (mergePropertyExamples r (fst kp)) (sub_sample f (Some (snd kp))))"

definition any_name :: "json \<Rightarrow> jstr" where
  "any_name a =
     (if truthy_entry ''x-additionalPropertiesName'' a then to_text (the (entry ''x-additionalPropertiesName'' a)) else js ''property'')"

definition add_additional :: "sampler \<Rightarrow> json \<Rightarrow> (jstr \<times> sample) list \<Rightarrow> (jstr \<times> sample) list option" where
  "add_additional f e r =
     (case entry ''additionalProperties'' e of
        None \<Rightarrow> Some r
      | Some a \<Rightarrow>
          if a = JNull then None
          else if (case a of JObj kvs \<Rightarrow> True | JArr vs \<Rightarrow> True | _ \<Rightarrow> False)
          then map_option (\<lambda>n. mergePropertyExamples (mergePropertyExamples r (any_name a @ js ''1'') n) (any_name a @ js ''2'') n) (sub_sample f (Some a))
          else Some r)"

definition object_sample :: "sampler \<Rightarrow> gen_cfg \<Rightarrow> sampler" where
  "object_sample f c e =
     map_option SObj
       (if truthy_entry ''example'' e then Some [(example_name 0, of_json (the (entry ''example'' e)))]
        else Option.bind (fold_opt (add_member f c) (some_fields (entry ''properties'' e)) [(example_name 0, addSchemaInfoToExample e (SObj []))])
          (add_additional f e))"

definition array_sample :: "sampler \<Rightarrow> sampler" where
  "array_sample f e =
     (if truthy_entry ''example'' e then Some (SObj [(example_name 0, of_json (the (entry ''example'' e)))])
      else if truthy_entry ''example'' (item_of e) then Some (SObj [(example_name 0, SArr [of_json (the (entry ''example'' (item_of e)))] [])])
      else if truthy_entry ''items'' e
      then map_option (\<lambda>n. SObj (numbered (map (\<lambda>y. addSchemaInfoToExample (item_of e) (SArr [y] [])) (map snd (own_fields n)))))
             (sub_sample f (entry ''items'' e))
      else Some (SObj [(example_name 0, SArr [] [])]))"

definition sample_step :: "sample_env \<Rightarrow> gen_cfg \<Rightarrow> sampler \<Rightarrow> sampler" where
  "sample_step env c f e =
     (if truthy_entry ''allOf'' e then all_of_sample f env c e
      else if truthy_entry ''oneOf'' e then one_of_samples f env e
      else if truthy_entry ''anyOf'' e then any_of_sample f c e
      else if object_schema e then object_sample f c e
      else if array_schema e then array_sample f e
      else map_option (\<lambda>v. SObj [(example_name 0, v)]) (getSampleValueByType env e))"

text \<open>The parts of a schema are smaller than the schema.\<close>

definition same_below :: "json \<Rightarrow> sampler \<Rightarrow> sampler \<Rightarrow> bool" where
  "same_below e f g \<longleftrightarrow> (\<forall>x. size x < size e \<longrightarrow> f x = g x)"

lemma size_some_fields:
  assumes "(k, v) \<in> set (some_fields (entry l e))"
  shows "size v < size e"
proof -
  obtain w where w: "entry l e = Some w" "(k, v) \<in> set (object_fields w)" using assms by (cases "entry l e") (auto simp: some_fields_def)
  have "size v \<le> size w"
  proof (cases w)
    case (JArr vs)
    then show ?thesis using w(2) size_JArr_less [of v vs] by (auto simp: object_fields_def dest: set_zip_rightD)
  next
    case (JObj kvs)
    then show ?thesis using w(2) size_entry [of k v kvs] by (simp add: object_fields_def)
  qed (use w(2) in \<open>auto simp: object_fields_def dest!: set_zip_rightD\<close>)
  then show ?thesis using size_entry_less [OF w(1)] by simp
qed

lemma sub_sample_cong: "same_below e f g \<Longrightarrow> size v < size e \<Longrightarrow> sub_sample f (Some v) = sub_sample g (Some v)"
  by (simp add: sub_sample_def same_below_def)

lemma sub_entry_sample_cong: "same_below e f g \<Longrightarrow> size v \<le> size e \<Longrightarrow> sub_sample f (entry k v) = sub_sample g (entry k v)"
  using size_entry_less [of k v] by (cases "entry k v") (auto simp: sub_sample_def same_below_def)

lemma fold_opt_cong_set: "(\<And>x s. x \<in> set xs \<Longrightarrow> f x s = g x s) \<Longrightarrow> fold_opt f xs s = fold_opt g xs s"
  by (induction xs arbitrary: s) (auto intro!: bind_option_cong)

lemma all_of_sample_cong:
  assumes "same_below e f g"
  shows "all_of_sample f env c e = all_of_sample g env c e"
proof -
  have "add_part f env v r = add_part g env v r" if "size v < size e" for v r
    by (simp add: add_part_def sub_sample_cong [OF assms that])
  moreover have "size v < size e" if "entry ''allOf'' e = Some (JArr vs)" "v \<in> set vs" for v vs
    using size_entry_less [OF that(1)] size_JArr_less [OF that(2)] by simp
  ultimately have "fold_opt (add_part f env) vs r = fold_opt (add_part g env) vs r" if "entry ''allOf'' e = Some (JArr vs)" for vs r
    by (intro fold_opt_cong_set) (use that in blast)
  then show ?thesis unfolding all_of_sample_def by (auto split: option.split json.split)
qed

lemma one_of_samples_cong:
  assumes "same_below e f g"
  shows "one_of_samples f env e = one_of_samples g env e"
proof -
  have "add_base f env kp s = add_base g env kp s" if "kp \<in> set (some_fields (entry l e))" for kp l s
    by (insert that, cases kp) (simp add: add_base_def sub_sample_cong [OF assms size_some_fields])
  then have b: "fold_opt (add_base f env) (if truthy_entry ''properties'' e then some_fields (entry ''properties'' e) else []) [] =
      fold_opt (add_base g env) (if truthy_entry ''properties'' e then some_fields (entry ''properties'' e) else []) []"
    by (intro fold_opt_cong_set) (auto split: if_splits)
  have "add_option f s v r = add_option g s v r" if "v \<in> snd ` set (some_fields (entry l e))" for v l s r
    using that by (auto simp: add_option_def sub_sample_cong [OF assms size_some_fields])
  moreover have "v \<in> snd ` set (some_fields (entry ''oneOf'' e))" if "v \<in> set (options_of e)" for v
    using that by (cases "entry ''oneOf'' e") (auto simp: options_of_def split: json.splits)
  ultimately have "fold_opt (add_option f s) (options_of e) [] = fold_opt (add_option g s) (options_of e) []" for s
    by (intro fold_opt_cong_set) blast
  then show ?thesis unfolding one_of_samples_def b by simp
qed

lemma any_of_sample_cong:
  assumes "same_below e f g"
  shows "any_of_sample f c e = any_of_sample g c e"
proof -
  have "add_common f c kp s = add_common g c kp s" if "kp \<in> set (some_fields (entry l e))" for kp l s
    by (insert that, cases kp) (simp add: add_common_def sub_sample_cong [OF assms size_some_fields])
  then have "common_examples f c e = common_examples g c e"
    unfolding common_examples_def Let_def by (auto intro!: arg_cong [where f = "map_option _"] fold_opt_cong_set)
  moreover have "add_any f s v r = add_any g s v r" if "v \<in> snd ` set (some_fields (entry l e))" for v l s r
    using that by (auto simp: add_any_def sub_sample_cong [OF assms size_some_fields])
  then have "fold_opt (add_any f s) (map snd (some_fields (entry ''anyOf'' e))) [] = fold_opt (add_any g s) (map snd (some_fields (entry ''anyOf'' e))) []" for s
    by (intro fold_opt_cong_set) auto
  ultimately show ?thesis unfolding any_of_sample_def by simp
qed

lemma object_sample_cong:
  assumes "same_below e f g"
  shows "object_sample f c e = object_sample g c e"
proof -
  have "array_member f c k p r = array_member g c k p r" if "size p < size e" for k p r
    using sub_entry_sample_cong [OF assms, of p "''items''"] that by (simp add: array_member_def)
  then have "add_member f c kp r = add_member g c kp r" if "kp \<in> set (some_fields (entry l e))" for kp l r
    by (insert that, cases kp) (simp add: add_member_def sub_sample_cong [OF assms size_some_fields] size_some_fields)
  then have "fold_opt (add_member f c) (some_fields (entry ''properties'' e)) r = fold_opt (add_member g c) (some_fields (entry ''properties'' e)) r" for r
    by (intro fold_opt_cong_set)
  moreover have "add_additional f e r = add_additional g e r" for r
    using sub_entry_sample_cong [OF assms order_refl, of "''additionalProperties''"]
    by (auto simp: add_additional_def split: option.split json.split)
  ultimately show ?thesis unfolding object_sample_def by (metis ext)
qed

lemma array_sample_cong: "same_below e f g \<Longrightarrow> array_sample f e = array_sample g e"
  by (simp add: array_sample_def sub_entry_sample_cong [OF _ order_refl])

lemma sample_step_cong [fundef_cong]:
  assumes "e = e'" "\<And>x. size x < size e' \<Longrightarrow> f x = g x"
  shows "sample_step env c f e = sample_step env c g e'"
proof -
  have "same_below e' f g" using assms(2) by (simp add: same_below_def)
  then show ?thesis
    by (simp add: assms(1) sample_step_def all_of_sample_cong one_of_samples_cong any_of_sample_cong object_sample_cong array_sample_cong)
qed

function schemaToSampleObj :: "sample_env \<Rightarrow> gen_cfg \<Rightarrow> json \<Rightarrow> sample option" where
  "schemaToSampleObj env c e = sample_step env c (schemaToSampleObj env c) e"
  by pat_completeness auto
termination
  by (relation "measure (\<lambda>(env, c, e). size e)") auto

declare schemaToSampleObj.simps [simp del]

section \<open>Examples as XML\<close>

definition as_text :: "sample \<Rightarrow> jstr" where
  "as_text x = to_text (to_json x)"

lemma size_own_fields: "(k, v) \<in> set (own_fields x) \<Longrightarrow> is_container x \<Longrightarrow> size v < size x"
proof (cases x)
  case (SArr vs ms)
  assume "(k, v) \<in> set (own_fields x)"
  then consider "v \<in> set vs" | "(k, v) \<in> set ms" using SArr by (auto dest: set_zip_rightD)
  then show ?thesis
  proof cases
    case 1
    then have "size v \<le> size_list size vs" by (induction vs) auto
    then show ?thesis using SArr by simp
  next
    case 2
    then have "size v \<le> size_list (size_prod (\<lambda>x. 0) size) ms" by (induction ms) auto
    then show ?thesis using SArr by simp
  qed
next
  case (SObj kvs)
  assume "(k, v) \<in> set (own_fields x)"
  then have "(k, v) \<in> set kvs" using SObj by simp
  then have "size v \<le> size_list (size_prod (\<lambda>x. 0) size) kvs" by (induction kvs) auto
  then show ?thesis using SObj by simp
qed simp_all

definition xml_name :: "jstr \<Rightarrow> sample \<Rightarrow> jstr option" where
  \<comment> \<open>an array keeps its name; reading a mark of nothing throws, and so does the first character of an empty name\<close>
  "xml_name k v =
     (if v = SNull \<or> v = SUndef then None
      else let t = (if truthy_sample (member ''::XML_TAG'' v) then as_text (member ''::XML_TAG'' v) else k) in
        case v of SArr vs ms \<Rightarrow> if t = [] then None else Some k | _ \<Rightarrow> Some t)"

definition xml_tag :: "jstr \<Rightarrow> bool \<Rightarrow> jstr" where
  "xml_tag t closing = (if closing then js ''</'' else js ''<'') @ t @ js ''>''"

definition xml_indent :: "nat \<Rightarrow> jstr" where
  "xml_indent n = 10 # replicate (2 * n) 32"

function json2xml :: "nat \<Rightarrow> sample \<Rightarrow> jstr option" where
  "json2xml n x =
     (if \<not> is_container x then Some []
      else those_concat (map (\<lambda>(k, v).
        case xml_name k v of
          None \<Rightarrow> None
        | Some t \<Rightarrow>
            if startsWith k (js ''::'') then Some []
            else if is_container v
            then map_option (\<lambda>s. xml_indent n @ xml_tag t False @ s @ xml_indent n @ xml_tag t True) (json2xml (n + 1) v)
            else Some (xml_indent n @ xml_tag t False @ as_text v @ xml_tag t True)) (own_fields x)))"
  by pat_completeness auto
termination
  by (relation "measure (\<lambda>(n, x). size x)") (auto dest: size_own_fields)

declare json2xml.simps [simp del]

definition xml_body :: "sample \<Rightarrow> jstr option" where
  \<comment> \<open>at the first level, with a value that is not falsy\<close>
  "xml_body x = (if is_container x then json2xml 1 x else Some (xml_indent 1 @ as_text x))"

section \<open>The examples of a media type\<close>

definition is_json :: "jstr \<Rightarrow> bool" where
  "is_json mime \<longleftrightarrow> occurs (js ''json'') (toLowerCase mime)"

definition plain_gen :: "jstr \<Rightarrow> json \<Rightarrow> string \<Rightarrow> gen_example" where
  "plain_gen s v fm = \<lparr>exampleId = js ''Example'', exampleSummary = s, exampleDescription = [], exampleValue = v, exampleFormat = js fm\<rparr>"

definition shown_value :: "jstr \<Rightarrow> bool \<Rightarrow> json \<Rightarrow> json \<times> string" where
  \<comment> \<open>the value of an example and its format\<close>
  "shown_value mime text v =
     (if is_json mime
      then if text then (case v of JStr s \<Rightarrow> v | _ \<Rightarrow> JStr (stringify 0 v), ''text'')
      else (case v of JStr s \<Rightarrow> (case json_parse s of Some w \<Rightarrow> (w, ''json'') | None \<Rightarrow> (v, ''text'')) | _ \<Rightarrow> (v, ''json''))
      else (v, ''text''))"

definition given_example :: "gen_args \<Rightarrow> jstr \<times> json \<Rightarrow> gen_example option" where
  \<comment> \<open>an entry of \<open>examples\<close>; a value that is undefined shows like \<open>null\<close>\<close>
  "given_example ga kx =
     (if snd kx = JNull then None
      else let x = shown_value (ga_mime ga) (ga_text ga) (case entry ''value'' (snd kx) of None \<Rightarrow> JNull | Some v \<Rightarrow> v) in
        Some \<lparr>exampleId = fst kx, exampleSummary = (if truthy_entry ''summary'' (snd kx) then to_text (the (entry ''summary'' (snd kx))) else fst kx),
              exampleDescription = or_text (entry ''description'' (snd kx)), exampleValue = fst x, exampleFormat = js (snd x)\<rparr>)"

definition single_value :: "jstr \<Rightarrow> bool \<Rightarrow> json \<Rightarrow> json \<times> string" where
  \<comment> \<open>of \<open>example\<close>, which is not falsy; a number or \<open>true\<close> is left empty unless it is shown as text\<close>
  "single_value mime text v =
     (case v of
        JNum n \<Rightarrow> if is_json mime \<and> \<not> text then (JStr [], ''json'') else shown_value mime text v
      | JBool b \<Rightarrow> if is_json mime \<and> \<not> text then (JStr [], ''json'') else shown_value mime text v
      | _ \<Rightarrow> shown_value mime text v)"

definition given_examples :: "gen_args \<Rightarrow> gen_example list option" where
  \<comment> \<open>both parameters are \<open>{}\<close> when they are not given\<close>
  "given_examples ga =
     (let exs = (case ga_examples ga of None \<Rightarrow> JObj [] | Some v \<Rightarrow> v); ex = (case ga_example ga of None \<Rightarrow> JObj [] | Some v \<Rightarrow> v) in
      if is_truthy (Some exs) then those (map (given_example ga) (object_fields exs))
      else if is_truthy (Some ex) then (let x = single_value (ga_mime ga) (ga_text ga) ex in Some [plain_gen [] (fst x) (snd x)])
      else Some [])"

definition xml_frame :: "json \<Rightarrow> jstr \<Rightarrow> jstr" where
  "xml_frame e body =
     (let name = xml_entry ''name'' e; ns = xml_entry ''namespace'' e; q = js [CHR 0x22];
          opening = (if is_truthy name then js ''<'' @ to_text (the name) @ js '' '' @
              (if is_truthy ns then js ''xmlns='' @ q @ to_text (the ns) @ q else []) @ js ''>'' else js ''<root>'');
          closing = (if is_truthy name then js ''</'' @ to_text (the name) @ js ''>'' else js ''</root>'')
      in js ''<?xml version='' @ q @ js ''1.0'' @ q @ js '' encoding='' @ q @ js ''UTF-8'' @ q @ js ''?>'' @ 10 # opening @ body @ 10 # closing)"

definition mark_text :: "string \<Rightarrow> sample \<Rightarrow> jstr" where
  "mark_text k y = (if truthy_sample (member k y) then as_text (member k y) else [])"

definition sample_value :: "gen_args \<Rightarrow> json \<Rightarrow> bool \<Rightarrow> sample \<Rightarrow> json option" where
  "sample_value ga e xml y =
     (if xml then map_option (JStr \<circ> xml_frame e) (xml_body y)
      else let v = to_json (removeTitlesAndDescriptions y) in Some (if ga_text ga then JStr (stringify 0 v) else v))"

definition add_sample :: "gen_args \<Rightarrow> json \<Rightarrow> bool \<Rightarrow> jstr \<times> sample \<Rightarrow> nat \<times> gen_example list \<Rightarrow> (nat \<times> gen_example list) option" where
  \<comment> \<open>the count is of the examples without a title\<close>
  "add_sample ga e xml ky st =
     (if \<not> truthy_sample (snd ky) then Some st
      else let titled = truthy_sample (member ''::TITLE'' (snd ky)); h = (if titled then fst st else fst st + 1) in
        map_option (\<lambda>v. (h, snd st @
          [\<lparr>exampleId = fst ky, exampleSummary = (if titled then mark_text ''::TITLE'' (snd ky) else js ''Example '' @ nat_text h),
            exampleDescription = mark_text ''::DESCRIPTION'' (snd ky), exampleValue = v,
            exampleFormat = js (if xml \<or> ga_text ga then ''text'' else ''json'')\<rparr>]))
          (sample_value ga e xml (snd ky)))"

definition schema_cfg_of :: "gen_args \<Rightarrow> bool \<Rightarrow> gen_cfg" where
  \<comment> \<open>the setting for deprecated properties has another name where it is read\<close>
  "schema_cfg_of ga xml = \<lparr>includeReadOnly = ga_readOnly ga, includeWriteOnly = ga_writeOnly ga, includeDeprecated = False, useXmlTagForProp = xml\<rparr>"

definition schema_examples :: "sample_env \<Rightarrow> gen_args \<Rightarrow> gen_example list option" where
  "schema_examples env ga =
     (if \<not> is_truthy (ga_schema ga) then Some [plain_gen [] (JStr []) ''text'']
      else let e = the (ga_schema ga); mime = toLowerCase (ga_mime ga); xml = occurs (js ''xml'') mime in
        if truthy_entry ''example'' e
        then (let v = the (entry ''example'' e) in
              Some [plain_gen [] v (if is_json (ga_mime ga) \<and> (case v of JObj kvs \<Rightarrow> True | JArr vs \<Rightarrow> True | _ \<Rightarrow> False) then ''json'' else ''text'')])
        else if list_ex (\<lambda>w. occurs (js w) mime) [''json'', ''text'', ''*/*'', ''xml'']
        then Option.bind (schemaToSampleObj env (schema_cfg_of ga xml) e) (\<lambda>d.
          map_option snd (fold_opt (add_sample ga e xml) (own_fields d) (0, [])))
        else if occurs (js ''jose'') mime
        then Some [plain_gen (js ''Base64 Encoded'') (if truthy_entry ''pattern'' e then the (entry ''pattern'' e) else JStr (js ''bXJpbg=='')) ''text'']
        else Some [plain_gen [] (JStr []) ''text''])"

definition generateExample_of :: "sample_env \<Rightarrow> bool \<Rightarrow> gen_args \<Rightarrow> gen_example list option" where
  \<comment> \<open>\<open>None\<close> where it throws; \<open>always\<close>: the schema's examples come after given ones\<close>
  "generateExample_of env always ga =
     Option.bind (given_examples ga) (\<lambda>l. if l = [] \<or> always then map_option ((@) l) (schema_examples env ga) else Some l)"

section \<open>What is generated for an object\<close>

definition plain_object :: "json \<Rightarrow> (jstr \<times> json) list \<Rightarrow> bool" where
  "plain_object e ps \<longleftrightarrow>
     \<not> truthy_entry ''allOf'' e \<and> \<not> truthy_entry ''oneOf'' e \<and> \<not> truthy_entry ''anyOf'' e \<and> \<not> truthy_entry ''example'' e \<and>
     object_schema e \<and> entry ''additionalProperties'' e = None \<and> entry ''properties'' e = Some (JObj ps)"

definition have_keys :: "jstr set \<Rightarrow> (jstr \<times> sample) list \<Rightarrow> bool" where
  "have_keys K r \<longleftrightarrow> (\<forall>x \<in> snd ` set r. \<exists>kvs. x = SObj kvs \<and> {k \<in> fst ` set kvs. \<not> is_mark k} = K)"

lemma put_entry_keys: "fst ` set (put_entry k v kvs) = insert k (fst ` set kvs)"
  using arg_cong [OF map_of_put_entry, of dom k v kvs] by (simp only: dom_map_of_conv_image_fst dom_fun_upd) simp

lemma kept_keys: "{l \<in> insert k A. \<not> is_mark l} = {l \<in> A. \<not> is_mark l} \<union> (if is_mark k then {} else {k})"
  by auto

lemma set_numbered: "snd ` set (numbered xs) = set xs"
proof -
  have "map snd (numbered xs) = xs" by (simp add: numbered_def)
  then show ?thesis by (metis set_map)
qed

lemma have_keys_merge: "have_keys K r \<Longrightarrow> have_keys (K \<union> (if is_mark k then {} else {k})) (mergePropertyExamples r k n)"
proof -
  assume r: "have_keys K r"
  have "\<exists>kvs. x = SObj kvs \<and> {l \<in> fst ` set kvs. \<not> is_mark l} = K \<union> (if is_mark k then {} else {k})"
    if x: "x \<in> set (concat (map (\<lambda>(i, x). map (\<lambda>(j, y). SObj (put_entry k y (own_fields x))) (own_fields n)) r))" for x
  proof -
    obtain i w j y where w: "(i, w) \<in> set r" "x = SObj (put_entry k y (own_fields w))" using x by auto
    then obtain kvs where kvs: "w = SObj kvs" "{l \<in> fst ` set kvs. \<not> is_mark l} = K" using r by (force simp: have_keys_def)
    have s: "{l \<in> fst ` set (put_entry k y kvs). \<not> is_mark l} = K \<union> (if is_mark k then {} else {k})"
      unfolding put_entry_keys kept_keys kvs(2) by (rule refl)
    have "x = SObj (put_entry k y kvs)" using w(2) kvs(1) by simp
    from conjI [OF this s] show ?thesis by (rule exI)
  qed
  then show ?thesis unfolding have_keys_def mergePropertyExamples_def set_numbered by (intro ballI) (drule in_set_takeD, assumption)
qed

lemma have_keys_add:
  "have_keys K r \<Longrightarrow> have_keys (K \<union> (if is_mark k then {} else {k})) (addPropertyExampleToObjectExamples v k r)"
  by (force simp: have_keys_def addPropertyExampleToObjectExamples_def put_entry_keys kept_keys)

lemma few_merged: "length (mergePropertyExamples r k n) \<le> 10"
  by (simp add: mergePropertyExamples_def numbered_def)

lemma merge_Nil [simp]: "mergePropertyExamples [] k n = []" "own_fields n = [] \<Longrightarrow> mergePropertyExamples r k n = []"
  by (simp_all add: mergePropertyExamples_def numbered_def split_beta)

lemma member_added:
  assumes "add_member f c (k, p) r = Some r'" "\<not> useXmlTagForProp c"
  shows "left_out c p \<and> r' = r \<or> \<not> left_out c p \<and> ((\<exists>n. r' = mergePropertyExamples r k n) \<or> (\<exists>v. r' = addPropertyExampleToObjectExamples v k r))"
  using assms by (auto simp: add_member_def array_member_def bind_eq_Some_conv split: if_splits)

definition visible_keys :: "gen_cfg \<Rightarrow> (jstr \<times> json) list \<Rightarrow> jstr set" where
  "visible_keys c ps = {k. \<not> is_mark k \<and> (\<exists>p. (k, p) \<in> set ps \<and> \<not> left_out c p)}"

lemma members_added:
  assumes "fold_opt (add_member f c) ps r = Some r'" "\<not> useXmlTagForProp c" "have_keys K r" "length r \<le> 10"
  shows "have_keys (K \<union> visible_keys c ps) r' \<and> length r' \<le> 10"
  using assms
proof (induction ps arbitrary: r K)
  case Nil
  then show ?case by (simp add: visible_keys_def)
next
  case (Cons kp ps)
  obtain k p where kp: "kp = (k, p)" by (cases kp)
  obtain q where q: "add_member f c (k, p) r = Some q" "fold_opt (add_member f c) ps q = Some r'"
    using Cons.prems(1) by (auto simp: kp bind_eq_Some_conv)
  let ?K = "K \<union> (if left_out c p \<or> is_mark k then {} else {k})"
  have len: "length (addPropertyExampleToObjectExamples v k r) = length r" for v by (simp add: addPropertyExampleToObjectExamples_def)
  have "have_keys ?K q \<and> length q \<le> 10"
    using member_added [OF q(1) Cons.prems(2)] have_keys_merge [OF Cons.prems(3), of k] have_keys_add [OF Cons.prems(3), of k]
      few_merged [of r k] Cons.prems(3,4) len by auto
  then have "have_keys (?K \<union> visible_keys c ps) r' \<and> length r' \<le> 10" by (intro Cons.IH [OF q(2) Cons.prems(2)]) simp_all
  moreover have "?K \<union> visible_keys c ps = K \<union> visible_keys c (kp # ps)" by (auto simp: visible_keys_def kp)
  ultimately show ?case by simp
qed

lemma marked_object: "\<exists>kvs. addSchemaInfoToExample e (SObj []) = SObj kvs \<and> list_all (\<lambda>x. is_mark (fst x)) kvs"
proof -
  have "\<exists>kvs'. fold (\<lambda>(k, v). put_member (js k) (of_json v)) ms (SObj kvs) = SObj kvs' \<and> list_all (\<lambda>x. is_mark (fst x)) kvs'"
    if "list_all (\<lambda>x. is_mark (fst x)) kvs" "list_all (\<lambda>x. is_mark (js (fst x))) ms" for ms :: "(string \<times> json) list" and kvs
    using that
  proof (induction ms arbitrary: kvs)
    case (Cons m ms)
    have "list_all (\<lambda>x. is_mark (fst x)) (put_entry (js (fst m)) (of_json (snd m)) kvs)" using Cons.prems by (intro put_entry_all) simp_all
    from Cons.IH [OF this] show ?case using Cons.prems by (simp add: split_beta)
  qed simp
  moreover have "list_all (\<lambda>x. is_mark (js (fst x))) (mark_rows e)" by (simp add: mark_rows_def is_mark_def)
  ultimately show ?thesis by (simp add: addSchemaInfoToExample_def)
qed

lemma plain_object_sample:
  assumes "plain_object e ps" "schemaToSampleObj env c e = Some d" "\<not> useXmlTagForProp c"
  shows "\<exists>r r0. d = SObj r \<and> fold_opt (add_member (schemaToSampleObj env c) c) ps r0 = Some r \<and> have_keys (visible_keys c ps) r \<and> length r \<le> 10"
proof -
  let ?r0 = "[(example_name 0, addSchemaInfoToExample e (SObj []))]"
  obtain r where r: "fold_opt (add_member (schemaToSampleObj env c) c) ps ?r0 = Some r" "d = SObj r"
    using assms(1,2) unfolding schemaToSampleObj.simps [of env c e]
    by (auto simp: plain_object_def sample_step_def object_sample_def add_additional_def some_fields_def object_fields_def bind_eq_Some_conv)
  have "have_keys {} ?r0" using marked_object [of e] by (fastforce simp: have_keys_def list_all_iff)
  then show ?thesis using members_added [OF r(1) assms(3)] r by fastforce
qed

lemma samples_added:
  assumes "fold_opt (add_sample ga e xml) ys st = Some st'"
  shows "length (snd st') \<le> length (snd st) + length ys \<and>
    (\<forall>g \<in> set (snd st'). g \<in> set (snd st) \<or> (\<exists>y \<in> snd ` set ys. sample_value ga e xml y = Some (exampleValue g)))"
  using assms
proof (induction ys arbitrary: st)
  case (Cons y ys)
  then obtain st1 where st1: "add_sample ga e xml y st = Some st1" "fold_opt (add_sample ga e xml) ys st1 = Some st'"
    by (auto simp: bind_eq_Some_conv)
  have "length (snd st1) \<le> length (snd st) + 1 \<and> (\<forall>g \<in> set (snd st1). g \<in> set (snd st) \<or> sample_value ga e xml (snd y) = Some (exampleValue g))"
    using st1(1) by (auto simp: add_sample_def Let_def split: if_splits)
  then show ?case using Cons.IH [OF st1(2)] by fastforce
qed simp

lemma json_mime:
  assumes "toLowerCase m = js ''application/json''"
  shows "is_json m" "\<not> occurs (js ''xml'') (toLowerCase m)" "occurs (js ''json'') (toLowerCase m)"
proof -
  have "occurs (js ''json'') (js ''application/json'')" "\<not> occurs (js ''xml'') (js ''application/json'')" by code_simp+
  then show "is_json m" "\<not> occurs (js ''xml'') (toLowerCase m)" "occurs (js ''json'') (toLowerCase m)"
    by (simp_all add: is_json_def assms)
qed

lemma generated_for_object:
  assumes "ga_schema ga = Some e" "plain_object e ps" "ga_examples ga = None" "toLowerCase (ga_mime ga) = js ''application/json''"
    and "generateExample_of env False ga = Some gs"
  shows "\<exists>d. schemaToSampleObj env (schema_cfg_of ga False) e = Some d \<and>
    map_option snd (fold_opt (add_sample ga e False) (own_fields d) (0, [])) = Some gs"
proof -
  have "given_examples ga = Some []" using assms(3) by (simp add: given_examples_def object_fields_def)
  then have s: "schema_examples env ga = Some gs" using assms(5) by (simp add: generateExample_of_def option.map_ident)
  have "is_truthy (Some e)" using assms(2) by (cases e) (auto simp: plain_object_def)
  then show ?thesis
    using s assms(1,2) json_mime [OF assms(4)] by (simp add: schema_examples_def Let_def plain_object_def bind_eq_Some_conv)
qed

lemma shown_keys:
  "\<exists>kvs'. to_json (removeTitlesAndDescriptions (SObj kvs)) = JObj kvs' \<and> fst ` set kvs' \<subseteq> {k \<in> fst ` set kvs. \<not> is_mark k}"
  by (rule exI, rule conjI, simp) (auto split: if_splits simp: image_iff intro: rev_bexI)


section \<open>Where no example is generated\<close>

lemma add_member_Nil: "add_member f c kp [] = Some r \<Longrightarrow> r = []"
  by (auto simp: add_member_def array_member_def addPropertyExampleToObjectExamples_def Let_def bind_eq_Some_conv split: if_splits)

lemma fold_from_Nil: "fold_opt (add_member f c) ps [] = Some r \<Longrightarrow> r = []"
  by (rule fold_opt_invariant [where I = "\<lambda>r. r = []"]) (auto dest: add_member_Nil)

lemma empty_member_erases:
  assumes "kp \<in> set ps" "\<And>r. add_member f c kp r = Some []" "fold_opt (add_member f c) ps r = Some r'"
  shows "r' = []"
proof -
  obtain as bs where "ps = as @ kp # bs" using split_list [OF assms(1)] by blast
  then show ?thesis using assms(2,3) fold_from_Nil by (auto simp: fold_opt_append bind_eq_Some_conv)
qed

text \<open>
  C40: A property that refers to a simple type by an \<open>allOf\<close> of one part erases all examples of its object: the part has no
  example, and an object has as many examples as the combinations of those of its properties, which then are none.
\<close>

theorem simple_reference_erases_examples:
  assumes "ga_schema ga = Some e" "plain_object e ps" "ga_examples ga = None" "toLowerCase (ga_mime ga) = js ''application/json''"
    and "(k, p) \<in> set ps" "\<not> left_out (schema_cfg_of ga False) p" "\<not> array_schema p" "entry ''allOf'' p = Some (JArr [v])"
    and "v \<noteq> JNull" "\<not> truthy_entry ''properties'' v" "\<not> truthy_entry ''items'' v" "\<not> truthy_entry ''$ref'' v" "\<not> truthy_entry ''readOnly'' v"
    and "generateExample_of env False ga = Some gs"
  shows "gs = []"
proof -
  let ?c = "schema_cfg_of ga False"
  obtain d where d: "schemaToSampleObj env ?c e = Some d" "map_option snd (fold_opt (add_sample ga e False) (own_fields d) (0, [])) = Some gs"
    using generated_for_object [OF assms(1-4,14)] by blast
  have "\<not> useXmlTagForProp ?c" by (simp add: schema_cfg_of_def)
  from plain_object_sample [OF assms(2) d(1) this] obtain r r0
    where r: "d = SObj r" "fold_opt (add_member (schemaToSampleObj env ?c) ?c) ps r0 = Some r" by blast
  have "is_truthy (Some p)" using assms(8) by (cases p) auto
  moreover have "schemaToSampleObj env ?c p = Some SUndef"
    using assms(8-13) unfolding schemaToSampleObj.simps [of env ?c p]
    by (simp add: sample_step_def all_of_sample_def single_part_def truthy_entry_def)
  ultimately have "add_member (schemaToSampleObj env ?c) ?c (k, p) q = Some []" for q
    using assms(6,7) by (simp add: add_member_def sub_sample_def)
  then have "r = []" by (rule empty_member_erases [OF assms(5) _ r(2)])
  then show ?thesis using d(2) r(1) by simp
qed

lemma schema_examples_example: "schema_examples env (ga\<lparr>ga_example := x\<rparr>) = schema_examples env ga"
proof -
  have "add_sample (ga\<lparr>ga_example := x\<rparr>) = add_sample ga" by (intro ext) (simp add: add_sample_def sample_value_def)
  then show ?thesis by (simp add: schema_examples_def schema_cfg_of_def Let_def)
qed

text \<open>
  The example of a media type is never shown: a parameter that is not given is an empty object, which is taken for
  given examples, so that \<open>example\<close> is not looked at.
\<close>

theorem media_example_is_ignored:
  assumes "generateExample fs = generateExample_of env False" "md_examples m = None" "standardizeExample (md_example m) \<noteq> None"
  shows "body_examples fs rq m = body_examples fs rq (m\<lparr>md_example := None\<rparr>)"
proof -
  obtain x where x: "standardizeExample (md_example m) = Some x" using assms(3) by blast
  have n: "standardizeExample None = Some None" by (simp add: standardizeExample_def)
  have "generateExample_of env False (gen_args_of rq m None x) = generateExample_of env False (gen_args_of rq m None None)"
    using schema_examples_example [of env x "gen_args_of rq m None None"]
    by (simp add: generateExample_of_def given_examples_def gen_args_of_def object_fields_def)
  moreover have "gen_args_of rq (m\<lparr>md_example := None\<rparr>) None None = gen_args_of rq m None None" by (simp add: gen_args_of_def)
  ultimately show ?thesis by (simp add: body_examples_def assms(1,2) x n)
qed

text \<open>A value that is falsy is no example: a schema of a truth value has none.\<close>

theorem booleans_have_no_example:
  assumes "ga_schema ga = Some e" "e = JObj [(js ''type'', JStr (js ''boolean''))]" "ga_examples ga = None"
    and "toLowerCase (ga_mime ga) = js ''application/json''"
  shows "generateExample_of env False ga = Some []"
proof -
  have "given_examples ga = Some []" by (simp add: given_examples_def object_fields_def assms(3))
  moreover have "schemaToSampleObj env (schema_cfg_of ga False) e = Some (SObj [(example_name 0, SBool False)])"
  proof -
    have "getSampleValueByType env e = Some (SBool False)"
      by (simp add: assms(2) getSampleValueByType_def first_example_def truthy_entry_def first_type_def typed_example_def startsWith_Cons js_def)
    moreover have "\<not> truthy_entry ''allOf'' e" "\<not> truthy_entry ''oneOf'' e" "\<not> truthy_entry ''anyOf'' e" "\<not> object_schema e" "\<not> array_schema e"
      unfolding assms(2) by code_simp+
    ultimately show ?thesis unfolding schemaToSampleObj.simps [of env _ e] by (simp add: sample_step_def)
  qed
  moreover have "\<not> truthy_entry ''example'' e" unfolding assms(2) by code_simp
  ultimately show ?thesis using json_mime [OF assms(4)] assms(1,2)
    by (simp add: generateExample_of_def schema_examples_def Let_def add_sample_def)
qed

section \<open>Values of simple types\<close>

text \<open>
  A text that is generated for a schema has a length between the schema's bounds, if those can be met and are not zero.
\<close>

theorem text_example_in_bounds:
  assumes "to_number (entry ''minLength'' e) = Some (of_nat lo)" "to_number (entry ''maxLength'' e) = Some (of_nat hi)" "lo \<le> hi" "0 < hi"
  shows "\<exists>s. text_example e = Some s \<and> lo \<le> length s \<and> length s \<le> hi"
proof -
  let ?s = "if lo \<noteq> 0 then lo else if 6 < hi then 6 else hi"
  have "text_example e = Some (replicate ?s 65)"
    using assms(4) by (auto simp: text_example_def number_or_0_def assms(1,2) Let_def)
  then show ?thesis using assms(3,4) by auto
qed

text \<open>
  A number that is generated for a schema with a minimum is at least the minimum and a multiple of what is asked for, as far
  as no rounding intervenes.
\<close>

theorem number_example_in_bounds:
  assumes "to_number (entry ''minimum'' e) = Some lo" "to_number (entry ''multipleOf'' e) = Some m" "0 < m"
    and "sv_rnd env (lo / m) = lo / m" "sv_rnd env (of_int \<lceil>lo / m\<rceil> * m) = of_int \<lceil>lo / m\<rceil> * m"
  shows "lo \<le> number_example env t e \<and> (\<exists>k. number_example env t e = of_int k * m)"
proof -
  have n: "number_start env t e = lo" by (simp add: number_start_def assms(1))
  consider (above) "lo \<le> m" | (multiple) "\<not> lo \<le> m" "lo / m = of_int \<lfloor>lo / m\<rfloor>" | (next_one) "\<not> lo \<le> m" "lo / m \<noteq> of_int \<lfloor>lo / m\<rfloor>" by blast
  then show ?thesis
  proof cases
    case above
    then have "number_example env t e = m" using assms(2,3) n by (simp add: number_example_def)
    then show ?thesis using above by (auto intro: exI [of _ 1])
  next
    case multiple
    then have v: "number_example env t e = lo" using assms(2,3) n by (simp add: number_example_def Let_def)
    have "lo = of_int \<lfloor>lo / m\<rfloor> * m" using multiple(2) assms(3) by (metis less_irrefl nonzero_divide_eq_eq)
    then show ?thesis unfolding v by blast
  next
    case next_one
    then have v: "number_example env t e = of_int \<lceil>lo / m\<rceil> * m" using assms(2-5) n by (simp add: number_example_def Let_def)
    have "lo \<le> of_int \<lceil>lo / m\<rceil> * m" using assms(3) by (simp add: pos_divide_le_eq [symmetric])
    then show ?thesis unfolding v by blast
  qed
qed

text \<open>Without a minimum the multiple is looked for above the maximum: for multiples of 3 up to 10 the example is 12.\<close>

theorem number_example_exceeds_maximum:
  assumes "to_number (entry ''minimum'' e) = None" "to_number (entry ''exclusiveMinimum'' e) = None" "to_number (entry ''maximum'' e) = Some hi"
    and "to_number (entry ''multipleOf'' e) = Some m" "0 < m" "m < hi" "hi / m \<noteq> of_int \<lfloor>hi / m\<rfloor>"
    and "sv_rnd env (hi / m) = hi / m" "sv_rnd env (of_int \<lceil>hi / m\<rceil> * m) = of_int \<lceil>hi / m\<rceil> * m"
  shows "hi < number_example env t e"
proof -
  have n: "number_start env t e = hi" by (simp add: number_start_def assms(1-3))
  have v: "number_example env t e = of_int \<lceil>hi / m\<rceil> * m" using assms(4-9) n by (simp add: number_example_def Let_def)
  have "hi / m < of_int \<lceil>hi / m\<rceil>"
    using assms(7) by (metis ceiling_of_int floor_of_int le_of_int_ceiling less_le of_int_ceiling_cancel of_int_floor_cancel)
  then show ?thesis unfolding v using assms(5) by (simp add: pos_divide_less_eq)
qed

section \<open>Examples\<close>

definition exact_env :: sample_env where
  "exact_env = \<lparr>sv_rnd = id, sv_text = (\<lambda>q. js ''0''), sv_pattern = (\<lambda>p. None), sv_random = js ''19a2b3c4d5e0.8f''\<rparr>"

definition typed_schema :: "string \<Rightarrow> (string \<times> json) list \<Rightarrow> json" where
  "typed_schema t kvs = JObj ((js ''type'', JStr (js t)) # map (\<lambda>(k, v). (js k, v)) kvs)"

definition chat_props :: "(jstr \<times> json) list" where
  "chat_props = [(js ''id'', typed_schema ''string'' [(''readOnly'', JBool True)]), (js ''name'', typed_schema ''string'' [(''minLength'', JNum (js ''2''))]),
     (js ''muted'', typed_schema ''boolean'' [])]"

definition chat_args :: "json \<Rightarrow> gen_args" where
  "chat_args e = \<lparr>ga_schema = Some e, ga_mime = js ''application/json'', ga_examples = None, ga_example = None, ga_readOnly = False, ga_writeOnly = True,
     ga_text = False\<rparr>"

lemma json_args: "toLowerCase (ga_mime (chat_args e)) = js ''application/json''"
  unfolding chat_args_def by code_simp

lemma plain_typed: "plain_object (typed_schema ''object'' [(''properties'', JObj ps)]) ps"
  by (simp add: plain_object_def typed_schema_def truthy_entry_def object_schema_def has_type_def)


theorem simple_reference_erases_examples_witness:
  "generateExample_of exact_env False (chat_args (typed_schema ''object'' [(''properties'',
     JObj ((js ''kind'', JObj [(js ''allOf'', JArr [typed_schema ''string'' []])]) # chat_props))])) = Some []"
proof -
  let ?p = "JObj [(js ''allOf'', JArr [typed_schema ''string'' []])]"
  let ?ps = "(js ''kind'', ?p) # chat_props"
  let ?ga = "chat_args (typed_schema ''object'' [(''properties'', JObj ?ps)])"
  have "\<not> Option.is_none (generateExample_of exact_env False ?ga)" by code_simp
  then obtain gs where gs: "generateExample_of exact_env False ?ga = Some gs" by (auto simp: Option.is_none_def)
  have "gs = []"
    by (rule simple_reference_erases_examples [where e = "typed_schema ''object'' [(''properties'', JObj ?ps)]" and ps = ?ps and k = "js ''kind''" and p = ?p
          and v = "typed_schema ''string'' []", OF _ plain_typed _ json_args _ _ _ _ _ _ _ _ _ gs])
      (simp_all add: chat_args_def left_out_def truthy_entry_def array_schema_def has_type_def typed_schema_def)
  then show ?thesis using gs by simp
qed

theorem media_example_is_ignored_witness:
  "let m = \<lparr>mimeType = js ''application/json'', md_schema = Some (typed_schema ''boolean'' []), md_example = Some (JNum (js ''7'')), md_examples = None\<rparr> in
   body_examples \<lparr>objectNotation = (\<lambda>e. None), generateExample = generateExample_of exact_env False\<rparr> rq m =
   body_examples \<lparr>objectNotation = (\<lambda>e. None), generateExample = generateExample_of exact_env False\<rparr> rq (m\<lparr>md_example := None\<rparr>)"
  unfolding Let_def by (rule media_example_is_ignored [where env = exact_env]) (simp_all add: standardizeExample_def)

theorem booleans_have_no_example_witness: "generateExample_of exact_env False (chat_args (JObj [(js ''type'', JStr (js ''boolean''))])) = Some []"
  by (rule booleans_have_no_example [OF _ refl _ json_args]) (simp_all add: chat_args_def)

definition bounded :: json where
  "bounded = typed_schema ''string'' [(''minLength'', JNum (js ''2'')), (''maxLength'', JNum (js ''64''))]"

theorem text_example_in_bounds_witness: "\<exists>s. text_example bounded = Some s \<and> 2 \<le> length s \<and> length s \<le> 64"
proof -
  have "to_number (entry ''minLength'' bounded) = Some (of_nat 2)" "to_number (entry ''maxLength'' bounded) = Some (of_nat 64)" by code_simp+
  then show ?thesis by (rule text_example_in_bounds) simp_all
qed

definition multiples :: "string \<Rightarrow> json" where
  "multiples k = typed_schema ''integer'' [(k, JNum (js ''10'')), (''multipleOf'', JNum (js ''3''))]"

theorem number_example_in_bounds_witness:
  "10 \<le> number_example exact_env (js ''integer'') (multiples ''minimum'') \<and> (\<exists>k. number_example exact_env (js ''integer'') (multiples ''minimum'') = of_int k * 3)"
proof -
  have "to_number (entry ''minimum'' (multiples ''minimum'')) = Some 10" "to_number (entry ''multipleOf'' (multiples ''minimum'')) = Some 3" by code_simp+
  then show ?thesis by (rule number_example_in_bounds) (simp_all add: exact_env_def)
qed

theorem number_example_exceeds_maximum_witness: "10 < number_example exact_env (js ''integer'') (multiples ''maximum'')"
proof -
  have "to_number (entry ''minimum'' (multiples ''maximum'')) = None" "to_number (entry ''exclusiveMinimum'' (multiples ''maximum'')) = None"
    "to_number (entry ''maximum'' (multiples ''maximum'')) = Some 10" "to_number (entry ''multipleOf'' (multiples ''maximum'')) = Some 3" by code_simp+
  then show ?thesis
  proof (rule number_example_exceeds_maximum)
    show "(10::rat) / 3 \<noteq> of_int \<lfloor>(10::rat) / 3\<rfloor>" by code_simp
  qed (simp_all add: exact_env_def)
qed

end
