(* ===== verification/Go_Base.thy ===== *)
theory Go_Base
  imports Complex_Main "HOL-Library.Word" "HOL-Library.Sublist"
begin

text \<open>
  Shared ground of the theories on the gateway's Go code. Go strings are byte lists, that is HOL
  \<open>string\<close>s; \<open>int64\<close> and \<open>int\<close> values are integers with the wrap-around of the addition or
  multiplication written out where a value could leave the range (\<open>wrap64\<close>); \<open>time.Time\<close> and
  \<open>time.Duration\<close> are integers counting nanoseconds. A \<open>float64\<close> is a rational, and the
  rounding of each operation is the parameter \<open>rnd\<close>; \<open>double_like\<close> collects what is used of it.
\<close>

section \<open>Machine integers\<close>

definition wrap64 :: "int \<Rightarrow> int" where
  "wrap64 x = (x + 2 ^ 63) mod 2 ^ 64 - 2 ^ 63"

lemma wrap64_id: "- (2 ^ 63) \<le> x \<Longrightarrow> x < 2 ^ 63 \<Longrightarrow> wrap64 x = x"
  by (simp add: wrap64_def)

lemma wrap64_range: "- (2 ^ 63) \<le> wrap64 x \<and> wrap64 x < 2 ^ 63"
  by (simp add: wrap64_def)

abbreviation ns_per_second :: int where "ns_per_second \<equiv> 1000000000"

section \<open>Floating point\<close>

text \<open>
  The facts about binary64 rounding the proofs use: it is monotone and idempotent, integers up to
  \<open>2^53\<close> are exact, and taking an integer from a larger value below \<open>2^53\<close> is exact (the result
  has no more significant bits than the value).
\<close>

definition double_like :: "(rat \<Rightarrow> rat) \<Rightarrow> bool" where
  "double_like rnd \<longleftrightarrow> mono rnd \<and> (\<forall>x. rnd (rnd x) = rnd x) \<and>
     (\<forall>n. \<bar>n\<bar> \<le> 2 ^ 53 \<longrightarrow> rnd (of_int n) = of_int n) \<and>
     (\<forall>x n. rnd x = x \<longrightarrow> 0 \<le> n \<longrightarrow> of_int n \<le> x \<longrightarrow> x \<le> 2 ^ 53 \<longrightarrow> rnd (x - of_int n) = x - of_int n)"

lemma double_like_id: "double_like id" "double_like (\<lambda>x. x)"
  by (simp_all add: double_like_def monoI)

lemma double_likeD:
  assumes "double_like rnd"
  shows "x \<le> y \<Longrightarrow> rnd x \<le> rnd y" "rnd (rnd x) = rnd x" "\<bar>n\<bar> \<le> 2 ^ 53 \<Longrightarrow> rnd (of_int n) = of_int n"
    "rnd x = x \<Longrightarrow> 0 \<le> n \<Longrightarrow> of_int n \<le> x \<Longrightarrow> x \<le> 2 ^ 53 \<Longrightarrow> rnd (x - of_int n) = x - of_int n"
  using assms by (auto simp: double_like_def dest: monoD)

lemma double_like_0 [simp]: "double_like rnd \<Longrightarrow> rnd 0 = 0"
  using double_likeD(3) [of rnd 0] by simp

text \<open>\<open>int64(x)\<close> truncates towards zero.\<close>

definition trunc :: "rat \<Rightarrow> int" where
  "trunc x = (if x < 0 then - \<lfloor>- x\<rfloor> else \<lfloor>x\<rfloor>)"

lemma trunc_of_int [simp]: "trunc (of_int n) = n"
  by (simp add: trunc_def)

lemma trunc_nonneg: "0 \<le> x \<Longrightarrow> 0 \<le> trunc x \<and> of_int (trunc x) \<le> x \<and> x < of_int (trunc x) + 1"
  by (simp add: trunc_def) linarith

text \<open>\<open>Duration.Seconds()\<close>: whole seconds and the rest, each as a float.\<close>

definition seconds :: "(rat \<Rightarrow> rat) \<Rightarrow> int \<Rightarrow> rat" where
  "seconds rnd d = rnd (rnd (of_int (d div ns_per_second)) + rnd (rnd (of_int (d mod ns_per_second)) / 1000000000))"

lemma seconds_nonneg:
  assumes "double_like rnd" "0 \<le> d"
  shows "0 \<le> seconds rnd d"
proof -
  have nn: "0 \<le> x \<Longrightarrow> 0 \<le> rnd x" for x
    using double_likeD(1) [OF assms(1), of 0 x] assms(1) by simp
  have "0 \<le> rnd (of_int (d div ns_per_second))" "0 \<le> rnd (rnd (of_int (d mod ns_per_second)) / 1000000000)"
    using assms(2) by (intro nn; simp add: pos_imp_zdiv_nonneg_iff nn)+
  then show ?thesis unfolding seconds_def by (intro nn) simp
qed

lemma seconds_exact: "seconds (\<lambda>x. x) d = of_int d / 1000000000"
proof -
  have "(of_int (d div ns_per_second) :: rat) * 1000000000 + of_int (d mod ns_per_second) =
      of_int (d div ns_per_second * ns_per_second + d mod ns_per_second)"
    by (simp only: of_int_add of_int_mult of_int_numeral)
  also have "d div ns_per_second * ns_per_second + d mod ns_per_second = d" by simp
  finally show ?thesis by (simp add: seconds_def field_simps)
qed

section \<open>Results\<close>

text \<open>A call that returns a value or an error.\<close>

type_synonym ('e, 'a) result = "'e + 'a"

abbreviation Err :: "'e \<Rightarrow> 'e + 'a" where "Err \<equiv> Inl"
abbreviation Ok :: "'a \<Rightarrow> 'e + 'a" where "Ok \<equiv> Inr"

section \<open>Strings\<close>

text \<open>
  Trimming. \<open>strip ws\<close> removes the texts of \<open>ws\<close> from the front as long as one is there;
  \<open>trim_by\<close> removes single bytes from both ends.
\<close>

definition trim_by :: "(char \<Rightarrow> bool) \<Rightarrow> string \<Rightarrow> string" where
  "trim_by P s = rev (dropWhile P (rev (dropWhile P s)))"

function strip :: "string list \<Rightarrow> string \<Rightarrow> string" where
  "strip ws s = (case List.find (\<lambda>w. w \<noteq> [] \<and> prefix w s) ws of
     None \<Rightarrow> s | Some w \<Rightarrow> strip ws (drop (length w) s))"
  by pat_completeness auto
termination
  by (relation "measure (\<lambda>(ws, s). length s)")
    (auto simp: find_Some_iff dest!: prefix_length_le, metis diff_less length_greater_0_conv less_le_trans)

declare strip.simps [simp del]

text \<open>The white space of \<open>unicode.IsSpace\<close> in UTF-8.\<close>

definition utf8_spaces :: "string list" where
  "utf8_spaces = map (\<lambda>c. [c]) [CHR '' '', CHR 0x09, CHR 0x0A, CHR 0x0B, CHR 0x0C, CHR 0x0D] @
     [[CHR 0xC2, CHR 0x85], [CHR 0xC2, CHR 0xA0], [CHR 0xE1, CHR 0x9A, CHR 0x80]] @
     map (\<lambda>c. [CHR 0xE2, CHR 0x80, c])
       [CHR 0x80, CHR 0x81, CHR 0x82, CHR 0x83, CHR 0x84, CHR 0x85, CHR 0x86, CHR 0x87, CHR 0x88, CHR 0x89, CHR 0x8A,
        CHR 0xA8, CHR 0xA9, CHR 0xAF] @
     [[CHR 0xE2, CHR 0x81, CHR 0x9F], [CHR 0xE3, CHR 0x80, CHR 0x80]]"

definition TrimSpace :: "string \<Rightarrow> string" where
  "TrimSpace s = rev (strip (map rev utf8_spaces) (rev (strip utf8_spaces s)))"

fun split_char :: "char \<Rightarrow> string \<Rightarrow> string list" where
  "split_char c [] = [[]]"
| "split_char c (x # xs) = (if x = c then [] # split_char c xs
     else case split_char c xs of [] \<Rightarrow> [[x]] | y # ys \<Rightarrow> (x # y) # ys)"

text \<open>
  \<open>strings.ToLower\<close>: ASCII letters, and the two letters outside ASCII whose lower case is ASCII
  (U+0130 and U+212A). The lower case of every other letter outside ASCII is outside ASCII as well;
  such letters are left as they are, which makes no difference to a comparison with ASCII text.
\<close>

definition ascii_lower :: "char \<Rightarrow> char" where
  "ascii_lower c = (let n = of_char c :: nat in if 65 \<le> n \<and> n \<le> 90 then char_of (n + 32) else c)"

fun ToLower :: "string \<Rightarrow> string" where
  "ToLower [] = []"
| "ToLower (c # cs) =
     (if c = CHR 0xC4 \<and> take 1 cs = [CHR 0xB0] then CHR ''i'' # ToLower (drop 1 cs)
      else if c = CHR 0xE2 \<and> take 2 cs = [CHR 0x84, CHR 0xAA] then CHR ''k'' # ToLower (drop 2 cs)
      else ascii_lower c # ToLower cs)"

definition is_digit :: "char \<Rightarrow> bool" where
  "is_digit c = (48 \<le> (of_char c :: nat) \<and> (of_char c :: nat) \<le> 57)"

lemma trim_by_Nil [simp]: "trim_by P [] = []"
  by (simp add: trim_by_def)

lemma trim_by_ends:
  assumes "trim_by P s \<noteq> []"
  shows "\<not> P (hd (trim_by P s)) \<and> \<not> P (last (trim_by P s))"
proof -
  define t where "t = dropWhile P s"
  obtain u where u: "t = trim_by P s @ u"
    using suffix_dropWhile [of P "rev t"] by (auto simp: suffix_def trim_by_def t_def) (metis rev_append rev_rev_ident)
  have "hd (trim_by P s) = hd t" "t \<noteq> []" using assms u by auto
  then have "\<not> P (hd (trim_by P s))" using hd_dropWhile [of P s] by (simp add: t_def)
  moreover have "last (trim_by P s) = hd (dropWhile P (rev t))" "dropWhile P (rev t) \<noteq> []"
    using assms by (simp_all add: trim_by_def t_def last_rev)
  ultimately show ?thesis using hd_dropWhile [of P "rev t"] by simp
qed

lemma trim_by_fixed:
  assumes "s \<noteq> []" "\<not> P (hd s)" "\<not> P (last s)"
  shows "trim_by P s = s"
proof -
  have "dropWhile P s = s" using assms(1,2) by (cases s) auto
  moreover have "dropWhile P (rev s) = rev s" using assms(1,3) by (cases s rule: rev_cases) auto
  ultimately show ?thesis by (simp add: trim_by_def)
qed

lemma trim_by_idem: "trim_by P (trim_by P s) = trim_by P s"
  using trim_by_ends [of P s] trim_by_fixed [of "trim_by P s" P] by (cases "trim_by P s = []") simp_all

lemma strip_id:
  assumes "list_all (\<lambda>w. w = [] \<or> \<not> prefix w s) ws"
  shows "strip ws s = s"
proof -
  have "List.find (\<lambda>w. w \<noteq> [] \<and> prefix w s) ws = None"
    using assms by (auto simp: find_None_iff list_all_iff)
  then show ?thesis by (simp add: strip.simps)
qed

lemma strip_Nil [simp]: "strip ws [] = []"
  by (rule strip_id) (auto simp: list_all_iff)

lemma TrimSpace_Nil [simp]: "TrimSpace [] = []"
  by (simp add: TrimSpace_def)

text \<open>Text that begins and ends with a printable ASCII character is already trimmed.\<close>

definition printable :: "char \<Rightarrow> bool" where
  "printable c = (33 \<le> (of_char c :: nat) \<and> (of_char c :: nat) \<le> 126)"

lemma TrimSpace_fixed:
  assumes "s \<noteq> []" "printable (hd s)" "printable (last s)"
  shows "TrimSpace s = s"
proof -
  have ends: "list_all (\<lambda>w. w \<noteq> [] \<and> \<not> printable (hd w) \<and> \<not> printable (last w)) utf8_spaces" by code_simp
  obtain c t where s: "s = c # t" using assms(1) by (cases s) auto
  obtain u d where e: "s = u @ [d]" using assms(1) by (cases s rule: rev_cases) auto
  have "strip utf8_spaces s = s"
    using ends assms(2) by (intro strip_id) (auto simp: list_all_iff s prefix_Cons)
  moreover have "strip (map rev utf8_spaces) (rev s) = rev s"
  proof (rule strip_id, unfold list_all_iff, rule ballI, rule disjI2)
    fix w assume "w \<in> set (map rev utf8_spaces)"
    then obtain v where v: "v \<in> set utf8_spaces" "w = rev v" by auto
    with ends have "v \<noteq> []" "\<not> printable (last v)" by (auto simp: list_all_iff)
    with v assms(3) show "\<not> prefix w (rev s)" by (cases v rule: rev_cases) (auto simp: e prefix_Cons)
  qed
  ultimately show ?thesis by (simp add: TrimSpace_def)
qed

lemma split_char_none: "c \<notin> set s \<Longrightarrow> split_char c s = [s]"
  by (induction s) auto

lemma split_char_append: "c \<notin> set s \<Longrightarrow> split_char c (s @ c # t) = s # split_char c t"
  by (induction s) auto

end
