(* ===== verification/Rate_Limit.thy ===== *)
theory Rate_Limit
  imports Go_Base
begin

text \<open>
  Rate limiting (\<open>pkg/ratelimiter\<close>, \<open>internal/middleware/rate_limit.go\<close>): the fixed-window memory
  limiter, the token bucket, the result mapping of the Redis limiter, the no-op limiter, the pacer
  that combines a ban gate, a per-recipient cap and a blocking account bucket, and the middleware
  that caps registrations. The mutex makes each call atomic, so a call is one function on the
  limiter's state; the clock readings of a call are its arguments.

  The contract of the Go interface \<open>Limiter\<close> is the locale \<open>limiter\<close>: a budget per key and instant
  that a call spends or leaves alone. It is interpreted on the memory limiter and on the token bucket,
  and the pacer is built from any two limiters, as in the code.
\<close>

section \<open>Definitions\<close>

record Result =
  Allowed :: bool
  Remaining :: int
  Limit :: int
  RetryAfter :: int
  ResetAfter :: int

record RateLimitError =
  rle_RetryAfter :: int
  rle_Limit :: int
  rle_Remaining :: int

definition BuildError :: "Result \<Rightarrow> RateLimitError" where
  "BuildError res = \<lparr>rle_RetryAfter = RetryAfter res, rle_Limit = Limit res, rle_Remaining = Remaining res\<rparr>"

record Config =
  cfg_Limit :: int
  cfg_Window :: int
  cfg_Prefix :: string

subsection \<open>The memory limiter\<close>

record memoryEntry =
  count :: int
  expiresAt :: int

record MemoryLimiter =
  m_store :: "string \<rightharpoonup> memoryEntry"
  m_limit :: int
  m_window :: int
  m_prefix :: string

definition NewMemoryLimiter :: "Config \<Rightarrow> MemoryLimiter" where
  "NewMemoryLimiter cfg = \<lparr>m_store = Map.empty, m_limit = cfg_Limit cfg, m_window = cfg_Window cfg, m_prefix = cfg_Prefix cfg\<rparr>"

definition m_entry :: "MemoryLimiter \<Rightarrow> int \<Rightarrow> string \<Rightarrow> memoryEntry" where
  \<comment> \<open>the entry a call at \<open>now\<close> works on: a fresh one when there is none or its window has passed\<close>
  "m_entry m now fullKey =
     (case m_store m fullKey of
        None \<Rightarrow> \<lparr>count = 0, expiresAt = now + m_window m\<rparr>
      | Some e \<Rightarrow> if now > expiresAt e then \<lparr>count = 0, expiresAt = now + m_window m\<rparr> else e)"

definition m_AllowN :: "MemoryLimiter \<Rightarrow> int \<Rightarrow> string \<Rightarrow> int \<Rightarrow> Result \<times> MemoryLimiter" where
  \<comment> \<open>the later readings of \<open>time.Until\<close> are taken as \<open>now\<close>\<close>
  "m_AllowN m now key n =
     (let fullKey = m_prefix m @ key; e = m_entry m now fullKey
      in if wrap64 (count e + n) > m_limit m then
           (\<lparr>Allowed = False, Remaining = m_limit m - count e, Limit = m_limit m,
             RetryAfter = expiresAt e - now, ResetAfter = expiresAt e - now\<rparr>,
            m\<lparr>m_store := (m_store m)(fullKey \<mapsto> e)\<rparr>)
         else
           let e' = e\<lparr>count := wrap64 (count e + n)\<rparr>
           in (\<lparr>Allowed = True, Remaining = m_limit m - count e', Limit = m_limit m,
                RetryAfter = 0, ResetAfter = expiresAt e' - now\<rparr>,
               m\<lparr>m_store := (m_store m)(fullKey \<mapsto> e')\<rparr>))"

definition m_Allow :: "MemoryLimiter \<Rightarrow> int \<Rightarrow> string \<Rightarrow> Result \<times> MemoryLimiter" where
  "m_Allow m now key = m_AllowN m now key 1"

definition m_Reset :: "MemoryLimiter \<Rightarrow> string \<Rightarrow> MemoryLimiter" where
  "m_Reset m key = m\<lparr>m_store := (m_store m)(m_prefix m @ key := None)\<rparr>"

subsection \<open>The token bucket\<close>

record tbEntry =
  tokens :: rat
  last_at :: int

record TokenBucketConfig =
  tbc_Rate :: rat
  tbc_Burst :: rat
  tbc_Prefix :: string

record TokenBucketLimiter =
  buckets :: "string \<rightharpoonup> tbEntry"
  rate :: rat
  burst :: rat
  tb_prefix :: string

definition NewTokenBucketLimiter :: "TokenBucketConfig \<Rightarrow> TokenBucketLimiter" where
  "NewTokenBucketLimiter cfg =
     \<lparr>buckets = Map.empty, rate = (if tbc_Rate cfg \<le> 0 then 1 else tbc_Rate cfg),
      burst = (if tbc_Burst cfg < 1 then 1 else tbc_Burst cfg), tb_prefix = tbc_Prefix cfg\<rparr>"

definition tb_refill :: "(rat \<Rightarrow> rat) \<Rightarrow> TokenBucketLimiter \<Rightarrow> int \<Rightarrow> string \<Rightarrow> tbEntry" where
  "tb_refill rnd t now fullKey =
     (case buckets t fullKey of
        None \<Rightarrow> \<lparr>tokens = burst t, last_at = now\<rparr>
      | Some e \<Rightarrow>
          let elapsed = seconds rnd (now - last_at e)
          in if elapsed > 0
             then \<lparr>tokens = min (burst t) (rnd (tokens e + rnd (elapsed * rate t))), last_at = now\<rparr>
             else e)"

definition tb_AllowN :: "(rat \<Rightarrow> rat) \<Rightarrow> TokenBucketLimiter \<Rightarrow> int \<Rightarrow> string \<Rightarrow> int \<Rightarrow> Result \<times> TokenBucketLimiter" where
  "tb_AllowN rnd t now key n0 =
     (let n = (if n0 \<le> 0 then 1 else n0); need = rnd (of_int n);
          fullKey = tb_prefix t @ key; e = tb_refill rnd t now fullKey
      in if tokens e \<ge> need then
           let e' = e\<lparr>tokens := rnd (tokens e - need)\<rparr>
           in (\<lparr>Allowed = True, Remaining = trunc (tokens e'), Limit = trunc (burst t), RetryAfter = 0, ResetAfter = 0\<rparr>,
               t\<lparr>buckets := (buckets t)(fullKey \<mapsto> e')\<rparr>)
         else
           let deficit = rnd (need - tokens e);
               retryAfter = trunc (rnd (rnd (deficit / rate t) * 1000000000))
           in (\<lparr>Allowed = False, Remaining = trunc (tokens e), Limit = trunc (burst t),
                RetryAfter = retryAfter, ResetAfter = retryAfter\<rparr>,
               t\<lparr>buckets := (buckets t)(fullKey \<mapsto> e)\<rparr>))"

definition tb_Reset :: "TokenBucketLimiter \<Rightarrow> string \<Rightarrow> TokenBucketLimiter" where
  "tb_Reset t key = t\<lparr>buckets := (buckets t)(tb_prefix t @ key := None)\<rparr>"

subsection \<open>The Redis and no-op limiters\<close>

text \<open>
  The script and the result mapping; the commands of the Redis server are arguments that take the
  server's state.
\<close>

definition lua_script ::
  "('s \<Rightarrow> string \<Rightarrow> int \<Rightarrow> int \<times> 's) \<Rightarrow> ('s \<Rightarrow> string \<Rightarrow> int \<Rightarrow> 's) \<Rightarrow> ('s \<Rightarrow> string \<Rightarrow> int) \<Rightarrow>
   's \<Rightarrow> string \<Rightarrow> int \<Rightarrow> int \<Rightarrow> (int \<times> int) \<times> 's" where
  "lua_script INCRBY PEXPIRE PTTL s key n windowMs =
     (let (current, s1) = INCRBY s key n;
          s2 = (if current = n then PEXPIRE s1 key windowMs else s1)
      in ((current, PTTL s2 key), s2))"

definition redis_result :: "int \<Rightarrow> int \<times> int \<Rightarrow> Result" where
  "redis_result limit v =
     (let (current, ttlMs) = v; remaining = limit - current
      in \<lparr>Allowed = (current \<le> limit), Remaining = (if remaining < 0 then 0 else remaining), Limit = limit,
          RetryAfter = wrap64 (ttlMs * 1000000), ResetAfter = wrap64 (ttlMs * 1000000)\<rparr>)"

definition redis_AllowN ::
  "('s \<Rightarrow> string \<Rightarrow> int \<Rightarrow> int \<Rightarrow> ('e, int \<times> int) result \<times> 's) \<Rightarrow> Config \<Rightarrow> 's \<Rightarrow> string \<Rightarrow> int \<Rightarrow> ('e, Result) result \<times> 's" where
  \<comment> \<open>\<open>run\<close>: running the script on the server, which may fail\<close>
  "redis_AllowN run cfg s key n =
     (case run s (cfg_Prefix cfg @ key) n (cfg_Window cfg div 1000000) of
        (Inl err, s') \<Rightarrow> (Inl err, s')
      | (Inr v, s') \<Rightarrow> (Inr (redis_result (cfg_Limit cfg) v), s'))"

definition noop_Allow :: "string \<Rightarrow> Result" where
  "noop_Allow key = \<lparr>Allowed = True, Remaining = -1, Limit = -1, RetryAfter = 0, ResetAfter = 0\<rparr>"

subsection \<open>The pacer\<close>

text \<open>
  A pacer over any account, recipient and fallback limiter, given by their \<open>AllowN\<close>. One round of
  the blocking loop reads the clock twice and draws a jitter; the sleep ends or is cancelled.
\<close>

record tick =
  at_allow :: int
  at_check :: int
  jitter_drawn :: int
  cancelled :: bool

datatype wait_result = Cleared | Limited RateLimitError | Cancelled

definition pace_wait :: "Result \<Rightarrow> int \<Rightarrow> int \<Rightarrow> int" where
  "pace_wait res j remaining = min (RetryAfter res + j) remaining"

fun pace_loop ::
  "('a \<Rightarrow> int \<Rightarrow> string \<Rightarrow> int \<Rightarrow> Result \<times> 'a) \<Rightarrow> bool \<Rightarrow> int \<Rightarrow> string \<Rightarrow> int \<Rightarrow> tick list \<Rightarrow> 'a \<Rightarrow> (wait_result \<times> 'a) option" where
  \<comment> \<open>\<open>None\<close>: still waiting after these rounds\<close>
  "pace_loop allowN reject deadline phone n [] s = None"
| "pace_loop allowN reject deadline phone n (tk # tks) s =
     (let (res, s') = allowN s (at_allow tk) phone n in
      if Allowed res then Some (Cleared, s')
      else if reject then Some (Limited (BuildError res), s')
      else if deadline - at_check tk \<le> 0
        then Some (Limited \<lparr>rle_RetryAfter = RetryAfter res, rle_Limit = 0, rle_Remaining = 0\<rparr>, s')
      else if cancelled tk then Some (Cancelled, s')
      else pace_loop allowN reject deadline phone n tks s')"

record ('a, 'r, 'f) Pacer =
  enabled :: bool
  mode_reject :: bool
  account :: 'a
  accountBurst :: rat
  recipient :: "'r option"
  fallback :: "'f option"
  maxWait :: int

record PacerConfig =
  pc_Enabled :: bool
  pc_Mode :: string
  pc_AccountRate :: rat
  pc_AccountBurst :: rat
  pc_MaxWait :: int
  pc_RecipientLimit :: int
  pc_RecipientWindow :: int

definition NewPacer :: "PacerConfig \<Rightarrow> 'f option \<Rightarrow> (TokenBucketLimiter, MemoryLimiter, 'f) Pacer" where
  "NewPacer cfg fb =
     (let account = NewTokenBucketLimiter
            \<lparr>tbc_Rate = pc_AccountRate cfg, tbc_Burst = pc_AccountBurst cfg, tbc_Prefix = ''acct:''\<rparr>
      in \<lparr>enabled = pc_Enabled cfg, mode_reject = (pc_Mode cfg = ''reject''), account = account,
          accountBurst = burst account,
          recipient = (if pc_RecipientLimit cfg > 0 \<and> pc_RecipientWindow cfg > 0
            then Some (NewMemoryLimiter \<lparr>cfg_Limit = pc_RecipientLimit cfg, cfg_Window = pc_RecipientWindow cfg,
              cfg_Prefix = ''rcpt:''\<rparr>) else None),
          fallback = fb, maxWait = pc_MaxWait cfg\<rparr>)"

definition fallbackReject ::
  "('f \<Rightarrow> int \<Rightarrow> string \<Rightarrow> int \<Rightarrow> Result \<times> 'f) \<Rightarrow> int \<Rightarrow> string \<Rightarrow> int \<Rightarrow> ('a, 'r, 'f) Pacer \<Rightarrow>
   wait_result \<times> ('a, 'r, 'f) Pacer" where
  "fallbackReject allowF now phone n p =
     (case fallback p of
        None \<Rightarrow> (Cleared, p)
      | Some f \<Rightarrow>
          let (res, f') = allowF f now phone n
          in (if \<not> Allowed res then Limited (BuildError res) else Cleared, p\<lparr>fallback := Some f'\<rparr>))"

definition recipient_gate ::
  "('r \<Rightarrow> int \<Rightarrow> string \<Rightarrow> int \<Rightarrow> Result \<times> 'r) \<Rightarrow> int \<Rightarrow> string \<Rightarrow> string \<Rightarrow> int \<Rightarrow> ('a, 'r, 'f) Pacer \<Rightarrow>
   RateLimitError option \<times> ('a, 'r, 'f) Pacer" where
  "recipient_gate allowR now phone rcpt n p =
     (case recipient p of
        None \<Rightarrow> (None, p)
      | Some r \<Rightarrow>
          if rcpt = [] then (None, p)
          else let (res, r') = allowR r now (phone @ '':'' @ rcpt) n
               in (if \<not> Allowed res then Some (BuildError res) else None, p\<lparr>recipient := Some r'\<rparr>))"

text \<open>The steps after the ban gate: oversized requests, the recipient cap, the account bucket.\<close>

definition Wait_gated ::
  "('a \<Rightarrow> int \<Rightarrow> string \<Rightarrow> int \<Rightarrow> Result \<times> 'a) \<Rightarrow> ('r \<Rightarrow> int \<Rightarrow> string \<Rightarrow> int \<Rightarrow> Result \<times> 'r) \<Rightarrow>
   (rat \<Rightarrow> rat) \<Rightarrow> int \<Rightarrow> tick list \<Rightarrow> string \<Rightarrow> string \<Rightarrow> int \<Rightarrow> ('a, 'r, 'f) Pacer \<Rightarrow>
   (wait_result \<times> ('a, 'r, 'f) Pacer) option" where
  "Wait_gated allowA allowR rnd now tks phone rcpt n p =
     (if rnd (of_int n) > accountBurst p
      then Some (Limited \<lparr>rle_RetryAfter = 0, rle_Limit = trunc (accountBurst p), rle_Remaining = 0\<rparr>, p)
      else case recipient_gate allowR now phone rcpt n p of
        (Some err, p') \<Rightarrow> Some (Limited err, p')
      | (None, p') \<Rightarrow>
          map_option (\<lambda>(out, a). (out, p'\<lparr>account := a\<rparr>))
            (pace_loop allowA (mode_reject p) (now + maxWait p) phone n tks (account p')))"

text \<open>\<open>Wait\<close> with the clock reading \<open>now\<close> before the loop; \<open>ban\<close> is the account's ban deadline.\<close>

definition Wait ::
  "('a \<Rightarrow> int \<Rightarrow> string \<Rightarrow> int \<Rightarrow> Result \<times> 'a) \<Rightarrow> ('r \<Rightarrow> int \<Rightarrow> string \<Rightarrow> int \<Rightarrow> Result \<times> 'r) \<Rightarrow>
   ('f \<Rightarrow> int \<Rightarrow> string \<Rightarrow> int \<Rightarrow> Result \<times> 'f) \<Rightarrow> (rat \<Rightarrow> rat) \<Rightarrow> int option \<Rightarrow> int \<Rightarrow> tick list \<Rightarrow>
   string \<Rightarrow> string \<Rightarrow> int \<Rightarrow> ('a, 'r, 'f) Pacer \<Rightarrow> (wait_result \<times> ('a, 'r, 'f) Pacer) option" where
  "Wait allowA allowR allowF rnd ban now tks phone rcpt n p =
     (if \<not> enabled p then Some (fallbackReject allowF now phone n p)
      else case ban of
        Some until \<Rightarrow>
          if until - now > 0 then Some (Limited \<lparr>rle_RetryAfter = until - now, rle_Limit = 0, rle_Remaining = 0\<rparr>, p)
          else Wait_gated allowA allowR rnd now tks phone rcpt n p
      | None \<Rightarrow> Wait_gated allowA allowR rnd now tks phone rcpt n p)"

subsection \<open>Registration limit\<close>

record RegisterConfig =
  RegisterRateLimitEnabled :: bool
  RegisterRateLimitDurationSeconds :: int
  RegisterRateLimitRequests :: int

definition register_config :: "RegisterConfig \<Rightarrow> Config" where
  "register_config cfg =
     (let window = wrap64 (RegisterRateLimitDurationSeconds cfg * ns_per_second);
          limit = RegisterRateLimitRequests cfg
      in \<lparr>cfg_Limit = (if limit \<le> 0 then 5 else limit),
          cfg_Window = (if window \<le> 0 then 60 * ns_per_second else window),
          cfg_Prefix = ''whatsapp:gateway:register:''\<rparr>)"

datatype register_outcome = Next | TooManyRequests int   \<comment> \<open>status 429 with \<open>Retry-After\<close>\<close>

definition NewRegisterRateLimiter :: "RegisterConfig \<Rightarrow> MemoryLimiter option" where
  "NewRegisterRateLimiter cfg =
     (if \<not> RegisterRateLimitEnabled cfg then None else Some (NewMemoryLimiter (register_config cfg)))"

definition register_request :: "(rat \<Rightarrow> rat) \<Rightarrow> int \<Rightarrow> string \<Rightarrow> MemoryLimiter option \<Rightarrow> register_outcome \<times> MemoryLimiter option" where
  \<comment> \<open>the memory limiter returns no error, so the fail-open branch is not taken\<close>
  "register_request rnd now ip st =
     (case st of
        None \<Rightarrow> (Next, None)
      | Some m \<Rightarrow>
          let (res, m') = m_Allow m now ip
          in (if \<not> Allowed res then TooManyRequests (trunc (seconds rnd (RetryAfter res)) + 1) else Next, Some m'))"

section \<open>The contract of a limiter\<close>

text \<open>Requests served one after the other at one instant, and what a key is granted in total.\<close>

primrec serve :: "('s \<Rightarrow> int \<Rightarrow> string \<Rightarrow> int \<Rightarrow> Result \<times> 's) \<Rightarrow> int \<Rightarrow> (string \<times> int) list \<Rightarrow> 's \<Rightarrow> bool list \<times> 's" where
  "serve allowN t [] s = ([], s)"
| "serve allowN t (r # rs) s =
     (let (res, s') = allowN s t (fst r) (snd r); (bs, s'') = serve allowN t rs s' in (Allowed res # bs, s''))"

definition granted :: "string \<Rightarrow> (string \<times> int) list \<Rightarrow> bool list \<Rightarrow> int" where
  "granted k rs bs = sum_list (map (\<lambda>(r, b). if b \<and> fst r = k then snd r else 0) (zip rs bs))"

text \<open>
  A budget per key and instant: a call is allowed exactly when it asks for no more than the budget,
  an allowed call spends what it asks for, a denied call spends nothing, and no call touches the
  budget of another key. Requests are positive and exactly representable as floats.
\<close>

locale limiter =
  fixes allowN :: "'s \<Rightarrow> int \<Rightarrow> string \<Rightarrow> int \<Rightarrow> Result \<times> 's"
    and budget :: "'s \<Rightarrow> int \<Rightarrow> string \<Rightarrow> rat"
    and inv :: "'s \<Rightarrow> bool"
  assumes budget_nonneg: "inv s \<Longrightarrow> 0 \<le> budget s t k"
    and inv_kept: "inv s \<Longrightarrow> 0 < n \<Longrightarrow> n \<le> 2 ^ 53 \<Longrightarrow> inv (snd (allowN s t k n))"
    and allowed_iff: "inv s \<Longrightarrow> 0 < n \<Longrightarrow> n \<le> 2 ^ 53 \<Longrightarrow> Allowed (fst (allowN s t k n)) \<longleftrightarrow> of_int n \<le> budget s t k"
    and spends: "inv s \<Longrightarrow> 0 < n \<Longrightarrow> n \<le> 2 ^ 53 \<Longrightarrow>
      budget (snd (allowN s t k n)) t k = budget s t k - (if Allowed (fst (allowN s t k n)) then of_int n else 0)"
    and other_key: "inv s \<Longrightarrow> 0 < n \<Longrightarrow> n \<le> 2 ^ 53 \<Longrightarrow> k \<noteq> k' \<Longrightarrow> budget (snd (allowN s t k n)) t' k' = budget s t' k'"
begin

lemma serve_spends:
  assumes "inv s" "\<forall>r \<in> set rs. 0 < snd r \<and> snd r \<le> 2 ^ 53"
  shows "inv (snd (serve allowN t rs s)) \<and>
    of_int (granted k rs (fst (serve allowN t rs s))) = budget s t k - budget (snd (serve allowN t rs s)) t k"
  using assms
proof (induction rs arbitrary: s)
  case Nil
  then show ?case by (simp add: granted_def)
next
  case (Cons r rs)
  define s' where "s' = snd (allowN s t (fst r) (snd r))"
  have r: "0 < snd r" "snd r \<le> 2 ^ 53" using Cons.prems(2) by simp_all
  have inv': "inv s'" using inv_kept [OF Cons.prems(1) r] by (simp add: s'_def)
  from Cons.IH [OF inv'] Cons.prems(2)
  have IH: "inv (snd (serve allowN t rs s'))"
    "of_int (granted k rs (fst (serve allowN t rs s'))) = budget s' t k - budget (snd (serve allowN t rs s')) t k" by auto
  have "budget s' t k = budget s t k - (if Allowed (fst (allowN s t (fst r) (snd r))) \<and> fst r = k then of_int (snd r) else 0)"
    using spends [OF Cons.prems(1) r, of t "fst r"] other_key [OF Cons.prems(1) r, of "fst r" k t t]
    by (cases "fst r = k") (simp_all add: s'_def)
  with IH show ?case
    by (cases "Allowed (fst (allowN s t (fst r) (snd r))) \<and> fst r = k") (auto simp: split_beta granted_def s'_def)
qed

text \<open>However many requests arrive at one instant, a key is granted no more than its budget.\<close>

lemma granted_bound:
  assumes "inv s" "\<forall>r \<in> set rs. 0 < snd r \<and> snd r \<le> 2 ^ 53"
  shows "of_int (granted k rs (fst (serve allowN t rs s))) \<le> budget s t k"
  using serve_spends [OF assms, of t k] budget_nonneg [of "snd (serve allowN t rs s)" t k] by linarith

end

section \<open>The memory limiter and the token bucket meet the contract\<close>

definition m_budget :: "MemoryLimiter \<Rightarrow> int \<Rightarrow> string \<Rightarrow> rat" where
  "m_budget m t k = of_int (m_limit m - count (m_entry m t (m_prefix m @ k)))"

definition m_inv :: "MemoryLimiter \<Rightarrow> bool" where
  "m_inv m \<longleftrightarrow> 0 \<le> m_limit m \<and> m_limit m \<le> 2 ^ 62 \<and> (\<forall>e \<in> ran (m_store m). 0 \<le> count e \<and> count e \<le> m_limit m)"

lemma m_entry_range: "m_inv m \<Longrightarrow> 0 \<le> count (m_entry m t k) \<and> count (m_entry m t k) \<le> m_limit m"
  by (auto simp: m_entry_def m_inv_def ran_def split: option.splits)

lemma m_entry_again: "m_entry (m\<lparr>m_store := (m_store m)(k \<mapsto> e)\<rparr>) t k = (if t > expiresAt e then \<lparr>count = 0, expiresAt = t + m_window m\<rparr> else e)"
  by (simp add: m_entry_def)

lemma m_entry_other: "k \<noteq> k' \<Longrightarrow> m_entry (m\<lparr>m_store := (m_store m)(k \<mapsto> e)\<rparr>) t k' = m_entry m t k'"
  by (simp add: m_entry_def split: option.split)

lemma m_entry_window: "m_entry m t k = e \<Longrightarrow> 0 \<le> m_window m \<Longrightarrow> \<not> t > expiresAt e"
  by (auto simp: m_entry_def split: option.splits if_splits)

lemma m_no_wrap:
  assumes "m_inv m" "0 < n" "n \<le> 2 ^ 53"
  shows "wrap64 (count (m_entry m t k) + n) = count (m_entry m t k) + n"
  using m_entry_range [OF assms(1), of t k] assms by (intro wrap64_id) (auto simp: m_inv_def)

lemma m_inv_update:
  assumes "m_inv m" "0 \<le> count e" "count e \<le> m_limit m"
  shows "m_inv (m\<lparr>m_store := (m_store m)(k \<mapsto> e)\<rparr>)"
  using assms by (auto simp: m_inv_def ran_def)

interpretation mem: limiter m_AllowN m_budget "\<lambda>m. m_inv m \<and> 0 \<le> m_window m"
proof
  fix s :: MemoryLimiter and t k n
  assume inv: "m_inv s \<and> 0 \<le> m_window s"
  note range = m_entry_range [OF conjunct1 [OF inv]]
  show "0 \<le> m_budget s t k" using range by (simp add: m_budget_def)
  assume n: "(0 :: int) < n" "n \<le> 2 ^ 53"
  note nw = m_no_wrap [OF conjunct1 [OF inv] n]
  show "m_inv (snd (m_AllowN s t k n)) \<and> 0 \<le> m_window (snd (m_AllowN s t k n))"
    using inv range [of t "m_prefix s @ k"] n by (auto simp: m_AllowN_def Let_def nw intro!: m_inv_update)
  show al: "Allowed (fst (m_AllowN s t k n)) \<longleftrightarrow> of_int n \<le> m_budget s t k"
    by (auto simp: m_AllowN_def Let_def nw m_budget_def)
  have "\<not> t > expiresAt (m_entry s t (m_prefix s @ k))" by (rule m_entry_window [OF refl]) (use inv in simp)
  then show "m_budget (snd (m_AllowN s t k n)) t k =
      m_budget s t k - (if Allowed (fst (m_AllowN s t k n)) then of_int n else 0)"
    by (simp add: m_AllowN_def Let_def nw m_budget_def m_entry_again)
  fix k' t' assume "k \<noteq> k'"
  then show "m_budget (snd (m_AllowN s t k n)) t' k' = m_budget s t' k'"
    by (simp add: m_AllowN_def Let_def m_budget_def m_entry_other)
qed

definition tb_budget :: "(rat \<Rightarrow> rat) \<Rightarrow> TokenBucketLimiter \<Rightarrow> int \<Rightarrow> string \<Rightarrow> rat" where
  "tb_budget rnd t now k = tokens (tb_refill rnd t now (tb_prefix t @ k))"

definition tb_inv :: "(rat \<Rightarrow> rat) \<Rightarrow> TokenBucketLimiter \<Rightarrow> bool" where
  "tb_inv rnd t \<longleftrightarrow> double_like rnd \<and> 0 < rate t \<and> 1 \<le> burst t \<and> burst t \<le> 2 ^ 53 \<and> rnd (burst t) = burst t \<and>
     (\<forall>e \<in> ran (buckets t). 0 \<le> tokens e \<and> tokens e \<le> burst t \<and> rnd (tokens e) = tokens e)"

lemma tb_refill_ok:
  assumes "tb_inv rnd t"
  shows "0 \<le> tokens (tb_refill rnd t now k) \<and> tokens (tb_refill rnd t now k) \<le> burst t \<and>
    rnd (tokens (tb_refill rnd t now k)) = tokens (tb_refill rnd t now k)"
proof (cases "buckets t k")
  case None
  with assms show ?thesis by (simp add: tb_refill_def tb_inv_def)
next
  case (Some e)
  have dl: "double_like rnd" and b: "1 \<le> burst t" "rnd (burst t) = burst t" "0 < rate t"
    and e: "0 \<le> tokens e" "tokens e \<le> burst t" "rnd (tokens e) = tokens e"
    using assms Some by (auto simp: tb_inv_def ran_def)
  have nn: "0 \<le> x \<Longrightarrow> 0 \<le> rnd x" for x using double_likeD(1) [OF dl, of 0 x] dl by simp
  show ?thesis
  proof (cases "seconds rnd (now - last_at e) > 0")
    case True
    then have "0 \<le> rnd (seconds rnd (now - last_at e) * rate t)" using b(3) by (intro nn) simp
    then have "0 \<le> rnd (tokens e + rnd (seconds rnd (now - last_at e) * rate t))" using e(1) by (intro nn) simp
    moreover have "rnd (min (burst t) (rnd y)) = min (burst t) (rnd y)" for y
      using b(2) double_likeD(2) [OF dl] by (simp add: min_def)
    ultimately show ?thesis using Some True b(1) by (simp add: tb_refill_def)
  next
    case False
    with Some e show ?thesis by (simp add: tb_refill_def)
  qed
qed

lemma tb_refill_again:
  assumes "last_at (tb_refill rnd t now k) = now \<or> \<not> seconds rnd (now - last_at (tb_refill rnd t now k)) > 0" "double_like rnd"
  shows "tokens (tb_refill rnd (t\<lparr>buckets := (buckets t)(k \<mapsto> (tb_refill rnd t now k)\<lparr>tokens := x\<rparr>)\<rparr>) now k) = x"
  using assms by (auto simp: tb_refill_def [of rnd "t\<lparr>buckets := b\<rparr>" for b] seconds_def)

lemma tb_refill_last:
  "last_at (tb_refill rnd t now k) = now \<or> \<not> seconds rnd (now - last_at (tb_refill rnd t now k)) > 0"
  by (auto simp: tb_refill_def Let_def split: option.splits)

lemma tb_inv_update:
  assumes "tb_inv rnd t" "0 \<le> tokens e" "tokens e \<le> burst t" "rnd (tokens e) = tokens e"
  shows "tb_inv rnd (t\<lparr>buckets := (buckets t)(k \<mapsto> e)\<rparr>)"
  using assms by (auto simp: tb_inv_def ran_def)

lemma tb_refill_other: "k \<noteq> k' \<Longrightarrow> tb_refill rnd (t\<lparr>buckets := (buckets t)(k \<mapsto> e)\<rparr>) now k' = tb_refill rnd t now k'"
  by (simp add: tb_refill_def Let_def split: option.split)

interpretation tb: limiter "tb_AllowN rnd" "tb_budget rnd" "tb_inv rnd" for rnd
proof
  fix s :: TokenBucketLimiter and t k n
  assume inv: "tb_inv rnd s"
  then have dl: "double_like rnd" and b53: "burst s \<le> 2 ^ 53" by (simp_all add: tb_inv_def)
  let ?e = "tb_refill rnd s t (tb_prefix s @ k)"
  note ok = tb_refill_ok [OF inv, of t "tb_prefix s @ k"]
  show "0 \<le> tb_budget rnd s t k" using ok by (simp add: tb_budget_def)
  assume n: "(0 :: int) < n" "n \<le> 2 ^ 53"
  have rn: "rnd (of_int n) = of_int n" using double_likeD(3) [OF dl, of n] n by simp
  have sub: "of_int n \<le> tokens ?e \<Longrightarrow> rnd (tokens ?e - of_int n) = tokens ?e - of_int n"
    using double_likeD(4) [OF dl, of "tokens ?e" n] ok n b53 by simp
  show "tb_inv rnd (snd (tb_AllowN rnd s t k n))"
    using inv ok n by (auto simp: tb_AllowN_def Let_def rn sub intro!: tb_inv_update)
  show "Allowed (fst (tb_AllowN rnd s t k n)) \<longleftrightarrow> of_int n \<le> tb_budget rnd s t k"
    using n by (simp add: tb_AllowN_def Let_def rn tb_budget_def)
  note again = tb_refill_again [where t = s and now = t and k = "tb_prefix s @ k", OF tb_refill_last dl]
  have same: "tokens (tb_refill rnd (s\<lparr>buckets := (buckets s)(tb_prefix s @ k \<mapsto> ?e)\<rparr>) t (tb_prefix s @ k)) = tokens ?e"
    using again [of "tokens ?e"] by simp
  show "tb_budget rnd (snd (tb_AllowN rnd s t k n)) t k =
      tb_budget rnd s t k - (if Allowed (fst (tb_AllowN rnd s t k n)) then of_int n else 0)"
    using n by (simp add: tb_AllowN_def Let_def rn tb_budget_def again same sub)
  fix k' t' assume "k \<noteq> k'"
  then show "tb_budget rnd (snd (tb_AllowN rnd s t k n)) t' k' = tb_budget rnd s t' k'"
    by (simp add: tb_AllowN_def Let_def tb_budget_def tb_refill_other)
qed

section \<open>Rates over time\<close>

text \<open>Requests at given instants, for exact arithmetic.\<close>

primrec serve_at :: "('s \<Rightarrow> int \<Rightarrow> string \<Rightarrow> int \<Rightarrow> Result \<times> 's) \<Rightarrow> (int \<times> string \<times> int) list \<Rightarrow> 's \<Rightarrow> bool list \<times> 's" where
  "serve_at allowN [] s = ([], s)"
| "serve_at allowN (r # rs) s =
     (let (res, s') = allowN s (fst r) (fst (snd r)) (snd (snd r)); (bs, s'') = serve_at allowN rs s'
      in (Allowed res # bs, s''))"

definition exact :: "rat \<Rightarrow> rat" where
  "exact x = x"

lemma exact_seconds: "seconds exact d = of_int d / 1000000000"
  using seconds_exact [of d] by (simp add: seconds_def exact_def)

lemma exact_double_like: "double_like exact"
  using double_like_id(2) by (simp add: double_like_def exact_def mono_def)

lemma tb_budget_grows:
  assumes "0 < rate s" "now \<le> now'"
  shows "tb_budget exact s now' k \<le> tb_budget exact s now k + rate s * of_int (now' - now) / 1000000000"
proof (cases "buckets s (tb_prefix s @ k)")
  case None
  have "0 \<le> rate s * of_int (now' - now) / 1000000000" using assms by simp
  with None show ?thesis by (simp only: tb_budget_def tb_refill_def option.case tbEntry.simps)
next
  case (Some e)
  define f where "f d = rate s * of_int d / (1000000000 :: rat)" for d :: int
  have r: "seconds exact d * rate s = f d" for d by (simp add: exact_seconds f_def)
  have pos: "seconds exact d > 0 \<longleftrightarrow> d > 0" for d by (simp add: exact_seconds)
  have mono: "f d \<le> f d'" if "d \<le> d'" for d d' using that assms(1) by (simp add: f_def divide_right_mono)
  have add: "f (now' - last_at e) = f (now' - now) + f (now - last_at e)" by (simp add: f_def field_simps)
  have "0 \<le> f (now' - now)" "now' > last_at e \<Longrightarrow> \<not> now > last_at e \<Longrightarrow> f (now' - last_at e) \<le> f (now' - now)"
    using mono [of 0 "now' - now"] mono [of "now' - last_at e" "now' - now"] assms(2) by (simp_all add: f_def)
  moreover have budget: "tb_budget exact s u k =
      (if u > last_at e then min (burst s) (tokens e + f (u - last_at e)) else tokens e)" for u
    using Some by (simp add: tb_budget_def tb_refill_def Let_def pos r exact_def)
  ultimately show ?thesis
    using assms(2) add unfolding budget f_def [symmetric] by (auto simp: min_def)
qed

lemma tb_rate_kept [simp]: "rate (snd (tb_AllowN rnd s t k n)) = rate s"
  by (simp add: tb_AllowN_def Let_def)

lemma tb_serve_bound:
  assumes "tb_inv exact s" "\<forall>r \<in> set rs. 0 < snd (snd r) \<and> snd (snd r) \<le> 2 ^ 53"
    and "sorted (t # map fst rs)"
  shows "of_int (granted k (map snd rs) (fst (serve_at (tb_AllowN exact) rs s))) \<le>
    tb_budget exact s t k + rate s * of_int (last (t # map fst rs) - t) / 1000000000"
  using assms
proof (induction rs arbitrary: s t)
  case Nil
  then show ?case using tb.budget_nonneg [of exact s t k] by (simp add: granted_def)
next
  case (Cons r rs)
  obtain t' k' n where r: "r = (t', k', n)" by (cases r)
  have n: "0 < n" "n \<le> 2 ^ 53" using Cons.prems(2) r by simp_all
  define res s' where "res = fst (tb_AllowN exact s t' k' n)" and "s' = snd (tb_AllowN exact s t' k' n)"
  define g where "g = (if Allowed res \<and> k' = k then n else 0)"
  have inv': "tb_inv exact s'" using tb.inv_kept [OF Cons.prems(1) n] by (simp add: s'_def)
  have tt: "t \<le> t'" "sorted (t' # map fst rs)" using Cons.prems(3) r by auto
  have IH: "of_int (granted k (map snd rs) (fst (serve_at (tb_AllowN exact) rs s'))) \<le>
      tb_budget exact s' t' k + rate s' * of_int (last (t' # map fst rs) - t') / 1000000000"
    using Cons.IH [OF inv' _ tt(2)] Cons.prems(2) by simp
  have spent: "tb_budget exact s' t' k = tb_budget exact s t' k - of_int g"
    using tb.spends [OF Cons.prems(1) n, of t' k'] tb.other_key [OF Cons.prems(1) n, of k' k t' t']
    by (cases "k' = k") (simp_all add: g_def res_def s'_def)
  have grow: "tb_budget exact s t' k \<le> tb_budget exact s t k + rate s * of_int (t' - t) / 1000000000"
    using tb_budget_grows [OF _ tt(1)] Cons.prems(1) by (simp add: tb_inv_def)
  have split: "rate s * of_int (last (t' # map fst rs) - t) / 1000000000 =
      rate s * of_int (last (t' # map fst rs) - t') / 1000000000 + rate s * of_int (t' - t) / (1000000000 :: rat)"
    by (simp add: field_simps)
  have total: "granted k (map snd (r # rs)) (fst (serve_at (tb_AllowN exact) (r # rs) s)) =
      g + granted k (map snd rs) (fst (serve_at (tb_AllowN exact) rs s'))"
    by (cases "k' = k") (simp_all add: r split_beta granted_def g_def res_def s'_def)
  have same: "rate s' = rate s" by (simp add: s'_def)
  have lst: "last (t # map fst (r # rs)) = last (t' # map fst rs)" by (simp add: r)
  show ?case
    unfolding total lst split of_int_add using IH [unfolded same spent] grow by linarith
qed

section \<open>The pacer's loop\<close>

text \<open>The state after calls that are all denied; \<open>None\<close> when one is allowed.\<close>

fun denied_calls :: "('a \<Rightarrow> int \<Rightarrow> string \<Rightarrow> int \<Rightarrow> Result \<times> 'a) \<Rightarrow> string \<Rightarrow> int \<Rightarrow> int list \<Rightarrow> 'a \<Rightarrow> 'a option" where
  "denied_calls allowN k n [] s = Some s"
| "denied_calls allowN k n (t # ts) s =
     (case allowN s t k n of (res, s') \<Rightarrow> if Allowed res then None else denied_calls allowN k n ts s')"

context limiter
begin

lemma denied_calls_inv:
  "inv s \<Longrightarrow> 0 < n \<Longrightarrow> n \<le> 2 ^ 53 \<Longrightarrow> denied_calls allowN k n ts s = Some s' \<Longrightarrow> inv s'"
proof (induction ts arbitrary: s)
  case (Cons t ts)
  obtain res s1 where ar: "allowN s t k n = (res, s1)" by fastforce
  with inv_kept [OF Cons.prems(1-3), of t k] have "inv s1" by simp
  with Cons ar show ?case by (auto split: if_splits)
qed simp

end

lemma pace_loop_trace:
  assumes "pace_loop allowN reject deadline k n tks s = Some (out, s')"
  shows "\<exists>i < length tks.
    (case out of
       Cleared \<Rightarrow> (\<exists>a res. denied_calls allowN k n (map at_allow (take i tks)) s = Some a \<and>
         allowN a (at_allow (tks ! i)) k n = (res, s') \<and> Allowed res)
     | _ \<Rightarrow> denied_calls allowN k n (map at_allow (take (Suc i) tks)) s = Some s')"
  using assms
proof (induction tks arbitrary: s)
  case (Cons tk tks)
  obtain res s1 where ar: "allowN s (at_allow tk) k n = (res, s1)" by fastforce
  note unfold = Cons.prems [unfolded pace_loop.simps ar Let_def prod.case]
  consider (allowed) "Allowed res" | (stop) "\<not> Allowed res" "reject \<or> deadline - at_check tk \<le> 0 \<or> cancelled tk"
    | (again) "\<not> Allowed res" "pace_loop allowN reject deadline k n tks s1 = Some (out, s')"
    using unfold by (auto split: if_splits)
  then show ?case
  proof cases
    case allowed
    with unfold ar show ?thesis by (intro exI [of _ 0]) auto
  next
    case stop
    with unfold ar have "s' = s1" "out \<noteq> Cleared" by (auto split: if_splits)
    with stop ar show ?thesis by (intro exI [of _ 0]) (auto split: wait_result.splits)
  next
    case again
    from Cons.IH [OF again(2)] obtain i where "i < length tks"
      "(case out of
         Cleared \<Rightarrow> (\<exists>a res. denied_calls allowN k n (map at_allow (take i tks)) s1 = Some a \<and>
           allowN a (at_allow (tks ! i)) k n = (res, s') \<and> Allowed res)
       | _ \<Rightarrow> denied_calls allowN k n (map at_allow (take (Suc i) tks)) s1 = Some s')" by blast
    with again(1) ar show ?thesis by (intro exI [of _ "Suc i"]) (auto split: wait_result.splits)
  qed
qed simp

lemma pace_loop_waiting: "pace_loop allowN reject deadline k n tks s = None \<Longrightarrow> tk \<in> set tks \<Longrightarrow> at_check tk < deadline"
  by (induction tks arbitrary: s) (auto simp: split_beta Let_def split: if_splits)

lemma increasing_last: "sorted_wrt (<) (x # xs) \<Longrightarrow> x + int (length xs) \<le> last (x # xs)" for x :: int
proof (induction xs arbitrary: x)
  case (Cons y ys)
  from Cons.IH [of y] Cons.prems show ?case by auto
qed simp

section \<open>Registration retries\<close>

lemma seconds_floor:
  assumes "double_like rnd" "0 \<le> d" "d < 2 ^ 63"
  shows "d div ns_per_second \<le> trunc (seconds rnd d)"
proof -
  let ?q = "d div ns_per_second"
  have q: "0 \<le> ?q" "?q \<le> 2 ^ 53" using assms(2,3) by (simp_all add: pos_imp_zdiv_nonneg_iff)
  then have rq: "rnd (of_int ?q) = of_int ?q" using double_likeD(3) [OF assms(1), of ?q] by simp
  have nn: "0 \<le> x \<Longrightarrow> 0 \<le> rnd x" for x using double_likeD(1) [OF assms(1), of 0 x] assms(1) by simp
  have "0 \<le> rnd (rnd (of_int (d mod ns_per_second)) / 1000000000)" by (intro nn) (simp add: nn)
  then have "rnd (of_int ?q) \<le> rnd (of_int ?q + rnd (rnd (of_int (d mod ns_per_second)) / 1000000000))"
    by (intro double_likeD(1) [OF assms(1)]) simp
  then have "rnd (of_int ?q) \<le> seconds rnd d" by (simp only: seconds_def rq)
  then have "of_int ?q \<le> seconds rnd d" by (simp add: rq)
  moreover from this have "0 \<le> seconds rnd d" using q(1) by (meson of_int_0_le_iff order_trans)
  ultimately show ?thesis by (simp add: trunc_def le_floor_iff)
qed

lemma m_Allow_denied:
  assumes "Allowed (fst (m_Allow m now k)) = False"
  shows "m_store (snd (m_Allow m now k)) (m_prefix m @ k) = Some (m_entry m now (m_prefix m @ k))"
    "RetryAfter (fst (m_Allow m now k)) = expiresAt (m_entry m now (m_prefix m @ k)) - now"
    "m_limit (snd (m_Allow m now k)) = m_limit m" "m_prefix (snd (m_Allow m now k)) = m_prefix m"
  using assms by (auto simp: m_Allow_def m_AllowN_def Let_def split: if_splits)

section \<open>Properties\<close>







definition demo_bucket :: TokenBucketLimiter where
  "demo_bucket = NewTokenBucketLimiter \<lparr>tbc_Rate = 1, tbc_Burst = 1, tbc_Prefix = []\<rparr>"

lemma demo_bucket_inv: "tb_inv exact demo_bucket"
  using exact_double_like by (simp add: tb_inv_def demo_bucket_def NewTokenBucketLimiter_def exact_def)




text \<open>
  while an account is banned nothing passes and nothing is spent: an enabled pacer answers with the
  remaining ban time and leaves all limiters as they were; so does a request larger than the account's
  capacity, with a zero retry time.
\<close>

theorem ban_gate:
  assumes "enabled p"
  shows "(until > now \<longrightarrow> Wait allowA allowR allowF rnd (Some until) now tks phone rcpt n p =
      Some (Limited \<lparr>rle_RetryAfter = until - now, rle_Limit = 0, rle_Remaining = 0\<rparr>, p)) \<and>
    (until \<le> now \<longrightarrow> Wait allowA allowR allowF rnd (Some until) now tks phone rcpt n p =
      Wait allowA allowR allowF rnd None now tks phone rcpt n p) \<and>
    (rnd (of_int n) > accountBurst p \<longrightarrow> Wait allowA allowR allowF rnd None now tks phone rcpt n p =
      Some (Limited \<lparr>rle_RetryAfter = 0, rle_Limit = trunc (accountBurst p), rle_Remaining = 0\<rparr>, p))"
  using assms by (simp add: Wait_def Wait_gated_def)

theorem ban_gate_witness:
  "Wait (tb_AllowN exact) m_AllowN m_AllowN exact (Some 10) 4 [] ''62'' ''1'' 1
     (NewPacer \<lparr>pc_Enabled = True, pc_Mode = ''pace'', pc_AccountRate = 1, pc_AccountBurst = 5, pc_MaxWait = 3,
        pc_RecipientLimit = 1, pc_RecipientWindow = 60\<rparr> None) =
   Some (Limited \<lparr>rle_RetryAfter = 6, rle_Limit = 0, rle_Remaining = 0\<rparr>,
     NewPacer \<lparr>pc_Enabled = True, pc_Mode = ''pace'', pc_AccountRate = 1, pc_AccountBurst = 5, pc_MaxWait = 3,
        pc_RecipientLimit = 1, pc_RecipientWindow = 60\<rparr> None)"
  by (subst ban_gate [THEN conjunct1, rule_format]) (simp_all add: NewPacer_def Let_def)

text \<open>
  the \<open>Retry-After\<close> of a rejected registration is honest: a client that waits that many seconds and
  sends no other request from its address is let through.
\<close>

theorem register_retry_succeeds:
  assumes "register_request rnd now ip (Some m) = (TooManyRequests h, st)" "now' \<ge> now + h * ns_per_second"
    and "double_like rnd" "1 \<le> m_limit m" "m_limit m < 2 ^ 63"
    and "0 \<le> expiresAt (m_entry m now (m_prefix m @ ip)) - now" "expiresAt (m_entry m now (m_prefix m @ ip)) - now < 2 ^ 63"
  shows "fst (register_request rnd now' ip st) = Next"
proof -
  let ?e = "m_entry m now (m_prefix m @ ip)"
  define d where "d = expiresAt ?e - now"
  have denied: "Allowed (fst (m_Allow m now ip)) = False"
    and st: "st = Some (snd (m_Allow m now ip))" and h: "h = trunc (seconds rnd (RetryAfter (fst (m_Allow m now ip)))) + 1"
    using assms(1) by (auto simp: register_request_def split_beta Let_def split: if_splits)
  note den = m_Allow_denied [OF denied]
  have "d div ns_per_second \<le> trunc (seconds rnd d)"
    using seconds_floor [OF assms(3)] assms(6,7) by (simp add: d_def)
  then have "d div ns_per_second + 1 \<le> h" by (simp add: h den d_def)
  then have "(d div ns_per_second + 1) * ns_per_second \<le> h * ns_per_second" by simp
  moreover have "d < (d div ns_per_second + 1) * ns_per_second"
    using div_mult_mod_eq [of d ns_per_second] pos_mod_bound [of ns_per_second d] by (simp add: algebra_simps)
  ultimately have "now' > expiresAt ?e" using assms(2) by (simp add: d_def)
  then have "count (m_entry (snd (m_Allow m now ip)) now' (m_prefix m @ ip)) = 0"
    by (simp add: m_entry_def [of "snd (m_Allow m now ip)"] den(1))
  then show ?thesis
    using assms(4,5) by (simp add: st register_request_def m_Allow_def [of "snd x" for x] m_AllowN_def [of "snd x" for x] den
        wrap64_id Let_def)
qed

theorem register_retry_succeeds_witness:
  "fst (register_request id (60 * ns_per_second + ns_per_second) ''ip''
     (snd (register_request id 0 ''ip'' (snd (register_request id 0 ''ip''
       (Some (NewMemoryLimiter \<lparr>cfg_Limit = 1, cfg_Window = 60 * ns_per_second, cfg_Prefix = []\<rparr>))))))) = Next"
proof -
  define m where "m = NewMemoryLimiter \<lparr>cfg_Limit = 1, cfg_Window = 60 * ns_per_second, cfg_Prefix = []\<rparr>"
  define m1 where "m1 = \<lparr>m_store = [''ip'' \<mapsto> \<lparr>count = 1, expiresAt = 60 * ns_per_second\<rparr>], m_limit = 1,
    m_window = 60 * ns_per_second, m_prefix = []\<rparr>"
  have s1: "snd (register_request id 0 ''ip'' (Some m)) = Some m1"
    by (simp add: register_request_def m_Allow_def m_AllowN_def m_entry_def m_def m1_def NewMemoryLimiter_def wrap64_id Let_def)
  have s2: "register_request id 0 ''ip'' (Some m1) = (TooManyRequests 61, snd (register_request id 0 ''ip'' (Some m1)))"
    by (simp add: register_request_def m_Allow_def m_AllowN_def m_entry_def m1_def wrap64_id Let_def seconds_def trunc_def)
  show ?thesis
    unfolding m_def [symmetric] s1
    by (rule register_retry_succeeds [OF s2]) (simp_all add: double_like_id m1_def m_entry_def)
qed

end
