(* ===== verification/Queue.thy ===== *)
theory Queue
  imports Rate_Limit
begin

text \<open>
  The message queue (\<open>pkg/queue\<close>): retry routing (\<open>constants.go\<close>), the duplicate cache (\<open>dedup.go\<close>),
  one delivery's way through a worker (\<open>worker_pool.go\<close>), the topology the gateway declares, the
  set-up of a connection, publishing, and the life cycle of the worker pools (\<open>rabbitmq.go\<close>). The
  broker is not modelled: its answers (a call fails, a publish is confirmed, a handler returns) are
  arguments, and what the gateway asks of it is a list of actions. A panic is a value.
\<close>

section \<open>Retry routing\<close>

definition ExchangeName :: string where "ExchangeName = ''whatsapp.topic''"
definition ExchangeDLX :: string where "ExchangeDLX = ''whatsapp.dlx''"

definition QueueIncomingEvents :: string where "QueueIncomingEvents = ''whatsapp.events.incoming''"
definition QueueWebhookDelivery :: string where "QueueWebhookDelivery = ''whatsapp.webhooks.delivery''"
definition QueueOutgoingMessages :: string where "QueueOutgoingMessages = ''whatsapp.messages.outgoing''"
definition DLQIncomingEvents :: string where "DLQIncomingEvents = ''whatsapp.dlq.events.incoming''"
definition DLQWebhookDelivery :: string where "DLQWebhookDelivery = ''whatsapp.dlq.webhooks.delivery''"
definition DLQOutgoingMessages :: string where "DLQOutgoingMessages = ''whatsapp.dlq.messages.outgoing''"
definition RoutingKeyIncomingEvent :: string where "RoutingKeyIncomingEvent = ''event.incoming''"
definition RoutingKeyWebhook :: string where "RoutingKeyWebhook = ''webhook.delivery''"
definition RoutingKeyOutgoingMsg :: string where "RoutingKeyOutgoingMsg = ''message.outgoing''"

lemmas queue_names = ExchangeName_def ExchangeDLX_def QueueIncomingEvents_def QueueWebhookDelivery_def
  QueueOutgoingMessages_def DLQIncomingEvents_def DLQWebhookDelivery_def DLQOutgoingMessages_def
  RoutingKeyIncomingEvent_def RoutingKeyWebhook_def RoutingKeyOutgoingMsg_def

text \<open>A tier is its duration and the text the format verb prints for it.\<close>

definition RetryTiers :: "(int \<times> string) list" where
  "RetryTiers = [(1 * ns_per_second, ''1s''), (5 * ns_per_second, ''5s''), (25 * ns_per_second, ''25s'')]"

definition retryTierQueueName :: "string \<Rightarrow> string \<Rightarrow> string" where
  "retryTierQueueName queue tier = queue @ ''.retry.'' @ tier"

definition retryLongQueueName :: "string \<Rightarrow> string" where
  "retryLongQueueName queue = queue @ ''.retry.long''"

definition retryRoute :: "string \<Rightarrow> int \<Rightarrow> string \<times> bool" where
  "retryRoute queue delay =
     (case List.find (\<lambda>(d, s). delay \<le> d) RetryTiers of
        Some (d, s) \<Rightarrow> (retryTierQueueName queue s, False)
      | None \<Rightarrow> (retryLongQueueName queue, True))"

section \<open>Duplicate suppression\<close>

record DedupCache =
  entries :: "string \<rightharpoonup> int"
  ttl :: int
  nextSweep :: int

definition NewDedupCache :: "int \<Rightarrow> int \<Rightarrow> DedupCache" where
  "NewDedupCache ttl' now = \<lparr>entries = Map.empty, ttl = ttl', nextSweep = now + ttl'\<rparr>"

definition sweepLocked :: "int \<Rightarrow> DedupCache \<Rightarrow> DedupCache" where
  "sweepLocked now d =
     (if now < nextSweep d then d
      else d\<lparr>entries := (\<lambda>k. case entries d k of Some e \<Rightarrow> if now > e then None else Some e | None \<Rightarrow> None),
             nextSweep := now + ttl d\<rparr>)"

definition dedup_key :: "string \<Rightarrow> string \<Rightarrow> string" where
  "dedup_key scope i = scope @ '':'' @ i"

definition IsDuplicate :: "string \<Rightarrow> string \<Rightarrow> int \<Rightarrow> DedupCache option \<Rightarrow> bool \<times> DedupCache option" where
  \<comment> \<open>\<open>None\<close> is the nil cache\<close>
  "IsDuplicate scope i now c =
     (case c of
        None \<Rightarrow> (False, None)
      | Some d \<Rightarrow>
          if i = [] then (False, Some d)
          else let d' = sweepLocked now d
               in (case entries d' (dedup_key scope i) of None \<Rightarrow> False | Some e \<Rightarrow> now < e, Some d'))"

definition MarkProcessed :: "string \<Rightarrow> string \<Rightarrow> int \<Rightarrow> DedupCache option \<Rightarrow> DedupCache option" where
  "MarkProcessed scope i now c =
     (case c of
        None \<Rightarrow> None
      | Some d \<Rightarrow>
          if i = [] then Some d
          else let d' = sweepLocked now d
               in Some (d'\<lparr>entries := (entries d')(dedup_key scope i \<mapsto> now + ttl d')\<rparr>))"

section \<open>A worker\<close>

text \<open>Header values as they arrive; only the integer types carry a count.\<close>

datatype hval = HInt int | HInt32 int | HInt64 int | HStr string | HOther

type_synonym headers = "string \<rightharpoonup> hval"

definition RetryCountKey :: string where "RetryCountKey = ''x-retry-count''"
definition TraceIDKey :: string where "TraceIDKey = ''x-trace-id''"

definition getRetryCount :: "headers option \<Rightarrow> int" where
  "getRetryCount h =
     (case h of
        None \<Rightarrow> 0
      | Some m \<Rightarrow>
          (case m RetryCountKey of
             Some (HInt v) \<Rightarrow> v | Some (HInt32 v) \<Rightarrow> v | Some (HInt64 v) \<Rightarrow> v | _ \<Rightarrow> 0))"

definition GetTraceIDWorkerProcess :: "string \<Rightarrow> headers option \<Rightarrow> string" where
  \<comment> \<open>\<open>fresh\<close>: the uuid drawn when there is no usable header\<close>
  "GetTraceIDWorkerProcess fresh h =
     (case h of None \<Rightarrow> fresh | Some m \<Rightarrow> (case m TraceIDKey of Some (HStr s) \<Rightarrow> s | _ \<Rightarrow> fresh))"

definition retryBackoff :: "int \<Rightarrow> int" where
  "retryBackoff retry = (if retry = 0 then 1 * ns_per_second else if retry = 1 then 5 * ns_per_second
     else if retry = 2 then 25 * ns_per_second else 25 * ns_per_second)"

record delivery =
  msg_headers :: "headers option"
  msg_body :: string

record publishing =
  pub_exchange :: string
  pub_key :: string
  pub_headers :: headers
  pub_body :: string
  pub_expiration :: "int option"   \<comment> \<open>milliseconds\<close>

datatype action = Publish publishing | Ack | Nack bool   \<comment> \<open>\<open>Nack requeue\<close>\<close>

datatype handler_outcome = Handled | Failed | RateLimited int | Panicked

definition retry_publishing :: "string \<Rightarrow> int \<Rightarrow> headers \<Rightarrow> string \<Rightarrow> publishing" where
  "retry_publishing queue delay hs body =
     (let (routingKey, perMessageTTL) = retryRoute queue delay
      in \<lparr>pub_exchange = ExchangeName, pub_key = routingKey, pub_headers = hs, pub_body = body,
          pub_expiration = (if perMessageTTL then Some (delay div 1000000) else None)\<rparr>)"

text \<open>
  The broker's answer to a publish: without confirms the call returns or fails; with confirms the
  wait can also fail or report a negative answer.
\<close>

datatype publish_outcome = Published | Publish_error | Confirm_error | Nacked_by_broker

definition publishRetry :: "bool \<Rightarrow> publish_outcome \<Rightarrow> bool" where
  \<comment> \<open>whether \<open>publishRetry\<close> returns nil\<close>
  "publishRetry confirm out =
     (case out of
        Published \<Rightarrow> True
      | Publish_error \<Rightarrow> False
      | Confirm_error \<Rightarrow> \<not> confirm
      | Nacked_by_broker \<Rightarrow> \<not> confirm)"

definition worker_headers :: "string \<Rightarrow> delivery \<Rightarrow> headers" where
  "worker_headers fresh msg =
     (let h = (case msg_headers msg of None \<Rightarrow> Map.empty | Some m \<Rightarrow> m)
      in h(TraceIDKey \<mapsto> HStr (GetTraceIDWorkerProcess fresh (msg_headers msg))))"

definition processMessage ::
  "string \<Rightarrow> int \<Rightarrow> bool \<Rightarrow> string \<Rightarrow> handler_outcome \<Rightarrow> publish_outcome \<Rightarrow> delivery \<Rightarrow> action list" where
  "processMessage queueName maxRetries confirm fresh outcome pubout msg =
     (let retryCount = getRetryCount (msg_headers msg); headers = worker_headers fresh msg in
      case outcome of
        Panicked \<Rightarrow> [Nack False]
      | Handled \<Rightarrow> [Ack]
      | _ \<Rightarrow>
          if retryCount \<ge> maxRetries then [Nack False]
          else
            let delay = (case outcome of RateLimited d \<Rightarrow> d | _ \<Rightarrow> retryBackoff retryCount);
                task = retry_publishing queueName delay (headers(RetryCountKey \<mapsto> HInt (retryCount + 1))) (msg_body msg)
            in if publishRetry confirm pubout then [Publish task, Ack] else [Publish task, Nack True])"

section \<open>Topology\<close>

datatype decl =
    ExchangeDeclare string string
  | QueueDeclare string "(string \<times> string) option" "int option"
      \<comment> \<open>name, dead-letter exchange and key, message TTL in milliseconds\<close>
  | QueueBind string string string                        \<comment> \<open>queue, key, exchange\<close>

definition main_queues :: "(string \<times> string \<times> string) list" where
  \<comment> \<open>name, routing key, DLQ\<close>
  "main_queues = [(QueueIncomingEvents, RoutingKeyIncomingEvent, DLQIncomingEvents),
     (QueueWebhookDelivery, RoutingKeyWebhook, DLQWebhookDelivery),
     (QueueOutgoingMessages, RoutingKeyOutgoingMsg, DLQOutgoingMessages)]"

definition tier_decls :: "string \<Rightarrow> string \<Rightarrow> int \<times> string \<Rightarrow> decl list" where
  "tier_decls name key t =
     (let retryQueue = retryTierQueueName name (snd t)
      in [QueueDeclare retryQueue (Some (ExchangeName, key)) (Some (fst t div 1000000)),
          QueueBind retryQueue retryQueue ExchangeName])"

definition queue_decls :: "string \<times> string \<times> string \<Rightarrow> decl list" where
  "queue_decls q =
     (case q of (name, key, dlq) \<Rightarrow>
        [QueueDeclare dlq None None, QueueBind dlq dlq ExchangeDLX,
         QueueDeclare name (Some (ExchangeDLX, dlq)) None] @
        concat (map (tier_decls name key) RetryTiers) @
        [QueueDeclare (retryLongQueueName name) (Some (ExchangeName, key)) None,
         QueueBind (retryLongQueueName name) (retryLongQueueName name) ExchangeName,
         QueueBind name key ExchangeName])"

definition topology :: "decl list" where
  "topology = [ExchangeDeclare ExchangeName ''topic'', ExchangeDeclare ExchangeDLX ''direct''] @
     concat (map queue_decls main_queues)"

text \<open>\<open>setupTopology\<close>: the declarations in order, up to the first the broker refuses.\<close>

fun declare_all :: "(decl \<Rightarrow> bool) \<Rightarrow> decl list \<Rightarrow> decl option" where
  "declare_all ok [] = None"
| "declare_all ok (d # ds) = (if ok d then declare_all ok ds else Some d)"

definition setupTopology :: "(decl \<Rightarrow> bool) \<Rightarrow> decl option" where
  \<comment> \<open>\<open>Some d\<close>: failed at \<open>d\<close>\<close>
  "setupTopology ok = declare_all ok topology"

section \<open>Connection and publishing\<close>

datatype resource = Conn | ConsumeCh | PublishCh

record connect_answers =
  dial_ok :: bool
  consume_ok :: bool
  publish_ok :: bool
  qos_ok :: bool
  confirm_ok :: bool

definition connect :: "bool \<Rightarrow> connect_answers \<Rightarrow> bool \<times> resource list \<times> resource list" where
  \<comment> \<open>success, opened, closed again\<close>
  "connect confirms a =
     (if \<not> dial_ok a then (False, [], [])
      else if \<not> consume_ok a then (False, [Conn], [Conn])
      else if \<not> publish_ok a then (False, [Conn, ConsumeCh], [ConsumeCh, Conn])
      else if \<not> qos_ok a then (False, [Conn, ConsumeCh, PublishCh], [PublishCh, ConsumeCh, Conn])
      else if confirms \<and> \<not> confirm_ok a then (False, [Conn, ConsumeCh, PublishCh], [PublishCh, ConsumeCh, Conn])
      else (True, [Conn, ConsumeCh, PublishCh], []))"

datatype publish_error = Unhealthy | Marshal_failed | Publish_failed

definition publish :: "bool \<Rightarrow> bool \<Rightarrow> bool \<Rightarrow> publish_outcome \<Rightarrow> publish_error option" where
  "publish healthy marshals confirm out =
     (if \<not> healthy then Some Unhealthy
      else if \<not> marshals then Some Marshal_failed
      else if publishRetry confirm out then None else Some Publish_failed)"

section \<open>Worker pools\<close>

text \<open>A pool is its groups by queue, with whether the stop channel is closed.\<close>

type_synonym pool = "(string \<times> bool) list"

record RabbitMQQueue =
  mq_healthy :: bool
  mq_closing :: bool
  workerPool :: "pool option"
  handlers :: "(string \<times> int) list"    \<comment> \<open>queue, workers\<close>

datatype 'a run = Done 'a | Failure 'a | Panic

fun pool_Shutdown :: "pool \<Rightarrow> pool run" where
  \<comment> \<open>closing a closed channel panics\<close>
  "pool_Shutdown [] = Done []"
| "pool_Shutdown ((q, stopped) # gs) =
     (if stopped then Panic
      else case pool_Shutdown gs of
        Done gs' \<Rightarrow> Done ((q, True) # gs')
      | Failure gs' \<Rightarrow> Failure ((q, True) # gs')
      | Panic \<Rightarrow> Panic)"

definition startConsumers :: "(string \<Rightarrow> bool) \<Rightarrow> RabbitMQQueue \<Rightarrow> RabbitMQQueue run" where
  \<comment> \<open>\<open>ok q\<close>: consuming from \<open>q\<close> starts\<close>
  "startConsumers ok mq =
     (if list_all (\<lambda>(q, w). ok q) (handlers mq)
      then Done (mq\<lparr>workerPool := Some (map (\<lambda>(q, w). (q, False)) (handlers mq))\<rparr>)
      else Failure mq)"

definition restartConsumers :: "(string \<Rightarrow> bool) \<Rightarrow> RabbitMQQueue \<Rightarrow> RabbitMQQueue run" where
  "restartConsumers ok mq =
     (if mq_closing mq \<or> handlers mq = [] then Done mq
      else case workerPool mq of
        None \<Rightarrow> startConsumers ok mq
      | Some old \<Rightarrow>
          (case pool_Shutdown old of
             Panic \<Rightarrow> Panic
           | Done old' \<Rightarrow> startConsumers ok (mq\<lparr>workerPool := Some old'\<rparr>)
           | Failure old' \<Rightarrow> startConsumers ok (mq\<lparr>workerPool := Some old'\<rparr>)))"

definition StartWorkers :: "int \<Rightarrow> int \<Rightarrow> int \<Rightarrow> bool \<Rightarrow> (string \<Rightarrow> bool) \<Rightarrow> RabbitMQQueue \<Rightarrow> RabbitMQQueue run" where
  "StartWorkers wi ww wo dlq ok mq =
     startConsumers ok (mq\<lparr>handlers :=
       [(QueueIncomingEvents, wi), (QueueWebhookDelivery, ww), (QueueOutgoingMessages, wo)] @
       (if dlq then [(DLQIncomingEvents, 1), (DLQWebhookDelivery, 1), (DLQOutgoingMessages, 1)] else [])\<rparr>)"

definition mq_Shutdown :: "RabbitMQQueue \<Rightarrow> RabbitMQQueue run" where
  "mq_Shutdown mq =
     (let mq1 = mq\<lparr>mq_closing := True\<rparr> in
      case workerPool mq1 of
        None \<Rightarrow> Done (mq1\<lparr>mq_healthy := False\<rparr>)
      | Some p \<Rightarrow>
          (case pool_Shutdown p of
             Panic \<Rightarrow> Panic
           | Done p' \<Rightarrow> Done (mq1\<lparr>mq_healthy := False, workerPool := Some p'\<rparr>)
           | Failure p' \<Rightarrow> Done (mq1\<lparr>mq_healthy := False, workerPool := Some p'\<rparr>)))"

text \<open>
  The reconnect part of \<open>monitorConnection\<close>: each round of \<open>reconnectLoop\<close> either fails, succeeds or
  is stopped; after a success the consumers are restarted, and a failed restart goes round again.
\<close>

datatype reconnect_event = Attempt_failed | Reconnected "string \<Rightarrow> bool" | Stop

fun reconnect :: "reconnect_event list \<Rightarrow> RabbitMQQueue \<Rightarrow> RabbitMQQueue run" where
  "reconnect [] mq = Failure mq"     \<comment> \<open>still trying\<close>
| "reconnect (Stop # es) mq = Done mq"
| "reconnect (Attempt_failed # es) mq = reconnect es mq"
| "reconnect (Reconnected ok # es) mq =
     (case restartConsumers ok (mq\<lparr>mq_healthy := True\<rparr>) of
        Done mq' \<Rightarrow> Done mq'
      | Failure mq' \<Rightarrow> reconnect es (mq'\<lparr>mq_healthy := False\<rparr>)
      | Panic \<Rightarrow> Panic)"

section \<open>Lemmas\<close>

subsection \<open>Retry routes\<close>

lemma retryRoute_cases:
  obtains (tier) d s where "(d, s) \<in> set RetryTiers" "delay \<le> d"
      "\<forall>(d', s') \<in> set RetryTiers. delay \<le> d' \<longrightarrow> d \<le> d'" "retryRoute queue delay = (retryTierQueueName queue s, False)"
  | (long) "\<forall>(d', s') \<in> set RetryTiers. d' < delay" "retryRoute queue delay = (retryLongQueueName queue, True)"
proof -
  consider "delay \<le> 1 * ns_per_second" | "1 * ns_per_second < delay" "delay \<le> 5 * ns_per_second"
    | "5 * ns_per_second < delay" "delay \<le> 25 * ns_per_second" | "25 * ns_per_second < delay" by linarith
  then show ?thesis
  proof cases
    case 1
    then show ?thesis by (intro tier [of "1 * ns_per_second" "''1s''"]) (auto simp: RetryTiers_def retryRoute_def)
  next
    case 2
    then show ?thesis by (intro tier [of "5 * ns_per_second" "''5s''"]) (auto simp: RetryTiers_def retryRoute_def)
  next
    case 3
    then show ?thesis by (intro tier [of "25 * ns_per_second" "''25s''"]) (auto simp: RetryTiers_def retryRoute_def)
  next
    case 4
    then show ?thesis by (intro long) (auto simp: RetryTiers_def retryRoute_def)
  qed
qed

lemma queue_decls_topology: "q \<in> set main_queues \<Longrightarrow> d \<in> set (queue_decls q) \<Longrightarrow> d \<in> set topology"
  by (auto simp: topology_def)

lemma tier_decls_topology:
  assumes "(name, key, dlq) \<in> set main_queues" "t \<in> set RetryTiers" "d \<in> set (tier_decls name key t)"
  shows "d \<in> set topology"
  by (rule queue_decls_topology [OF assms(1)]) (use assms(2,3) in \<open>auto simp: queue_decls_def\<close>)

subsection \<open>Deliveries\<close>

text \<open>
  The way of one message: a scheduled retry comes back with the published headers and body, a
  requeued message comes back as it was, and a settled message ends.
\<close>

fun journey :: "string \<Rightarrow> int \<Rightarrow> bool \<Rightarrow> string \<Rightarrow> (handler_outcome \<times> publish_outcome) list \<Rightarrow> delivery \<Rightarrow> action list list" where
  "journey queue mx confirm fresh [] msg = []"
| "journey queue mx confirm fresh ((h, p) # os) msg =
     (let as = processMessage queue mx confirm fresh h p msg
      in as # (case as of
           [Publish t, Ack] \<Rightarrow> journey queue mx confirm fresh os \<lparr>msg_headers = Some (pub_headers t), msg_body = pub_body t\<rparr>
         | [Publish t, Nack True] \<Rightarrow> journey queue mx confirm fresh os msg
         | _ \<Rightarrow> []))"

definition is_settlement :: "action \<Rightarrow> bool" where
  "is_settlement a = (case a of Publish t \<Rightarrow> False | _ \<Rightarrow> True)"

definition is_retry :: "action list \<Rightarrow> bool" where
  "is_retry as \<longleftrightarrow> (case as of [Publish t, Ack] \<Rightarrow> True | _ \<Rightarrow> False)"

lemma processMessage_cases:
  obtains (handled) "outcome = Handled" "processMessage q mx cf fr outcome po msg = [Ack]"
  | (dead) "outcome = Panicked \<or> outcome \<noteq> Handled \<and> getRetryCount (msg_headers msg) \<ge> mx"
      "processMessage q mx cf fr outcome po msg = [Nack False]"
  | (retry) t where "outcome \<noteq> Handled" "outcome \<noteq> Panicked" "getRetryCount (msg_headers msg) < mx" "publishRetry cf po"
      "getRetryCount (Some (pub_headers t)) = getRetryCount (msg_headers msg) + 1" "pub_body t = msg_body msg"
      "pub_exchange t = ExchangeName"
      "processMessage q mx cf fr outcome po msg = [Publish t, Ack]"
  | (requeue) t where "outcome \<noteq> Handled" "outcome \<noteq> Panicked" "getRetryCount (msg_headers msg) < mx" "\<not> publishRetry cf po"
      "processMessage q mx cf fr outcome po msg = [Publish t, Nack True]"
proof (cases "outcome = Handled \<or> outcome = Panicked \<or> getRetryCount (msg_headers msg) \<ge> mx")
  case True
  then show ?thesis using handled dead by (cases outcome) (auto simp: processMessage_def Let_def)
next
  case False
  define delay where "delay = (case outcome of RateLimited d \<Rightarrow> d | _ \<Rightarrow> retryBackoff (getRetryCount (msg_headers msg)))"
  define t where "t = retry_publishing q delay ((worker_headers fr msg)(RetryCountKey \<mapsto> HInt (getRetryCount (msg_headers msg) + 1))) (msg_body msg)"
  have eq: "processMessage q mx cf fr outcome po msg = (if publishRetry cf po then [Publish t, Ack] else [Publish t, Nack True])"
    using False by (cases outcome) (auto simp: processMessage_def Let_def t_def delay_def)
  have t: "getRetryCount (Some (pub_headers t)) = getRetryCount (msg_headers msg) + 1" "pub_body t = msg_body msg"
    "pub_exchange t = ExchangeName"
    by (simp_all add: t_def retry_publishing_def getRetryCount_def Let_def split_beta)
  show ?thesis using retry [OF _ _ _ _ t] requeue [of t] False eq by (cases "publishRetry cf po") auto
qed

lemma journey_retries:
  "length (filter is_retry (journey q mx cf fr os msg)) \<le> nat (mx - getRetryCount (msg_headers msg))"
proof (induction os arbitrary: msg)
  case (Cons o' os)
  obtain h p where o': "o' = (h, p)" by fastforce
  show ?case
  proof (cases rule: processMessage_cases [of h q mx cf fr p msg])
    case (retry t)
    let ?msg = "\<lparr>msg_headers = Some (pub_headers t), msg_body = pub_body t\<rparr>"
    from Cons.IH [of ?msg] retry(3,5) show ?thesis
      by (simp add: o' retry(8) is_retry_def)
  next
    case (requeue t)
    with Cons.IH [of msg] show ?thesis by (simp add: o' is_retry_def)
  qed (simp_all add: o' is_retry_def)
qed simp

lemma journey_all_fail:
  assumes "getRetryCount (msg_headers msg) \<le> mx"
  shows "let js = journey q mx cf fr (replicate (nat (mx - getRetryCount (msg_headers msg)) + 1) (Failed, Published)) msg
    in length js = nat (mx - getRetryCount (msg_headers msg)) + 1 \<and> last js = [Nack False] \<and> list_all is_retry (butlast js)"
  using assms
proof (induction "nat (mx - getRetryCount (msg_headers msg))" arbitrary: msg)
  case 0
  then have "processMessage q mx cf fr Failed Published msg = [Nack False]"
    by (cases rule: processMessage_cases [of Failed q mx cf fr Published msg]) auto
  with 0 show ?case by simp
next
  case (Suc n)
  then have lt: "getRetryCount (msg_headers msg) < mx" by simp
  show ?case
  proof (cases rule: processMessage_cases [of Failed q mx cf fr Published msg])
    case (retry t)
    let ?msg = "\<lparr>msg_headers = Some (pub_headers t), msg_body = pub_body t\<rparr>"
    have n: "n = nat (mx - getRetryCount (msg_headers ?msg))" "getRetryCount (msg_headers ?msg) \<le> mx"
      using Suc.hyps(2) retry(5) lt by simp_all
    let ?js = "journey q mx cf fr (replicate (n + 1) (Failed, Published)) ?msg"
    have IH: "length ?js = n + 1" "last ?js = [Nack False]" "list_all is_retry (butlast ?js)"
      using Suc.hyps(1) [OF n] n(1) by (simp_all add: Let_def)
    then have "?js \<noteq> []" by auto
    moreover have "journey q mx cf fr (replicate (Suc n + 1) (Failed, Published)) msg = [Publish t, Ack] # ?js"
      by (simp add: retry(8))
    ultimately show ?thesis using IH Suc.hyps(2) by (simp add: Let_def is_retry_def)
  qed (use lt in \<open>auto simp: publishRetry_def\<close>)
qed

subsection \<open>The duplicate cache refines a map that never forgets\<close>

datatype dedup_op = Mark string string int | Query string string int

fun op_time :: "dedup_op \<Rightarrow> int" where
  "op_time (Mark sc i t) = t"
| "op_time (Query sc i t) = t"

fun cache_run :: "dedup_op list \<Rightarrow> DedupCache option \<Rightarrow> bool list" where
  "cache_run [] c = []"
| "cache_run (Mark sc i t # ops) c = cache_run ops (MarkProcessed sc i t c)"
| "cache_run (Query sc i t # ops) c = (let (b, c') = IsDuplicate sc i t c in b # cache_run ops c')"

text \<open>The specification: the last mark of a pair counts for the time to live.\<close>

fun spec_run :: "int \<Rightarrow> dedup_op list \<Rightarrow> (string \<times> string \<rightharpoonup> int) \<Rightarrow> bool list" where
  "spec_run life [] m = []"
| "spec_run life (Mark sc i t # ops) m = spec_run life ops (m((sc, i) \<mapsto> t + life))"
| "spec_run life (Query sc i t # ops) m =
     (i \<noteq> [] \<and> (case m (sc, i) of None \<Rightarrow> False | Some e \<Rightarrow> t < e)) # spec_run life ops m"

definition scope_ok :: "dedup_op \<Rightarrow> bool" where
  "scope_ok op = (case op of Mark sc i t \<Rightarrow> CHR '':'' \<notin> set sc | Query sc i t \<Rightarrow> CHR '':'' \<notin> set sc)"

lemma dedup_key_inj:
  "CHR '':'' \<notin> set sc \<Longrightarrow> CHR '':'' \<notin> set sc' \<Longrightarrow> dedup_key sc i = dedup_key sc' i' \<longleftrightarrow> sc = sc' \<and> i = i'"
proof
  assume c: "CHR '':'' \<notin> set sc" "CHR '':'' \<notin> set sc'" and eq: "dedup_key sc i = dedup_key sc' i'"
  have tw: "takeWhile (\<lambda>c. c \<noteq> CHR '':'') (dedup_key s j) = s" if "CHR '':'' \<notin> set s" for s j
    using that unfolding dedup_key_def by (induction s) auto
  from tw [OF c(1), of i] tw [OF c(2), of i'] eq have "sc = sc'" by simp
  with eq show "sc = sc' \<and> i = i'" by (simp add: dedup_key_def)
qed simp

text \<open>Up to entries that have expired, the cache holds what the specification holds.\<close>

definition dedup_rel :: "int \<Rightarrow> DedupCache \<Rightarrow> (string \<times> string \<rightharpoonup> int) \<Rightarrow> bool" where
  "dedup_rel now d m \<longleftrightarrow> (\<forall>sc i. CHR '':'' \<notin> set sc \<longrightarrow> i \<noteq> [] \<longrightarrow>
     entries d (dedup_key sc i) = m (sc, i) \<or>
     entries d (dedup_key sc i) = None \<and> (\<exists>e. m (sc, i) = Some e \<and> e < now))"

lemma sweep_rel:
  assumes "dedup_rel now d m" "now \<le> t"
  shows "dedup_rel t (sweepLocked t d) m"
  unfolding dedup_rel_def
proof (intro allI impI)
  fix sc i assume "CHR '':'' \<notin> set sc" "i \<noteq> ([] :: string)"
  with assms(1) have "entries d (dedup_key sc i) = m (sc, i) \<or>
      entries d (dedup_key sc i) = None \<and> (\<exists>e. m (sc, i) = Some e \<and> e < now)"
    unfolding dedup_rel_def by blast
  with assms(2) show "entries (sweepLocked t d) (dedup_key sc i) = m (sc, i) \<or>
      entries (sweepLocked t d) (dedup_key sc i) = None \<and> (\<exists>e. m (sc, i) = Some e \<and> e < t)"
    by (cases "m (sc, i)") (auto simp: sweepLocked_def split: option.splits)
qed

lemma sweep_ttl [simp]: "ttl (sweepLocked t d) = ttl d"
  by (simp add: sweepLocked_def)

lemma query_rel:
  assumes "dedup_rel t d m" "CHR '':'' \<notin> set sc" "i \<noteq> []"
  shows "(case entries d (dedup_key sc i) of None \<Rightarrow> False | Some e \<Rightarrow> t < e) \<longleftrightarrow>
    (case m (sc, i) of None \<Rightarrow> False | Some e \<Rightarrow> t < e)"
proof -
  have "entries d (dedup_key sc i) = m (sc, i) \<or>
      entries d (dedup_key sc i) = None \<and> (\<exists>e. m (sc, i) = Some e \<and> e < t)"
    using assms unfolding dedup_rel_def by blast
  then show ?thesis by auto
qed

lemma mark_rel:
  assumes "dedup_rel t d m" "CHR '':'' \<notin> set sc" "i \<noteq> []"
  shows "dedup_rel t (d\<lparr>entries := (entries d)(dedup_key sc i \<mapsto> e)\<rparr>) (m((sc, i) \<mapsto> e))"
  using assms dedup_key_inj [OF _ assms(2)] unfolding dedup_rel_def by auto

lemma rel_mono: "dedup_rel now d m \<Longrightarrow> now \<le> t \<Longrightarrow> dedup_rel t d m"
  unfolding dedup_rel_def by (meson order_less_le_trans)

lemma rel_skip_empty: "dedup_rel now d m \<Longrightarrow> dedup_rel now d (m((sc, []) \<mapsto> e))"
  by (simp add: dedup_rel_def)

lemma cache_run_refines:
  assumes "dedup_rel now d m" "sorted (now # map op_time ops)" "list_all scope_ok ops"
  shows "cache_run ops (Some d) = spec_run (ttl d) ops m"
  using assms
proof (induction ops arbitrary: d m now)
  case (Cons op ops)
  show ?case
  proof (cases op)
    case (Mark sc i t)
    have t: "now \<le> t" "sorted (t # map op_time ops)" and sc: "CHR '':'' \<notin> set sc"
      using Cons.prems Mark by (auto simp: scope_ok_def)
    show ?thesis
    proof (cases "i = []")
      case True
      have "dedup_rel t d (m((sc, []) \<mapsto> t + ttl d))" by (rule rel_skip_empty) (rule rel_mono [OF Cons.prems(1) t(1)])
      from Cons.IH [OF this t(2)] Cons.prems(3) show ?thesis
        by (simp add: Mark True MarkProcessed_def fun_upd_def)
    next
      case False
      from Cons.IH [OF mark_rel [OF sweep_rel [OF Cons.prems(1) t(1)] sc False] t(2), of "t + ttl d"] Cons.prems(3)
      show ?thesis using False by (simp add: Mark MarkProcessed_def Let_def fun_upd_def cong: if_cong)
    qed
  next
    case (Query sc i t)
    have t: "now \<le> t" "sorted (t # map op_time ops)" and sc: "CHR '':'' \<notin> set sc"
      using Cons.prems Query by (auto simp: scope_ok_def)
    show ?thesis
    proof (cases "i = []")
      case True
      from Cons.IH [OF rel_mono [OF Cons.prems(1) t(1)] t(2)] Cons.prems(3) show ?thesis
        by (simp add: Query True IsDuplicate_def)
    next
      case False
      note rel = sweep_rel [OF Cons.prems(1) t(1)]
      from Cons.IH [OF rel t(2)] Cons.prems(3) query_rel [OF rel sc False] False show ?thesis
        by (simp add: Query IsDuplicate_def Let_def)
    qed
  qed
qed simp

section \<open>Properties\<close>



text \<open>
  C29: retries are bounded: whatever handlers and broker answer, a message is republished at most as often
  as its remaining retries allow; a message whose handler keeps failing is tried once more than it has
  retries left and then dead-lettered.
\<close>

theorem retries_bounded:
  assumes "getRetryCount (msg_headers msg) \<le> mx"
  shows "length (filter is_retry (journey q mx cf fr os msg)) \<le> nat (mx - getRetryCount (msg_headers msg)) \<and>
    length (journey q mx cf fr (replicate (nat (mx - getRetryCount (msg_headers msg)) + 1) (Failed, Published)) msg) =
      nat (mx - getRetryCount (msg_headers msg)) + 1 \<and>
    last (journey q mx cf fr (replicate (nat (mx - getRetryCount (msg_headers msg)) + 1) (Failed, Published)) msg) = [Nack False]"
  using journey_retries [of q mx cf fr os msg] journey_all_fail [OF assms, of q cf fr] by (simp add: Let_def)

theorem retries_bounded_witness:
  "last (journey QueueOutgoingMessages 3 True ''id'' (replicate 4 (Failed, Published)) \<lparr>msg_headers = None, msg_body = ''job''\<rparr>)
     = [Nack False]"
  using retries_bounded [of "\<lparr>msg_headers = None, msg_body = ''job''\<rparr>" 3 QueueOutgoingMessages True "''id''" "[]"]
  by (simp add: getRetryCount_def)

text \<open>
  retries come home: for every queue and delay the route of a retry is a declared queue bound under its
  own name, waits at least the delay (a tier's queue-level time, the smallest that suffices, or the message's own expiration in the long
  queue), and then returns to the queue it came from; a rejected message of the queue goes to its
  dead-letter queue.
\<close>

theorem retries_come_home:
  assumes "(name, key, dlq) \<in> set main_queues" "retryRoute name delay = (retryQueue, perMessage)"
  shows "QueueBind retryQueue retryQueue ExchangeName \<in> set topology \<and> QueueBind name key ExchangeName \<in> set topology \<and>
    (if perMessage then QueueDeclare retryQueue (Some (ExchangeName, key)) None \<in> set topology \<and> (\<forall>(d, s) \<in> set RetryTiers. d < delay)
     else \<exists>d s. (d, s) \<in> set RetryTiers \<and> delay \<le> d \<and> (\<forall>(d', s') \<in> set RetryTiers. delay \<le> d' \<longrightarrow> d \<le> d') \<and>
       QueueDeclare retryQueue (Some (ExchangeName, key)) (Some (d div 1000000)) \<in> set topology) \<and>
    QueueDeclare name (Some (ExchangeDLX, dlq)) None \<in> set topology \<and> QueueBind dlq dlq ExchangeDLX \<in> set topology"
proof -
  have own: "d \<in> set topology" if "d \<in> set (queue_decls (name, key, dlq))" for d
    using queue_decls_topology [OF assms(1) that] .
  have base: "QueueBind name key ExchangeName \<in> set topology" "QueueDeclare name (Some (ExchangeDLX, dlq)) None \<in> set topology"
    "QueueBind dlq dlq ExchangeDLX \<in> set topology"
    by (rule own; simp add: queue_decls_def)+
  show ?thesis
  proof (cases rule: retryRoute_cases [of delay name])
    case (tier d s)
    note td = tier_decls_topology [OF assms(1) tier(1)]
    have "QueueBind retryQueue retryQueue ExchangeName \<in> set topology"
      "QueueDeclare retryQueue (Some (ExchangeName, key)) (Some (d div 1000000)) \<in> set topology"
      by (rule td; use tier(4) assms(2) in \<open>simp add: tier_decls_def Let_def\<close>)+
    with tier base assms(2) show ?thesis by auto
  next
    case long
    have "QueueBind retryQueue retryQueue ExchangeName \<in> set topology"
      "QueueDeclare retryQueue (Some (ExchangeName, key)) None \<in> set topology"
      by (rule own; use long(2) assms(2) in \<open>simp add: queue_decls_def\<close>)+
    with long base assms(2) show ?thesis by auto
  qed
qed

theorem retries_come_home_witness:
  "QueueBind (QueueOutgoingMessages @ ''.retry.5s'') (QueueOutgoingMessages @ ''.retry.5s'') ExchangeName \<in> set topology"
proof -
  have "retryRoute QueueOutgoingMessages (3 * ns_per_second) = (QueueOutgoingMessages @ ''.retry.5s'', False)"
    by (simp add: retryRoute_def RetryTiers_def retryTierQueueName_def)
  from retries_come_home [OF _ this, of RoutingKeyOutgoingMsg DLQOutgoingMessages] show ?thesis
    by (simp add: main_queues_def)
qed

text \<open>
  C8: the duplicate cache is exact: on any sequence of marks and queries at non-decreasing times its answers
  are those of a memory that never evicts, so eviction loses no live entry and no expired entry counts.
\<close>

theorem dedup_refines_memory:
  assumes "sorted (now # map op_time ops)" "list_all scope_ok ops"
  shows "cache_run ops (Some (NewDedupCache life now)) = spec_run life ops Map.empty"
proof -
  have "dedup_rel now (NewDedupCache life now) Map.empty" by (simp add: dedup_rel_def NewDedupCache_def)
  from cache_run_refines [OF this assms] show ?thesis by (simp add: NewDedupCache_def)
qed

theorem dedup_refines_memory_witness:
  "cache_run [Mark ''q'' ''m1'' 1, Query ''q'' ''m1'' 5, Query ''q'' ''m1'' 12] (Some (NewDedupCache 10 0)) = [True, False]"
  using dedup_refines_memory [of 0 "[Mark ''q'' ''m1'' 1, Query ''q'' ''m1'' 5, Query ''q'' ''m1'' 12]" 10]
  by (simp add: scope_ok_def)

text \<open>
  a failed restart of the consumers is fatal: after a reconnect whose consumers do not all start, the next
  successful reconnect closes the stop channels of the old worker pool a second time, which panics.
\<close>

theorem second_restart_panics:
  assumes "workerPool mq = Some ((q, False) # gs)" "\<forall>(q', stopped) \<in> set gs. \<not> stopped" "\<not> mq_closing mq" "handlers mq \<noteq> []"
    and "\<not> list_all (\<lambda>(q, w). ok1 q) (handlers mq)"
  shows "reconnect (Reconnected ok1 # Reconnected ok2 # es) mq = Panic"
proof -
  have "pool_Shutdown gs = Done (map (\<lambda>(q, b). (q, True)) gs)"
    using assms(2) by (induction gs) auto
  then have "restartConsumers ok1 (mq\<lparr>mq_healthy := True\<rparr>) =
      Failure (mq\<lparr>mq_healthy := True, workerPool := Some ((q, True) # map (\<lambda>(q, b). (q, True)) gs)\<rparr>)"
    using assms by (simp add: restartConsumers_def startConsumers_def)
  then show ?thesis using assms(3,4) by (simp add: restartConsumers_def)
qed

theorem second_restart_panics_witness:
  "reconnect [Reconnected (\<lambda>q. False), Reconnected (\<lambda>q. True)]
     \<lparr>mq_healthy = False, mq_closing = False, workerPool = Some [(QueueOutgoingMessages, False)],
      handlers = [(QueueOutgoingMessages, 1)]\<rparr> = Panic"
  by (rule second_restart_panics) auto

text \<open>
  setting up a connection leaks nothing: on failure everything that was opened has been closed again, on
  success the connection and both channels stay open; and a refused declaration stops the set-up.
\<close>

theorem connect_leaks_nothing:
  "(case connect confirms a of (ok, opened, released) \<Rightarrow>
     if ok then released = [] \<and> opened = [Conn, ConsumeCh, PublishCh] else released = rev opened) \<and>
   (setupTopology declared = None \<longleftrightarrow> (\<forall>d \<in> set topology. declared d))"
proof -
  have "declare_all declared ds = None \<longleftrightarrow> (\<forall>d \<in> set ds. declared d)" for ds by (induction ds) auto
  then show ?thesis by (simp add: connect_def setupTopology_def)
qed

theorem connect_leaks_nothing_witness:
  "setupTopology (\<lambda>d. True) = None"
  using connect_leaks_nothing [of True _ "\<lambda>d. True"] by simp

end
