(* ===== verification/Idempotency.thy ===== *)
theory Idempotency
  imports Go_Base
begin

text \<open>
  The idempotency middleware (\<open>internal/middleware/idempotency.go\<close>): requests with an
  \<open>Idempotency-Key\<close> are recorded in a table keyed by account and key, and a request that finds a
  record is replayed, rejected or takes over. Each SQL statement of the middleware is one atomic
  event on the table, so requests interleave between their statements: \<open>Arrive\<close> is the insert,
  \<open>Resume\<close> the lookup and decision, \<open>Delete\<close> the removal before a take-over, \<open>Finish\<close> the end of the
  handler with its update or removal, \<open>Sweep\<close> the background clean-up, \<open>Crash\<close> the loss of a running
  request. The digest is a parameter.
\<close>

section \<open>Definitions\<close>

subsection \<open>Keys and hashes\<close>

definition is_blank :: "char \<Rightarrow> bool" where
  "is_blank c \<longleftrightarrow> c = CHR '' '' \<or> c = CHR 0x09"

definition trimHeader :: "string \<Rightarrow> string" where
  "trimHeader s = trim_by is_blank s"

definition hash_input :: "string \<Rightarrow> string \<Rightarrow> string \<Rightarrow> string" where
  "hash_input method path body = method @ CHR 0x0A # path @ CHR 0x0A # body"

definition requestHash :: "(string \<Rightarrow> string) \<Rightarrow> string \<Rightarrow> string \<Rightarrow> string \<Rightarrow> string" where
  "requestHash sha256_hex method path body = sha256_hex (hash_input method path body)"

text \<open>The checks before the table is touched: which requests are deduplicated at all.\<close>

definition admission :: "string \<Rightarrow> string \<Rightarrow> string option \<Rightarrow> (string \<times> string) option" where
  \<comment> \<open>header, method, account; \<open>None\<close>: normal processing\<close>
  "admission header method phone =
     (let key = trimHeader header in
      if key = [] \<or> method = ''GET'' then None
      else case phone of None \<Rightarrow> None | Some p \<Rightarrow> if p = [] then None else Some (p, key))"

subsection \<open>Durations\<close>

record idem_config =
  idem_ttl :: int
  pendingTimeout :: int

definition NewIdempotencyMiddleware :: "int \<Rightarrow> int \<Rightarrow> idem_config" where
  "NewIdempotencyMiddleware ttl_s pending_s =
     (let ttl = wrap64 (ttl_s * ns_per_second); pending = wrap64 (pending_s * ns_per_second)
      in \<lparr>idem_ttl = (if ttl \<le> 0 then 24 * 3600 * ns_per_second else ttl),
          pendingTimeout = (if pending \<le> 0 then 30 * ns_per_second else pending)\<rparr>)"

definition sweep_interval :: "idem_config \<Rightarrow> int" where
  "sweep_interval m = max (min (idem_ttl m) (3600 * ns_per_second)) (60 * ns_per_second)"

subsection \<open>The table and the requests\<close>

datatype row_status = Pending | Completed int string

record idempotencyRecord =
  rec_hash :: string
  rec_status :: row_status
  createdAt :: int

datatype reply = Conflict409 | Unprocessable422 | Replay int string | Ran

datatype phase =
    Lost                \<comment> \<open>the insert found a row; the lookup is next\<close>
  | TakingOver          \<comment> \<open>decided to remove the row and run\<close>
  | Running bool        \<comment> \<open>in the handler; whether the outcome will be recorded\<close>
  | Answered reply

record request =
  rq_at :: "string \<times> string"   \<comment> \<open>account and key\<close>
  rq_hash :: string
  rq_phase :: phase

record idem =
  rows :: "string \<times> string \<rightharpoonup> idempotencyRecord"
  requests :: "nat \<rightharpoonup> request"
  executed :: "(nat \<times> string \<times> string) list"    \<comment> \<open>handler runs started, newest first\<close>

definition set_phase :: "nat \<Rightarrow> phase \<Rightarrow> idem \<Rightarrow> idem" where
  "set_phase i ph st = st\<lparr>requests := (requests st)(i := map_option (\<lambda>r. r\<lparr>rq_phase := ph\<rparr>) (requests st i))\<rparr>"

definition run_handler :: "nat \<Rightarrow> bool \<Rightarrow> string \<times> string \<Rightarrow> idem \<Rightarrow> idem" where
  "run_handler i recorded pk st = (set_phase i (Running recorded) st)\<lparr>executed := (i, pk) # executed st\<rparr>"

text \<open>\<open>tryInsertPending\<close> and what follows it.\<close>

definition arrive :: "nat \<Rightarrow> string \<times> string \<Rightarrow> string \<Rightarrow> int \<Rightarrow> idem \<Rightarrow> idem" where
  "arrive i pk h now st =
     (if requests st i \<noteq> None then st
      else
        let st1 = st\<lparr>requests := (requests st)(i \<mapsto> \<lparr>rq_at = pk, rq_hash = h, rq_phase = Lost\<rparr>)\<rparr> in
        case rows st pk of
          None \<Rightarrow> run_handler i True pk
            (st1\<lparr>rows := (rows st)(pk \<mapsto> \<lparr>rec_hash = h, rec_status = Pending, createdAt = now\<rparr>)\<rparr>)
        | Some r \<Rightarrow> st1)"

text \<open>\<open>replayOrReject\<close> up to its delete.\<close>

definition decide :: "idem_config \<Rightarrow> idempotencyRecord \<Rightarrow> string \<Rightarrow> int \<Rightarrow> phase" where
  "decide m r h now =
     (if now - createdAt r > idem_ttl m then TakingOver
      else if rec_hash r \<noteq> h then Answered Unprocessable422
      else case rec_status r of
        Pending \<Rightarrow> if now - createdAt r > pendingTimeout m then TakingOver else Answered Conflict409
      | Completed s b \<Rightarrow> Answered (Replay s b))"

definition resume :: "idem_config \<Rightarrow> nat \<Rightarrow> int \<Rightarrow> idem \<Rightarrow> idem" where
  "resume m i now st =
     (case requests st i of
        None \<Rightarrow> st
      | Some q \<Rightarrow>
          if rq_phase q \<noteq> Lost then st
          else case rows st (rq_at q) of
            None \<Rightarrow> run_handler i False (rq_at q) st
          | Some r \<Rightarrow> set_phase i (decide m r (rq_hash q) now) st)"

definition delete_and_run :: "nat \<Rightarrow> idem \<Rightarrow> idem" where
  "delete_and_run i st =
     (case requests st i of
        None \<Rightarrow> st
      | Some q \<Rightarrow>
          if rq_phase q \<noteq> TakingOver then st
          else run_handler i False (rq_at q) (st\<lparr>rows := (rows st)(rq_at q := None)\<rparr>))"

text \<open>
  The handler's end: \<open>runAndRecord\<close> for a recorded run (\<open>None\<close> is an error), nothing for the others.
\<close>

definition record_outcome :: "string \<times> string \<Rightarrow> (int \<times> string) option \<Rightarrow> (string \<times> string \<rightharpoonup> idempotencyRecord) \<Rightarrow>
    (string \<times> string \<rightharpoonup> idempotencyRecord)" where
  "record_outcome pk res t =
     (case res of
        Some (status, body) \<Rightarrow>
          if 200 \<le> status \<and> status < 300
          then t(pk := map_option (\<lambda>r. r\<lparr>rec_status := Completed status body\<rparr>) (t pk))
          else t(pk := None)
      | None \<Rightarrow> t(pk := None))"

definition finish :: "nat \<Rightarrow> (int \<times> string) option \<Rightarrow> idem \<Rightarrow> idem" where
  "finish i res st =
     (case requests st i of
        None \<Rightarrow> st
      | Some q \<Rightarrow>
          (case rq_phase q of
             Running True \<Rightarrow> (set_phase i (Answered Ran) st)\<lparr>rows := record_outcome (rq_at q) res (rows st)\<rparr>
           | Running False \<Rightarrow> set_phase i (Answered Ran) st
           | _ \<Rightarrow> st))"

definition sweep :: "idem_config \<Rightarrow> int \<Rightarrow> idem \<Rightarrow> idem" where
  "sweep m now st = st\<lparr>rows := (\<lambda>pk. case rows st pk of
     None \<Rightarrow> None | Some r \<Rightarrow> if createdAt r < now - idem_ttl m then None else Some r)\<rparr>"

definition crash :: "nat \<Rightarrow> idem \<Rightarrow> idem" where
  "crash i st = st\<lparr>requests := (requests st)(i := None)\<rparr>"

datatype idem_event =
    Arrive nat "string \<times> string" string int
  | Resume nat int
  | Delete nat
  | Finish nat "(int \<times> string) option"
  | Sweep int
  | Crash nat

fun idem_step :: "idem_config \<Rightarrow> idem_event \<Rightarrow> idem \<Rightarrow> idem" where
  "idem_step m (Arrive i pk h now) st = arrive i pk h now st"
| "idem_step m (Resume i now) st = resume m i now st"
| "idem_step m (Delete i) st = delete_and_run i st"
| "idem_step m (Finish i res) st = finish i res st"
| "idem_step m (Sweep now) st = sweep m now st"
| "idem_step m (Crash i) st = crash i st"

definition idem_run :: "idem_config \<Rightarrow> idem_event list \<Rightarrow> idem \<Rightarrow> idem" where
  "idem_run m es st = fold (idem_step m) es st"

definition no_requests :: idem where
  "no_requests = \<lparr>rows = Map.empty, requests = Map.empty, executed = []\<rparr>"

section \<open>Lemmas\<close>

lemma hash_input_inj:
  assumes "CHR 0x0A \<notin> set m" "CHR 0x0A \<notin> set m'" "CHR 0x0A \<notin> set p" "CHR 0x0A \<notin> set p'"
    and "hash_input m p b = hash_input m' p' b'"
  shows "m = m' \<and> p = p' \<and> b = b'"
proof -
  have tw: "takeWhile (\<lambda>c. c \<noteq> CHR 0x0A) (s @ CHR 0x0A # r) = s" "dropWhile (\<lambda>c. c \<noteq> CHR 0x0A) (s @ CHR 0x0A # r) = CHR 0x0A # r"
    if "CHR 0x0A \<notin> set s" for s r :: string
    using that by (induction s) auto
  have eq: "m @ CHR 0x0A # (p @ CHR 0x0A # b) = m' @ CHR 0x0A # (p' @ CHR 0x0A # b')"
    using assms(5) by (simp add: hash_input_def)
  have m: "m = m'" using tw(1) [OF assms(1)] tw(1) [OF assms(2)] eq by metis
  with eq have "p @ CHR 0x0A # b = p' @ CHR 0x0A # b'" by simp
  moreover from this have "p = p'" using tw(1) [OF assms(3)] tw(1) [OF assms(4)] by metis
  ultimately show ?thesis using m by simp
qed

subsection \<open>A completed record protects its key\<close>

text \<open>
  The state in which a key is safe: it has a row, at most one request for it (its owner) is in the
  handler, and none is about to remove the row. The requests answered before are \<open>old\<close>; the others get
  the verdict of the row.
\<close>

definition verdict :: "idempotencyRecord \<Rightarrow> string \<Rightarrow> reply" where
  "verdict r h = (if rec_hash r \<noteq> h then Unprocessable422
     else case rec_status r of Pending \<Rightarrow> Conflict409 | Completed s b \<Rightarrow> Replay s b)"

definition phase_ok :: "nat option \<Rightarrow> nat set \<Rightarrow> idempotencyRecord \<Rightarrow> nat \<Rightarrow> string \<Rightarrow> phase \<Rightarrow> bool" where
  "phase_ok own old r i h ph \<longleftrightarrow> ph = Lost \<or> own = Some i \<and> ph = Running True \<or>
     (\<exists>a. ph = Answered a \<and> (verdict r h = a \<or> i \<in> old))"

definition settled :: "string \<times> string \<Rightarrow> nat option \<Rightarrow> nat set \<Rightarrow> idempotencyRecord \<Rightarrow> idem \<Rightarrow> bool" where
  "settled pk own old r st \<longleftrightarrow> rows st pk = Some r \<and>
     (\<forall>i q. requests st i = Some q \<longrightarrow> rq_at q = pk \<longrightarrow> phase_ok own old r i (rq_hash q) (rq_phase q)) \<and>
     (\<forall>i. own = Some i \<longrightarrow> (\<exists>q. requests st i = Some q \<and> rq_at q = pk \<and> rq_phase q = Running True))"

lemma phase_ok_simps [simp]:
  "phase_ok own old r i h Lost" "\<not> phase_ok own old r i h TakingOver"
  "phase_ok own old r i h (Running b) \<longleftrightarrow> own = Some i \<and> b"
  by (auto simp: phase_ok_def)

lemma settledD: "settled pk own old r st \<Longrightarrow> requests st i = Some q \<Longrightarrow> rq_at q = pk \<Longrightarrow>
    phase_ok own old r i (rq_hash q) (rq_phase q)"
  unfolding settled_def by blast

lemma settled_own: "settled pk (Some i) old r st \<Longrightarrow> \<exists>q. requests st i = Some q \<and> rq_at q = pk \<and> rq_phase q = Running True"
  unfolding settled_def by blast

lemma settled_rows: "settled pk own old r st \<Longrightarrow> rows st pk = Some r"
  by (simp add: settled_def)

text \<open>Events that leave the owner alone and come in time.\<close>

definition event_ok :: "idem_config \<Rightarrow> nat option \<Rightarrow> idempotencyRecord \<Rightarrow> idem_event \<Rightarrow> bool" where
  "event_ok m own r e =
     (case e of
        Arrive i pk h t \<Rightarrow> True
      | Resume i t \<Rightarrow> t - createdAt r \<le> idem_ttl m \<and> (rec_status r = Pending \<longrightarrow> t - createdAt r \<le> pendingTimeout m)
      | Delete i \<Rightarrow> True
      | Finish i res \<Rightarrow> own \<noteq> Some i
      | Sweep t \<Rightarrow> t - createdAt r \<le> idem_ttl m
      | Crash i \<Rightarrow> own \<noteq> Some i)"

definition runs_of :: "string \<times> string \<Rightarrow> idem \<Rightarrow> nat list" where
  "runs_of pk st = map fst (filter (\<lambda>x. snd x = pk) (executed st))"

lemma set_phase_other [simp]: "rows (set_phase i ph st) = rows st" "executed (set_phase i ph st) = executed st"
  by (simp_all add: set_phase_def)

lemma run_handler_rows [simp]: "rows (run_handler i b pk st) = rows st"
  by (simp add: run_handler_def)

lemma runs_of_set_phase [simp]: "runs_of pk (set_phase i ph st) = runs_of pk st"
  by (simp add: runs_of_def)

lemma settled_set_phase:
  assumes "settled pk own old r st" "requests st i = Some q"
    and "rq_at q = pk \<Longrightarrow> phase_ok own old r i (rq_hash q) ph \<and> own \<noteq> Some i"
  shows "settled pk own old r (set_phase i ph st)"
  using assms by (auto simp: settled_def set_phase_def)

lemma settled_set_phase_at:
  assumes "settled pk own old r st" "requests st i = Some q" "rq_at q \<noteq> pk"
  shows "settled pk own old r (set_phase i ph st)"
  by (rule settled_set_phase [OF assms(1,2)]) (use assms(3) in simp)

lemma settled_run_handler:
  assumes "settled pk own old r st" "pk' \<noteq> pk" "requests st i = Some q" "rq_at q = pk'"
  shows "settled pk own old r (run_handler i b pk' st) \<and> runs_of pk (run_handler i b pk' st) = runs_of pk st"
proof -
  have "settled pk own old r (set_phase i (Running b) st)"
    by (rule settled_set_phase_at [OF assms(1,3)]) (use assms(2,4) in simp)
  then show ?thesis using assms(2) by (simp add: settled_def run_handler_def runs_of_def)
qed

lemma settled_rows_update:
  "settled pk own old r st \<Longrightarrow> t pk = rows st pk \<Longrightarrow> settled pk own old r (st\<lparr>rows := t\<rparr>)"
  by (simp add: settled_def)

lemma settled_new_request:
  assumes "settled pk own old r st" "requests st i = None"
  shows "settled pk own old r (st\<lparr>requests := (requests st)(i \<mapsto> \<lparr>rq_at = pk', rq_hash = h, rq_phase = Lost\<rparr>)\<rparr>)"
  using assms by (auto simp: settled_def)

lemma settled_arrive:
  assumes "settled pk own old r st"
  shows "settled pk own old r (arrive i pk' h now st) \<and> runs_of pk (arrive i pk' h now st) = runs_of pk st"
proof (cases "requests st i")
  case None
  let ?st = "st\<lparr>requests := (requests st)(i \<mapsto> \<lparr>rq_at = pk', rq_hash = h, rq_phase = Lost\<rparr>)\<rparr>"
  note new = settled_new_request [OF assms None, of pk' h]
  show ?thesis
  proof (cases "rows st pk'")
    case row: None
    let ?t = "(rows st)(pk' \<mapsto> \<lparr>rec_hash = h, rec_status = Pending, createdAt = now\<rparr>)"
    have ne: "pk' \<noteq> pk" using settled_rows [OF assms] row by auto
    then have "settled pk own old r (?st\<lparr>rows := ?t\<rparr>)" by (intro settled_rows_update [OF new]) simp
    from settled_run_handler [OF this ne, of i "\<lparr>rq_at = pk', rq_hash = h, rq_phase = Lost\<rparr>" True]
    show ?thesis using None row by (simp add: arrive_def runs_of_def)
  next
    case (Some r')
    with new None show ?thesis by (simp add: arrive_def runs_of_def)
  qed
qed (use assms in \<open>simp add: arrive_def\<close>)

lemma settled_resume:
  assumes "settled pk own old r st" "event_ok m own r (Resume i now)"
  shows "settled pk own old r (resume m i now st) \<and> runs_of pk (resume m i now st) = runs_of pk st"
proof (cases "\<exists>q. requests st i = Some q \<and> rq_phase q = Lost")
  case True
  then obtain q where q: "requests st i = Some q" "rq_phase q = Lost" by blast
  show ?thesis
  proof (cases "rq_at q = pk")
    case at: True
    have "phase_ok own old r i (rq_hash q) (decide m r (rq_hash q) now)"
      using assms(2) by (auto simp: decide_def phase_ok_def verdict_def event_ok_def split: row_status.splits)
    moreover have "own \<noteq> Some i" using settled_own [of pk i old r st] assms(1) q by auto
    ultimately have "settled pk own old r (set_phase i (decide m r (rq_hash q) now) st)"
      by (intro settled_set_phase [OF assms(1) q(1)]) simp
    then show ?thesis using q at settled_rows [OF assms(1)] by (simp add: resume_def)
  next
    case False
    show ?thesis
      using settled_run_handler [OF assms(1) False q(1) refl] settled_set_phase_at [OF assms(1) q(1) False] q
      by (cases "rows st (rq_at q)") (simp_all add: resume_def)
  qed
next
  case False
  with assms(1) show ?thesis by (auto simp: resume_def split: option.split)
qed

lemma settled_delete:
  assumes "settled pk own old r st"
  shows "settled pk own old r (delete_and_run i st) \<and> runs_of pk (delete_and_run i st) = runs_of pk st"
proof (cases "\<exists>q. requests st i = Some q \<and> rq_phase q = TakingOver")
  case True
  then obtain q where q: "requests st i = Some q" "rq_phase q = TakingOver" by blast
  then have ne: "rq_at q \<noteq> pk" using settledD [OF assms q(1)] by auto
  then have "settled pk own old r (st\<lparr>rows := (rows st)(rq_at q := None)\<rparr>)"
    by (intro settled_rows_update [OF assms]) simp
  from settled_run_handler [OF this ne, of i q False] q show ?thesis
    by (simp add: delete_and_run_def runs_of_def)
next
  case False
  with assms show ?thesis by (auto simp: delete_and_run_def split: option.split)
qed

lemma settled_finish:
  assumes "settled pk own old r st" "own \<noteq> Some i"
  shows "settled pk own old r (finish i res st) \<and> runs_of pk (finish i res st) = runs_of pk st"
proof (cases "\<exists>q b. requests st i = Some q \<and> rq_phase q = Running b")
  case True
  then obtain q b where q: "requests st i = Some q" "rq_phase q = Running b" by blast
  then have ne: "rq_at q \<noteq> pk" using settledD [OF assms(1) q(1)] assms(2) by auto
  have "record_outcome (rq_at q) res (rows st) pk = rows st pk"
    using ne by (auto simp: record_outcome_def split: option.splits)
  with settled_rows_update [OF settled_set_phase_at [OF assms(1) q(1) ne], of "record_outcome (rq_at q) res (rows st)" "Answered Ran"]
    settled_set_phase_at [OF assms(1) q(1) ne, of "Answered Ran"] q show ?thesis
    by (cases b) (simp_all add: finish_def runs_of_def)
next
  case False
  with assms(1) show ?thesis by (auto simp: finish_def split: option.split phase.split)
qed

lemma settled_sweep:
  assumes "settled pk own old r st" "t - createdAt r \<le> idem_ttl m"
  shows "settled pk own old r (sweep m t st) \<and> runs_of pk (sweep m t st) = runs_of pk st"
  unfolding sweep_def
  using settled_rows_update [OF assms(1)] settled_rows [OF assms(1)] assms(2) by (simp add: runs_of_def)

lemma settled_crash:
  assumes "settled pk own old r st" "own \<noteq> Some i"
  shows "settled pk own old r (crash i st) \<and> runs_of pk (crash i st) = runs_of pk st"
  using assms by (simp add: crash_def settled_def runs_of_def)

lemma settled_step:
  assumes "settled pk own old r st" "event_ok m own r e"
  shows "settled pk own old r (idem_step m e st) \<and> runs_of pk (idem_step m e st) = runs_of pk st"
  using assms settled_arrive settled_resume settled_delete settled_finish settled_sweep settled_crash
  by (cases e) (auto simp: event_ok_def)

lemma settled_run:
  "settled pk own old r st \<Longrightarrow> list_all (event_ok m own r) es \<Longrightarrow>
    settled pk own old r (idem_run m es st) \<and> runs_of pk (idem_run m es st) = runs_of pk st"
  unfolding idem_run_def
proof (induction es arbitrary: st)
  case (Cons e es)
  from settled_step [OF Cons.prems(1)] Cons.prems(2)
  have "settled pk own old r (idem_step m e st)" "runs_of pk (idem_step m e st) = runs_of pk st" by auto
  with Cons.IH [of "idem_step m e st"] Cons.prems(2) show ?case by simp
qed simp


lemma idem_run_simps [simp]: "idem_run m [] st = st" "idem_run m (e # es) st = idem_run m es (idem_step m e st)"
    "idem_run m (es @ es') st = idem_run m es' (idem_run m es st)"
  by (simp_all add: idem_run_def)

text \<open>A free key: no row and no request of its own under way.\<close>

definition free_key :: "string \<times> string \<Rightarrow> idem \<Rightarrow> bool" where
  "free_key pk st \<longleftrightarrow> rows st pk = None \<and> (\<forall>i q. requests st i = Some q \<longrightarrow> rq_at q \<noteq> pk)"

lemma arrive_free:
  assumes "free_key pk st" "requests st i = None"
  shows "settled pk (Some i) {} \<lparr>rec_hash = h, rec_status = Pending, createdAt = t\<rparr> (arrive i pk h t st)"
    and "runs_of pk (arrive i pk h t st) = i # runs_of pk st"
  using assms by (auto simp: free_key_def arrive_def settled_def run_handler_def set_phase_def runs_of_def)

lemma finish_owner:
  assumes "settled pk (Some i) old r st" "200 \<le> s" "s < 300"
  shows "settled pk None (dom (requests st)) (r\<lparr>rec_status := Completed s b\<rparr>) (finish i (Some (s, b)) st)"
    and "runs_of pk (finish i (Some (s, b)) st) = runs_of pk st"
proof -
  obtain q where q: "requests st i = Some q" "rq_at q = pk" "rq_phase q = Running True"
    using settled_own [OF assms(1)] by blast
  let ?r = "r\<lparr>rec_status := Completed s b\<rparr>"
  have fin: "finish i (Some (s, b)) st =
      (set_phase i (Answered Ran) st)\<lparr>rows := (rows st)(pk \<mapsto> ?r)\<rparr>"
    using q assms settled_rows [OF assms(1)] by (simp add: finish_def record_outcome_def)
  show "runs_of pk (finish i (Some (s, b)) st) = runs_of pk st"
    unfolding fin by (simp add: runs_of_def)
  have "phase_ok None (dom (requests st)) ?r j (rq_hash p) (rq_phase p)"
    if "requests (set_phase i (Answered Ran) st) j = Some p" "rq_at p = pk" for j p
  proof (cases "j = i")
    case True
    with that q show ?thesis by (auto simp: set_phase_def phase_ok_def)
  next
    case False
    with that have "requests st j = Some p" by (simp add: set_phase_def)
    with settledD [OF assms(1) this that(2)] False show ?thesis by (auto simp: phase_ok_def)
  qed
  then show "settled pk None (dom (requests st)) ?r (finish i (Some (s, b)) st)"
    unfolding fin settled_def by simp
qed


lemma answered_only:
  "phase_ok None old r j h ph \<Longrightarrow> (ph = Lost \<or> (\<exists>a. ph = Answered a)) \<and> (j \<notin> old \<longrightarrow> ph \<in> {Lost, Answered (verdict r h)})"
  by (auto simp: phase_ok_def)

section \<open>Properties\<close>



text \<open>
  A request that takes over a row whose pending timeout has passed runs the handler without
  recording it: \<open>replayOrReject\<close> deletes the row and calls the next handler directly, not
  \<open>runAndRecord\<close>. Even when that run answers 200, the next request with the same key and the same
  body runs the handler again instead of replaying the answer.
\<close>

theorem takeover_is_not_recorded:
  assumes "rows st pk = Some \<lparr>rec_hash = h, rec_status = Pending, createdAt = t\<rparr>"
    and "requests st i = None" "requests st j = None" "i \<noteq> j" "now - t > pendingTimeout m"
    and "st' = idem_run m [Arrive i pk h now, Resume i now, Delete i, Finish i (Some (200, body)), Arrive j pk h now'] st"
  shows "runs_of pk st' = j # i # runs_of pk st \<and> map_option rq_phase (requests st' j) = Some (Running True)"
proof -
  have "decide m \<lparr>rec_hash = h, rec_status = Pending, createdAt = t\<rparr> h now = TakingOver"
    using assms(5) by (simp add: decide_def)
  with assms show ?thesis
    by (simp add: arrive_def resume_def delete_and_run_def finish_def run_handler_def set_phase_def runs_of_def)
qed

theorem takeover_is_not_recorded_witness:
  "runs_of (''p'', ''k'') (idem_run \<lparr>idem_ttl = 86400, pendingTimeout = 30\<rparr>
     [Arrive 1 (''p'', ''k'') ''h'' 31, Resume 1 31, Delete 1, Finish 1 (Some (200, ''ok'')), Arrive 2 (''p'', ''k'') ''h'' 40]
     (no_requests\<lparr>rows := [(''p'', ''k'') \<mapsto> \<lparr>rec_hash = ''h'', rec_status = Pending, createdAt = 0\<rparr>]\<rparr>)) = [2, 1]"
  using takeover_is_not_recorded [of "no_requests\<lparr>rows := [(''p'', ''k'') \<mapsto> \<lparr>rec_hash = ''h'', rec_status = Pending, createdAt = 0\<rparr>]\<rparr>"
      "(''p'', ''k'')" "''h''" 0 1 2 "\<lparr>idem_ttl = 86400, pendingTimeout = 30\<rparr>" 31 _ "''ok''" 40, OF _ _ _ _ _ refl]
  by (simp add: no_requests_def runs_of_def)

text \<open>
  The middleware's keys and hashes identify requests: the header is trimmed at both ends and a
  trimmed header is left alone, a blank header or a GET is not deduplicated, and, whatever
  the body, two requests whose methods and paths contain no line feed and whose hashes agree under a
  collision-free digest have the same method, path and body.
\<close>

theorem requestHash_identifies:
  assumes "inj sha256_hex" and "CHR 0x0A \<notin> set (mt @ mt' @ p @ p')"
    and "requestHash sha256_hex mt p b = requestHash sha256_hex mt' p' b'"
  shows "mt = mt' \<and> p = p' \<and> b = b' \<and> trimHeader (trimHeader s) = trimHeader s \<and>
    admission s ''GET'' ph = None \<and>
    (admission s mt ph = Some (a, k) \<longrightarrow> k = trimHeader s \<and> k \<noteq> [] \<and> ph = Some a)"
proof -
  have "hash_input mt p b = hash_input mt' p' b'"
    using assms(1,3) by (simp add: requestHash_def inj_eq)
  then have same: "mt = mt' \<and> p = p' \<and> b = b'" using hash_input_inj [of mt mt' p p' b b'] assms(2) by simp
  have "trimHeader (trimHeader s) = trimHeader s" by (simp add: trimHeader_def trim_by_idem)
  with same show ?thesis by (auto simp: admission_def Let_def split: option.splits if_splits)
qed

theorem requestHash_identifies_witness:
  "trimHeader (trimHeader '' k '') = trimHeader '' k '' \<and> trimHeader '' k '' = ''k'' \<and>
   admission '' k '' ''POST'' (Some ''62'') = Some (''62'', ''k'') \<and>
   admission '' k '' ''GET'' (Some ''62'') = None"
proof -
  have "CHR 0x0A \<notin> set (''POST'' @ ''POST'' @ ''/send'' @ ''/send'')" by simp
  note * = requestHash_identifies [OF inj_on_id this refl]
  have "trimHeader '' k '' = ''k'' \<and> admission '' k '' ''POST'' (Some ''62'') = Some (''62'', ''k'')" by code_simp
  with *[THEN conjunct2, THEN conjunct2, THEN conjunct2, of "'' k ''" "Some ''62''"] show ?thesis by blast
qed

end
