(* ===== verification/Chat.thy ===== *)
theory Chat
  imports Go_Base
begin

text \<open>
  What the message use cases share: domain errors and their HTTP form (\<open>domain/error\<close>,
  \<open>internal/httperror\<close>), recipient addresses (\<open>resolveChat\<close>), reply and mention contexts
  (\<open>buildMessageContext\<close>), presence states, the limits on fields and uploads, and the base64 coding
  under which media travel through the queue. \<open>types.ParseJID\<close> of the WhatsApp library is the parameter
  \<open>parse\<close>, which gives the user and server of an address.
\<close>

section \<open>Errors\<close>

datatype svc_error = ErrBadRequest | ErrNotFound | ErrInternalFailure | ErrUnauthorized | ErrForbidden
  | ErrConflict | ErrMethodNotAllowed | ErrTooManyRequests | ErrGone | ErrGatewayTimeout

text \<open>The cause of an error, in place of the text the code formats.\<close>

datatype reason =
    Too_long string nat
  | Upload_too_large int
  | Unsupported_mime string string
  | Chat_required
  | Invalid_recipient string
  | Invalid_presence string
  | Rate_limited_for int
  | Poll_too_few | Poll_too_many
  | Message_ids_required | Sender_required
  | Wrapped string

datatype go_error =
    Domain svc_error "reason option"    \<comment> \<open>\<open>NewError(svc, app)\<close>; \<open>None\<close> is a nil \<open>app\<close>\<close>
  | Plain string

definition status_of :: "svc_error \<Rightarrow> int" where
  "status_of e = (case e of
     ErrBadRequest \<Rightarrow> 400 | ErrInternalFailure \<Rightarrow> 500 | ErrNotFound \<Rightarrow> 404 | ErrUnauthorized \<Rightarrow> 401
   | ErrForbidden \<Rightarrow> 403 | ErrConflict \<Rightarrow> 409 | ErrMethodNotAllowed \<Rightarrow> 405 | ErrTooManyRequests \<Rightarrow> 429
   | ErrGone \<Rightarrow> 410 | ErrGatewayTimeout \<Rightarrow> 504)"

definition FromError :: "go_error \<Rightarrow> (int \<times> reason) option" where
  \<comment> \<open>\<open>None\<close>: calling \<open>Error()\<close> on a nil error panics\<close>
  "FromError err = (case err of
     Domain svc app \<Rightarrow> map_option (\<lambda>r. (status_of svc, r)) app
   | Plain s \<Rightarrow> Some (500, Wrapped s))"

section \<open>Limits\<close>

definition maxTextMessageLen :: nat where "maxTextMessageLen = 65536"
definition maxCaptionLen :: nat where "maxCaptionLen = 4096"
definition maxEmojiLen :: nat where "maxEmojiLen = 64"
definition maxLocationName :: nat where "maxLocationName = 256"
definition maxLocationAddress :: nat where "maxLocationAddress = 512"
definition maxPollQuestion :: nat where "maxPollQuestion = 256"
definition maxPollOptionLen :: nat where "maxPollOptionLen = 100"
definition maxPollOptions :: nat where "maxPollOptions = 12"

lemmas limits = maxTextMessageLen_def maxCaptionLen_def maxEmojiLen_def maxLocationName_def
  maxLocationAddress_def maxPollQuestion_def maxPollOptionLen_def maxPollOptions_def

text \<open>A check returns the error, or \<open>None\<close>.\<close>

definition validateLength :: "string \<Rightarrow> string \<Rightarrow> nat \<Rightarrow> go_error option" where
  "validateLength field name bound =
     (if length field > bound then Some (Domain ErrBadRequest (Some (Too_long name bound))) else None)"

definition mediaMimeAllowlists :: "string \<Rightarrow> string list option" where
  "mediaMimeAllowlists = map_of
     [(''image'', [''image/jpeg'', ''image/png'', ''image/webp'']),
      (''sticker'', [''image/webp'']),
      (''audio'', [''audio/ogg'', ''audio/mpeg'', ''audio/mp4'', ''audio/aac'', ''audio/x-aac'', ''audio/amr'',
         ''audio/3gpp'', ''audio/3gpp2'', ''audio/webm'', ''audio/x-m4a'', ''application/ogg'']),
      (''video'', [''video/mp4'', ''video/3gpp'', ''video/webm''])]"

definition validateMediaSize :: "int \<Rightarrow> int \<Rightarrow> go_error option" where
  "validateMediaSize maxUpload sz =
     (if maxUpload > 0 \<and> sz > maxUpload then Some (Domain ErrBadRequest (Some (Upload_too_large maxUpload))) else None)"

definition validateMediaMime :: "string \<Rightarrow> string \<Rightarrow> go_error option" where
  "validateMediaMime kind mime =
     (case mediaMimeAllowlists kind of
        None \<Rightarrow> None
      | Some allow \<Rightarrow>
          if mime = [] \<or> mime \<in> set allow then None
          else Some (Domain ErrBadRequest (Some (Unsupported_mime kind mime))))"

section \<open>Recipients\<close>

definition validJIDServers :: "string list" where
  "validJIDServers = [''s.whatsapp.net'', ''g.us'', ''lid'']"

definition isAllDigits :: "string \<Rightarrow> bool" where
  "isAllDigits s \<longleftrightarrow> s \<noteq> [] \<and> list_all is_digit s"

definition TrimPrefix :: "string \<Rightarrow> string \<Rightarrow> string" where
  "TrimPrefix s p = (if prefix p s then drop (length p) s else s)"

definition resolveChat :: "(string \<Rightarrow> (string \<times> string) option) \<Rightarrow> string \<Rightarrow> string \<Rightarrow> go_error + string" where
  "resolveChat parse chat msisdn =
     (let v0 = TrimSpace chat; v = (if v0 = [] then TrimSpace msisdn else v0);
          invalid = Inl (Domain ErrBadRequest (Some (Invalid_recipient v)))
      in if v = [] then Inl (Domain ErrBadRequest (Some Chat_required))
         else if CHR ''@'' \<in> set v then
           (case parse v of
              None \<Rightarrow> invalid
            | Some (user, server) \<Rightarrow>
                if \<not> isAllDigits user then invalid
                else if ToLower server \<notin> set validJIDServers then invalid
                else Inr (user @ ''@'' @ ToLower server))
         else
           (let digits = filter is_digit (TrimPrefix v ''+'')
            in if digits = [] then invalid else Inr (digits @ ''@s.whatsapp.net'')))"

record MessageContext =
  ReplyToID :: string
  ReplyToSender :: string
  ReplyToText :: string
  Mentions :: "string list"

fun resolve_mentions :: "(string \<Rightarrow> (string \<times> string) option) \<Rightarrow> string list \<Rightarrow> go_error + string list" where
  "resolve_mentions parse [] = Inr []"
| "resolve_mentions parse (m # ms) =
     (if TrimSpace m = [] then resolve_mentions parse ms
      else case resolveChat parse m [] of
        Inl e \<Rightarrow> Inl e
      | Inr jid \<Rightarrow> (case resolve_mentions parse ms of Inl e \<Rightarrow> Inl e | Inr js \<Rightarrow> Inr (jid # js)))"

definition buildMessageContext ::
  "(string \<Rightarrow> (string \<times> string) option) \<Rightarrow> string \<Rightarrow> string \<Rightarrow> string \<Rightarrow> string list \<Rightarrow> go_error + MessageContext" where
  "buildMessageContext parse replyToID replyToSender replyToText mentions =
     (let s = TrimSpace replyToSender in
      case (if s = [] then Inr [] else resolveChat parse s []) of
        Inl e \<Rightarrow> Inl e
      | Inr sender \<Rightarrow>
          (case resolve_mentions parse mentions of
             Inl e \<Rightarrow> Inl e
           | Inr ms \<Rightarrow> Inr \<lparr>ReplyToID = TrimSpace replyToID, ReplyToSender = sender,
                             ReplyToText = replyToText, Mentions = ms\<rparr>))"

definition resolvePresenceState :: "string \<Rightarrow> go_error + (string \<times> string)" where
  "resolvePresenceState s =
     (let t = ToLower (TrimSpace s) in
      if t = ''composing'' \<or> t = ''typing'' then Inr (''composing'', [])
      else if t = ''recording'' then Inr (''composing'', ''audio'')
      else if t = ''paused'' \<or> t = ''stop'' then Inr (''paused'', [])
      else Inl (Domain ErrBadRequest (Some (Invalid_presence s))))"

section \<open>Base64\<close>

text \<open>
  \<open>base64.StdEncoding\<close> on bytes: groups of three bytes as four letters with \<open>=\<close> padding. The decoder skips
  carriage returns and line feeds and ignores the unused low bits of the last letter before the padding.
\<close>

definition b64_alphabet :: string where
  "b64_alphabet = ''ABCDEFGHIJKLMNOPQRSTUVWXYZabcdefghijklmnopqrstuvwxyz0123456789+/''"

definition b64_letter :: "nat \<Rightarrow> char" where
  "b64_letter n = b64_alphabet ! n"

fun index_of :: "char \<Rightarrow> string \<Rightarrow> nat option" where
  "index_of c [] = None"
| "index_of c (x # xs) = (if x = c then Some 0 else map_option Suc (index_of c xs))"

definition b64_value :: "char \<Rightarrow> nat option" where
  "b64_value c = index_of c b64_alphabet"

fun EncodeToString :: "string \<Rightarrow> string" where
  "EncodeToString [] = []"
| "EncodeToString [x] = (let a = of_char x in [b64_letter (a div 4), b64_letter (a mod 4 * 16)] @ ''=='')"
| "EncodeToString [x, y] =
     (let a = of_char x; b = of_char y
      in [b64_letter (a div 4), b64_letter (a mod 4 * 16 + b div 16), b64_letter (b mod 16 * 4)] @ ''='')"
| "EncodeToString (x # y # z # s) =
     (let a = of_char x; b = of_char y; c = of_char z
      in [b64_letter (a div 4), b64_letter (a mod 4 * 16 + b div 16), b64_letter (b mod 16 * 4 + c div 64), b64_letter (c mod 64)]
         @ EncodeToString s)"

fun b64_quads :: "string \<Rightarrow> string option" where
  "b64_quads [] = Some []"
| "b64_quads (p # q # r # t # s) =
     (case (b64_value p, b64_value q) of
        (Some a, Some b) \<Rightarrow>
          if r = CHR ''='' then (if t = CHR ''='' \<and> s = [] then Some [char_of (a * 4 + b div 16)] else None)
          else (case b64_value r of
            None \<Rightarrow> None
          | Some c \<Rightarrow>
              if t = CHR ''='' then
                (if s = [] then Some [char_of (a * 4 + b div 16), char_of (b mod 16 * 16 + c div 4)] else None)
              else (case b64_value t of
                None \<Rightarrow> None
              | Some d \<Rightarrow> map_option (\<lambda>u. [char_of (a * 4 + b div 16), char_of (b mod 16 * 16 + c div 4),
                    char_of (c mod 4 * 64 + d)] @ u) (b64_quads s)))
      | _ \<Rightarrow> None)"
| "b64_quads _ = None"

definition DecodeString :: "string \<Rightarrow> string option" where
  "DecodeString s = b64_quads (filter (\<lambda>c. c \<noteq> CHR 0x0A \<and> c \<noteq> CHR 0x0D) s)"

section \<open>Lemmas\<close>

lemma b64_table: "list_all (\<lambda>n. b64_value (b64_letter n) = Some n \<and> b64_letter n \<noteq> CHR ''='' \<and>
    b64_letter n \<noteq> CHR 0x0A \<and> b64_letter n \<noteq> CHR 0x0D) [0..<64]"
  by code_simp

lemma b64_letter_props [simp]:
  assumes "n < 64"
  shows "b64_value (b64_letter n) = Some n" "b64_letter n \<noteq> CHR ''=''" "b64_letter n \<noteq> CHR 0x0A" "b64_letter n \<noteq> CHR 0x0D"
  using b64_table assms by (auto simp: list_all_iff)

lemma byte_less [simp]: "(of_char x :: nat) < 256"
  by (rule nat_of_char_less_256)

lemma sextet_bounds [simp]:
  fixes a b :: nat
  shows "a < 256 \<Longrightarrow> a div 4 < 64" "a mod 4 * 16 < 64" "b < 256 \<Longrightarrow> a mod 4 * 16 + b div 16 < 64"
    "a mod 16 * 4 < 64" "b < 256 \<Longrightarrow> a mod 16 * 4 + b div 64 < 64" "a mod 64 < 64"
proof -
  have "b < 256 \<Longrightarrow> b div 16 < 16" "b < 256 \<Longrightarrow> b div 64 < 4" by (simp_all add: less_mult_imp_div_less)
  moreover have "a mod 4 < 4" "a mod 16 < 16" "a mod 64 < 64" by simp_all
  ultimately show "a < 256 \<Longrightarrow> a div 4 < 64" "a mod 4 * 16 < 64" "b < 256 \<Longrightarrow> a mod 4 * 16 + b div 16 < 64"
    "a mod 16 * 4 < 64" "b < 256 \<Longrightarrow> a mod 16 * 4 + b div 64 < 64" "a mod 64 < 64"
    by (simp_all add: less_mult_imp_div_less)
qed

lemma sextet_parts [simp]:
  fixes b :: nat
  assumes "b < 256"
  shows "b div 16 div 16 = 0" "b div 16 mod 16 = b div 16" "b div 64 div 4 = 0" "b div 64 mod 4 = b div 64"
proof -
  have "b div 16 < 16" "b div 64 < 4" using assms by (simp_all add: less_mult_imp_div_less)
  then show "b div 16 div 16 = 0" "b div 16 mod 16 = b div 16" "b div 64 div 4 = 0" "b div 64 mod 4 = b div 64"
    by simp_all
qed

lemma b64_quads_encode: "b64_quads (EncodeToString s) = Some s"
  by (induction s rule: EncodeToString.induct) (simp_all add: Let_def)

lemma encode_no_newline: "list_all (\<lambda>c. c \<noteq> CHR 0x0A \<and> c \<noteq> CHR 0x0D) (EncodeToString s)"
  by (induction s rule: EncodeToString.induct) (simp_all add: Let_def)

lemma decode_encode [simp]: "DecodeString (EncodeToString s) = Some s"
proof -
  have "filter (\<lambda>c. c \<noteq> CHR 0x0A \<and> c \<noteq> CHR 0x0D) (EncodeToString s) = EncodeToString s"
    using encode_no_newline [of s] by (simp add: filter_id_conv list_all_iff)
  then show ?thesis by (simp add: DecodeString_def b64_quads_encode)
qed


subsection \<open>Canonical addresses\<close>

text \<open>Digits, an at sign and one of the three servers.\<close>

definition canonical :: "string \<Rightarrow> bool" where
  "canonical s \<longleftrightarrow> list_ex (\<lambda>sv. suffix (CHR ''@'' # sv) s \<and> isAllDigits (take (length s - length sv - 1) s)) validJIDServers"

lemma canonical_iff: "canonical s \<longleftrightarrow> (\<exists>u sv. s = u @ CHR ''@'' # sv \<and> isAllDigits u \<and> sv \<in> set validJIDServers)"
proof
  assume "canonical s"
  then obtain sv zs where "sv \<in> set validJIDServers" "s = zs @ CHR ''@'' # sv"
    "isAllDigits (take (length s - length sv - 1) s)"
    by (auto simp: canonical_def list_ex_iff suffix_def)
  then show "\<exists>u sv. s = u @ CHR ''@'' # sv \<and> isAllDigits u \<and> sv \<in> set validJIDServers"
    by (intro exI [of _ zs] exI [of _ sv]) simp
qed (auto simp: canonical_def list_ex_iff suffix_def)

lemma canonicalI: "isAllDigits u \<Longrightarrow> sv \<in> set validJIDServers \<Longrightarrow> canonical (u @ CHR ''@'' # sv)"
  unfolding canonical_iff by blast

text \<open>What is used of \<open>types.ParseJID\<close>: a digits-only user at a known server is parsed as it is written.\<close>

definition jid_parser :: "(string \<Rightarrow> (string \<times> string) option) \<Rightarrow> bool" where
  "jid_parser parse \<longleftrightarrow>
     (\<forall>u sv. isAllDigits u \<longrightarrow> sv \<in> set validJIDServers \<longrightarrow> parse (u @ CHR ''@'' # sv) = Some (u, sv))"

lemma validJIDServers_fixed:
  "sv \<in> set validJIDServers \<Longrightarrow> ToLower sv = sv \<and> sv \<noteq> [] \<and> printable (last sv)"
proof -
  have "list_all (\<lambda>sv. ToLower sv = sv \<and> sv \<noteq> [] \<and> printable (last sv)) validJIDServers" by code_simp
  then show "sv \<in> set validJIDServers \<Longrightarrow> ToLower sv = sv \<and> sv \<noteq> [] \<and> printable (last sv)"
    by (simp add: list_all_iff)
qed

lemma digit_printable: "is_digit c \<Longrightarrow> printable c"
  by (simp add: is_digit_def printable_def)

lemma resolve_canonical:
  assumes "canonical s" "jid_parser parse"
  shows "resolveChat parse s m = Inr s"
proof -
  obtain u sv where s: "s = u @ CHR ''@'' # sv" "isAllDigits u" "sv \<in> set validJIDServers"
    using assms(1) by (auto simp: canonical_iff)
  have "printable (hd s)" using s(1,2) digit_printable by (cases u) (auto simp: isAllDigits_def)
  moreover have "printable (last s)" using s(1) validJIDServers_fixed [OF s(3)] by simp
  ultimately have "TrimSpace s = s" using s(1) by (intro TrimSpace_fixed) auto
  moreover have "parse s = Some (u, sv)" using assms(2) s by (simp add: jid_parser_def)
  ultimately show ?thesis using s validJIDServers_fixed [OF s(3)] by (simp add: resolveChat_def)
qed

lemma resolveChat_Inr:
  assumes "resolveChat parse chat msisdn = Inr r"
  shows "canonical r"
proof -
  define v where "v = (if TrimSpace chat = [] then TrimSpace msisdn else TrimSpace chat)"
  show ?thesis
  proof (cases "CHR ''@'' \<in> set v")
    case True
    with assms obtain u sv where "r = u @ CHR ''@'' # ToLower sv" "isAllDigits u" "ToLower sv \<in> set validJIDServers"
      by (auto simp: resolveChat_def Let_def v_def [symmetric] split: if_splits option.splits)
    then show ?thesis by (simp add: canonicalI)
  next
    case False
    with assms have "r = filter is_digit (TrimPrefix v ''+'') @ CHR ''@'' # ''s.whatsapp.net''"
      "filter is_digit (TrimPrefix v ''+'') \<noteq> []"
      by (auto simp: resolveChat_def Let_def v_def [symmetric] split: if_splits option.splits)
    moreover have "''s.whatsapp.net'' \<in> set validJIDServers" by (simp add: validJIDServers_def)
    moreover have "list_all is_digit (filter is_digit (TrimPrefix v ''+''))" by (simp add: list_all_iff)
    ultimately show ?thesis using canonicalI by (simp add: isAllDigits_def)
  qed
qed

lemma resolve_mentions_canonical:
  "resolve_mentions parse ms = Inr js \<Longrightarrow> list_all canonical js"
  by (induction ms arbitrary: js) (auto split: if_splits sum.splits dest: resolveChat_Inr)

lemma buildMessageContext_canonical:
  assumes "buildMessageContext parse i s t ms = Inr mc"
  shows "(ReplyToSender mc = [] \<or> canonical (ReplyToSender mc)) \<and> list_all canonical (Mentions mc)"
  using assms resolveChat_Inr resolve_mentions_canonical
  by (auto simp: buildMessageContext_def Let_def split: sum.splits if_splits)

section \<open>Properties\<close>

text \<open>
  An accepted recipient is canonical: digits, an at sign and one of the three servers, whatever
  was written in \<open>chat\<close> or \<open>msisdn\<close> and whatever the address parser answers; and resolving is idempotent,
  so that an address the gateway has produced (in a job, a reply context or a mention) resolves to itself.
\<close>

theorem resolveChat_canonical:
  assumes "resolveChat parse chat msisdn = Inr r" "jid_parser parse"
  shows "canonical r \<and> resolveChat parse r other = Inr r"
  using resolveChat_Inr [OF assms(1)] resolve_canonical [OF _ assms(2)] by blast

definition split_jid :: "string \<Rightarrow> (string \<times> string) option" where
  "split_jid s = (case split_char (CHR ''@'') s of [u, sv] \<Rightarrow> Some (u, sv) | _ \<Rightarrow> None)"

lemma split_jid_parser: "jid_parser split_jid"
  unfolding jid_parser_def
proof (intro allI impI)
  fix u sv assume *: "isAllDigits u" "sv \<in> set validJIDServers"
  have "CHR ''@'' \<notin> set u" using *(1) by (auto simp: isAllDigits_def list_all_iff is_digit_def)
  moreover have "CHR ''@'' \<notin> set sv" using *(2) by (auto simp: validJIDServers_def)
  ultimately show "split_jid (u @ CHR ''@'' # sv) = Some (u, sv)"
    by (simp add: split_jid_def split_char_append split_char_none)
qed

theorem resolveChat_canonical_witness:
  "resolveChat split_jid ''62811@S.WhatsApp.net'' [] = Inr ''62811@s.whatsapp.net'' \<and>
   canonical ''62811@s.whatsapp.net'' \<and>
   resolveChat split_jid ''62811@s.whatsapp.net'' [] = Inr ''62811@s.whatsapp.net''"
proof -
  have *: "resolveChat split_jid ''62811@S.WhatsApp.net'' [] = Inr ''62811@s.whatsapp.net''" by code_simp
  from resolveChat_canonical [OF this split_jid_parser, of "[]"] * show ?thesis by blast
qed

text \<open>
  A recipient without an at sign is accepted as soon as it contains a digit: \<open>resolveChat\<close> drops every other
  byte, not only a plus sign, spaces and dashes, so a text that is no phone number is turned into one
  instead of being refused with status 400.
\<close>

theorem resolveChat_drops_letters:
  assumes "TrimSpace chat \<noteq> []" "CHR ''@'' \<notin> set (TrimSpace chat)" "list_ex is_digit (TrimSpace chat)"
  shows "resolveChat parse chat msisdn = Inr (filter is_digit (TrimSpace chat) @ ''@s.whatsapp.net'')"
proof -
  have "filter is_digit (TrimPrefix (TrimSpace chat) ''+'') = filter is_digit (TrimSpace chat)"
    by (auto simp: TrimPrefix_def prefix_def is_digit_def)
  moreover have "filter is_digit (TrimSpace chat) \<noteq> []" using assms(3) by (auto simp: list_ex_iff filter_empty_conv)
  ultimately show ?thesis using assms(1,2) by (simp add: resolveChat_def)
qed

theorem resolveChat_drops_letters_witness:
  "resolveChat split_jid ''call me at 5pm'' [] = Inr ''5@s.whatsapp.net''"
proof -
  have "TrimSpace ''call me at 5pm'' = ''call me at 5pm''" "filter is_digit ''call me at 5pm'' = ''5''" by code_simp+
  with resolveChat_drops_letters [of "''call me at 5pm''" split_jid "[]"] show ?thesis
    by (simp add: list_ex_iff is_digit_def)
qed

text \<open>
  Uploaded bytes survive the queue: decoding the base64 text of a job gives back the bytes that
  were encoded, line breaks inserted anywhere do not matter, and text whose length without line breaks
  is not a multiple of four is refused.
\<close>

theorem media_roundtrip:
  "DecodeString (EncodeToString bytes) = Some bytes \<and>
   DecodeString (filter (\<lambda>c. c \<noteq> CHR 0x0A \<and> c \<noteq> CHR 0x0D) text) = DecodeString text \<and>
   (length (filter (\<lambda>c. c \<noteq> CHR 0x0A \<and> c \<noteq> CHR 0x0D) text) mod 4 = 0 \<or> DecodeString text = None)"
proof -
  have "length s mod 4 = 0 \<or> b64_quads s = None" for s
    by (induction s rule: b64_quads.induct) (auto split: option.split)
  then show ?thesis using decode_encode [of bytes] by (simp add: DecodeString_def)
qed

end
