(* ===== verification/Spec2Isabelle.thy ===== *)
theory Spec2Isabelle
  imports Prelude Routing Dom Headings Lazy_Load Code_Blocks Diagram_Viewer Search App
    Html Api_Auth Json_Tree Schema_View Schema_Info Schema_Notation Web_Text Api_Request Try_It Json_Text Operation Spec_Groups Spec_Load Reference_Page Nav_Bar Reference_Search Api_Response Theme Reference_Element Schema_Example Go_Base Rate_Limit Queue Idempotency Chat
begin

text \<open>
  A verification library of the WhatsApp gateway: of the pages the gateway serves to its users, and of the
  parts of the gateway that decide what is sent and how often.

  \<^bold>\<open>The program.\<close> The gateway (\<open>cmd\<close>, \<open>internal\<close>, \<open>pkg\<close>, in Go) accepts HTTP requests, queues messages and
  sends them through a WhatsApp client. It serves a documentation page (\<open>docs/ui\<close>, in JavaScript), whose
  parts are:

  \<^item> the \<^emph>\<open>viewer\<close> (\<open>docs/ui/assets/app.js\<close>), which fetches a navigation tree and Markdown documents, renders
    them with anchors, a table of contents, diagrams and copy buttons, and keeps the location's hash in step;
  \<^item> the \<^emph>\<open>search palette\<close> (\<open>docs/ui/assets/search.js\<close>), which ranks an index and navigates by the hash;
  \<^item> the \<^emph>\<open>API reference\<close> (\<open>docs/ui/assets/rapidoc-min.js\<close>), the RapiDoc component the viewer shows in its API
    tab. It renders the operations of the gateway's OpenAPI document, keeps the keys of its security
    schemes, and builds and sends requests to the gateway.

  A request of the reference, with the keys the reader entered, arrives at the gateway's middleware, where
  repeated keys are recognised, is limited per account and recipient, and goes through the queue to a worker.

  \<^bold>\<open>Shared theories.\<close>

  \<^item> \<open>Prelude\<close>: lists, JavaScript strings (lists of UTF-16 code units) with the string methods the sources
    call, and DOM token lists. \<open>js_eval\<close> and \<open>class_list\<close> are its collections.
  \<^item> \<open>Dom\<close>: the browser's nodes for the viewer, with serialising and parsing as \<open>innerHTML\<close> does.
  \<^item> \<open>Html\<close>: what a template of the API reference produces, a tree of elements with event handlers.
  \<^item> \<open>Go_Base\<close>: byte strings, integers with written-out wrap-around, times, and numbers with rounding.

  \<^bold>\<open>The viewer and the search palette.\<close>

  \<^item> \<open>Routing\<close>: \<open>getBasePath\<close>, \<open>buildUrl\<close>, \<open>parseHash\<close>, \<open>buildHash\<close>; the lemmas show that routes read back.
  \<^item> \<open>Headings\<close>: \<open>generateSlug\<close>, \<open>addHeadingAnchors\<close>, \<open>buildTableOfContents\<close> and the scroll spy; slugs have a
    fixed alphabet, and an anchor leads back to its own heading.
  \<^item> \<open>Lazy_Load\<close>: \<open>ensureMermaid\<close> and \<open>ensureHljs\<close> with the handlers of their script elements as a step relation.
    Their common protocol is the locale \<open>lazy_script\<close>, interpreted on both.
  \<^item> \<open>Code_Blocks\<close>: \<open>renderMermaidDiagrams\<close>, \<open>attachDiagramControls\<close>, \<open>addCopyButtons\<close>.
  \<^item> \<open>Diagram_Viewer\<close>: \<open>ensureDiagramOverlay\<close> and \<open>openDiagramViewer\<close>, one equation of \<open>viewer_step\<close> per listener.
  \<^item> \<open>Search\<close>: \<open>search.js\<close> as a whole: ranking, excerpts, the list as HTML text, the palette's variables as the
    record \<open>palette\<close>, its listeners as \<open>palette_step\<close>. The lemmas show what is found, in which order, that no
    markup of the index or the query is written, and the invariant of the palette.
  \<^item> \<open>App\<close>: the rest of \<open>app.js\<close>. The page is the record \<open>page\<close>, its events are the equations of \<open>app_step\<close>; an
    \<open>await\<close> ends an event, so the loads of documents interleave in every order.

  \<^bold>\<open>The API reference.\<close> The source is minified; each theory names the minified functions it holds.

  \<^item> \<open>Api_Auth\<close>: applying, removing, clearing and storing keys (\<open>OR\<close>, \<open>jR\<close>, \<open>TR\<close>, \<open>PR\<close>), the OAuth requests
    and all templates of the security section. What is stored is found again; an applied key has the form its
    scheme asks for.
  \<^item> \<open>Json_Tree\<close>: JSON values and the component that shows them, against a reference printing.
  \<^item> \<open>Schema_View\<close>: the schema tree and the schema table, recursive over a schema in object notation.
    Both recursions end by the size of the schema. A hidden access is shown at no depth.
  \<^item> \<open>Schema_Info\<close>: \<open>getTypeInfo\<close> (\<open>eF\<close>), \<open>getPrintableVal\<close> (\<open>QR\<close>), parameter schemas (\<open>mF\<close>) and the normal form
    of examples (\<open>tF\<close>, \<open>rF\<close>). The nine-part text of a type is taken apart into what it was built from.
  \<^item> \<open>Schema_Notation\<close>: the conversion of a schema into object notation (\<open>uF\<close>, \<open>pF\<close>), recursive by the size of the
    schema. Every schema with well-shaped parts is converted into a notation the views can show.
  \<^item> \<open>Web_Text\<close>: \<open>JSON.stringify\<close>, \<open>JSON.parse\<close>, \<open>encodeURIComponent\<close>, the form encoding of a query string, UTF-8.
  \<^item> \<open>Api_Request\<close>: every template of the \<open>api-request\<close> component and the operations on its state.
  \<^item> \<open>Try_It\<close>: the inputs of the rendered panel, \<open>onFillRequestData\<close> and \<open>onClearRequestData\<close>, \<open>buildFetchURL\<close>,
    \<open>buildFetchHeaders\<close>, \<open>buildFetchBodyOptions\<close>, \<open>generateCURLSyntax\<close>, composed to the request that is
    sent. The lemmas show what a server reads from it.
  \<^item> \<open>Operation\<close>: an operation's body, callbacks and code samples, the keys it is given, and the tag input.

  \<^item> \<open>Json_Text\<close>: what \<open>JSON.stringify\<close> writes is read back by \<open>JSON.parse\<close>, indented or not, so that an example
    put into the editor of the request arrives at the server.
  \<^item> \<open>Spec_Groups\<close>: the part of \<open>hR\<close> that filters the paths of a document and groups its operations by tags.
    Every operation is in the group of each of its tags, in the order of the document, and in no other.
  \<^item> \<open>Spec_Load\<close>: the rest of \<open>hR\<close>: headings, components, servers and their variables, security schemes, and the
    outcomes of a load. A loaded document has a server.
  \<^item> \<open>Reference_Page\<close>: the state of the page (\<open>reference\<close>) and its templates (\<open>jF\<close>, \<open>EF\<close>, \<open>bF\<close>, \<open>UF\<close>, \<open>MF\<close>, \<open>zF\<close>), with the
    opening of operations and sections. Every operation can be focused.
  \<^item> \<open>Nav_Bar\<close> (\<open>CF\<close>, \<open>TF\<close>, \<open>PF\<close>) and \<open>Reference_Search\<close> (\<open>VF\<close>, \<open>ft\<close>): the links of the bar are the operations that match
    its filter; the classes of its sections agree with their height; what the advanced search looks through.
  \<^item> \<open>Api_Response\<close>: the \<open>api-response\<close> component. What is selected exists and is what is shown.
  \<^item> \<open>Schema_Example\<close>: the generation of examples from schemas (\<open>sF\<close>, \<open>iF\<close>, \<open>oF\<close>, \<open>aF\<close>, \<open>lF\<close>, \<open>cF\<close>, \<open>nF\<close>, \<open>dF\<close>), recursive by the
    size of the schema. What is generated for an object has only the properties that may be shown.
  \<^item> \<open>Theme\<close>: colours, themes and the variables of the style element (\<open>WF\<close>, \<open>GF\<close>, \<open>JF\<close>). No colour is missing.
  \<^item> \<open>Reference_Element\<close>: the element \<open>rapi-doc\<close>: its attributes, the page as a whole (\<open>KF\<close>), loading, navigating and
    the route in the address, as \<open>element_step\<close> over the record \<open>element\<close>. The lemmas show how the routes of the
    reference and those of the viewer (\<open>Routing\<close>) meet in one address.

  \<^bold>\<open>The gateway's core.\<close>

  \<^item> \<open>Rate_Limit\<close>: \<open>pkg/ratelimiter\<close> and \<open>internal/middleware/rate_limit.go\<close>. The Go interface \<open>Limiter\<close> is the
    locale \<open>limiter\<close>, interpreted on the memory limiter and on the token bucket; the pacer is built on it.
  \<^item> \<open>Queue\<close>: \<open>pkg/queue\<close>: retry routes, the duplicate cache with its refinement of an unbounded memory, the
    way of a delivery through a worker as a list of broker actions, and the life of the worker pools.
  \<^item> \<open>Idempotency\<close>: \<open>internal/middleware/idempotency.go\<close>: concurrent requests over the table of keys, one atomic
    event per SQL statement, with an invariant over all interleavings.
  \<^item> \<open>Chat\<close>: errors and their HTTP form, recipients, reply contexts and limits (\<open>domain/error\<close>,
    \<open>internal/httperror\<close>, \<open>internal/usecase/whatsapp\<close>).

  \<^bold>\<open>Parameters.\<close> Code outside the repository is an argument of the definitions that use it: \<open>marked.parse\<close>
  (\<open>md\<close> in \<open>App\<close>), the rounding of floating-point numbers (\<open>rnd\<close>, with its documented properties
  as hypotheses), the SHA-256 digest, the parser of recipient addresses, the resolution of relative URLs, the
  answers of servers, of Redis, of the database and of the message broker, clocks and random numbers. The
  functions of the reference that turn a schema into object notation (\<open>uF\<close>) and generate examples (\<open>dF\<close>)
  are arguments of the templates that show them; they are \<open>Schema_Notation\<close> and \<open>Schema_Example\<close>. The
  comparison of texts in the reader's language (\<open>lc\<close>), regular expressions (\<open>re\<close>, \<open>rx\<close>), the Markdown lexer and its
  slugs are arguments too.

  \<^bold>\<open>Bounds.\<close> All definitions are total and computable. Recursions that are not structural have a termination
  proof. \<open>JSON.parse\<close> has fuel, two more than twice the length of the text: each level of the grammar
  consumes a character or is one of two steps before one is consumed, and \<open>Json_Text\<close> proves that it is enough for every text
  \<open>JSON.stringify\<close> writes. The loop of the pacer runs over the list
  of its clock readings, and is shown to end under a clock that advances.

  \<^bold>\<open>Not modelled.\<close> Of the API reference: fetching a document and resolving its references, the handling
  of an answer in \<open>onTryClick\<close>, the popup of an OAuth flow, the element \<open>json-schema-viewer\<close>, the style sheets, and the
  libraries bundled into the file (Lit, Prism, marked, a parser of documents and references), which are third-party code. Of the gateway: HTTP handlers,
  the wrapper of the WhatsApp client, storage, webhooks, configuration and migrations, mostly input and
  output over third-party packages. The libraries beside the viewer (\<open>marked\<close>, \<open>mermaid\<close>, \<open>highlight.js\<close>) are
  minified third-party code. The lower case of letters above \<open>U+00FF\<close>, scrolling, focus and layout
  have no model.
\<close>

end
